(* ===== verification/Prelude.thy ===== *)
theory Prelude
  imports Complex_Main "HOL-Library.AList"
begin

text \<open>
  Shared vocabulary of the development: the errors the Python code raises, results as sums,
  ordered dictionaries as association lists (a Python \<open>dict\<close> keeps insertion order, and
  \<open>AList.update\<close> overwrites in place or appends), decimal rendering of integers, the
  event-driven machine interfaces every stateful component is an instance of, and the
  generic list lemmas the components share.
\<close>

section \<open>Errors, results, bytes\<close>

datatype py_error =
    ValueError string
  | TypeError string
  | RuntimeError string
  | OverflowError
  | ZeroDivisionError
  | IndexError
  | KeyError string
  | AssertionError
  | FileExistsError string
  | FileNotFoundError string
  | ValidationError
  | TimeoutError
  | ConnectionError
  | AnalysisError string
  | FinalMatrixError string
  | FinalCampaignAnalysisError string
  | ExploratoryAnalysisError string
  | ExperimentChildError string

type_synonym 'a result = "py_error + 'a"

type_synonym bytes = "char list"

type_synonym ('k, 'v) dict = "('k \<times> 'v) list"

named_theorems result_simps \<open>evaluation of sequenced fallible calls\<close>
named_theorems dict_simps \<open>lookup after update in an ordered dictionary\<close>
named_theorems float_exact \<open>float operations that round to their exact result\<close>

definition rbind :: "'a result \<Rightarrow> ('a \<Rightarrow> 'b result) \<Rightarrow> 'b result" where
  "rbind m f = (case m of Inl e \<Rightarrow> Inl e | Inr x \<Rightarrow> f x)"

lemma rbind_Inr [simp, result_simps]: "rbind (Inr x) f = f x"
  by (simp add: rbind_def)

lemma rbind_Inl [simp, result_simps]: "rbind (Inl e) f = Inl e"
  by (simp add: rbind_def)

lemma rbind_eq_Inr_iff [result_simps]:
  "rbind m f = Inr y \<longleftrightarrow> (\<exists>x. m = Inr x \<and> f x = Inr y)"
  by (cases m) auto

definition is_ok :: "'a result \<Rightarrow> bool" where
  "is_ok m = (case m of Inl _ \<Rightarrow> False | Inr _ \<Rightarrow> True)"

lemma is_ok_simps [simp]: "is_ok (Inr x)" "\<not> is_ok (Inl e)"
  by (simp_all add: is_ok_def)

lemma is_ok_iff: "is_ok m \<longleftrightarrow> (\<exists>x. m = Inr x)"
  by (cases m) auto

definition newline :: char where
  "newline = CHR 0x0A"

section \<open>Ordered dictionaries\<close>

abbreviation dict_get :: "('k, 'v) dict \<Rightarrow> 'k \<Rightarrow> 'v option" where
  "dict_get \<equiv> map_of"

abbreviation dict_set :: "'k \<Rightarrow> 'v \<Rightarrow> ('k, 'v) dict \<Rightarrow> ('k, 'v) dict" where
  "dict_set \<equiv> AList.update"

lemma dict_get_set [simp, dict_simps]:
  "dict_get (dict_set k v d) k' = (if k' = k then Some v else dict_get d k')"
  by (simp add: update_conv')

lemma dict_set_keys:
  "map fst (dict_set k v d) =
     (if k \<in> set (map fst d) then map fst d else map fst d @ [k])"
  by (induction d) auto

lemma dict_set_distinct [simp]:
  "distinct (map fst d) \<Longrightarrow> distinct (map fst (dict_set k v d))"
  by (auto simp: dict_set_keys)

lemma dict_set_in:
  "(k', v') \<in> set (dict_set k v d) \<Longrightarrow> (k' = k \<and> v' = v) \<or> (k', v') \<in> set d"
  by (induction d) (auto split: if_splits)

lemma dict_get_in: "dict_get d k = Some v \<Longrightarrow> (k, v) \<in> set d"
  by (rule map_of_SomeD)

lemma dict_get_NoneD: "dict_get d k = None \<Longrightarrow> k \<notin> fst ` set d"
  by (simp add: map_of_eq_None_iff)

lemma dict_values_get:
  "distinct (map fst d) \<Longrightarrow> (k, v) \<in> set d \<Longrightarrow> dict_get d k = Some v"
  by (rule map_of_is_SomeI)

section \<open>Decimal rendering of integers (Python's \<open>str\<close> on \<open>int\<close>)\<close>

definition digit_char :: "nat \<Rightarrow> char" where
  "digit_char d = char_of (48 + d)"

fun str_of_nat :: "nat \<Rightarrow> string" where
  "str_of_nat n = (if n < 10 then [digit_char n] else str_of_nat (n div 10) @ [digit_char (n mod 10)])"

declare str_of_nat.simps [simp del]

definition str_of_int :: "int \<Rightarrow> string" where
  "str_of_int i = (if i < 0 then CHR ''-'' # str_of_nat (nat (- i)) else str_of_nat (nat i))"

lemma digit_char_eq_iff [simp]:
  assumes "a < 10" "b < 10"
  shows "digit_char a = digit_char b \<longleftrightarrow> a = b"
proof -
  have "of_char (digit_char a) = (48 + a :: nat)" "of_char (digit_char b) = (48 + b :: nat)"
    using assms by (simp_all add: digit_char_def)
  then show ?thesis by (metis add_left_cancel)
qed

lemma str_of_nat_nonempty [simp]: "str_of_nat n \<noteq> []"
  by (subst str_of_nat.simps) simp

lemma str_of_nat_last: "last (str_of_nat n) = digit_char (n mod 10)"
  by (subst str_of_nat.simps) simp

lemma str_of_nat_butlast: "butlast (str_of_nat n) = (if n < 10 then [] else str_of_nat (n div 10))"
  by (subst str_of_nat.simps) simp

lemma str_of_nat_inj: "str_of_nat m = str_of_nat n \<Longrightarrow> m = n"
proof (induction m arbitrary: n rule: str_of_nat.induct)
  case (1 m)
  have low: "m mod 10 = n mod 10"
    using arg_cong [OF "1.prems", of last] by (simp add: str_of_nat_last)
  have rest: "(if m < 10 then [] else str_of_nat (m div 10)) =
      (if n < 10 then [] else str_of_nat (n div 10))"
    using arg_cong [OF "1.prems", of butlast] by (simp add: str_of_nat_butlast)
  show ?case
  proof (cases "m < 10")
    case True
    then have "n < 10" using rest by (metis str_of_nat_nonempty)
    with True low show ?thesis by simp
  next
    case False
    then have "\<not> n < 10" using rest by (metis str_of_nat_nonempty)
    with False rest have "m div 10 = n div 10" using "1.IH" by simp
    with low show ?thesis by (metis div_mult_mod_eq)
  qed
qed

lemma digit_char_code: "d < 10 \<Longrightarrow> of_char (digit_char d) = (48 + d :: nat)"
  by (simp add: digit_char_def)

lemma str_of_nat_digits: "c \<in> set (str_of_nat n) \<Longrightarrow> (48::nat) \<le> of_char c \<and> of_char c \<le> (57::nat)"
proof (induction n rule: str_of_nat.induct)
  case (1 n)
  show ?case
  proof (cases "n < 10")
    case True
    then have "c = digit_char n" using "1.prems" by (simp add: str_of_nat.simps [of n])
    then show ?thesis using True by (simp add: digit_char_code)
  next
    case False
    then have "c \<in> set (str_of_nat (n div 10)) \<or> c = digit_char (n mod 10)"
      using "1.prems" by (auto simp: str_of_nat.simps [of n])
    then show ?thesis using "1.IH" False by (auto simp: digit_char_code)
  qed
qed

lemma colon_notin_str_of_nat [simp]: "CHR '':'' \<notin> set (str_of_nat n)"
  using str_of_nat_digits [of "CHR '':''" n] by auto

lemma str_of_nat_length_pow: "n < 10 ^ Suc k \<Longrightarrow> length (str_of_nat n) \<le> Suc k"
proof (induction k arbitrary: n)
  case 0
  then show ?case by (simp add: str_of_nat.simps [of n])
next
  case (Suc k)
  have "n div 10 < 10 ^ Suc k"
    using Suc.prems by (simp add: less_mult_imp_div_less mult.commute)
  then show ?case
    using Suc.IH [of "n div 10"] by (simp add: str_of_nat.simps [of n])
qed

lemma str_of_nat_length_ge: "10 ^ k \<le> n \<Longrightarrow> Suc k \<le> length (str_of_nat n)"
proof (induction k arbitrary: n)
  case 0
  then show ?case by (simp add: Suc_leI)
next
  case (Suc k)
  then have "10 ^ k \<le> n div 10"
    by (simp add: less_eq_div_iff_mult_less_eq mult.commute)
  moreover have "\<not> n < 10"
  proof -
    have "(10::nat) \<le> 10 ^ Suc k" by simp
    with Suc.prems show ?thesis by linarith
  qed
  ultimately show ?case
    using Suc.IH [of "n div 10"] by (simp add: str_of_nat.simps [of n])
qed

lemma str_of_int_nonneg: "0 \<le> i \<Longrightarrow> str_of_int i = str_of_nat (nat i)"
  by (simp add: str_of_int_def)

lemma str_of_int_inj: "0 \<le> i \<Longrightarrow> 0 \<le> j \<Longrightarrow> str_of_int i = str_of_int j \<longleftrightarrow> i = j"
  by (auto simp: str_of_int_nonneg dest: str_of_nat_inj)

section \<open>Colon-separated identifiers\<close>

lemma append_sep_inject:
  assumes "c \<notin> set a" "c \<notin> set a'"
  shows "a @ c # b = a' @ c # b' \<longleftrightarrow> a = a' \<and> b = b'"
proof
  assume eq: "a @ c # b = a' @ c # b'"
  have "takeWhile (\<lambda>x. x \<noteq> c) (a @ c # b) = a" "takeWhile (\<lambda>x. x \<noteq> c) (a' @ c # b') = a'"
    using assms by (auto intro!: takeWhile_append2 [THEN trans])
  with eq have "a = a'" by simp
  with eq show "a = a' \<and> b = b'" by simp
qed simp

section \<open>Interfaces of event-driven components\<close>

text \<open>
  A component is a state and a step per event. \<open>machine\<close> is the contract that every
  admissible event keeps the invariant; \<open>accounting\<close> adds a quantity that every event moves
  by an amount read off the event alone, which is how the code's counters are audited.
\<close>

locale machine =
  fixes step :: "'s \<Rightarrow> 'e \<Rightarrow> 's"
    and inv :: "'s \<Rightarrow> bool"
    and ok :: "'e \<Rightarrow> bool"
  assumes step_inv: "inv s \<Longrightarrow> ok e \<Longrightarrow> inv (step s e)"
begin

lemma run_inv: "inv s \<Longrightarrow> list_all ok es \<Longrightarrow> inv (foldl step s es)"
  by (induction es arbitrary: s) (auto simp: step_inv)

end

locale accounting = machine step inv ok
  for step :: "'s \<Rightarrow> 'e \<Rightarrow> 's" and inv :: "'s \<Rightarrow> bool" and ok :: "'e \<Rightarrow> bool" +
  fixes total :: "'s \<Rightarrow> int"
    and amount :: "'e \<Rightarrow> int"
  assumes step_total: "inv s \<Longrightarrow> ok e \<Longrightarrow> total (step s e) = total s + amount e"
begin

lemma run_total:
  "inv s \<Longrightarrow> list_all ok es \<Longrightarrow> total (foldl step s es) = total s + sum_list (map amount es)"
  by (induction es arbitrary: s) (auto simp: step_inv step_total)

end

section \<open>List lemmas\<close>

lemma sum_list_map_add_int: "(\<Sum>x\<leftarrow>xs. f x + g x) = (\<Sum>x\<leftarrow>xs. f x) + (\<Sum>x\<leftarrow>xs. (g x :: int))"
  by (rule sum_list_addf)

lemma length_filter_as_sum: "int (length (filter P xs)) = (\<Sum>x\<leftarrow>xs. if P x then 1 else 0)"
  by (induction xs) auto

lemma takeWhile_append_notin: "c \<notin> set xs \<Longrightarrow> takeWhile (\<lambda>x. x \<noteq> c) (xs @ c # ys) = xs"
  by (induction xs) auto

lemma dropWhile_append_notin: "c \<notin> set xs \<Longrightarrow> dropWhile (\<lambda>x. x \<noteq> c) (xs @ c # ys) = c # ys"
  by (induction xs) auto

text \<open>Equations to evaluate a predicate on an optional value.\<close>

lemma pred_option_code [code]: "pred_option P None = True" "pred_option P (Some x) = P x"
  by simp_all

end
