(* ===== verification/Framing.thy ===== *)
theory Framing
  imports Prelude "HOL-Library.Sublist"
begin

text \<open>
  Line framing of both TCP servers (\<^verbatim>\<open>src/gateway/server.py\<close>, \<open>_read_client\<close>, and
  \<^verbatim>\<open>src/collector/server.py\<close>, \<open>_accept_client\<close>). The asyncio stream reader is modelled
  with its buffer, end-of-file flag and pending exception; \<open>readline\<close> follows the documented
  behaviour of \<open>StreamReader.readline\<close> with a size limit. A session interleaves arriving
  data with the handler's reads in any order. The specification splits the byte stream at
  newlines; the theorem shows that what the handler sees depends on the bytes only, not on how
  TCP cut them into chunks nor on when the handler was scheduled.
\<close>

section \<open>Stream reader\<close>

record reader =
  buffer :: bytes
  eof :: bool
  lost :: bool

definition new_reader :: reader where
  "new_reader = \<lparr>buffer = [], eof = False, lost = False\<rparr>"

text \<open>Position of the first newline, as \<open>bytearray.find\<close>.\<close>

fun find_newline :: "bytes \<Rightarrow> nat option" where
  "find_newline [] = None"
| "find_newline (c # cs) = (if c = newline then Some 0 else map_option Suc (find_newline cs))"

text \<open>\<open>StreamReader.readline\<close> under \<open>limit\<close>: \<open>None\<close> means the call is still waiting for data.
  A line longer than the limit raises \<open>ValueError\<close> and is dropped from the buffer.\<close>

definition readline :: "nat \<Rightarrow> reader \<Rightarrow> (bytes result \<times> reader) option" where
  "readline limit r =
     (if lost r then Some (Inl ConnectionError, r)
      else case find_newline (buffer r) of
        Some i \<Rightarrow>
          (if i > limit then Some (Inl (ValueError ''limit''), r\<lparr>buffer := drop (Suc i) (buffer r)\<rparr>)
           else Some (Inr (take (Suc i) (buffer r)), r\<lparr>buffer := drop (Suc i) (buffer r)\<rparr>))
      | None \<Rightarrow>
          (if length (buffer r) > limit then Some (Inl (ValueError ''limit''), r\<lparr>buffer := []\<rparr>)
           else if eof r then Some (Inr (buffer r), r\<lparr>buffer := []\<rparr>)
           else None))"

section \<open>What the handler makes of a read\<close>

datatype frame =
    FLine bytes
  | FOverlong
  | FTruncated
  | FClosed
  | FIdle
  | FLost

fun terminal :: "frame \<Rightarrow> bool" where
  "terminal (FLine _) = False"
| "terminal _ = True"

definition ends_with_newline :: "bytes \<Rightarrow> bool" where
  "ends_with_newline line \<longleftrightarrow> line \<noteq> [] \<and> last line = newline"

text \<open>The checks after a read that returned: an empty result is end of file, a result without
  newline is cut off, and a payload above the maximum is refused.\<close>

definition classify_line :: "nat \<Rightarrow> bytes \<Rightarrow> frame" where
  "classify_line max_message_bytes line =
     (if line = [] then FClosed
      else if \<not> ends_with_newline line then FTruncated
      else if length line - 1 > max_message_bytes then FOverlong
      else FLine line)"

definition frame_step :: "nat \<Rightarrow> reader \<Rightarrow> (frame \<times> reader) option" where
  "frame_step max_message_bytes r =
     (case readline (max_message_bytes + 1) r of
        None \<Rightarrow> None
      | Some (Inl (ValueError _), r') \<Rightarrow> Some (FOverlong, r')
      | Some (Inl _, r') \<Rightarrow> Some (FLost, r')
      | Some (Inr line, r') \<Rightarrow> Some (classify_line max_message_bytes line, r'))"

section \<open>Sessions\<close>

text \<open>What can happen on a connection: data arrives, the peer closes, the connection breaks, the
  idle timer of a waiting read fires, or the handler's pending read is resumed.\<close>

datatype net_event = Data bytes | Eof | Lose | IdleExpired | Poll

definition feed :: "reader \<Rightarrow> net_event \<Rightarrow> reader" where
  "feed r e = (case e of
     Data bs \<Rightarrow> r\<lparr>buffer := buffer r @ bs\<rparr>
   | Eof \<Rightarrow> r\<lparr>eof := True\<rparr>
   | Lose \<Rightarrow> r\<lparr>lost := True\<rparr>
   | _ \<Rightarrow> r)"

fun session :: "nat \<Rightarrow> reader \<Rightarrow> net_event list \<Rightarrow> frame list \<times> reader option" where
  "session m r [] = ([], Some r)"
| "session m r (Poll # es) =
     (case frame_step m r of
        None \<Rightarrow> session m r es
      | Some (f, r') \<Rightarrow>
          if terminal f then ([f], None)
          else let (fs, r2) = session m r' es in (f # fs, r2))"
| "session m r (IdleExpired # es) =
     (if frame_step m r = None then ([FIdle], None) else session m r es)"
| "session m r (e # es) = session m (feed r e) es"

lemma find_newline_Some:
  "find_newline bs = Some i \<Longrightarrow> i < length bs \<and> bs ! i = newline \<and> newline \<notin> set (take i bs)"
  by (induction bs arbitrary: i) (auto split: if_splits)

lemma find_newline_None: "find_newline bs = None \<longleftrightarrow> newline \<notin> set bs"
  by (induction bs) auto

lemma find_newline_append:
  "find_newline (a @ b) = (case find_newline a of Some i \<Rightarrow> Some i
     | None \<Rightarrow> map_option ((+) (length a)) (find_newline b))"
  by (induction a; cases "find_newline b") (auto split: option.splits)

lemma frame_step_line:
  assumes "frame_step m r = Some (FLine l, r')"
  shows "length (buffer r') < length (buffer r)" "eof r' = eof r" "lost r' = lost r"
  using assms find_newline_Some [of "buffer r"]
  by (auto simp: frame_step_def readline_def classify_line_def ends_with_newline_def
      split: option.splits if_splits sum.splits py_error.splits)

text \<open>The handler reads on until it has to wait or the connection ends.\<close>

function drain :: "nat \<Rightarrow> reader \<Rightarrow> frame list" where
  "drain m r =
     (case frame_step m r of
        None \<Rightarrow> []
      | Some (f, r') \<Rightarrow> if terminal f then [f] else f # drain m r')"
  by pat_completeness auto
termination
proof (relation "measure (\<lambda>(m, r). length (buffer r))")
  fix m r fr f r'
  assume "frame_step m r = Some fr" "(f, r') = fr" "\<not> terminal f"
  then show "((m, r'), (m, r)) \<in> measure (\<lambda>(m, r). length (buffer r))"
    using frame_step_line(1) by (cases f) auto
qed simp

declare drain.simps [simp del]

section \<open>Specification: the byte stream split at newlines\<close>

function spec_frames :: "nat \<Rightarrow> bool \<Rightarrow> bytes \<Rightarrow> frame list" where
  "spec_frames m at_eof bs =
     (case find_newline bs of
        Some i \<Rightarrow> if i \<le> m then FLine (take (Suc i) bs) # spec_frames m at_eof (drop (Suc i) bs) else [FOverlong]
      | None \<Rightarrow>
          if length bs > m + 1 then [FOverlong]
          else if \<not> at_eof then [] else if bs = [] then [FClosed] else [FTruncated])"
  by pat_completeness auto
termination
  by (relation "measure (\<lambda>(m, at_eof, bs). length bs)") (auto dest!: find_newline_Some)

declare spec_frames.simps [simp del]

fun data_of :: "net_event list \<Rightarrow> bytes" where
  "data_of [] = []"
| "data_of (Data bs # es) = bs @ data_of es"
| "data_of (_ # es) = data_of es"

text \<open>A connection that only carries data and then possibly closes.\<close>

fun orderly :: "bool \<Rightarrow> net_event list \<Rightarrow> bool" where
  "orderly shut [] = True"
| "orderly shut (Data _ # es) = (\<not> shut \<and> orderly shut es)"
| "orderly shut (Eof # es) = orderly True es"
| "orderly shut (Poll # es) = orderly shut es"
| "orderly shut (Lose # es) = False"
| "orderly shut (IdleExpired # es) = False"

lemma take_ends_with_newline:
  "find_newline bs = Some i \<Longrightarrow> ends_with_newline (take (Suc i) bs) \<and> length (take (Suc i) bs) = Suc i \<and> take (Suc i) bs \<noteq> []"
proof -
  assume f: "find_newline bs = Some i"
  note p = find_newline_Some [OF f]
  then have "take (Suc i) bs = take i bs @ [newline]" by (simp add: take_Suc_conv_app_nth)
  then show ?thesis using p by (simp add: ends_with_newline_def)
qed

lemma last_no_newline: "find_newline bs = None \<Longrightarrow> bs \<noteq> [] \<Longrightarrow> \<not> ends_with_newline bs"
  by (metis ends_with_newline_def find_newline_None last_in_set)

text \<open>One read against the specification, with any bytes still to come.\<close>

lemma frame_step_spec:
  assumes "frame_step m r = Some (f, r')" "\<not> lost r" "eof r \<longrightarrow> tail = []" "eof r \<longrightarrow> at_eof"
  shows "spec_frames m at_eof (buffer r @ tail) =
    (if terminal f then [f] else f # spec_frames m at_eof (buffer r' @ tail)) \<and> f \<noteq> FIdle \<and> f \<noteq> FLost"
proof (cases "find_newline (buffer r)")
  case (Some i)
  note p = find_newline_Some [OF Some] take_ends_with_newline [OF Some]
  have fa: "find_newline (buffer r @ tail) = Some i" by (simp add: find_newline_append Some)
  show ?thesis
    using assms(1,2) Some p
    by (auto simp: frame_step_def readline_def classify_line_def spec_frames.simps [of m at_eof "buffer r @ tail"] fa
        split: if_splits)
next
  case None
  show ?thesis
  proof (cases "length (buffer r) > m + 1")
    case True
    have "m < i" if "find_newline (buffer r @ tail) = Some i" for i
      using that True None by (auto simp: find_newline_append)
    then show ?thesis
      using assms(1,2) None True
      by (auto simp: frame_step_def readline_def spec_frames.simps [of m at_eof "buffer r @ tail"] split: option.splits)
  next
    case False
    then have "eof r" "f = classify_line m (buffer r)"
      using assms(1,2) None by (auto simp: frame_step_def readline_def split: if_splits)
    then show ?thesis
      using assms(3,4) None False last_no_newline [OF None]
      by (auto simp: classify_line_def spec_frames.simps [of m True])
  qed
qed

lemma frame_step_waiting:
  assumes "frame_step m r = None"
  shows "spec_frames m (eof r) (buffer r) = []" "\<not> lost r"
  using assms
  by (auto simp: frame_step_def readline_def classify_line_def spec_frames.simps [of m "eof r"]
      split: option.splits if_splits sum.splits py_error.splits)

lemma drain_spec: "\<not> lost r \<Longrightarrow> drain m r = spec_frames m (eof r) (buffer r)"
proof (induction "length (buffer r)" arbitrary: r rule: less_induct)
  case less
  show ?case
  proof (cases "frame_step m r")
    case None
    then show ?thesis using frame_step_waiting [OF None] by (simp add: drain.simps [of m r])
  next
    case (Some fr)
    obtain f r' where fr: "frame_step m r = Some (f, r')" using Some by (cases fr) auto
    note s = frame_step_spec [OF fr less.prems, of "[]" "eof r"]
    show ?thesis
    proof (cases "terminal f")
      case True
      then show ?thesis using s fr by (simp add: drain.simps [of m r])
    next
      case False
      then obtain l where "f = FLine l" by (cases f) auto
      then show ?thesis
        using s fr frame_step_line [of m r l r'] less.hyps [of r'] less.prems by (simp add: drain.simps [of m r])
    qed
  qed
qed

definition at_end :: "bool \<Rightarrow> net_event list \<Rightarrow> bool" where
  "at_end shut es \<longleftrightarrow> shut \<or> Eof \<in> set es"

definition completed :: "nat \<Rightarrow> frame list \<times> reader option \<Rightarrow> frame list" where
  "completed m p = fst p @ (case snd p of None \<Rightarrow> [] | Some r \<Rightarrow> drain m r)"

lemma orderly_closed_no_data: "orderly True es \<Longrightarrow> data_of es = []"
  by (induction es rule: data_of.induct) auto

lemma session_spec:
  "\<not> lost r \<Longrightarrow> orderly (eof r) es \<Longrightarrow>
     completed m (session m r es) = spec_frames m (at_end (eof r) es) (buffer r @ data_of es)"
proof (induction m r es rule: session.induct)
  case (1 m r)
  then show ?case by (simp add: completed_def at_end_def drain_spec)
next
  case (2 m r es)
  show ?case
  proof (cases "frame_step m r")
    case None
    then show ?thesis using 2 by (simp add: at_end_def)
  next
    case (Some fr)
    obtain f r' where fr: "frame_step m r = Some (f, r')" using Some by (cases fr) auto
    have nd: "eof r \<longrightarrow> data_of es = []" using "2.prems"(2) orderly_closed_no_data by auto
    note s = frame_step_spec [OF fr "2.prems"(1) nd, of "at_end (eof r) es"]
    show ?thesis
    proof (cases "terminal f")
      case True
      then show ?thesis using s fr by (simp add: completed_def at_end_def)
    next
      case False
      then obtain l where l: "f = FLine l" by (cases f) auto
      note st = frame_step_line [OF fr [unfolded l]]
      have "completed m (session m r' es) = spec_frames m (at_end (eof r') es) (buffer r' @ data_of es)"
        using "2.IH"(2) [OF fr refl False] "2.prems" st by simp
      then show ?thesis
        using s fr False st(2) by (cases "session m r' es") (simp add: completed_def at_end_def)
    qed
  qed
qed (auto simp: feed_def at_end_def)

lemma frame_step_line_spec:
  assumes "frame_step m r = Some (FLine l, r')"
  shows "spec_frames m at_eof (buffer r @ tail) = FLine l # spec_frames m at_eof (buffer r' @ tail)"
proof (cases "find_newline (buffer r)")
  case (Some i)
  have fa: "find_newline (buffer r @ tail) = Some i" by (simp add: find_newline_append Some)
  show ?thesis
    using assms Some find_newline_Some [OF Some] take_ends_with_newline [OF Some]
    by (auto simp: frame_step_def readline_def classify_line_def spec_frames.simps [of m at_eof "buffer r @ tail"] fa
        split: if_splits)
next
  case None
  then show ?thesis
    using assms last_no_newline [OF None]
    by (auto simp: frame_step_def readline_def classify_line_def split: if_splits)
qed

lemma session_lines_prefix:
  "prefix (filter (\<lambda>f. \<not> terminal f) (fst (session m r es))) (spec_frames m a (buffer r @ data_of es))"
proof (induction m r es rule: session.induct)
  case (2 m r es)
  show ?case
  proof (cases "frame_step m r")
    case None
    then show ?thesis using 2(1) by simp
  next
    case (Some fr)
    obtain f r' where fr: "frame_step m r = Some (f, r')" using Some by (cases fr) auto
    show ?thesis
    proof (cases f)
      case (FLine l)
      then show ?thesis
        using 2(2) [OF fr refl] fr frame_step_line_spec [OF fr [unfolded FLine]]
        by (cases "session m r' es") simp
    qed (use fr in simp_all)
  qed
qed (auto simp: feed_def)

lemma spec_frames_payload:
  assumes "newline \<notin> set p"
  shows "spec_frames m a (p @ newline # rest) =
    (if length p \<le> m then FLine (p @ [newline]) # spec_frames m a rest else [FOverlong])"
proof -
  have "find_newline (p @ newline # rest) = Some (length p)"
    using assms by (simp add: find_newline_append find_newline_None [THEN iffD2])
  then show ?thesis by (simp add: spec_frames.simps [of m a "p @ newline # rest"])
qed

definition encode_lines :: "bytes list \<Rightarrow> bytes" where
  "encode_lines ps = concat (map (\<lambda>p. p @ [newline]) ps)"

lemma spec_frames_payloads:
  "list_all (\<lambda>p. newline \<notin> set p \<and> length p \<le> m) ps \<Longrightarrow>
     spec_frames m a (encode_lines ps @ rest) = map (\<lambda>p. FLine (p @ [newline])) ps @ spec_frames m a rest"
  by (induction ps) (auto simp: encode_lines_def spec_frames_payload)

section \<open>Properties\<close>

text \<open>C9: What a connection handler sees does not depend on chunking or scheduling. For every
  interleaving of arriving chunks with the handler's reads, the frames delivered are those of
  the byte stream split at newlines: accepted lines in order, then at most one end (closed,
  truncated, overlong).\<close>

theorem framing_ignores_chunking:
  assumes "orderly False es"
  shows "completed m (session m new_reader es) = spec_frames m (Eof \<in> set es) (data_of es)"
  using session_spec [of new_reader es m] assms by (simp add: new_reader_def at_end_def)

text \<open>A peer that sends newline-free payloads of at most the maximum size has each of them
  delivered once, in order and unchanged, whatever the chunking; a payload above the maximum ends
  the connection as overlong after exactly the lines before it.\<close>

theorem framing_delivers_payloads:
  assumes "orderly False es" "list_all (\<lambda>p. newline \<notin> set p \<and> length p \<le> m) ps"
    "newline \<notin> set big" "m < length big"
  shows "(data_of es = encode_lines ps \<longrightarrow> completed m (session m new_reader es) =
      map (\<lambda>p. FLine (p @ [newline])) ps @ (if Eof \<in> set es then [FClosed] else [])) \<and>
    (data_of es = encode_lines ps @ big @ newline # rest \<longrightarrow>
      completed m (session m new_reader es) = map (\<lambda>p. FLine (p @ [newline])) ps @ [FOverlong])"
proof -
  have c: "completed m (session m new_reader es) = spec_frames m (Eof \<in> set es) (data_of es)"
    using session_spec [of new_reader es m] assms(1) by (simp add: new_reader_def at_end_def)
  show ?thesis
    using spec_frames_payloads [OF assms(2), of "Eof \<in> set es" "[]"]
      spec_frames_payloads [OF assms(2), of "Eof \<in> set es" "big @ newline # rest"]
      spec_frames_payload [OF assms(3)] assms(4)
    by (auto simp: c spec_frames.simps [of m _ "[]"])
qed

text \<open>A connection that breaks or times out never delivers a line that was not sent: whatever
  happens on it, the accepted lines are a prefix of the lines of the bytes received.\<close>

theorem broken_connection_delivers_prefix:
  "prefix (filter (\<lambda>f. \<not> terminal f) (fst (session m new_reader es))) (spec_frames m a (data_of es))"
  using session_lines_prefix [of m new_reader es a] by (simp add: new_reader_def)


theorem framing_ignores_chunking_witness:
  "completed 3 (session 3 new_reader [Data ''ab'', Poll, Data [newline, CHR ''c''], Poll, Data [newline], Eof]) =
     spec_frames 3 True (''ab'' @ [newline, CHR ''c'', newline])"
  using framing_ignores_chunking [of "[Data ''ab'', Poll, Data [newline, CHR ''c''], Poll, Data [newline], Eof]" 3]
  by simp

theorem framing_delivers_payloads_witness:
  "completed 3 (session 3 new_reader [Data ''ab'', Poll, Data [newline, CHR ''c''], Poll, Data [newline], Eof]) =
     [FLine (''ab'' @ [newline]), FLine (''c'' @ [newline]), FClosed]"
  using framing_delivers_payloads [of "[Data ''ab'', Poll, Data [newline, CHR ''c''], Poll, Data [newline], Eof]" 3
      "[''ab'', ''c'']" "''abcd''"]
  by (simp add: encode_lines_def newline_def)

end
