(* ===== verification/Py_Float.thy ===== *)
theory Py_Float
  imports Prelude "HOL-Library.Log_Nat"
begin

text \<open>
  Python's \<open>float\<close>: IEEE-754 binary64 with round-half-even, written out over exact
  rationals. \<open>rnd_double\<close> rounds a rational to 53 significant bits (and to multiples of
  2 to the -1074 below the normal range), \<open>fl\<close> adds overflow to the infinities, and the
  operations round the exact result once, as the hardware does. NaN compares false with
  everything. The sign of zero is not represented: no code modelled here observes it.
  The interface \<open>rounding\<close> collects the laws the components rely on (monotone, odd,
  idempotent, exact on integers up to 2 to the 53) and is interpreted on \<open>rnd_double\<close>.
\<close>

section \<open>Rounding to nearest, ties to even\<close>

definition round_half_even :: "rat \<Rightarrow> int" where
  "round_half_even x =
     (let n = \<lfloor>x\<rfloor>; d = x - of_int n
      in if d < 1/2 then n else if 1/2 < d then n + 1 else if even n then n else n + 1)"

lemma round_half_even_int [simp]: "round_half_even (of_int n) = n"
  by (simp add: round_half_even_def)

lemma round_half_even_bounds: "\<lfloor>x\<rfloor> \<le> round_half_even x" "round_half_even x \<le> \<lfloor>x\<rfloor> + 1"
  by (auto simp: round_half_even_def Let_def)

lemma round_half_even_mono: "x \<le> y \<Longrightarrow> round_half_even x \<le> round_half_even y"
proof -
  assume le: "x \<le> y"
  then have fl: "\<lfloor>x\<rfloor> \<le> \<lfloor>y\<rfloor>" by (rule floor_mono)
  show ?thesis
  proof (cases "\<lfloor>x\<rfloor> = \<lfloor>y\<rfloor>")
    case True
    with le show ?thesis by (auto simp: round_half_even_def Let_def)
  next
    case False
    with fl have "\<lfloor>x\<rfloor> + 1 \<le> \<lfloor>y\<rfloor>" by simp
    then show ?thesis using round_half_even_bounds [of x] round_half_even_bounds [of y] by linarith
  qed
qed

lemma round_half_even_le: "x \<le> of_int n \<Longrightarrow> round_half_even x \<le> n"
  using round_half_even_mono [of x "of_int n"] by simp

lemma round_half_even_ge: "of_int n \<le> x \<Longrightarrow> n \<le> round_half_even x"
  using round_half_even_mono [of "of_int n" x] by simp

section \<open>The binary exponent of a positive rational\<close>

definition floor_log2 :: "rat \<Rightarrow> int" where
  "floor_log2 x =
     (case quotient_of x of (p, q) \<Rightarrow>
        let k = int (floorlog 2 (nat p)) - int (floorlog 2 (nat q))
        in if 2 powi k \<le> x then k else k - 1)"

lemma floorlog2_powi:
  assumes "0 < p"
  shows "2 powi (int (floorlog 2 (nat p)) - 1) \<le> (of_int p :: rat)"
    and "(of_int p :: rat) < 2 powi int (floorlog 2 (nat p))"
proof -
  let ?a = "floorlog 2 (nat p)"
  have b: "2 ^ (?a - 1) \<le> nat p" "nat p < 2 ^ ?a"
    using floorlog_bounds [of "nat p" 2] assms by auto
  have pos: "0 < ?a"
    using b(2) assms by (cases ?a) auto
  have "(of_nat (2 ^ (?a - 1)) :: rat) \<le> of_nat (nat p)" using b(1) by (simp only: of_nat_le_iff)
  then have "2 ^ (?a - 1) \<le> (of_int p :: rat)" using assms by simp
  moreover have "2 powi (int ?a - 1) = (2::rat) ^ (?a - 1)"
    using pos by (simp add: power_int_def nat_diff_distrib)
  ultimately show "2 powi (int ?a - 1) \<le> (of_int p :: rat)" by simp
  have "(of_nat (nat p) :: rat) < of_nat (2 ^ ?a)" using b(2) by (simp only: of_nat_less_iff)
  then show "(of_int p :: rat) < 2 powi int ?a" using assms by simp
qed

lemma floor_log2_bounds:
  assumes "0 < x"
  shows "2 powi floor_log2 x \<le> x" "x < 2 powi (floor_log2 x + 1)"
proof -
  obtain p q where pq: "quotient_of x = (p, q)" by fastforce
  have q: "0 < q" using quotient_of_denom_pos [OF pq] .
  have x: "x = of_int p / of_int q" using quotient_of_div [OF pq] .
  have p: "0 < p" using assms q by (simp add: x zero_less_divide_iff)
  define a b where "a = int (floorlog 2 (nat p))" and "b = int (floorlog 2 (nat q))"
  have P: "2 powi (a - 1) \<le> (of_int p :: rat)" "(of_int p :: rat) < 2 powi a"
    using floorlog2_powi [OF p] by (simp_all add: a_def)
  have Q: "2 powi (b - 1) \<le> (of_int q :: rat)" "(of_int q :: rat) < 2 powi b"
    using floorlog2_powi [OF q] by (simp_all add: b_def)
  have pos: "0 < (of_int q :: rat)" "0 < (2::rat) powi b" "0 < (2::rat) powi (b - 1)"
    using q by simp_all
  have lo: "2 powi (a - b - 1) \<le> x"
  proof -
    have "2 powi (a - b - 1) = (2::rat) powi (a - 1) / 2 powi b"
      using power_int_diff [of "2::rat" "a - 1" b] by (simp add: algebra_simps)
    also have "\<dots> \<le> of_int p / 2 powi b" using P(1) pos by (intro divide_right_mono) auto
    also have "\<dots> \<le> x" unfolding x using Q(2) p pos by (intro divide_left_mono) auto
    finally show ?thesis .
  qed
  have hi: "x < 2 powi (a - b + 1)"
  proof -
    have "x < 2 powi a / of_int q" unfolding x using P(2) pos by (intro divide_strict_right_mono) auto
    also have "\<dots> \<le> 2 powi a / 2 powi (b - 1)"
      using Q(1) q by (intro divide_left_mono mult_pos_pos) auto
    also have "\<dots> = 2 powi (a - b + 1)"
      using power_int_diff [of "2::rat" a "b - 1"] by (simp add: algebra_simps)
    finally show ?thesis .
  qed
  have def: "floor_log2 x = (if 2 powi (a - b) \<le> x then a - b else a - b - 1)"
    by (simp add: floor_log2_def pq a_def b_def Let_def)
  show "2 powi floor_log2 x \<le> x" using lo by (simp add: def)
  show "x < 2 powi (floor_log2 x + 1)" using hi by (simp add: def)
qed

lemma powi2_le_iff [simp]: "(2::rat) powi a \<le> 2 powi b \<longleftrightarrow> a \<le> b"
proof
  assume "(2::rat) powi a \<le> 2 powi b"
  then show "a \<le> b" using power_int_strict_increasing [of b a "2::rat"] by force
qed (simp add: power_int_increasing)

lemma powi2_less_iff [simp]: "(2::rat) powi a < 2 powi b \<longleftrightarrow> a < b"
  using powi2_le_iff [of b a] by linarith

lemma floor_log2_mono:
  assumes "0 < x" "x \<le> y"
  shows "floor_log2 x \<le> floor_log2 y"
proof -
  have "2 powi floor_log2 x < (2::rat) powi (floor_log2 y + 1)"
    using floor_log2_bounds [of x] floor_log2_bounds [of y] assms by linarith
  then show ?thesis by simp
qed

section \<open>Rounding to binary64 precision\<close>

definition rnd_exp :: "rat \<Rightarrow> int" where
  "rnd_exp x = max (- 1074) (floor_log2 x - 52)"

definition rnd_pos :: "rat \<Rightarrow> rat" where
  "rnd_pos x = of_int (round_half_even (x / 2 powi rnd_exp x)) * 2 powi rnd_exp x"

definition rnd_double :: "rat \<Rightarrow> rat" where
  "rnd_double x = (if x = 0 then 0 else if 0 < x then rnd_pos x else - rnd_pos (- x))"

definition representable :: "rat \<Rightarrow> bool" where
  "representable x \<longleftrightarrow> (\<exists>m e. x = of_int m * 2 powi e \<and> \<bar>m\<bar> \<le> 2 ^ 53 \<and> - 1074 \<le> e)"

lemma powi2_add: "(2::rat) powi (a + b) = 2 powi a * 2 powi b"
  by (simp add: power_int_add)

lemma powi2_53: "(2::rat) powi (e + 53) = 2 ^ 53 * 2 powi e"
  by (simp add: powi2_add)

lemma powi2_52: "(2::rat) powi (e + 52) = 2 ^ 52 * 2 powi e"
  by (simp add: powi2_add)

lemma scaled_less: "0 < x \<Longrightarrow> x / 2 powi rnd_exp x < 2 ^ 53"
proof -
  assume x: "0 < x"
  have "x < 2 powi (floor_log2 x + 1)" by (rule floor_log2_bounds(2) [OF x])
  also have "\<dots> \<le> 2 powi (rnd_exp x + 53)" by (simp add: rnd_exp_def)
  finally show ?thesis by (simp add: powi2_53 divide_less_eq)
qed

lemma scaled_round_le: "0 < x \<Longrightarrow> round_half_even (x / 2 powi rnd_exp x) \<le> 2 ^ 53"
  using scaled_less [of x] by (intro round_half_even_le) simp

lemma rnd_pos_nonneg: "0 < x \<Longrightarrow> 0 \<le> rnd_pos x"
  using round_half_even_ge [of 0 "x / 2 powi rnd_exp x"] by (simp add: rnd_pos_def)

lemma rnd_pos_upper: "0 < x \<Longrightarrow> rnd_pos x \<le> 2 powi (rnd_exp x + 53)"
proof -
  assume x: "0 < x"
  have "(of_int (round_half_even (x / 2 powi rnd_exp x)) :: rat) \<le> of_int (2 ^ 53)"
    using scaled_round_le [OF x] by (simp only: of_int_le_iff)
  then show ?thesis by (simp add: rnd_pos_def powi2_53)
qed

lemma rnd_pos_lower:
  assumes "0 < x" "- 1074 < rnd_exp x"
  shows "2 powi (rnd_exp x + 52) \<le> rnd_pos x"
proof -
  have e: "floor_log2 x = rnd_exp x + 52" using assms(2) by (simp add: rnd_exp_def max_def split: if_splits)
  have "2 powi (rnd_exp x + 52) \<le> x" using floor_log2_bounds(1) [OF assms(1)] e by simp
  then have "of_int (2 ^ 52) \<le> x / 2 powi rnd_exp x" by (simp add: powi2_52 le_divide_eq)
  then have "2 ^ 52 \<le> round_half_even (x / 2 powi rnd_exp x)" by (rule round_half_even_ge)
  then have "(of_int (2 ^ 52) :: rat) \<le> of_int (round_half_even (x / 2 powi rnd_exp x))"
    by (simp only: of_int_le_iff)
  then show ?thesis by (simp add: rnd_pos_def powi2_52)
qed

lemma rnd_pos_mono:
  assumes "0 < x" "x \<le> y"
  shows "rnd_pos x \<le> rnd_pos y"
proof -
  have le: "rnd_exp x \<le> rnd_exp y"
    using floor_log2_mono [OF assms] by (simp add: rnd_exp_def)
  show ?thesis
  proof (cases "rnd_exp x = rnd_exp y")
    case True
    have "x / 2 powi rnd_exp y \<le> y / 2 powi rnd_exp y"
      using assms(2) by (intro divide_right_mono) auto
    then have "round_half_even (x / 2 powi rnd_exp y) \<le> round_half_even (y / 2 powi rnd_exp y)"
      by (rule round_half_even_mono)
    with True show ?thesis by (simp add: rnd_pos_def)
  next
    case False
    with le have lt: "rnd_exp x < rnd_exp y" by simp
    have "rnd_pos x \<le> 2 powi (rnd_exp x + 53)" by (rule rnd_pos_upper [OF assms(1)])
    also have "\<dots> \<le> 2 powi (rnd_exp y + 52)" using lt by simp
    also have "\<dots> \<le> rnd_pos y"
      using assms lt by (intro rnd_pos_lower) (auto simp: rnd_exp_def)
    finally show ?thesis .
  qed
qed

lemma rnd_double_minus: "rnd_double (- x) = - rnd_double x"
  by (simp add: rnd_double_def)

lemma rnd_double_mono: "x \<le> y \<Longrightarrow> rnd_double x \<le> rnd_double y"
  using rnd_pos_mono [of x y] rnd_pos_mono [of "- y" "- x"] rnd_pos_nonneg [of y]
    rnd_pos_nonneg [of "- x"]
  by (auto simp: rnd_double_def)

lemma representable_minus:
  assumes "representable x"
  shows "representable (- x)"
proof -
  obtain m e where "x = of_int m * 2 powi e" "\<bar>m\<bar> \<le> 2 ^ 53" "- 1074 \<le> e"
    using assms by (auto simp: representable_def)
  then show ?thesis
    unfolding representable_def by (intro exI [of _ "- m"] exI [of _ e]) simp
qed

lemma representable_scaled_int:
  assumes "0 < x" "representable x"
  shows "\<exists>k. x / 2 powi rnd_exp x = of_int k"
proof -
  obtain m e where x: "x = of_int m * 2 powi e" and m: "\<bar>m\<bar> \<le> 2 ^ 53" and e: "- 1074 \<le> e"
    using assms(2) by (auto simp: representable_def)
  let ?E = "rnd_exp x"
  show ?thesis
  proof (cases "?E \<le> e")
    case True
    have "x / 2 powi ?E = of_int m * 2 powi (e - ?E)"
      by (simp add: x power_int_diff)
    also have "\<dots> = of_int (m * 2 ^ nat (e - ?E))"
      using True by (simp add: power_int_def)
    finally show ?thesis by blast
  next
    case False
    then have E: "floor_log2 x = ?E + 52" using e by (simp add: rnd_exp_def max_def split: if_splits)
    have lo: "2 powi (?E + 52) \<le> x" using floor_log2_bounds(1) [OF assms(1)] E by simp
    have "(of_int m :: rat) \<le> 2 ^ 53"
    proof -
      have "m \<le> 2 ^ 53" using m by simp
      then have "(of_int m :: rat) \<le> of_int (2 ^ 53)" by (simp only: of_int_le_iff)
      then show ?thesis by simp
    qed
    then have hi: "x \<le> 2 powi (e + 53)" by (simp add: x powi2_53)
    have "?E + 52 \<le> e + 53" using lo hi powi2_le_iff order_trans by blast
    with False have E': "?E + 52 = e + 53" by simp
    have "x = 2 powi (?E + 52)" using lo hi unfolding E' by (rule antisym [rotated])
    then have "x / 2 powi ?E = of_int (2 ^ 52)" by (simp add: powi2_52 divide_eq_eq)
    then show ?thesis by blast
  qed
qed

lemma rnd_double_representable:
  assumes "representable x"
  shows "rnd_double x = x"
proof -
  have pos: "rnd_pos y = y" if y: "0 < y" "representable y" for y
  proof -
    obtain k where k: "y / 2 powi rnd_exp y = of_int k"
      using representable_scaled_int [OF y] by blast
    then have "y = of_int k * 2 powi rnd_exp y" by (simp add: field_simps)
    with k show ?thesis by (simp add: rnd_pos_def)
  qed
  show ?thesis
    using pos [of x] pos [of "- x"] representable_minus [OF assms] assms
    by (auto simp: rnd_double_def)
qed

lemma representable_rnd_pos: "0 < x \<Longrightarrow> representable (rnd_pos x)"
  unfolding representable_def
  using scaled_round_le [of x] round_half_even_ge [of 0 "x / 2 powi rnd_exp x"]
  by (intro exI [of _ "round_half_even (x / 2 powi rnd_exp x)"] exI [of _ "rnd_exp x"])
    (auto simp: rnd_pos_def rnd_exp_def)

lemma representable_int: "\<bar>n\<bar> \<le> 2 ^ 53 \<Longrightarrow> representable (of_int n)"
  unfolding representable_def by (intro exI [of _ n] exI [of _ 0]) simp

lemma representable_rnd_double: "representable (rnd_double x)"
  using representable_rnd_pos [of x] representable_rnd_pos [of "- x"] representable_minus
    representable_int [of 0]
  by (auto simp: rnd_double_def)

section \<open>The laws of rounding as an interface\<close>

locale rounding =
  fixes rnd :: "rat \<Rightarrow> rat"
  assumes rnd_mono: "x \<le> y \<Longrightarrow> rnd x \<le> rnd y"
    and rnd_minus: "rnd (- x) = - rnd x"
    and rnd_idem: "rnd (rnd x) = rnd x"
    and rnd_int: "\<bar>n\<bar> \<le> 2 ^ 53 \<Longrightarrow> rnd (of_int n) = of_int n"
begin

lemma rnd_zero: "rnd 0 = 0"
  using rnd_int [of 0] by simp

lemma rnd_nonneg: "0 \<le> x \<Longrightarrow> 0 \<le> rnd x"
  using rnd_mono [of 0 x] by (simp add: rnd_zero)

lemma rnd_le_int: "x \<le> of_int n \<Longrightarrow> \<bar>n\<bar> \<le> 2 ^ 53 \<Longrightarrow> rnd x \<le> of_int n"
  using rnd_mono [of x "of_int n"] rnd_int by simp

lemma rnd_ge_int: "of_int n \<le> x \<Longrightarrow> \<bar>n\<bar> \<le> 2 ^ 53 \<Longrightarrow> of_int n \<le> rnd x"
  using rnd_mono [of "of_int n" x] rnd_int by simp

lemma rnd_scale_mono:
  "a \<le> b \<Longrightarrow> 0 \<le> c \<Longrightarrow> 0 \<le> k \<Longrightarrow> rnd (rnd (c * a) * k) \<le> rnd (rnd (c * b) * k)"
  by (intro rnd_mono mult_right_mono mult_left_mono) auto

lemma running_sum:
  assumes "of_int (lo * int n) \<le> s" "s \<le> of_int (hi * int n)" "of_int lo \<le> x" "x \<le> of_int hi"
    "\<bar>lo\<bar> * int (Suc n) \<le> 2 ^ 53" "\<bar>hi\<bar> * int (Suc n) \<le> 2 ^ 53"
  shows "of_int (lo * int (Suc n)) \<le> rnd (s + x)" "rnd (s + x) \<le> of_int (hi * int (Suc n))"
proof -
  have cap: "\<bar>lo * int (Suc n)\<bar> \<le> 2 ^ 53" "\<bar>hi * int (Suc n)\<bar> \<le> 2 ^ 53"
    using assms(5,6) by (simp_all only: abs_mult abs_of_nat)
  have "of_int (lo * int (Suc n)) \<le> s + x" "s + x \<le> of_int (hi * int (Suc n))"
    using add_mono [OF assms(1,3)] add_mono [OF assms(2,4)] by (simp_all add: algebra_simps)
  then show "of_int (lo * int (Suc n)) \<le> rnd (s + x)" "rnd (s + x) \<le> of_int (hi * int (Suc n))"
    using cap by (blast intro: rnd_ge_int rnd_le_int)+
qed

lemma quotient_le:
  assumes "s \<le> of_int (M * int n)" "0 < n" "\<bar>M\<bar> \<le> 2 ^ 53"
  shows "rnd (s / of_nat n) \<le> of_int M"
proof (rule rnd_le_int)
  show "s / of_nat n \<le> of_int M" using assms(1,2) by (simp add: divide_le_eq)
qed (rule assms(3))

lemma quotient_ge:
  assumes "of_int (M * int n) \<le> s" "0 < n" "\<bar>M\<bar> \<le> 2 ^ 53"
  shows "of_int M \<le> rnd (s / of_nat n)"
proof (rule rnd_ge_int)
  show "of_int M \<le> s / of_nat n" using assms(1,2) by (simp add: le_divide_eq)
qed (rule assms(3))

end

interpretation binary64: rounding rnd_double
proof
  show "rnd_double x \<le> rnd_double y" if "x \<le> y" for x y
    using that by (rule rnd_double_mono)
  show "rnd_double (- x) = - rnd_double x" for x
    by (rule rnd_double_minus)
  show "rnd_double (rnd_double x) = rnd_double x" for x
    by (intro rnd_double_representable representable_rnd_double)
  show "rnd_double (of_int n) = of_int n" if "\<bar>n\<bar> \<le> 2 ^ 53" for n
    using that by (intro rnd_double_representable representable_int)
qed

section \<open>Floats and their operations\<close>

datatype pyfloat = Fin rat | PInf | NInf | NaN

definition fl :: "rat \<Rightarrow> pyfloat" where
  "fl x = (let r = rnd_double x
           in if 2 ^ 1024 \<le> r then PInf else if r \<le> - (2 ^ 1024) then NInf else Fin r)"

fun fneg :: "pyfloat \<Rightarrow> pyfloat" where
  "fneg (Fin a) = Fin (- a)"
| "fneg PInf = NInf"
| "fneg NInf = PInf"
| "fneg NaN = NaN"

fun fadd :: "pyfloat \<Rightarrow> pyfloat \<Rightarrow> pyfloat" where
  "fadd NaN _ = NaN"
| "fadd _ NaN = NaN"
| "fadd (Fin a) (Fin b) = fl (a + b)"
| "fadd PInf NInf = NaN"
| "fadd NInf PInf = NaN"
| "fadd PInf _ = PInf"
| "fadd _ PInf = PInf"
| "fadd NInf _ = NInf"
| "fadd _ NInf = NInf"

definition fsub :: "pyfloat \<Rightarrow> pyfloat \<Rightarrow> pyfloat" where
  "fsub a b = fadd a (fneg b)"

fun fsign :: "pyfloat \<Rightarrow> rat" where
  "fsign (Fin a) = sgn a"
| "fsign PInf = 1"
| "fsign NInf = - 1"
| "fsign NaN = 0"

definition inf_of_sign :: "rat \<Rightarrow> pyfloat" where
  "inf_of_sign s = (if s = 0 then NaN else if 0 < s then PInf else NInf)"

fun fmul :: "pyfloat \<Rightarrow> pyfloat \<Rightarrow> pyfloat" where
  "fmul NaN _ = NaN"
| "fmul _ NaN = NaN"
| "fmul (Fin a) (Fin b) = fl (a * b)"
| "fmul a b = inf_of_sign (fsign a * fsign b)"

text \<open>Division by a zero float raises; a finite value over an infinity is zero.\<close>

fun fdiv :: "pyfloat \<Rightarrow> pyfloat \<Rightarrow> pyfloat result" where
  "fdiv a (Fin b) =
     (if b = 0 then Inl ZeroDivisionError
      else case a of Fin x \<Rightarrow> Inr (fl (x / b)) | NaN \<Rightarrow> Inr NaN
           | _ \<Rightarrow> Inr (inf_of_sign (fsign a * sgn b)))"
| "fdiv a b = (case (a, b) of (Fin _, PInf) \<Rightarrow> Inr (Fin 0) | (Fin _, NInf) \<Rightarrow> Inr (Fin 0) | _ \<Rightarrow> Inr NaN)"

fun flt :: "pyfloat \<Rightarrow> pyfloat \<Rightarrow> bool" where
  "flt NaN _ = False"
| "flt _ NaN = False"
| "flt (Fin a) (Fin b) = (a < b)"
| "flt PInf _ = False"
| "flt _ PInf = True"
| "flt _ NInf = False"
| "flt NInf _ = True"

definition feq :: "pyfloat \<Rightarrow> pyfloat \<Rightarrow> bool" where
  "feq a b \<longleftrightarrow> a \<noteq> NaN \<and> a = b"

definition fle :: "pyfloat \<Rightarrow> pyfloat \<Rightarrow> bool" where
  "fle a b \<longleftrightarrow> flt a b \<or> feq a b"

definition is_finite :: "pyfloat \<Rightarrow> bool" where
  "is_finite a \<longleftrightarrow> (case a of Fin _ \<Rightarrow> True | _ \<Rightarrow> False)"

fun fval :: "pyfloat \<Rightarrow> rat" where
  "fval (Fin a) = a"
| "fval _ = 0"

text \<open>\<open>min(a, b)\<close> keeps \<open>a\<close> unless \<open>b < a\<close>; \<open>max(a, b)\<close> keeps \<open>a\<close> unless \<open>a < b\<close>.\<close>

definition py_min :: "pyfloat \<Rightarrow> pyfloat \<Rightarrow> pyfloat" where
  "py_min a b = (if flt b a then b else a)"

definition py_max :: "pyfloat \<Rightarrow> pyfloat \<Rightarrow> pyfloat" where
  "py_max a b = (if flt a b then b else a)"

text \<open>\<open>int(x)\<close> truncates towards zero, \<open>round(x)\<close> rounds half to even, \<open>math.floor(x)\<close>
  rounds down; all three refuse NaN and the infinities.\<close>

definition trunc :: "rat \<Rightarrow> int" where
  "trunc x = (if x < 0 then - \<lfloor>- x\<rfloor> else \<lfloor>x\<rfloor>)"

fun to_integer :: "(rat \<Rightarrow> int) \<Rightarrow> pyfloat \<Rightarrow> int result" where
  "to_integer f (Fin a) = Inr (f a)"
| "to_integer f NaN = Inl (ValueError ''cannot convert float NaN to integer'')"
| "to_integer f _ = Inl OverflowError"

abbreviation py_int :: "pyfloat \<Rightarrow> int result" where
  "py_int \<equiv> to_integer trunc"

abbreviation py_round :: "pyfloat \<Rightarrow> int result" where
  "py_round \<equiv> to_integer round_half_even"

abbreviation py_floor :: "pyfloat \<Rightarrow> int result" where
  "py_floor \<equiv> to_integer floor"

text \<open>An \<open>int\<close> operand of float arithmetic is converted first, and overflows with an error.\<close>

definition float_of_int :: "int \<Rightarrow> pyfloat result" where
  "float_of_int n = (case fl (of_int n) of Fin r \<Rightarrow> Inr (Fin r) | _ \<Rightarrow> Inl OverflowError)"

section \<open>Laws of the operations\<close>

lemma pow53_le_pow1024: "(2::rat) ^ 53 < 2 ^ 1024"
  by (rule power_strict_increasing) simp_all

lemma fl_int [float_exact]:
  assumes "\<bar>n\<bar> \<le> 2 ^ 53"
  shows "fl (of_int n) = Fin (of_int n)"
proof -
  have "\<bar>of_int n :: rat\<bar> \<le> 2 ^ 53"
  proof -
    have "(of_int \<bar>n\<bar> :: rat) \<le> of_int (2 ^ 53)" using assms by (simp only: of_int_le_iff)
    then show ?thesis by simp
  qed
  then have "\<bar>of_int n :: rat\<bar> < 2 ^ 1024" using pow53_le_pow1024 by linarith
  then show ?thesis
    using binary64.rnd_int [OF assms] by (auto simp: fl_def Let_def)
qed

lemma fl_bounded:
  assumes "\<bar>x\<bar> \<le> of_int n" "n \<le> 2 ^ 53"
  shows "fl x = Fin (rnd_double x)" "\<bar>rnd_double x\<bar> \<le> of_int n"
proof -
  have n: "0 \<le> n"
  proof -
    have "(0::rat) \<le> of_int n" using assms(1) by linarith
    then show ?thesis by simp
  qed
  have "rnd_double x \<le> of_int n" "rnd_double (- x) \<le> of_int n"
    using assms n by (auto intro!: binary64.rnd_le_int)
  then show b: "\<bar>rnd_double x\<bar> \<le> of_int n"
    by (simp add: binary64.rnd_minus)
  have "(of_int n :: rat) \<le> of_int (2 ^ 53)" using assms(2) by (simp only: of_int_le_iff)
  then have "\<bar>rnd_double x\<bar> < 2 ^ 1024" using b pow53_le_pow1024 by simp
  then show "fl x = Fin (rnd_double x)" by (auto simp: fl_def Let_def)
qed

lemma fl_Fin_iff: "fl x = Fin r \<longleftrightarrow> r = rnd_double x \<and> \<bar>rnd_double x\<bar> < 2 ^ 1024"
  by (auto simp: fl_def Let_def)

lemma fl_mono_fle: "x \<le> y \<Longrightarrow> fle (fl x) (fl y)"
  using binary64.rnd_mono [of x y]
  by (auto simp: fl_def Let_def fle_def feq_def)

lemma fl_not_NaN [simp]: "fl x \<noteq> NaN"
  by (simp add: fl_def Let_def)

lemma fl_nonneg: "0 \<le> x \<Longrightarrow> fl x = PInf \<or> (\<exists>r. fl x = Fin r \<and> 0 \<le> r)"
  using binary64.rnd_nonneg [of x] by (auto simp: fl_def Let_def)

lemma flt_Fin [simp]: "flt (Fin a) (Fin b) \<longleftrightarrow> a < b"
  by simp

lemma fle_Fin [simp]: "fle (Fin a) (Fin b) \<longleftrightarrow> a \<le> b"
  by (auto simp: fle_def feq_def)

lemma py_min_Fin [simp]: "py_min (Fin a) (Fin b) = Fin (min a b)"
  by (simp add: py_min_def min_def not_less)

lemma py_max_Fin [simp]: "py_max (Fin a) (Fin b) = Fin (max a b)"
  by (auto simp: py_max_def max_def)

lemma py_min_PInf [simp]: "py_min PInf (Fin b) = Fin b"
  by (simp add: py_min_def)

lemma py_max_NInf [simp]: "py_max NInf (Fin b) = Fin b"
  by (simp add: py_max_def)

lemma is_finite_iff: "is_finite a \<longleftrightarrow> (\<exists>r. a = Fin r)"
  by (cases a) (auto simp: is_finite_def)

lemma is_finite_Fin [simp]: "is_finite (Fin r)"
  by (simp add: is_finite_def)

lemma trunc_mono: "x \<le> y \<Longrightarrow> trunc x \<le> trunc y"
proof -
  assume le: "x \<le> y"
  have "- \<lfloor>- x\<rfloor> \<le> \<lfloor>y\<rfloor>" if "x < 0" "\<not> y < 0"
  proof -
    have "0 \<le> \<lfloor>- x\<rfloor>" "0 \<le> \<lfloor>y\<rfloor>" using that by simp_all
    then show ?thesis by linarith
  qed
  with le show ?thesis by (auto simp: trunc_def intro: floor_mono)
qed

lemma trunc_int [simp]: "trunc (of_int n) = n"
  by (simp add: trunc_def flip: of_int_minus)

lemma trunc_nonneg: "0 \<le> x \<Longrightarrow> 0 \<le> trunc x"
  by (simp add: trunc_def)

lemma fl_numeral [simp, float_exact]:
  "(numeral k :: int) \<le> 2 ^ 53 \<Longrightarrow> fl (numeral k) = Fin (numeral k)"
  using fl_int [of "numeral k"] by simp

lemma fl_neg_numeral [simp, float_exact]:
  "(numeral k :: int) \<le> 2 ^ 53 \<Longrightarrow> fl (- numeral k) = Fin (- numeral k)"
  using fl_int [of "- numeral k"] by simp

lemma fl_zero_one [simp, float_exact]: "fl 0 = Fin 0" "fl 1 = Fin 1"
  using fl_int [of 0] fl_int [of 1] by simp_all

lemma trunc_numeral [simp]: "trunc (numeral k) = numeral k" "trunc 0 = 0" "trunc 1 = 1"
  by (simp_all add: trunc_def)

text \<open>Rounding of a concrete value: give its exponent and its rounded significand.\<close>

lemma floor_log2_unique:
  assumes "2 powi k \<le> x" "x < 2 powi (k + 1)"
  shows "floor_log2 x = k"
proof -
  have x: "0 < x" using assms(1) by (rule less_le_trans [rotated]) simp
  have "2 powi floor_log2 x < (2::rat) powi (k + 1)" "2 powi k < (2::rat) powi (floor_log2 x + 1)"
    using floor_log2_bounds [OF x] assms by linarith+
  then show ?thesis by simp
qed

lemma rnd_double_eqI:
  assumes "2 powi (e + 52) \<le> x" "x < 2 powi (e + 53)" "- 1074 \<le> e" "round_half_even (x / 2 powi e) = m"
  shows "rnd_double x = of_int m * 2 powi e"
proof -
  have x: "0 < x" using assms(1) by (rule less_le_trans [rotated]) simp
  have "floor_log2 x = e + 52" using assms(1,2) by (intro floor_log2_unique) (auto simp: algebra_simps)
  then have "rnd_exp x = e" using assms(3) by (simp add: rnd_exp_def)
  then show ?thesis using x assms(4) by (simp add: rnd_double_def rnd_pos_def)
qed

lemma fle_not_flt: "fle a b \<Longrightarrow> \<not> flt b a"
  by (cases a; cases b) (auto simp: fle_def feq_def)

lemma fl_tenth: "fl (1 / 10) = Fin (7205759403792794 / 72057594037927936)"
proof -
  have f: "\<lfloor>36028797018963968 / 5 :: rat\<rfloor> = 7205759403792793"
    by (simp add: floor_eq_iff)
  have "rnd_double (1 / 10) = 7205759403792794 / 72057594037927936"
    by (rule trans [OF rnd_double_eqI [where e = "- 56" and m = 7205759403792794]])
      (simp_all add: power_int_def power_one_over round_half_even_def Let_def f)
  moreover have "fl (1 / 10) = Fin (rnd_double (1 / 10))" by (rule fl_bounded [where n = 1]) simp_all
  ultimately show ?thesis by (simp only:)
qed

end
