(* ===== verification/Json.thy ===== *)
theory Json
  imports Py_Float
begin

text \<open>
  JSON values as the parsers deliver them: integers and floats are kept apart (the schema
  checks distinguish them) and duplicate keys are already resolved, so an object is looked up
  with \<open>map_of\<close>. The text syntax itself (pydantic's JSON parser and printer, \<open>json.loads\<close>,
  \<open>json.dumps\<close>) is a parameter of the definitions that use it. Strings are UTF-8 byte lists;
  \<open>str_len\<close> counts code points, as Python's \<open>len\<close> does.
\<close>

datatype json =
    JNull
  | JBool bool
  | JInt int
  | JFloat pyfloat
  | JStr string
  | JArr "json list"
  | JObj "(string \<times> json) list"

type_synonym json_parser = "bytes \<Rightarrow> json option"
type_synonym json_printer = "json \<Rightarrow> bytes"

definition continuation_byte :: "char \<Rightarrow> bool" where
  "continuation_byte c \<longleftrightarrow> of_char c div (64::nat) = 2"

definition str_len :: "string \<Rightarrow> nat" where
  "str_len s = length (filter (\<lambda>c. \<not> continuation_byte c) s)"

lemma str_len_le: "str_len s \<le> length s"
  by (simp add: str_len_def)

lemma str_len_ascii: "\<forall>c \<in> set s. of_char c < (128::nat) \<Longrightarrow> str_len s = length s"
proof -
  assume "\<forall>c \<in> set s. of_char c < (128::nat)"
  then have "\<forall>c \<in> set s. \<not> continuation_byte c"
    by (auto simp: continuation_byte_def)
  then show ?thesis by (simp add: str_len_def)
qed

lemma str_len_append [simp]: "str_len (a @ b) = str_len a + str_len b"
  by (simp add: str_len_def)

lemma str_len_str_of_nat: "str_len (str_of_nat n) = length (str_of_nat n)"
  by (rule str_len_ascii) (use str_of_nat_digits in fastforce)

section \<open>Strict field checks\<close>

text \<open>
  pydantic's strict mode: an integer field takes a JSON integer only (not a float, not a
  boolean), a float field takes a JSON float or integer, a string field a JSON string, a
  boolean field a JSON boolean. A missing field is an error.
\<close>

fun strict_int :: "json option \<Rightarrow> int option" where
  "strict_int (Some (JInt i)) = Some i"
| "strict_int _ = None"

fun strict_float :: "json option \<Rightarrow> pyfloat option" where
  "strict_float (Some (JFloat f)) = Some f"
| "strict_float (Some (JInt i)) = Some (fl (of_int i))"
| "strict_float _ = None"

fun strict_str :: "json option \<Rightarrow> string option" where
  "strict_str (Some (JStr s)) = Some s"
| "strict_str _ = None"

fun strict_bool :: "json option \<Rightarrow> bool option" where
  "strict_bool (Some (JBool b)) = Some b"
| "strict_bool _ = None"

definition check :: "('a \<Rightarrow> bool) \<Rightarrow> 'a option \<Rightarrow> 'a option" where
  "check P v = (case v of Some x \<Rightarrow> if P x then Some x else None | None \<Rightarrow> None)"

lemma check_Some_iff [simp]: "check P v = Some x \<longleftrightarrow> v = Some x \<and> P x"
  by (auto simp: check_def split: option.splits)

text \<open>\<open>extra="forbid"\<close>: no key outside the model's fields.\<close>

definition only_keys :: "string list \<Rightarrow> (string \<times> json) list \<Rightarrow> bool" where
  "only_keys ks fs \<longleftrightarrow> list_all (\<lambda>(k, _). k \<in> set ks) fs"

end
