(* ===== verification/Protocol.thy ===== *)
theory Protocol
  imports Json
begin

text \<open>
  Sensor protocol version 1 (\<^verbatim>\<open>src/gateway/protocol.py\<close>): the message models with their
  field constraints, the discriminated union, \<open>parse_message\<close> with its two rejection reasons,
  \<open>validate_node_id\<close> and \<open>encode_message\<close>. The JSON text parser and printer behind
  \<open>validate_json\<close> and \<open>model_dump_json\<close> are the parameters \<open>parse_json\<close> and
  \<open>dump_json\<close>; everything the schema declares is checked here on the parsed value.
\<close>

section \<open>Data model\<close>

definition PROTOCOL_VERSION :: int where
  "PROTOCOL_VERSION = 1"

datatype node_kind = Physical | Virtual

fun node_kind_str :: "node_kind \<Rightarrow> string" where
  "node_kind_str Physical = ''physical''"
| "node_kind_str Virtual = ''virtual''"

definition node_kind_of_str :: "string \<Rightarrow> node_kind option" where
  "node_kind_of_str s =
     (if s = ''physical'' then Some Physical else if s = ''virtual'' then Some Virtual else None)"

definition is_alnum :: "char \<Rightarrow> bool" where
  "is_alnum c \<longleftrightarrow> (let n = (of_char c :: nat)
     in 65 \<le> n \<and> n \<le> 90 \<or> 97 \<le> n \<and> n \<le> 122 \<or> 48 \<le> n \<and> n \<le> 57)"

definition is_id_char :: "char \<Rightarrow> bool" where
  "is_id_char c \<longleftrightarrow> is_alnum c \<or> c = CHR ''_'' \<or> c = CHR ''.'' \<or> c = CHR ''-''"

definition matches_node_id_pattern :: "string \<Rightarrow> bool" where
  "matches_node_id_pattern s = (case s of [] \<Rightarrow> False | c # cs \<Rightarrow> is_alnum c \<and> list_all is_id_char cs)"

definition node_id_ok :: "string \<Rightarrow> bool" where
  "node_id_ok s \<longleftrightarrow> 1 \<le> str_len s \<and> str_len s \<le> 64 \<and> matches_node_id_pattern s"

datatype protocol_error = MalformedJson | SchemaValidation

record base_sensor_message =
  version :: int
  node_id :: string
  node_kind :: node_kind
  sequence :: int
  timestamp_ms :: int

record reading_message = base_sensor_message +
  temperature_c :: pyfloat
  humidity_pct :: pyfloat
  pressure_hpa :: pyfloat

type_synonym heartbeat_message = base_sensor_message

datatype sensor_message = Reading reading_message | Heartbeat heartbeat_message

fun msg_base :: "sensor_message \<Rightarrow> base_sensor_message" where
  "msg_base (Reading r) = base_sensor_message.truncate r"
| "msg_base (Heartbeat h) = h"

abbreviation msg_node_id :: "sensor_message \<Rightarrow> string" where
  "msg_node_id m \<equiv> node_id (msg_base m)"

abbreviation msg_sequence :: "sensor_message \<Rightarrow> int" where
  "msg_sequence m \<equiv> sequence (msg_base m)"

abbreviation msg_node_kind :: "sensor_message \<Rightarrow> node_kind" where
  "msg_node_kind m \<equiv> node_kind (msg_base m)"

section \<open>Schema validation\<close>

definition base_keys :: "string list" where
  "base_keys = [''version'', ''node_id'', ''node_kind'', ''sequence'', ''timestamp_ms'', ''type'']"

definition reading_keys :: "string list" where
  "reading_keys = base_keys @ [''temperature_c'', ''humidity_pct'', ''pressure_hpa'']"

definition version_field :: "json option \<Rightarrow> int option" where
  "version_field v = check (\<lambda>i. i = PROTOCOL_VERSION) (strict_int v)"

definition validate_base :: "(string \<times> json) list \<Rightarrow> base_sensor_message option" where
  "validate_base fs =
     (case (version_field (map_of fs ''version''),
            check node_id_ok (strict_str (map_of fs ''node_id'')),
            Option.bind (strict_str (map_of fs ''node_kind'')) node_kind_of_str,
            check (\<lambda>i. 0 \<le> i) (strict_int (map_of fs ''sequence'')),
            check (\<lambda>i. 0 \<le> i) (strict_int (map_of fs ''timestamp_ms'')))
      of (Some v, Some n, Some k, Some s, Some t) \<Rightarrow>
           Some \<lparr>version = v, node_id = n, node_kind = k, sequence = s, timestamp_ms = t\<rparr>
       | _ \<Rightarrow> None)"

definition temperature_ok :: "pyfloat \<Rightarrow> bool" where
  "temperature_ok f \<longleftrightarrow> fle (Fin (- 100)) f \<and> fle f (Fin 100) \<and> is_finite f"

definition humidity_ok :: "pyfloat \<Rightarrow> bool" where
  "humidity_ok f \<longleftrightarrow> fle (Fin 0) f \<and> fle f (Fin 100) \<and> is_finite f"

definition pressure_ok :: "pyfloat \<Rightarrow> bool" where
  "pressure_ok f \<longleftrightarrow> flt (Fin 0) f \<and> fle f (Fin 1200) \<and> is_finite f"

definition validate_reading :: "(string \<times> json) list \<Rightarrow> reading_message option" where
  "validate_reading fs =
     (if \<not> only_keys reading_keys fs \<or> map_of fs ''type'' \<noteq> Some (JStr ''reading'') then None
      else case (validate_base fs,
                 check temperature_ok (strict_float (map_of fs ''temperature_c'')),
                 check humidity_ok (strict_float (map_of fs ''humidity_pct'')),
                 check pressure_ok (strict_float (map_of fs ''pressure_hpa'')))
           of (Some b, Some t, Some h, Some p) \<Rightarrow>
                Some (base_sensor_message.extend b (reading_message.fields t h p))
            | _ \<Rightarrow> None)"

definition validate_heartbeat :: "(string \<times> json) list \<Rightarrow> heartbeat_message option" where
  "validate_heartbeat fs =
     (if \<not> only_keys base_keys fs \<or> map_of fs ''type'' \<noteq> Some (JStr ''heartbeat'') then None
      else validate_base fs)"

definition validate_message :: "json \<Rightarrow> protocol_error + sensor_message" where
  "validate_message j =
     (case j of
        JObj fs \<Rightarrow>
          (case strict_str (map_of fs ''type'') of
             None \<Rightarrow> Inl SchemaValidation
           | Some t \<Rightarrow>
               if t = ''reading'' then
                 (case validate_reading fs of None \<Rightarrow> Inl SchemaValidation | Some r \<Rightarrow> Inr (Reading r))
               else if t = ''heartbeat'' then
                 (case validate_heartbeat fs of None \<Rightarrow> Inl SchemaValidation | Some h \<Rightarrow> Inr (Heartbeat h))
               else Inl SchemaValidation)
      | _ \<Rightarrow> Inl SchemaValidation)"

definition parse_message :: "json_parser \<Rightarrow> bytes \<Rightarrow> protocol_error + sensor_message" where
  "parse_message parse_json data =
     (case parse_json data of None \<Rightarrow> Inl MalformedJson | Some j \<Rightarrow> validate_message j)"

definition validate_node_id :: "string \<Rightarrow> string result" where
  "validate_node_id s =
     (if node_id_ok s then Inr s else Inl (ValueError ''node_id does not satisfy the protocol''))"

section \<open>Encoding\<close>

definition base_fields :: "string \<Rightarrow> base_sensor_message \<Rightarrow> (string \<times> json) list" where
  "base_fields t b =
     [(''version'', JInt (version b)), (''node_id'', JStr (node_id b)),
      (''node_kind'', JStr (node_kind_str (node_kind b))), (''sequence'', JInt (sequence b)),
      (''timestamp_ms'', JInt (timestamp_ms b)), (''type'', JStr t)]"

definition reading_fields :: "reading_message \<Rightarrow> (string \<times> json) list" where
  "reading_fields r = base_fields ''reading'' (base_sensor_message.truncate r) @
     [(''temperature_c'', JFloat (temperature_c r)), (''humidity_pct'', JFloat (humidity_pct r)),
      (''pressure_hpa'', JFloat (pressure_hpa r))]"

fun model_dump :: "sensor_message \<Rightarrow> json" where
  "model_dump (Reading r) = JObj (reading_fields r)"
| "model_dump (Heartbeat h) = JObj (base_fields ''heartbeat'' h)"

definition encode_message :: "json_printer \<Rightarrow> sensor_message \<Rightarrow> bytes" where
  "encode_message dump_json m = dump_json (model_dump m) @ [newline]"

section \<open>What a validated message satisfies\<close>

definition valid_base :: "base_sensor_message \<Rightarrow> bool" where
  "valid_base b \<longleftrightarrow> version b = 1 \<and> node_id_ok (node_id b) \<and> 0 \<le> sequence b \<and> 0 \<le> timestamp_ms b"

definition valid_reading :: "reading_message \<Rightarrow> bool" where
  "valid_reading r \<longleftrightarrow> valid_base (base_sensor_message.truncate r) \<and> temperature_ok (temperature_c r) \<and>
     humidity_ok (humidity_pct r) \<and> pressure_ok (pressure_hpa r)"

fun valid_message :: "sensor_message \<Rightarrow> bool" where
  "valid_message (Reading r) = valid_reading r"
| "valid_message (Heartbeat h) = valid_base h"

lemma node_kind_round_trip [simp]: "node_kind_of_str (node_kind_str k) = Some k"
  by (cases k) (simp_all add: node_kind_of_str_def)

lemma validate_base_sound: "validate_base fs = Some b \<Longrightarrow> valid_base b"
  by (auto simp: validate_base_def valid_base_def version_field_def PROTOCOL_VERSION_def
      split: option.splits)

lemma validate_base_of_fields:
  assumes "map_of fs ''version'' = Some (JInt (version b))"
    "map_of fs ''node_id'' = Some (JStr (node_id b))"
    "map_of fs ''node_kind'' = Some (JStr (node_kind_str (node_kind b)))"
    "map_of fs ''sequence'' = Some (JInt (sequence b))"
    "map_of fs ''timestamp_ms'' = Some (JInt (timestamp_ms b))"
    "valid_base b"
  shows "validate_base fs = Some b"
  using assms by (simp add: validate_base_def version_field_def valid_base_def check_def PROTOCOL_VERSION_def)

lemma truncate_extend_base [simp]:
  "base_sensor_message.truncate (base_sensor_message.extend b (reading_message.fields t h p)) = b"
  by (simp add: base_sensor_message.truncate_def base_sensor_message.extend_def)

lemma extend_reading_sel [simp]:
  "temperature_c (base_sensor_message.extend b (reading_message.fields t h p)) = t"
  "humidity_pct (base_sensor_message.extend b (reading_message.fields t h p)) = h"
  "pressure_hpa (base_sensor_message.extend b (reading_message.fields t h p)) = p"
  by (simp_all add: base_sensor_message.extend_def reading_message.fields_def)

lemma extend_truncate_reading [simp]:
  "base_sensor_message.extend (base_sensor_message.truncate r)
     (reading_message.fields (temperature_c r) (humidity_pct r) (pressure_hpa r)) = r"
  by (cases r) (simp add: base_sensor_message.truncate_def base_sensor_message.extend_def
      reading_message.fields_def)

lemma truncate_sel [simp]:
  "version (base_sensor_message.truncate r) = version r"
  "node_id (base_sensor_message.truncate r) = node_id r"
  "node_kind (base_sensor_message.truncate r) = node_kind r"
  "sequence (base_sensor_message.truncate r) = sequence r"
  "timestamp_ms (base_sensor_message.truncate r) = timestamp_ms r"
  by (simp_all add: base_sensor_message.truncate_def)

lemma validate_reading_sound: "validate_reading fs = Some r \<Longrightarrow> valid_reading r"
  by (auto simp: validate_reading_def valid_reading_def dest!: validate_base_sound
      split: option.splits if_splits)

lemma validate_heartbeat_sound: "validate_heartbeat fs = Some h \<Longrightarrow> valid_base h"
  by (auto simp: validate_heartbeat_def dest!: validate_base_sound split: if_splits)

lemma validate_message_sound: "validate_message j = Inr m \<Longrightarrow> valid_message m"
  by (auto simp: validate_message_def dest!: validate_reading_sound validate_heartbeat_sound
      split: json.splits option.splits if_splits)

lemma validate_reading_fields: "valid_reading r \<Longrightarrow> validate_reading (reading_fields r) = Some r"
  by (subgoal_tac "validate_base (reading_fields r) = Some (base_sensor_message.truncate r)")
    (auto simp: validate_reading_def reading_fields_def base_fields_def only_keys_def
      reading_keys_def base_keys_def check_def valid_reading_def intro!: validate_base_of_fields)

lemma validate_model_dump: "valid_message m \<Longrightarrow> validate_message (model_dump m) = Inr m"
proof (cases m)
  case (Reading r)
  assume "valid_message m"
  with Reading have "validate_reading (reading_fields r) = Some r"
    by (simp add: validate_reading_fields)
  with Reading show ?thesis
    by (simp add: validate_message_def reading_fields_def base_fields_def)
next
  case (Heartbeat h)
  assume "valid_message m"
  with Heartbeat have "validate_base (base_fields ''heartbeat'' h) = Some h"
    by (intro validate_base_of_fields) (simp_all add: base_fields_def)
  with Heartbeat show ?thesis
    by (simp add: validate_message_def validate_heartbeat_def only_keys_def base_fields_def base_keys_def)
qed

lemma node_id_no_colon: "node_id_ok s \<Longrightarrow> CHR '':'' \<notin> set s"
  by (auto simp: node_id_ok_def matches_node_id_pattern_def is_alnum_def is_id_char_def list_all_iff
      split: list.splits)

section \<open>Properties\<close>


definition sample_heartbeat :: heartbeat_message where
  "sample_heartbeat = \<lparr>version = 1, node_id = ''n1'', node_kind = Virtual, sequence = 0, timestamp_ms = 0\<rparr>"

definition sample_parser :: json_parser where
  "sample_parser b = (if b = ''hb'' then Some (model_dump (Heartbeat sample_heartbeat)) else None)"

definition sample_printer :: json_printer where
  "sample_printer j = (if j = model_dump (Heartbeat sample_heartbeat) then ''hb'' else ''null'')"

lemma sample_heartbeat_valid: "valid_message (Heartbeat sample_heartbeat)"
  by (simp add: sample_heartbeat_def valid_base_def node_id_ok_def matches_node_id_pattern_def
      is_alnum_def is_id_char_def str_len_def continuation_byte_def)


text \<open>Encoding then framing then parsing returns the message: a valid message, encoded as one
  NDJSON record and stripped of its final newline, parses back to itself, provided the JSON
  printer and parser agree on the dumped value.\<close>

theorem encode_parse_round_trip:
  assumes "valid_message m" "parse_json (dump_json (model_dump m)) = Some (model_dump m)"
  shows "last (encode_message dump_json m) = newline \<and>
    parse_message parse_json (butlast (encode_message dump_json m)) = Inr m"
  using assms by (simp add: encode_message_def parse_message_def validate_model_dump)

theorem encode_parse_round_trip_witness:
  "last (encode_message sample_printer (Heartbeat sample_heartbeat)) = newline \<and>
   parse_message sample_parser (butlast (encode_message sample_printer (Heartbeat sample_heartbeat))) =
     Inr (Heartbeat sample_heartbeat)"
  by (rule encode_parse_round_trip [OF sample_heartbeat_valid])
    (simp add: sample_parser_def sample_printer_def)

text \<open>The schema is closed and strict: an object with a field the model does not declare, a
  version that is not the integer 1 (a boolean, a float or another number), or a sequence that is
  not an integer is rejected as a schema error, never as malformed JSON and never accepted.\<close>

theorem strict_schema_rejects:
  assumes "parse_json data = Some (JObj fs)"
    "(\<exists>k \<in> fst ` set fs. k \<notin> set reading_keys) \<or> map_of fs ''version'' \<noteq> Some (JInt 1) \<or>
     (\<nexists>i. map_of fs ''sequence'' = Some (JInt i) \<and> 0 \<le> i)"
  shows "parse_message parse_json data = Inl SchemaValidation"
proof -
  have keys: "\<not> only_keys reading_keys fs \<and> \<not> only_keys base_keys fs" if "\<exists>k \<in> fst ` set fs. k \<notin> set reading_keys"
    using that by (auto simp: only_keys_def list_all_iff reading_keys_def)
  have ver: "validate_base fs = None" if "map_of fs ''version'' \<noteq> Some (JInt 1)"
  proof -
    have "version_field (map_of fs ''version'') = None"
      using that by (cases "map_of fs ''version''" rule: strict_int.cases)
        (auto simp: version_field_def check_def PROTOCOL_VERSION_def)
    then show ?thesis by (simp add: validate_base_def)
  qed
  have seq: "validate_base fs = None" if "\<nexists>i. map_of fs ''sequence'' = Some (JInt i) \<and> 0 \<le> i"
  proof -
    have "check (\<lambda>i. 0 \<le> i) (strict_int (map_of fs ''sequence'')) = None"
      using that by (cases "map_of fs ''sequence''" rule: strict_int.cases) (auto simp: check_def)
    then show ?thesis by (auto simp: validate_base_def split: option.splits)
  qed
  have "validate_reading fs = None" "validate_heartbeat fs = None"
    using assms(2) keys ver seq by (auto simp: validate_reading_def validate_heartbeat_def)
  then show ?thesis
    using assms(1) by (auto simp: parse_message_def validate_message_def split: option.splits)
qed

theorem strict_schema_rejects_witness:
  "parse_message (\<lambda>_. Some (JObj [(''type'', JStr ''reading''), (''version'', JBool True)])) [] =
     Inl SchemaValidation"
  by (rule strict_schema_rejects) auto

end
