(* ===== verification/Sinks.thy ===== *)
theory Sinks
  imports Protocol
begin

text \<open>
  What the persistence components share: a bounded \<open>asyncio.Queue\<close> with its stop sentinel and
  the producers blocked in \<open>put\<close>, the batch a worker takes from it, text files that are created
  exclusively and only appended to, strict JSON dumping, and the interface \<open>sink\<close> from which
  each of them derives that nothing accepted is lost or reordered.
\<close>

section \<open>Files\<close>

type_synonym files = "string \<Rightarrow> string option"

text \<open>\<open>path.open("x")\<close> followed by writing \<open>text\<close>.\<close>

definition create_exclusive :: "string \<Rightarrow> string \<Rightarrow> files \<Rightarrow> files result" where
  "create_exclusive path text fs =
     (case fs path of Some _ \<Rightarrow> Inl (FileExistsError path) | None \<Rightarrow> Inr (fs(path \<mapsto> text)))"

text \<open>\<open>path.open("a")\<close>: append, creating the file if it is missing.\<close>

definition append_text :: "string \<Rightarrow> string \<Rightarrow> files \<Rightarrow> files" where
  "append_text path text fs = fs(path \<mapsto> (case fs path of None \<Rightarrow> [] | Some old \<Rightarrow> old) @ text)"

lemma append_text_same [simp]: "fs path = Some old \<Longrightarrow> append_text path text fs path = Some (old @ text)"
  by (simp add: append_text_def)

lemma append_text_other [simp]: "q \<noteq> path \<Longrightarrow> append_text path text fs q = fs q"
  by (simp add: append_text_def)

lemma create_exclusive_Inr:
  "create_exclusive path text fs = Inr fs' \<longleftrightarrow> fs path = None \<and> fs' = fs(path \<mapsto> text)"
  by (auto simp: create_exclusive_def split: option.splits)

section \<open>Strict JSON output\<close>

text \<open>\<open>json.dumps(..., allow_nan=False)\<close> raises on a non-finite float; the text it produces
  otherwise is the parameter \<open>dumps\<close>.\<close>

fun json_finite :: "json \<Rightarrow> bool" where
  "json_finite (JFloat f) = is_finite f"
| "json_finite (JArr js) = list_all json_finite js"
| "json_finite (JObj fs) = list_all (\<lambda>p. json_finite (snd p)) fs"
| "json_finite _ = True"

definition dumps_strict :: "(json \<Rightarrow> string) \<Rightarrow> json \<Rightarrow> string result" where
  "dumps_strict dumps j =
     (if json_finite j then Inr (dumps j)
      else Inl (ValueError ''Out of range float values are not JSON compliant''))"

section \<open>The queue\<close>

datatype 'a queued = Item 'a | STOP

record 'a bqueue =
  maxsize :: nat
  entries :: "'a queued list"
  putters :: "'a queued list"

definition new_queue :: "nat \<Rightarrow> 'a bqueue" where
  "new_queue n = \<lparr>maxsize = n, entries = [], putters = []\<rparr>"

definition full :: "'a bqueue \<Rightarrow> bool" where
  "full q \<longleftrightarrow> length (entries q) \<ge> maxsize q"

text \<open>\<open>put_nowait\<close>: \<open>None\<close> is \<open>QueueFull\<close>.\<close>

definition put_nowait :: "'a queued \<Rightarrow> 'a bqueue \<Rightarrow> 'a bqueue option" where
  "put_nowait x q = (if full q then None else Some (q\<lparr>entries := entries q @ [x]\<rparr>))"

text \<open>\<open>await put\<close>: at once if there is room, else the caller waits; \<open>resume_put\<close> lets the
  \<open>k\<close>-th waiting caller retry, which the event loop may do in any order.\<close>

definition put_wait :: "'a queued \<Rightarrow> 'a bqueue \<Rightarrow> 'a bqueue" where
  "put_wait x q = (if full q then q\<lparr>putters := putters q @ [x]\<rparr> else q\<lparr>entries := entries q @ [x]\<rparr>)"

definition resume_put :: "nat \<Rightarrow> 'a bqueue \<Rightarrow> 'a queued option \<times> 'a bqueue" where
  "resume_put k q =
     (if full q \<or> k \<ge> length (putters q) then (None, q)
      else (Some (putters q ! k),
            q\<lparr>entries := entries q @ [putters q ! k],
              putters := take k (putters q) @ drop (Suc k) (putters q)\<rparr>))"

text \<open>The inner loop of both workers: take what is there, up to the batch size, and stop at
  the sentinel.\<close>

fun fill_batch :: "nat \<Rightarrow> 'a list \<Rightarrow> 'a queued list \<Rightarrow> 'a list \<times> bool \<times> 'a queued list" where
  "fill_batch n batch [] = (batch, False, [])"
| "fill_batch n batch (x # xs) =
     (if length batch < n
      then case x of STOP \<Rightarrow> (batch, True, xs) | Item a \<Rightarrow> fill_batch n (batch @ [a]) xs
      else (batch, False, x # xs))"

fun items :: "'a queued list \<Rightarrow> 'a list" where
  "items [] = []"
| "items (Item a # xs) = a # items xs"
| "items (STOP # xs) = items xs"

lemma items_append [simp]: "items (xs @ ys) = items xs @ items ys"
  by (induction xs rule: items.induct) auto

lemma items_map_Item [simp]: "items (map Item xs) = xs"
  by (induction xs) auto

lemma no_stop_items: "STOP \<notin> set xs \<Longrightarrow> map Item (items xs) = xs"
  by (induction xs rule: items.induct) auto

lemma fill_batch_flow:
  "fill_batch n b xs = (b', stop, rest) \<Longrightarrow> b' @ items rest = b @ items xs"
proof (induction n b xs rule: fill_batch.induct)
  case (2 n b x xs)
  then show ?case by (cases x) (auto split: if_splits)
qed auto

lemma fill_batch_stop:
  "fill_batch n b xs = (b', stop, rest) \<Longrightarrow> stop \<Longrightarrow> \<exists>pre. xs = map Item pre @ STOP # rest \<and> b' = b @ pre"
proof (induction n b xs rule: fill_batch.induct)
  case (2 n b x xs)
  show ?case
  proof (cases x)
    case (Item a)
    then have "length b < n" "fill_batch n (b @ [a]) xs = (b', stop, rest)"
      using "2.prems" by (auto split: if_splits)
    then obtain pre where "xs = map Item pre @ STOP # rest" "b' = (b @ [a]) @ pre"
      using "2.IH" [OF _ Item] "2.prems"(2) by blast
    then show ?thesis using Item by (intro exI [of _ "a # pre"]) simp
  next
    case STOP
    then show ?thesis using "2.prems" by (intro exI [of _ "[]"]) (auto split: if_splits)
  qed
qed auto

lemma fill_batch_length:
  "fill_batch n b xs = (b', stop, rest) \<Longrightarrow> length rest \<le> length xs \<and> length b' \<le> max n (length b)"
proof (induction n b xs rule: fill_batch.induct)
  case (2 n b x xs)
  then show ?case by (cases x) (force split: if_splits)+
qed auto

lemma fill_batch_go_on:
  "fill_batch n b xs = (b', False, rest) \<Longrightarrow> \<exists>pre. xs = map Item pre @ rest \<and> b' = b @ pre"
proof (induction n b xs rule: fill_batch.induct)
  case (2 n b x xs)
  show ?case
  proof (cases "length b < n")
    case True
    then obtain a where a: "x = Item a" "fill_batch n (b @ [a]) xs = (b', False, rest)"
      using "2.prems" by (cases x) auto
    then obtain pre where "xs = map Item pre @ rest" "b' = (b @ [a]) @ pre"
      using "2.IH" [OF True] by blast
    then show ?thesis using a by (intro exI [of _ "a # pre"]) simp
  qed (use 2 in auto)
qed auto

section \<open>Interface: a sink\<close>

text \<open>What the steps of a run contribute, each in the state it is taken in.\<close>

fun gather :: "('s \<Rightarrow> 'e \<Rightarrow> 's) \<Rightarrow> ('s \<Rightarrow> 'e \<Rightarrow> 'a list) \<Rightarrow> 's \<Rightarrow> 'e list \<Rightarrow> 'a list" where
  "gather step out s [] = []"
| "gather step out s (e # es) = out s e @ gather step out (step s e) es"

lemma gather_hom:
  assumes "f [] = []" "\<And>a b. f (a @ b) = f a @ f b"
  shows "gather step (\<lambda>s e. f (out s e)) s es = f (gather step out s es)"
  by (induction es arbitrary: s) (simp_all add: assms)

text \<open>
  A sink accepts pieces of text and moves them through a queue and a batch in flight into a
  file. The law is per step: what is stored, in flight and queued, read in that order, grows at
  its end by what the step accepted. It follows for any run that the stored text is a prefix
  of the accepted text, and all of it once queue and batch are empty.
\<close>

locale sink =
  fixes step :: "'s \<Rightarrow> 'e \<Rightarrow> 's"
    and inv :: "'s \<Rightarrow> bool"
    and ok :: "'e \<Rightarrow> bool"
    and stored :: "'s \<Rightarrow> string"
    and moving :: "'s \<Rightarrow> string"
    and accepted :: "'s \<Rightarrow> 'e \<Rightarrow> string"
  assumes inv_step: "inv s \<Longrightarrow> ok e \<Longrightarrow> inv (step s e)"
    and flow: "inv s \<Longrightarrow> ok e \<Longrightarrow> stored (step s e) @ moving (step s e) = stored s @ moving s @ accepted s e"
begin

lemma run_flow:
  "inv s \<Longrightarrow> list_all ok es \<Longrightarrow>
     inv (foldl step s es) \<and>
     stored (foldl step s es) @ moving (foldl step s es) = stored s @ moving s @ gather step accepted s es"
proof (induction es arbitrary: s)
  case (Cons e es)
  then show ?case using inv_step [of s e] flow [of s e] by simp
qed simp

end

end
