(* ===== verification/Registry.thy ===== *)
theory Registry
  imports Protocol
begin

text \<open>
  The node registry (\<^verbatim>\<open>src/gateway/registry.py\<close>): per-node sequence classification,
  connection counts and liveness. \<open>nodes\<close> is the ordered dictionary of the code; a
  \<open>NodeRecord\<close> is mutated in place there and stored back here. The liveness thresholds are
  computed in floats, as the code computes them.
\<close>

section \<open>Data model\<close>

datatype health_status = ONLINE | SUSPECT | OFFLINE

fun health_value :: "health_status \<Rightarrow> string" where
  "health_value ONLINE = ''ONLINE''"
| "health_value SUSPECT = ''SUSPECT''"
| "health_value OFFLINE = ''OFFLINE''"

datatype sequence_status = FIRST | IN_ORDER | GAP | DUPLICATE | OUT_OF_ORDER | RESET

fun sequence_value :: "sequence_status \<Rightarrow> string" where
  "sequence_value FIRST = ''FIRST''"
| "sequence_value IN_ORDER = ''IN_ORDER''"
| "sequence_value GAP = ''GAP''"
| "sequence_value DUPLICATE = ''DUPLICATE''"
| "sequence_value OUT_OF_ORDER = ''OUT_OF_ORDER''"
| "sequence_value RESET = ''RESET''"

record health_transition =
  ht_node_id :: string
  ht_previous :: "health_status option"
  ht_current :: health_status
  ht_timestamp_ms :: int

record sensor_values =
  sv_temperature_c :: pyfloat
  sv_humidity_pct :: pyfloat
  sv_pressure_hpa :: pyfloat

record node_record =
  nr_node_id :: string
  nr_node_kind :: node_kind
  connected :: bool
  active_connections :: int
  first_seen_ms :: int
  last_seen_ms :: int
  last_seen_monotonic_ns :: int
  last_sequence :: int
  messages_received :: int
  estimated_messages_missing :: int
  duplicates :: int
  out_of_order :: int
  sequence_resets :: int
  latest_sensor_values :: "sensor_values option"
  health_status :: health_status
  nr_transitions :: "health_transition list"

record node_registry =
  expected_interval_seconds :: pyfloat
  suspect_after_intervals :: pyfloat
  offline_after_intervals :: pyfloat
  nodes :: "(string, node_record) dict"
  transitions :: "health_transition list"

section \<open>Operations\<close>

definition NodeRegistry :: "pyfloat \<Rightarrow> pyfloat \<Rightarrow> pyfloat \<Rightarrow> node_registry result" where
  "NodeRegistry expected suspect offline =
     (if fle expected (Fin 0) then Inl (ValueError ''expected_interval_seconds must be positive'')
      else if fle suspect (Fin 0) then Inl (ValueError ''suspect_after_intervals must be positive'')
      else if fle offline suspect then Inl (ValueError ''offline threshold must exceed suspect threshold'')
      else Inr \<lparr>expected_interval_seconds = expected, suspect_after_intervals = suspect,
                offline_after_intervals = offline, nodes = [], transitions = []\<rparr>)"

fun sensor_values_of :: "sensor_message \<Rightarrow> sensor_values option" where
  "sensor_values_of (Heartbeat h) = None"
| "sensor_values_of (Reading r) =
     Some \<lparr>sv_temperature_c = temperature_c r, sv_humidity_pct = humidity_pct r,
           sv_pressure_hpa = pressure_hpa r\<rparr>"

definition classify_sequence :: "node_record \<Rightarrow> int \<Rightarrow> sequence_status \<times> node_record" where
  "classify_sequence r s =
     (if s = last_sequence r then (DUPLICATE, r\<lparr>duplicates := duplicates r + 1\<rparr>)
      else if s > last_sequence r then
        (let missing = s - last_sequence r - 1; r' = r\<lparr>last_sequence := s\<rparr>
         in if missing \<noteq> 0
            then (GAP, r'\<lparr>estimated_messages_missing := estimated_messages_missing r' + missing\<rparr>)
            else (IN_ORDER, r'))
      else if s = 0 then
        (RESET, r\<lparr>sequence_resets := sequence_resets r + 1, last_sequence := s\<rparr>)
      else (OUT_OF_ORDER, r\<lparr>out_of_order := out_of_order r + 1\<rparr>))"

text \<open>\<open>_transition\<close> returns the transition and the record with its own history extended; the
  caller stores the record back and appends the transition to the registry's history.\<close>

definition transition ::
  "node_record \<Rightarrow> health_status \<Rightarrow> int \<Rightarrow> bool \<Rightarrow> health_transition \<times> node_record" where
  "transition r current t initial =
     (let tr = \<lparr>ht_node_id = nr_node_id r,
                ht_previous = (if initial then None else Some (health_status r)),
                ht_current = current, ht_timestamp_ms = t\<rparr>
      in (tr, r\<lparr>health_status := current, nr_transitions := nr_transitions r @ [tr]\<rparr>))"

definition new_record :: "sensor_message \<Rightarrow> int \<Rightarrow> int \<Rightarrow> node_record" where
  "new_record m at_ms mono_ns =
     \<lparr>nr_node_id = msg_node_id m, nr_node_kind = msg_node_kind m, connected = False,
      active_connections = 0, first_seen_ms = at_ms, last_seen_ms = at_ms,
      last_seen_monotonic_ns = mono_ns, last_sequence = msg_sequence m, messages_received = 1,
      estimated_messages_missing = 0, duplicates = 0, out_of_order = 0, sequence_resets = 0,
      latest_sensor_values = sensor_values_of m, health_status = ONLINE, nr_transitions = []\<rparr>"

definition store_record ::
  "node_registry \<Rightarrow> string \<Rightarrow> node_record \<Rightarrow> health_transition list \<Rightarrow> node_registry" where
  "store_record reg n r trs =
     reg\<lparr>nodes := dict_set n r (nodes reg), transitions := transitions reg @ trs\<rparr>"

definition update_seen :: "node_record \<Rightarrow> sensor_message \<Rightarrow> int \<Rightarrow> int \<Rightarrow> node_record" where
  "update_seen r m at_ms mono_ns =
     r\<lparr>messages_received := messages_received r + 1, nr_node_kind := msg_node_kind m,
       last_seen_ms := at_ms, last_seen_monotonic_ns := mono_ns,
       latest_sensor_values :=
         (case sensor_values_of m of None \<Rightarrow> latest_sensor_values r | Some v \<Rightarrow> Some v)\<rparr>"

definition observe ::
  "node_registry \<Rightarrow> sensor_message \<Rightarrow> int \<Rightarrow> int \<Rightarrow> sequence_status \<times> node_registry" where
  "observe reg m at_ms mono_ns =
     (case dict_get (nodes reg) (msg_node_id m) of
        None \<Rightarrow>
          (let (tr, r) = transition (new_record m at_ms mono_ns) ONLINE at_ms True
           in (FIRST, store_record reg (msg_node_id m) r [tr]))
      | Some r0 \<Rightarrow>
          (let previous_health = health_status r0;
               (st, r1) = classify_sequence r0 (msg_sequence m);
               r2 = update_seen r1 m at_ms mono_ns
           in if previous_health \<noteq> ONLINE
              then let (tr, r3) = transition r2 ONLINE at_ms False in (st, store_record reg (msg_node_id m) r3 [tr])
              else (st, store_record reg (msg_node_id m) r2 [])))"

definition connection_opened :: "node_registry \<Rightarrow> string \<Rightarrow> node_registry result" where
  "connection_opened reg n =
     (case dict_get (nodes reg) n of
        None \<Rightarrow> Inl (KeyError n)
      | Some r \<Rightarrow> Inr (store_record reg n
          (r\<lparr>active_connections := active_connections r + 1, connected := True\<rparr>) []))"

definition connection_closed :: "node_registry \<Rightarrow> string \<Rightarrow> node_registry" where
  "connection_closed reg n =
     (case dict_get (nodes reg) n of
        None \<Rightarrow> reg
      | Some r \<Rightarrow>
          (let a = max 0 (active_connections r - 1)
           in store_record reg n (r\<lparr>active_connections := a, connected := (a > 0)\<rparr>) []))"

definition threshold_ns :: "node_registry \<Rightarrow> pyfloat \<Rightarrow> int result" where
  "threshold_ns reg after = py_int (fmul (fmul (expected_interval_seconds reg) after) (Fin 1000000000))"

definition target_health :: "int \<Rightarrow> int \<Rightarrow> int \<Rightarrow> health_status" where
  "target_health suspect_ns offline_ns elapsed_ns =
     (if elapsed_ns \<ge> offline_ns then OFFLINE
      else if elapsed_ns \<ge> suspect_ns then SUSPECT else ONLINE)"

definition refresh_node ::
  "int \<Rightarrow> int \<Rightarrow> int \<Rightarrow> int \<Rightarrow> node_record \<Rightarrow> health_transition list \<times> node_record" where
  "refresh_node suspect_ns offline_ns mono_ns wall_ms r =
     (let target = target_health suspect_ns offline_ns (mono_ns - last_seen_monotonic_ns r)
      in if target \<noteq> health_status r
         then let (tr, r') = transition r target wall_ms False in ([tr], r')
         else ([], r))"

definition refresh_health ::
  "node_registry \<Rightarrow> int \<Rightarrow> int \<Rightarrow> (health_transition list \<times> node_registry) result" where
  "refresh_health reg mono_ns wall_ms =
     rbind (threshold_ns reg (suspect_after_intervals reg)) (\<lambda>suspect_ns.
     rbind (threshold_ns reg (offline_after_intervals reg)) (\<lambda>offline_ns.
       let step = refresh_node suspect_ns offline_ns mono_ns wall_ms;
           changed = concat (map (\<lambda>(k, r). fst (step r)) (nodes reg))
       in Inr (changed,
               reg\<lparr>nodes := map (\<lambda>(k, r). (k, snd (step r))) (nodes reg),
                   transitions := transitions reg @ changed\<rparr>)))"

section \<open>Invariant\<close>

text \<open>The order of degradation: a node never heard of again goes ONLINE, SUSPECT, OFFLINE.\<close>

fun health_rank :: "health_status \<Rightarrow> nat" where
  "health_rank ONLINE = 0"
| "health_rank SUSPECT = 1"
| "health_rank OFFLINE = 2"

instantiation health_status :: linorder
begin

definition less_eq_health_status :: "health_status \<Rightarrow> health_status \<Rightarrow> bool" where
  "less_eq_health_status a b \<longleftrightarrow> health_rank a \<le> health_rank b"

definition less_health_status :: "health_status \<Rightarrow> health_status \<Rightarrow> bool" where
  "less_health_status a b \<longleftrightarrow> health_rank a < health_rank b"

instance
proof
  fix a b :: health_status
  show "a \<le> b \<Longrightarrow> b \<le> a \<Longrightarrow> a = b"
    by (cases a; cases b) (simp_all add: less_eq_health_status_def)
qed (auto simp: less_eq_health_status_def less_health_status_def)

end

text \<open>A node's history is a chain: the first transition has no predecessor, each later one
  starts where the one before ended, and no transition stays in place.\<close>

fun chained :: "health_status option \<Rightarrow> health_transition list \<Rightarrow> bool" where
  "chained p [] = True"
| "chained p (t # ts) =
     (ht_previous t = p \<and> p \<noteq> Some (ht_current t) \<and> chained (Some (ht_current t)) ts)"

lemma chained_snoc:
  "chained p (ts @ [t]) \<longleftrightarrow>
     chained p ts \<and> ht_previous t = (if ts = [] then p else Some (ht_current (last ts))) \<and>
     ht_previous t \<noteq> Some (ht_current t)"
  by (induction ts arbitrary: p) auto

definition history_ok :: "string \<Rightarrow> node_record \<Rightarrow> bool" where
  "history_ok n r \<longleftrightarrow> nr_transitions r \<noteq> [] \<and> chained None (nr_transitions r) \<and>
     ht_current (hd (nr_transitions r)) = ONLINE \<and>
     health_status r = ht_current (last (nr_transitions r)) \<and>
     list_all (\<lambda>t. ht_node_id t = n) (nr_transitions r)"

definition counters_ok :: "node_record \<Rightarrow> bool" where
  "counters_ok r \<longleftrightarrow> 0 \<le> active_connections r \<and> (connected r \<longleftrightarrow> 0 < active_connections r) \<and>
     0 \<le> duplicates r \<and> 0 \<le> out_of_order r \<and> 0 \<le> sequence_resets r \<and>
     0 \<le> estimated_messages_missing r \<and> 0 \<le> last_sequence r \<and>
     duplicates r + out_of_order r + sequence_resets r < messages_received r"

definition record_ok :: "string \<Rightarrow> node_record \<Rightarrow> bool" where
  "record_ok n r \<longleftrightarrow> nr_node_id r = n \<and> counters_ok r \<and> history_ok n r"

definition registry_ok :: "node_registry \<Rightarrow> bool" where
  "registry_ok reg \<longleftrightarrow> distinct (map fst (nodes reg)) \<and>
     (\<forall>(n, r) \<in> set (nodes reg). record_ok n r \<and>
        nr_transitions r = filter (\<lambda>t. ht_node_id t = n) (transitions reg)) \<and>
     (\<forall>t \<in> set (transitions reg). ht_node_id t \<in> fst ` set (nodes reg))"

lemmas record_ok_defs = record_ok_def counters_ok_def history_ok_def

lemma registry_okD:
  assumes "registry_ok reg" "dict_get (nodes reg) n = Some r"
  shows "record_ok n r" "nr_transitions r = filter (\<lambda>t. ht_node_id t = n) (transitions reg)"
  using assms dict_get_in [OF assms(2)] by (auto simp: registry_ok_def)

lemma registry_ok_unseen:
  assumes "registry_ok reg" "dict_get (nodes reg) n = None"
  shows "filter (\<lambda>t. ht_node_id t = n) (transitions reg) = []"
  using assms dict_get_NoneD [OF assms(2)] by (auto simp: registry_ok_def filter_empty_conv)

text \<open>Storing a record back keeps the invariant when the record is well formed, its history
  grew by exactly the transitions appended to the registry, and these are its own.\<close>

lemma store_record_ok:
  assumes reg: "registry_ok reg" and r: "record_ok n r"
    and hist: "nr_transitions r = filter (\<lambda>t. ht_node_id t = n) (transitions reg) @ trs"
    and own: "list_all (\<lambda>t. ht_node_id t = n) trs"
  shows "registry_ok (store_record reg n r trs)"
proof -
  have other: "filter (\<lambda>t. ht_node_id t = k) trs = []" if "k \<noteq> n" for k
    using own that by (auto simp: filter_empty_conv list_all_iff)
  have self: "filter (\<lambda>t. ht_node_id t = n) trs = trs"
    using own by (auto simp: filter_id_conv list_all_iff)
  have rest: "record_ok k v \<and> nr_transitions v = filter (\<lambda>t. ht_node_id t = k) (transitions reg @ trs)"
    if "(k, v) \<in> set (dict_set n r (nodes reg))" for k v
  proof (cases "k = n")
    case True
    have "distinct (map fst (dict_set n r (nodes reg)))"
      using reg by (simp add: registry_ok_def)
    then have "dict_get (dict_set n r (nodes reg)) k = Some v"
      using that by (rule dict_values_get)
    with True have "v = r" by simp
    with True show ?thesis using r hist self by simp
  next
    case False
    then have "(k, v) \<in> set (nodes reg)" using that dict_set_in by fastforce
    then show ?thesis using reg False other by (auto simp: registry_ok_def)
  qed
  have keys: "fst ` set (dict_set n r (nodes reg)) = insert n (fst ` set (nodes reg))"
    using dom_update [of n r "nodes reg"] by simp
  show ?thesis
    using reg rest own keys
    by (auto simp: registry_ok_def store_record_def list_all_iff)
qed

lemma classify_sequence_frame:
  assumes "classify_sequence r s = (st, r')"
  shows "nr_node_id r' = nr_node_id r" "nr_transitions r' = nr_transitions r"
    "health_status r' = health_status r" "active_connections r' = active_connections r"
    "connected r' = connected r" "messages_received r' = messages_received r"
  using assms by (auto simp: classify_sequence_def Let_def split: if_splits)

lemma classify_sequence_counters:
  assumes "counters_ok r" "0 \<le> s" "classify_sequence r s = (st, r')"
  shows "counters_ok (update_seen r' m at_ms mono_ns)"
  using assms by (auto simp: classify_sequence_def counters_ok_def update_seen_def Let_def split: if_splits)

lemma update_seen_frame [simp]:
  "nr_node_id (update_seen r m a b) = nr_node_id r"
  "nr_transitions (update_seen r m a b) = nr_transitions r"
  "health_status (update_seen r m a b) = health_status r"
  "last_sequence (update_seen r m a b) = last_sequence r"
  "messages_received (update_seen r m a b) = messages_received r + 1"
  "duplicates (update_seen r m a b) = duplicates r"
  "out_of_order (update_seen r m a b) = out_of_order r"
  "sequence_resets (update_seen r m a b) = sequence_resets r"
  "estimated_messages_missing (update_seen r m a b) = estimated_messages_missing r"
  "last_seen_monotonic_ns (update_seen r m a b) = b"
  "active_connections (update_seen r m a b) = active_connections r"
  "connected (update_seen r m a b) = connected r"
  by (simp_all add: update_seen_def)

lemma transition_history:
  assumes "history_ok n r" "nr_node_id r = n" "transition r h t False = (tr, r')" "h \<noteq> health_status r"
  shows "history_ok n r'" "nr_transitions r' = nr_transitions r @ [tr]" "ht_node_id tr = n"
  using assms by (auto simp: transition_def history_ok_def chained_snoc Let_def)

lemma transition_frame:
  assumes "transition r h t init = (tr, r')"
  shows "nr_node_id r' = nr_node_id r" "counters_ok r' = counters_ok r" "health_status r' = h"
    "last_seen_monotonic_ns r' = last_seen_monotonic_ns r"
    "active_connections r' = active_connections r" "connected r' = connected r"
    "messages_received r' = messages_received r" "duplicates r' = duplicates r"
    "out_of_order r' = out_of_order r" "sequence_resets r' = sequence_resets r"
    "estimated_messages_missing r' = estimated_messages_missing r"
    "last_sequence r' = last_sequence r"
  using assms by (auto simp: transition_def counters_ok_def Let_def)

lemma valid_message_sequence: "valid_message m \<Longrightarrow> 0 \<le> msg_sequence m"
  by (cases m) (auto simp: valid_reading_def valid_base_def)

lemma observe_ok:
  assumes reg: "registry_ok reg" and m: "valid_message m"
  shows "registry_ok (snd (observe reg m at_ms mono_ns))"
proof (cases "dict_get (nodes reg) (msg_node_id m)")
  case None
  obtain tr r where tr: "transition (new_record m at_ms mono_ns) ONLINE at_ms True = (tr, r)"
    by fastforce
  have "record_ok (msg_node_id m) r" "nr_transitions r = [tr]" "ht_node_id tr = msg_node_id m"
    using tr valid_message_sequence [OF m]
    by (auto simp: record_ok_defs transition_def new_record_def Let_def)
  then show ?thesis
    using None tr registry_ok_unseen [OF reg None]
    by (auto simp: observe_def intro!: store_record_ok [OF reg])
next
  case (Some r0)
  note r0 = registry_okD [OF reg Some]
  obtain st r1 where cl: "classify_sequence r0 (msg_sequence m) = (st, r1)" by fastforce
  let ?r2 = "update_seen r1 m at_ms mono_ns"
  have cnt: "counters_ok ?r2"
    using r0(1) valid_message_sequence [OF m] cl
    by (intro classify_sequence_counters) (auto simp: record_ok_def)
  have hist: "history_ok (msg_node_id m) ?r2" "nr_node_id ?r2 = msg_node_id m"
    using r0(1) classify_sequence_frame [OF cl] by (auto simp: record_ok_def history_ok_def)
  show ?thesis
  proof (cases "health_status r0 = ONLINE")
    case True
    then show ?thesis
      using Some cl cnt hist r0(2) classify_sequence_frame [OF cl]
      by (auto simp: observe_def record_ok_def intro!: store_record_ok [OF reg])
  next
    case False
    obtain tr r3 where tr: "transition ?r2 ONLINE at_ms False = (tr, r3)" by fastforce
    have "ONLINE \<noteq> health_status ?r2" using False classify_sequence_frame [OF cl] by auto
    note h3 = transition_history [OF hist tr this] transition_frame [OF tr]
    show ?thesis
      using Some cl cnt hist r0(2) classify_sequence_frame [OF cl] False tr h3
      by (auto simp: observe_def record_ok_def intro!: store_record_ok [OF reg])
  qed
qed

lemma connection_opened_ok:
  assumes "registry_ok reg" "connection_opened reg n = Inr reg'"
  shows "registry_ok reg'"
proof -
  obtain r where r: "dict_get (nodes reg) n = Some r"
    and reg': "reg' = store_record reg n (r\<lparr>active_connections := active_connections r + 1, connected := True\<rparr>) []"
    using assms(2) by (auto simp: connection_opened_def split: option.splits)
  note ok = registry_okD [OF assms(1) r]
  show ?thesis unfolding reg'
    using ok by (intro store_record_ok [OF assms(1)]) (auto simp: record_ok_defs)
qed

lemma connection_closed_ok:
  assumes "registry_ok reg"
  shows "registry_ok (connection_closed reg n)"
proof (cases "dict_get (nodes reg) n")
  case None
  then show ?thesis using assms by (simp add: connection_closed_def)
next
  case (Some r)
  note ok = registry_okD [OF assms Some]
  show ?thesis using ok Some
    by (auto simp: connection_closed_def Let_def record_ok_defs intro!: store_record_ok [OF assms])
qed

lemma refresh_node_ok:
  assumes "record_ok n r" "refresh_node sus off now wall r = (trs, r')"
  shows "record_ok n r'" "nr_transitions r' = nr_transitions r @ trs"
    "list_all (\<lambda>t. ht_node_id t = n) trs"
    "health_status r' = target_health sus off (now - last_seen_monotonic_ns r)"
    "last_seen_monotonic_ns r' = last_seen_monotonic_ns r"
  using assms
  by (auto simp: refresh_node_def transition_def record_ok_defs chained_snoc Let_def split: if_splits)

lemma filter_concat_own:
  assumes "distinct (map fst xs)" "\<And>k v. (k, v) \<in> set xs \<Longrightarrow> list_all (\<lambda>t. ht_node_id t = k) (f v)"
  shows "filter (\<lambda>t. ht_node_id t = n) (concat (map (\<lambda>(k, v). f v) xs)) =
    (case map_of xs n of None \<Rightarrow> [] | Some v \<Rightarrow> f v)"
  using assms
proof (induction xs)
  case (Cons p xs)
  obtain k v where p: "p = (k, v)" by fastforce
  have kv: "list_all (\<lambda>t. ht_node_id t = k) (f v)" using Cons.prems(2) p by simp
  have IH: "filter (\<lambda>t. ht_node_id t = n) (concat (map (\<lambda>(k, v). f v) xs)) =
      (case map_of xs n of None \<Rightarrow> [] | Some v \<Rightarrow> f v)"
    using Cons by simp
  show ?case
  proof (cases "n = k")
    case True
    then have "map_of xs n = None" using Cons.prems(1) p by (simp add: map_of_eq_None_iff)
    then show ?thesis using True IH kv p by (auto simp: filter_id_conv list_all_iff)
  next
    case False
    then have "filter (\<lambda>t. ht_node_id t = n) (f v) = []"
      using kv by (auto simp: filter_empty_conv list_all_iff)
    then show ?thesis using False IH p by simp
  qed
qed simp

lemma refresh_health_ok:
  assumes reg: "registry_ok reg" and res: "refresh_health reg now wall = Inr (changed, reg')"
  shows "registry_ok reg'"
proof -
  obtain sus off where ch: "changed = concat (map (\<lambda>(k, r). fst (refresh_node sus off now wall r)) (nodes reg))"
    and reg': "reg' = reg\<lparr>nodes := map (\<lambda>(k, r). (k, snd (refresh_node sus off now wall r))) (nodes reg),
        transitions := transitions reg @ changed\<rparr>"
    using res by (auto simp: refresh_health_def Let_def rbind_eq_Inr_iff)
  let ?step = "refresh_node sus off now wall"
  have keys: "map fst (map (\<lambda>(k, r). (k, snd (?step r))) (nodes reg)) = map fst (nodes reg)"
    by (simp add: case_prod_beta comp_def)
  have dist: "distinct (map fst (nodes reg))" using reg by (simp add: registry_ok_def)
  have own: "list_all (\<lambda>t. ht_node_id t = k) (fst (?step v))" if "(k, v) \<in> set (nodes reg)" for k v
    using reg that refresh_node_ok(3) [of k v sus off now wall "fst (?step v)" "snd (?step v)"]
    by (auto simp: registry_ok_def)
  have each: "record_ok k (snd (?step r)) \<and> nr_transitions (snd (?step r)) =
      filter (\<lambda>t. ht_node_id t = k) (transitions reg @ changed)" if kr: "(k, r) \<in> set (nodes reg)" for k r
  proof -
    have "filter (\<lambda>t. ht_node_id t = k) changed = fst (?step r)"
      unfolding ch using filter_concat_own [OF dist, of "\<lambda>r. fst (?step r)" k] own
        dict_values_get [OF dist kr] by simp
    moreover have "record_ok k r" "nr_transitions r = filter (\<lambda>t. ht_node_id t = k) (transitions reg)"
      using reg kr by (auto simp: registry_ok_def)
    ultimately show ?thesis
      using refresh_node_ok(1,2) [of k r sus off now wall "fst (?step r)" "snd (?step r)"] by simp
  qed
  have "ht_node_id t \<in> fst ` set (nodes reg)" if "t \<in> set changed" for t
    using that own unfolding ch by (force simp: list_all_iff)
  then show ?thesis
    using reg each dist keys unfolding registry_ok_def reg'
    by (auto simp: image_image case_prod_beta comp_def)
qed

section \<open>The registry as a machine\<close>

datatype registry_event =
    Observe sensor_message int int
  | Opened string
  | Closed string
  | Refresh int int

fun registry_step :: "node_registry \<Rightarrow> registry_event \<Rightarrow> node_registry" where
  "registry_step reg (Observe m at_ms mono_ns) = snd (observe reg m at_ms mono_ns)"
| "registry_step reg (Opened n) = (case connection_opened reg n of Inl _ \<Rightarrow> reg | Inr reg' \<Rightarrow> reg')"
| "registry_step reg (Closed n) = connection_closed reg n"
| "registry_step reg (Refresh mono_ns wall_ms) =
     (case refresh_health reg mono_ns wall_ms of Inl _ \<Rightarrow> reg | Inr (_, reg') \<Rightarrow> reg')"

fun registry_event_ok :: "registry_event \<Rightarrow> bool" where
  "registry_event_ok (Observe m _ _) = valid_message m"
| "registry_event_ok _ = True"

definition total_received :: "node_registry \<Rightarrow> int" where
  "total_received reg = (\<Sum>(k, r) \<leftarrow> nodes reg. messages_received r)"

fun observed :: "registry_event \<Rightarrow> int" where
  "observed (Observe _ _ _) = 1"
| "observed _ = 0"

lemma registry_step_ok: "registry_ok reg \<Longrightarrow> registry_event_ok e \<Longrightarrow> registry_ok (registry_step reg e)"
  by (cases e) (auto simp: observe_ok connection_closed_ok
      split: sum.splits intro: connection_opened_ok refresh_health_ok)

lemma total_dict_set:
  fixes f :: "'v \<Rightarrow> int"
  shows "distinct (map fst d) \<Longrightarrow>
   (\<Sum>(k, r) \<leftarrow> dict_set n v d. f r) = (\<Sum>(k, r) \<leftarrow> d. f r) + f v - (case dict_get d n of None \<Rightarrow> 0 | Some r \<Rightarrow> f r)"
  by (induction d) (auto simp: map_of_eq_None_iff split: option.splits)

lemma total_received_store:
  "registry_ok reg \<Longrightarrow> total_received (store_record reg n r trs) =
     total_received reg + messages_received r -
     (case dict_get (nodes reg) n of None \<Rightarrow> 0 | Some r0 \<Rightarrow> messages_received r0)"
  by (simp add: total_received_def store_record_def registry_ok_def total_dict_set)

lemma refresh_node_received: "messages_received (snd (refresh_node a b c d r)) = messages_received r"
  by (simp add: refresh_node_def transition_def Let_def)

lemma observe_total:
  assumes "registry_ok reg"
  shows "total_received (snd (observe reg m a b)) = total_received reg + 1"
proof (cases "dict_get (nodes reg) (msg_node_id m)")
  case None
  then show ?thesis using assms
    by (simp add: observe_def total_received_store transition_def new_record_def Let_def)
next
  case (Some r0)
  obtain st r1 where cl: "classify_sequence r0 (msg_sequence m) = (st, r1)" by fastforce
  obtain tr r3 where tr: "transition (update_seen r1 m a b) ONLINE a False = (tr, r3)" by fastforce
  show ?thesis using assms Some cl tr classify_sequence_frame(6) [OF cl] transition_frame(7) [OF tr]
    by (auto simp: observe_def total_received_store Let_def)
qed

lemma registry_step_total:
  assumes "registry_ok reg"
  shows "total_received (registry_step reg e) = total_received reg + observed e"
proof (cases e)
  case (Opened n)
  then show ?thesis using assms
    by (auto simp: connection_opened_def total_received_store split: option.splits)
next
  case (Closed n)
  then show ?thesis using assms
    by (auto simp: connection_closed_def total_received_store Let_def split: option.splits)
next
  case (Refresh now wall)
  have "(\<Sum>(k, r) \<leftarrow> map (\<lambda>(k, r). (k, snd (refresh_node a b now wall r))) xs. messages_received r) =
      (\<Sum>(k, r) \<leftarrow> xs. messages_received r)" for a b and xs :: "(string, node_record) dict"
    by (induction xs) (auto simp: refresh_node_received)
  then show ?thesis using Refresh
    by (auto simp: total_received_def refresh_health_def Let_def rbind_eq_Inr_iff split: sum.splits)
qed (simp add: observe_total assms)

interpretation reg: accounting registry_step registry_ok registry_event_ok total_received observed
  by unfold_locales (auto simp: registry_step_ok registry_step_total)

lemma NodeRegistry_ok: "NodeRegistry e s f = Inr reg \<Longrightarrow> registry_ok reg"
  by (auto simp: NodeRegistry_def registry_ok_def split: if_splits)

section \<open>What each operation does\<close>

lemma observe_other:
  "k \<noteq> msg_node_id m \<Longrightarrow> dict_get (nodes (snd (observe reg m a b))) k = dict_get (nodes reg) k"
  by (simp add: observe_def store_record_def Let_def case_prod_beta split: option.splits)

lemma observe_first:
  assumes "dict_get (nodes reg) (msg_node_id m) = None"
  shows "fst (observe reg m a b) = FIRST"
    and "\<exists>r. dict_get (nodes (snd (observe reg m a b))) (msg_node_id m) = Some r \<and>
      messages_received r = 1 \<and> duplicates r = 0 \<and> out_of_order r = 0 \<and> sequence_resets r = 0 \<and>
      estimated_messages_missing r = 0 \<and> last_sequence r = msg_sequence m \<and>
      health_status r = ONLINE \<and> last_seen_monotonic_ns r = b"
  using assms
  by (simp_all add: observe_def store_record_def new_record_def transition_def Let_def)

lemma observe_known:
  assumes "dict_get (nodes reg) (msg_node_id m) = Some r0"
    "classify_sequence r0 (msg_sequence m) = (st, r1)"
  shows "fst (observe reg m a b) = st"
    and "\<exists>r. dict_get (nodes (snd (observe reg m a b))) (msg_node_id m) = Some r \<and>
      messages_received r = messages_received r1 + 1 \<and> duplicates r = duplicates r1 \<and>
      out_of_order r = out_of_order r1 \<and> sequence_resets r = sequence_resets r1 \<and>
      estimated_messages_missing r = estimated_messages_missing r1 \<and>
      last_sequence r = last_sequence r1 \<and> health_status r = ONLINE \<and> last_seen_monotonic_ns r = b"
  using assms classify_sequence_frame [OF assms(2)]
  by (simp_all add: observe_def store_record_def transition_def Let_def)

text \<open>The messages of one node among the traffic of all, with the statuses returned for them.\<close>

fun observe_run ::
  "node_registry \<Rightarrow> (sensor_message \<times> int \<times> int) list \<Rightarrow> sequence_status list \<times> node_registry" where
  "observe_run reg [] = ([], reg)"
| "observe_run reg ((m, a, b) # ms) =
     (let (st, reg1) = observe reg m a b; (sts, reg2) = observe_run reg1 ms in (st # sts, reg2))"

definition statuses_of ::
  "string \<Rightarrow> (sensor_message \<times> int \<times> int) list \<Rightarrow> sequence_status list \<Rightarrow> sequence_status list" where
  "statuses_of n ms sts = map snd (filter (\<lambda>((m, _), _). msg_node_id m = n) (zip ms sts))"

lemma statuses_of_Nil [simp]: "statuses_of n [] sts = []"
  by (simp add: statuses_of_def)

lemma statuses_of_Cons [simp]:
  "statuses_of n ((m, ab) # ms) (st # sts) =
     (if msg_node_id m = n then st # statuses_of n ms sts else statuses_of n ms sts)"
  by (simp add: statuses_of_def)

definition advanced_by :: "node_record \<Rightarrow> node_record \<Rightarrow> sequence_status list \<Rightarrow> bool" where
  "advanced_by r r' sts \<longleftrightarrow>
     messages_received r' = messages_received r + int (length sts) \<and>
     duplicates r' = duplicates r + int (count_list sts DUPLICATE) \<and>
     out_of_order r' = out_of_order r + int (count_list sts OUT_OF_ORDER) \<and>
     sequence_resets r' = sequence_resets r + int (count_list sts RESET) \<and>
     FIRST \<notin> set sts \<and>
     (RESET \<notin> set sts \<longrightarrow>
        estimated_messages_missing r' - estimated_messages_missing r +
          int (count_list sts IN_ORDER) + int (count_list sts GAP) = last_sequence r' - last_sequence r)"

lemma classify_advanced:
  assumes "classify_sequence r s = (st, r1)" "messages_received r' = messages_received r1 + 1"
    "duplicates r' = duplicates r1" "out_of_order r' = out_of_order r1"
    "sequence_resets r' = sequence_resets r1"
    "estimated_messages_missing r' = estimated_messages_missing r1" "last_sequence r' = last_sequence r1"
  shows "advanced_by r r' [st]"
  using assms by (auto simp: classify_sequence_def advanced_by_def Let_def split: if_splits)

lemma advanced_by_trans:
  "advanced_by r r1 [st] \<Longrightarrow> advanced_by r1 r2 sts \<Longrightarrow> advanced_by r r2 (st # sts)"
  by (cases st) (auto simp: advanced_by_def)

lemma observe_run_known:
  assumes "dict_get (nodes reg) n = Some r" "observe_run reg ms = (sts, reg')"
  shows "\<exists>r'. dict_get (nodes reg') n = Some r' \<and> advanced_by r r' (statuses_of n ms sts)"
  using assms
proof (induction ms arbitrary: reg r sts)
  case Nil
  then show ?case by (auto simp: advanced_by_def)
next
  case (Cons x ms)
  obtain m a b where x: "x = (m, a, b)" by (cases x) auto
  obtain st reg1 where o: "observe reg m a b = (st, reg1)" by fastforce
  obtain sts' where rest: "observe_run reg1 ms = (sts', reg')" and sts: "sts = st # sts'"
    using Cons.prems(2) x o by (auto simp: Let_def split: prod.splits)
  show ?case
  proof (cases "msg_node_id m = n")
    case True
    obtain st' r0 where cl: "classify_sequence r (msg_sequence m) = (st', r0)" by fastforce
    obtain r1 where r1: "dict_get (nodes reg1) n = Some r1" "advanced_by r r1 [st]"
      using observe_known [of reg m r st' r0 a b] Cons.prems(1) True cl o
        classify_advanced [OF cl] by auto
    obtain r2 where "dict_get (nodes reg') n = Some r2" "advanced_by r1 r2 (statuses_of n ms sts')"
      using Cons.IH [OF r1(1) rest] by blast
    then show ?thesis using r1(2) True x sts advanced_by_trans by auto
  next
    case False
    then have "dict_get (nodes reg1) n = Some r"
      using observe_other [of n m reg a b] Cons.prems(1) o by auto
    then show ?thesis using Cons.IH [OF _ rest] False x sts by auto
  qed
qed

lemma threshold_value:
  assumes "threshold_ns reg f = Inr k" "expected_interval_seconds reg = Fin e" "f = Fin v"
  shows "k = trunc (rnd_double (rnd_double (e * v) * 1000000000))"
  using assms by (cases "fl (e * v)") (auto simp: threshold_ns_def fl_Fin_iff inf_of_sign_def
      fl_def Let_def split: if_splits)

lemma thresholds_ordered:
  assumes "threshold_ns reg (Fin s) = Inr a" "threshold_ns reg (Fin f) = Inr b"
    "expected_interval_seconds reg = Fin e" "0 \<le> e" "s \<le> f"
  shows "a \<le> b"
  using threshold_value [OF assms(1,3) refl] threshold_value [OF assms(2,3) refl] assms(4,5)
  by (auto intro!: trunc_mono binary64.rnd_scale_mono)

definition accepted_config :: "node_registry \<Rightarrow> bool" where
  "accepted_config reg \<longleftrightarrow>
     is_ok (NodeRegistry (expected_interval_seconds reg) (suspect_after_intervals reg) (offline_after_intervals reg)) \<and>
     is_finite (expected_interval_seconds reg) \<and> is_finite (suspect_after_intervals reg) \<and>
     is_finite (offline_after_intervals reg)"

lemma accepted_configE:
  assumes "accepted_config reg"
  obtains e s f where "expected_interval_seconds reg = Fin e" "suspect_after_intervals reg = Fin s"
    "offline_after_intervals reg = Fin f" "0 < e" "0 < s" "s < f"
  using assms by (auto simp: accepted_config_def is_finite_iff NodeRegistry_def split: if_splits)

lemma refresh_healthE:
  assumes "refresh_health reg now wall = Inr (changed, reg')"
  obtains sus off where "threshold_ns reg (suspect_after_intervals reg) = Inr sus"
    "threshold_ns reg (offline_after_intervals reg) = Inr off"
    "changed = concat (map (\<lambda>(k, r). fst (refresh_node sus off now wall r)) (nodes reg))"
    "nodes reg' = map (\<lambda>(k, r). (k, snd (refresh_node sus off now wall r))) (nodes reg)"
    "expected_interval_seconds reg' = expected_interval_seconds reg"
    "suspect_after_intervals reg' = suspect_after_intervals reg"
    "offline_after_intervals reg' = offline_after_intervals reg"
    "transitions reg' = transitions reg @ changed"
  using assms by (auto simp: refresh_health_def Let_def rbind_eq_Inr_iff)

lemma refresh_node_settled:
  "health_status (snd (refresh_node sus off now wall r)) = target_health sus off (now - last_seen_monotonic_ns r)"
  "last_seen_monotonic_ns (snd (refresh_node sus off now wall r)) = last_seen_monotonic_ns r"
  "refresh_node sus off now wall' (snd (refresh_node sus off now wall r)) = ([], snd (refresh_node sus off now wall r))"
  by (auto simp: refresh_node_def transition_def Let_def)

lemma target_health_mono:
  "sus \<le> off \<Longrightarrow> t \<le> t' \<Longrightarrow> target_health sus off t \<le> target_health sus off t'"
  by (auto simp: target_health_def less_eq_health_status_def)

section \<open>Properties\<close>

text \<open>C1: Whatever sequence of messages, connection openings and closings and liveness checks the
  registry goes through, it stays well formed: keys are distinct and match their records, every
  node's history is a chain that starts ONLINE and ends in its current health, connection counts
  are never negative and agree with the connected flag, error counters never exceed the messages
  received; and the messages received over all nodes are exactly the messages observed.\<close>

theorem registry_invariant:
  assumes "NodeRegistry e s f = Inr reg" "list_all registry_event_ok es"
  shows "registry_ok (foldl registry_step reg es) \<and>
    total_received (foldl registry_step reg es) = sum_list (map observed es)"
proof -
  have reg: "registry_ok reg" by (rule NodeRegistry_ok [OF assms(1)])
  have "total_received reg = 0"
    using assms(1) by (auto simp: NodeRegistry_def total_received_def split: if_splits)
  then show ?thesis
    using reg.run_inv [OF reg assms(2)] reg.run_total [OF reg assms(2)] by simp
qed

definition sample_reading :: "string \<Rightarrow> int \<Rightarrow> reading_message" where
  "sample_reading n s = \<lparr>version = 1, node_id = n, node_kind = Virtual, sequence = s, timestamp_ms = 0,
     temperature_c = Fin 22, humidity_pct = Fin 48, pressure_hpa = Fin 1013\<rparr>"

definition sample_registry :: node_registry where
  "sample_registry = \<lparr>expected_interval_seconds = Fin 1, suspect_after_intervals = Fin 3,
     offline_after_intervals = Fin 5, nodes = [], transitions = []\<rparr>"

lemma sample_registry_init: "NodeRegistry (Fin 1) (Fin 3) (Fin 5) = Inr sample_registry"
  by (simp add: NodeRegistry_def sample_registry_def)

lemma sample_reading_valid:
  "valid_reading (sample_reading ''n1'' 0)" "valid_reading (sample_reading ''n1'' 3)"
  "valid_reading (sample_reading ''n2'' 0)"
  by (simp_all add: sample_reading_def valid_reading_def valid_base_def node_id_ok_def
      matches_node_id_pattern_def is_alnum_def is_id_char_def str_len_def continuation_byte_def
      temperature_ok_def humidity_ok_def pressure_ok_def)

theorem registry_invariant_witness:
  "registry_ok (foldl registry_step sample_registry
     [Observe (Reading (sample_reading ''n1'' 0)) 0 0, Opened ''n1'', Refresh 4000000000 4000,
      Observe (Reading (sample_reading ''n1'' 3)) 5000 5000000000, Closed ''n1'']) \<and>
   total_received (foldl registry_step sample_registry
     [Observe (Reading (sample_reading ''n1'' 0)) 0 0, Opened ''n1'', Refresh 4000000000 4000,
      Observe (Reading (sample_reading ''n1'' 3)) 5000 5000000000, Closed ''n1'']) = 2"
  using registry_invariant [OF sample_registry_init, of "[Observe (Reading (sample_reading ''n1'' 0)) 0 0,
      Opened ''n1'', Refresh 4000000000 4000,
      Observe (Reading (sample_reading ''n1'' 3)) 5000 5000000000, Closed ''n1'']"]
  by (simp add: sample_reading_valid del: registry_step.simps)

text \<open>C2: Sequence accounting per node, with any other nodes' traffic interleaved: the first message
  is FIRST and no later one is; the record counts every message, every DUPLICATE, OUT_OF_ORDER and
  RESET exactly once; and as long as the node did not restart, the estimated missing messages are
  exactly the sequence numbers the node advanced over without delivering them in order.\<close>

theorem sequence_accounting:
  assumes "dict_get (nodes reg) n = None" "msg_node_id m = n"
    "observe_run reg ((m, a, b) # ms) = (sts, reg')"
  shows "\<exists>r ss. dict_get (nodes reg') n = Some r \<and>
    statuses_of n ((m, a, b) # ms) sts = FIRST # ss \<and> FIRST \<notin> set ss \<and>
    messages_received r = 1 + int (length ss) \<and>
    duplicates r = int (count_list ss DUPLICATE) \<and>
    out_of_order r = int (count_list ss OUT_OF_ORDER) \<and>
    sequence_resets r = int (count_list ss RESET) \<and>
    (RESET \<notin> set ss \<longrightarrow> estimated_messages_missing r =
       last_sequence r - msg_sequence m - int (count_list ss IN_ORDER) - int (count_list ss GAP))"
proof -
  obtain st reg1 sts' where o: "observe reg m a b = (st, reg1)"
    and rest: "observe_run reg1 ms = (sts', reg')" and sts: "sts = st # sts'"
    using assms(3) by (auto simp: Let_def split: prod.splits)
  obtain r0 where r0: "dict_get (nodes reg1) n = Some r0" "messages_received r0 = 1" "duplicates r0 = 0"
      "out_of_order r0 = 0" "sequence_resets r0 = 0" "estimated_messages_missing r0 = 0"
      "last_sequence r0 = msg_sequence m" and st: "st = FIRST"
    using observe_first [of reg m a b] assms(1,2) o by auto
  obtain r where r: "dict_get (nodes reg') n = Some r" "advanced_by r0 r (statuses_of n ms sts')"
    using observe_run_known [OF r0(1) rest] by blast
  show ?thesis
    using r r0 st sts assms(2)
    by (intro exI [of _ r] exI [of _ "statuses_of n ms sts'"]) (auto simp: advanced_by_def)
qed

theorem sequence_accounting_witness:
  "\<exists>r ss. dict_get (nodes (snd (observe_run sample_registry
      [(Reading (sample_reading ''n1'' 0), 0, 0), (Reading (sample_reading ''n1'' 3), 1, 1)]))) ''n1'' = Some r \<and>
    messages_received r = 1 + int (length ss) \<and> ss = [GAP] \<and> estimated_messages_missing r = 2"
proof -
  let ?ms = "[(Reading (sample_reading ''n1'' 0), 0, 0), (Reading (sample_reading ''n1'' 3), 1, 1)]"
  have run: "observe_run sample_registry ?ms = ([FIRST, GAP], snd (observe_run sample_registry ?ms))"
    by (simp add: sample_registry_def sample_reading_def observe_def store_record_def new_record_def
        transition_def classify_sequence_def Let_def)
  have "statuses_of ''n1'' ?ms [FIRST, GAP] = [FIRST, GAP]"
    by (simp add: sample_reading_def)
  moreover have "last_sequence (the (dict_get (nodes (snd (observe_run sample_registry ?ms))) ''n1'')) = 3"
    by (simp add: sample_registry_def sample_reading_def observe_def store_record_def new_record_def
        transition_def classify_sequence_def update_seen_def Let_def)
  ultimately show ?thesis
    using sequence_accounting [OF _ _ run, of "''n1''"]
    by (auto simp: sample_registry_def sample_reading_def)
qed


lemma sample_config: "accepted_config sample_registry"
  by (simp add: accepted_config_def sample_registry_def NodeRegistry_def)

definition sample_registry1 :: node_registry where
  "sample_registry1 = snd (observe sample_registry (Reading (sample_reading ''n1'' 0)) 0 0)"

lemma sample_registry1_refresh:
  "refresh_health sample_registry1 4000000000 4000 =
     Inr ([\<lparr>ht_node_id = ''n1'', ht_previous = Some ONLINE, ht_current = SUSPECT, ht_timestamp_ms = 4000\<rparr>],
          snd (projr (refresh_health sample_registry1 4000000000 4000)))"
  by (simp add: sample_registry1_def sample_registry_def sample_reading_def observe_def store_record_def
      new_record_def transition_def refresh_health_def threshold_ns_def refresh_node_def target_health_def Let_def)

lemma sample_registry1_config: "accepted_config sample_registry1"
  by (simp add: sample_registry1_def sample_registry_def sample_reading_def observe_def store_record_def
      new_record_def transition_def Let_def accepted_config_def NodeRegistry_def)


text \<open>A node that stays silent only ever degrades: between two liveness checks at later and
  later times with no message in between, its health never moves back towards ONLINE.\<close>

theorem silent_node_degrades:
  assumes "accepted_config reg" "refresh_health reg t1 w1 = Inr (c1, reg1)"
    "refresh_health reg1 t2 w2 = Inr (c2, reg2)" "t1 \<le> t2"
    "dict_get (nodes reg1) n = Some r1" "dict_get (nodes reg2) n = Some r2"
  shows "health_status r1 \<le> health_status r2"
proof -
  obtain sus off where t: "threshold_ns reg (suspect_after_intervals reg) = Inr sus"
      "threshold_ns reg (offline_after_intervals reg) = Inr off"
    and n1: "nodes reg1 = map (\<lambda>(k, r). (k, snd (refresh_node sus off t1 w1 r))) (nodes reg)"
    and same: "expected_interval_seconds reg1 = expected_interval_seconds reg"
      "suspect_after_intervals reg1 = suspect_after_intervals reg"
      "offline_after_intervals reg1 = offline_after_intervals reg"
    using refresh_healthE [OF assms(2)] by metis
  have ord: "sus \<le> off"
    using accepted_configE [OF assms(1)] thresholds_ordered [of reg _ sus _ off] t
    by (metis less_imp_le)
  have n2: "nodes reg2 = map (\<lambda>(k, r). (k, snd (refresh_node sus off t2 w2 r))) (nodes reg1)"
    using refresh_healthE [OF assms(3)] t same by (auto simp: threshold_ns_def)
  have r2: "r2 = snd (refresh_node sus off t2 w2 r1)"
    using assms(5,6) unfolding n2 by (simp add: map_of_map)
  obtain r0 where "r1 = snd (refresh_node sus off t1 w1 r0)"
    using assms(5) unfolding n1 by (auto simp: map_of_map)
  then show ?thesis
    using ord assms(4) by (simp add: r2 refresh_node_settled target_health_mono)
qed

definition sample_registry2 :: node_registry where
  "sample_registry2 = snd (projr (refresh_health sample_registry1 4000000000 4000))"

lemma sample_registry2_refresh:
  "refresh_health sample_registry2 6000000000 6000 =
     Inr ([\<lparr>ht_node_id = ''n1'', ht_previous = Some SUSPECT, ht_current = OFFLINE, ht_timestamp_ms = 6000\<rparr>],
          snd (projr (refresh_health sample_registry2 6000000000 6000)))"
  "dict_get (nodes sample_registry2) ''n1'' \<noteq> None"
  "dict_get (nodes (snd (projr (refresh_health sample_registry2 6000000000 6000)))) ''n1'' \<noteq> None"
  by (simp_all add: sample_registry2_def sample_registry1_def sample_registry_def sample_reading_def observe_def
      store_record_def new_record_def transition_def refresh_health_def threshold_ns_def refresh_node_def
      target_health_def Let_def)

theorem silent_node_degrades_witness:
  "health_status (the (dict_get (nodes sample_registry2) ''n1'')) \<le>
     health_status (the (dict_get (nodes (snd (projr (refresh_health sample_registry2 6000000000 6000)))) ''n1''))"
proof -
  obtain r1 r2 where r: "dict_get (nodes sample_registry2) ''n1'' = Some r1"
      "dict_get (nodes (snd (projr (refresh_health sample_registry2 6000000000 6000)))) ''n1'' = Some r2"
    using sample_registry2_refresh(2,3) by blast
  show ?thesis
    using silent_node_degrades [OF sample_registry1_config sample_registry1_refresh
        sample_registry2_refresh(1) [unfolded sample_registry2_def] _ r [unfolded sample_registry2_def]]
    by (simp add: r [unfolded sample_registry2_def] sample_registry2_def)
qed

text \<open>Every valid message leaves its node ONLINE with the receive time recorded, and reports a
  health transition exactly when the node was new or had been SUSPECT or OFFLINE; other nodes
  are untouched.\<close>

theorem observe_restores_online:
  "\<exists>r trs. dict_get (nodes (snd (observe reg m at_ms mono_ns))) (msg_node_id m) = Some r \<and>
     health_status r = ONLINE \<and> last_seen_monotonic_ns r = mono_ns \<and>
     transitions (snd (observe reg m at_ms mono_ns)) = transitions reg @ trs \<and>
     (trs = [] \<longleftrightarrow> (\<exists>r0. dict_get (nodes reg) (msg_node_id m) = Some r0 \<and> health_status r0 = ONLINE)) \<and>
     (\<forall>k. k = msg_node_id m \<or> dict_get (nodes (snd (observe reg m at_ms mono_ns))) k = dict_get (nodes reg) k)"
proof (cases "dict_get (nodes reg) (msg_node_id m)")
  case None
  then show ?thesis
    using observe_other [of _ m reg at_ms mono_ns]
    by (auto simp: observe_def store_record_def new_record_def transition_def Let_def)
next
  case (Some r0)
  obtain st r1 where cl: "classify_sequence r0 (msg_sequence m) = (st, r1)" by fastforce
  show ?thesis
    using Some cl classify_sequence_frame [OF cl] observe_other [of _ m reg at_ms mono_ns]
    by (auto simp: observe_def store_record_def transition_def Let_def)
qed

text \<open>The constructor guards are comparisons, and NaN fails every comparison: a NaN interval is
  accepted, and the first liveness check then raises ValueError instead of monitoring.\<close>

theorem nan_interval_accepted:
  assumes "\<not> fle s (Fin 0)" "\<not> fle f s"
  shows "\<exists>reg. NodeRegistry NaN s f = Inr reg \<and>
    refresh_health reg now wall = Inl (ValueError ''cannot convert float NaN to integer'')"
  using assms by (simp add: NodeRegistry_def fle_def feq_def refresh_health_def threshold_ns_def)

theorem nan_interval_accepted_witness:
  "\<exists>reg. NodeRegistry NaN (Fin 3) (Fin 5) = Inr reg \<and>
    refresh_health reg 0 0 = Inl (ValueError ''cannot convert float NaN to integer'')"
  by (rule nan_interval_accepted) simp_all

end
