(* ===== verification/Aggregator.thy ===== *)
theory Aggregator
  imports Registry
begin

text \<open>
  Time-window aggregation (\<^verbatim>\<open>src/gateway/aggregator.py\<close>). The model keeps the code's
  accumulator field by field, with its float sums; the specification keeps the list of messages
  of the open window. The refinement shows that the summaries are those of the windows the
  specification closes, and the properties read off it: no reading is lost or counted twice,
  every window is shorter than its deadline, and the float means stay inside the protocol's
  ranges although the sums are rounded.
\<close>

section \<open>Data model\<close>

text \<open>\<open>ReceivedMessage\<close> of \<^verbatim>\<open>src/gateway/server.py\<close>: a message annotated at the gateway.\<close>

record received_message =
  rm_message :: sensor_message
  received_at_ms :: int
  received_monotonic_ns :: int
  wire_bytes :: int
  rm_sequence_status :: sequence_status

record window_summary =
  window_start_ms :: int
  window_end_ms :: int
  aggregation_window_seconds :: pyfloat
  partial_window :: bool
  reading_count :: int
  node_count :: int
  temperature_mean_c :: pyfloat
  temperature_min_c :: pyfloat
  temperature_max_c :: pyfloat
  humidity_mean_pct :: pyfloat
  humidity_min_pct :: pyfloat
  humidity_max_pct :: pyfloat
  pressure_mean_hpa :: pyfloat
  pressure_min_hpa :: pyfloat
  pressure_max_hpa :: pyfloat

record accumulator =
  start_ms :: int
  start_monotonic_ns :: int
  deadline_monotonic_ns :: int
  acc_nodes :: "string set"
  acc_count :: nat
  temperature_sum :: pyfloat
  temperature_min :: pyfloat
  temperature_max :: pyfloat
  humidity_sum :: pyfloat
  humidity_min :: pyfloat
  humidity_max :: pyfloat
  pressure_sum :: pyfloat
  pressure_min :: pyfloat
  pressure_max :: pyfloat

record window_aggregator =
  window_seconds :: pyfloat
  window_ns :: int
  agg_current :: "accumulator option"

section \<open>Operations\<close>

definition WindowAggregator :: "pyfloat \<Rightarrow> window_aggregator result" where
  "WindowAggregator ws =
     (if fle ws (Fin 0) then Inl (ValueError ''window_seconds must be positive'')
      else rbind (py_int (fmul ws (Fin 1000000000))) (\<lambda>ns.
        Inr \<lparr>window_seconds = ws, window_ns = ns, agg_current = None\<rparr>))"

definition has_data :: "window_aggregator \<Rightarrow> bool" where
  "has_data g = (case agg_current g of None \<Rightarrow> False | Some c \<Rightarrow> acc_count c > 0)"

definition agg_deadline :: "window_aggregator \<Rightarrow> int option" where
  "agg_deadline g = map_option deadline_monotonic_ns (agg_current g)"

definition new_accumulator :: "int \<Rightarrow> received_message \<Rightarrow> accumulator" where
  "new_accumulator ns rc =
     \<lparr>start_ms = received_at_ms rc, start_monotonic_ns = received_monotonic_ns rc,
      deadline_monotonic_ns = received_monotonic_ns rc + ns, acc_nodes = {}, acc_count = 0,
      temperature_sum = Fin 0, temperature_min = PInf, temperature_max = NInf,
      humidity_sum = Fin 0, humidity_min = PInf, humidity_max = NInf,
      pressure_sum = Fin 0, pressure_min = PInf, pressure_max = NInf\<rparr>"

definition accumulate :: "accumulator \<Rightarrow> reading_message \<Rightarrow> accumulator" where
  "accumulate c r =
     c\<lparr>acc_nodes := insert (node_id r) (acc_nodes c), acc_count := acc_count c + 1,
       temperature_sum := fadd (temperature_sum c) (temperature_c r),
       temperature_min := py_min (temperature_min c) (temperature_c r),
       temperature_max := py_max (temperature_max c) (temperature_c r),
       humidity_sum := fadd (humidity_sum c) (humidity_pct r),
       humidity_min := py_min (humidity_min c) (humidity_pct r),
       humidity_max := py_max (humidity_max c) (humidity_pct r),
       pressure_sum := fadd (pressure_sum c) (pressure_hpa r),
       pressure_min := py_min (pressure_min c) (pressure_hpa r),
       pressure_max := py_max (pressure_max c) (pressure_hpa r)\<rparr>"

definition float_mean :: "pyfloat \<Rightarrow> nat \<Rightarrow> pyfloat result" where
  "float_mean s n = rbind (float_of_int (int n)) (\<lambda>d. fdiv s d)"

definition summarize :: "window_aggregator \<Rightarrow> bool \<Rightarrow> int option \<Rightarrow> window_summary result" where
  "summarize g partial end_ms =
     (case agg_current g of
        None \<Rightarrow> Inl AssertionError
      | Some c \<Rightarrow>
          if acc_count c = 0 then Inl AssertionError
          else rbind (py_round (fmul (window_seconds g) (Fin 1000))) (\<lambda>ms.
               rbind (float_mean (temperature_sum c) (acc_count c)) (\<lambda>tm.
               rbind (float_mean (humidity_sum c) (acc_count c)) (\<lambda>hm.
               rbind (float_mean (pressure_sum c) (acc_count c)) (\<lambda>pm.
               Inr \<lparr>window_start_ms = start_ms c,
                    window_end_ms = (case end_ms of None \<Rightarrow> start_ms c + ms | Some e \<Rightarrow> e),
                    aggregation_window_seconds = window_seconds g, partial_window = partial,
                    reading_count = int (acc_count c), node_count = int (card (acc_nodes c)),
                    temperature_mean_c = tm, temperature_min_c = temperature_min c,
                    temperature_max_c = temperature_max c, humidity_mean_pct = hm,
                    humidity_min_pct = humidity_min c, humidity_max_pct = humidity_max c,
                    pressure_mean_hpa = pm, pressure_min_hpa = pressure_min c,
                    pressure_max_hpa = pressure_max c\<rparr>)))))"

definition agg_add ::
  "window_aggregator \<Rightarrow> received_message \<Rightarrow> (window_summary option \<times> window_aggregator) result" where
  "agg_add g rc =
     (case rm_message rc of
        Heartbeat _ \<Rightarrow> Inr (None, g)
      | Reading r \<Rightarrow>
          if rm_sequence_status rc = DUPLICATE then Inr (None, g)
          else case agg_current g of
            None \<Rightarrow> Inr (None, g\<lparr>agg_current := Some (accumulate (new_accumulator (window_ns g) rc) r)\<rparr>)
          | Some c \<Rightarrow>
              if received_monotonic_ns rc \<ge> deadline_monotonic_ns c
              then rbind (summarize g False None) (\<lambda>s.
                     Inr (Some s, g\<lparr>agg_current := Some (accumulate (new_accumulator (window_ns g) rc) r)\<rparr>))
              else Inr (None, g\<lparr>agg_current := Some (accumulate c r)\<rparr>))"

definition agg_flush ::
  "window_aggregator \<Rightarrow> bool \<Rightarrow> int option \<Rightarrow> (window_summary option \<times> window_aggregator) result" where
  "agg_flush g partial end_ms =
     (if \<not> has_data g then Inr (None, g\<lparr>agg_current := None\<rparr>)
      else rbind (summarize g partial end_ms) (\<lambda>s. Inr (Some s, g\<lparr>agg_current := None\<rparr>)))"

datatype agg_event = Add received_message | Flush bool "int option"

fun agg_step :: "window_aggregator \<Rightarrow> agg_event \<Rightarrow> (window_summary option \<times> window_aggregator) result" where
  "agg_step g (Add rc) = agg_add g rc"
| "agg_step g (Flush p e) = agg_flush g p e"

fun agg_run :: "window_aggregator \<Rightarrow> agg_event list \<Rightarrow> (window_summary list \<times> window_aggregator) result" where
  "agg_run g [] = Inr ([], g)"
| "agg_run g (e # es) =
     rbind (agg_step g e) (\<lambda>(s, g1). rbind (agg_run g1 es) (\<lambda>(ss, g2).
       Inr (case s of None \<Rightarrow> ss | Some x \<Rightarrow> x # ss, g2)))"

section \<open>Specification: windows of messages\<close>

definition counted :: "received_message \<Rightarrow> bool" where
  "counted rc \<longleftrightarrow> (\<exists>r. rm_message rc = Reading r) \<and> rm_sequence_status rc \<noteq> DUPLICATE"

fun reading_of :: "sensor_message \<Rightarrow> reading_message" where
  "reading_of (Reading r) = r"
| "reading_of (Heartbeat h) = base_sensor_message.extend h (reading_message.fields NaN NaN NaN)"

abbreviation rc_reading :: "received_message \<Rightarrow> reading_message" where
  "rc_reading rc \<equiv> reading_of (rm_message rc)"

text \<open>A closed window: its messages, whether it was cut short, and an end time given from outside.\<close>

record spec_window =
  sw_messages :: "received_message list"
  sw_partial :: bool
  sw_end :: "int option"

fun spec_step :: "int \<Rightarrow> received_message list \<Rightarrow> agg_event \<Rightarrow> spec_window option \<times> received_message list" where
  "spec_step ns open_w (Add rc) =
     (if \<not> counted rc then (None, open_w)
      else if open_w \<noteq> [] \<and> received_monotonic_ns rc \<ge> received_monotonic_ns (hd open_w) + ns
      then (Some \<lparr>sw_messages = open_w, sw_partial = False, sw_end = None\<rparr>, [rc])
      else (None, open_w @ [rc]))"
| "spec_step ns open_w (Flush p e) =
     (if open_w = [] then (None, [])
      else (Some \<lparr>sw_messages = open_w, sw_partial = p, sw_end = e\<rparr>, []))"

fun spec_run :: "int \<Rightarrow> received_message list \<Rightarrow> agg_event list \<Rightarrow> spec_window list \<times> received_message list" where
  "spec_run ns w [] = ([], w)"
| "spec_run ns w (e # es) =
     (let (c, w1) = spec_step ns w e; (cs, w2) = spec_run ns w1 es
      in (case c of None \<Rightarrow> cs | Some x \<Rightarrow> x # cs, w2))"

definition float_sum :: "pyfloat list \<Rightarrow> pyfloat" where
  "float_sum xs = foldl fadd (Fin 0) xs"

definition mean_of :: "pyfloat list \<Rightarrow> pyfloat" where
  "mean_of xs = fl (fval (float_sum xs) / of_nat (length xs))"

definition summary_of :: "pyfloat \<Rightarrow> spec_window \<Rightarrow> window_summary" where
  "summary_of ws w =
     (let ms = sw_messages w; rs = map rc_reading ms;
          t = map temperature_c rs; h = map humidity_pct rs; p = map pressure_hpa rs
      in \<lparr>window_start_ms = received_at_ms (hd ms),
          window_end_ms = (case sw_end w of None \<Rightarrow>
             received_at_ms (hd ms) + round_half_even (fval (fmul ws (Fin 1000))) | Some e \<Rightarrow> e),
          aggregation_window_seconds = ws, partial_window = sw_partial w,
          reading_count = int (length ms), node_count = int (card (node_id ` set rs)),
          temperature_mean_c = mean_of t, temperature_min_c = Fin (Min (fval ` set t)),
          temperature_max_c = Fin (Max (fval ` set t)),
          humidity_mean_pct = mean_of h, humidity_min_pct = Fin (Min (fval ` set h)),
          humidity_max_pct = Fin (Max (fval ` set h)),
          pressure_mean_hpa = mean_of p, pressure_min_hpa = Fin (Min (fval ` set p)),
          pressure_max_hpa = Fin (Max (fval ` set p))\<rparr>)"

section \<open>One sensor channel\<close>

definition in_range :: "int \<Rightarrow> int \<Rightarrow> pyfloat \<Rightarrow> bool" where
  "in_range lo hi f \<longleftrightarrow> (\<exists>x. f = Fin x \<and> of_int lo \<le> x \<and> x \<le> of_int hi)"

lemma in_range_finite: "in_range lo hi f \<Longrightarrow> f = Fin (fval f)"
  by (auto simp: in_range_def)

lemma valid_reading_in_range:
  assumes "valid_reading r"
  shows "in_range (- 100) 100 (temperature_c r)" "in_range 0 100 (humidity_pct r)"
    "in_range 0 1200 (pressure_hpa r)"
  using assms
  by (auto simp: valid_reading_def temperature_ok_def humidity_ok_def pressure_ok_def in_range_def is_finite_iff)

lemma float_sum_snoc: "float_sum (xs @ [x]) = fadd (float_sum xs) x"
  by (simp add: float_sum_def)

lemma float_sum_range:
  assumes "list_all (in_range lo hi) xs" "\<bar>lo\<bar> * int (length xs) \<le> 2 ^ 53" "\<bar>hi\<bar> * int (length xs) \<le> 2 ^ 53"
  shows "\<exists>v. float_sum xs = Fin v \<and> of_int (lo * int (length xs)) \<le> v \<and> v \<le> of_int (hi * int (length xs))"
  using assms
proof (induction xs rule: rev_induct)
  case Nil
  then show ?case by (simp add: float_sum_def)
next
  case (snoc x xs)
  let ?n = "length xs"
  have cap: "\<bar>lo\<bar> * int (Suc ?n) \<le> 2 ^ 53" "\<bar>hi\<bar> * int (Suc ?n) \<le> 2 ^ 53"
    using snoc.prems(2,3) by simp_all
  have "\<bar>lo\<bar> * int ?n \<le> \<bar>lo\<bar> * int (Suc ?n)" "\<bar>hi\<bar> * int ?n \<le> \<bar>hi\<bar> * int (Suc ?n)"
    by (simp_all add: mult_left_mono)
  then have "\<bar>lo\<bar> * int ?n \<le> 2 ^ 53" "\<bar>hi\<bar> * int ?n \<le> 2 ^ 53" using cap by linarith+
  then obtain v where v: "float_sum xs = Fin v" "of_int (lo * int ?n) \<le> v" "v \<le> of_int (hi * int ?n)"
    using snoc.IH snoc.prems(1) by auto
  obtain y where y: "x = Fin y" "of_int lo \<le> y" "y \<le> of_int hi"
    using snoc.prems(1) by (auto simp: in_range_def)
  note b = binary64.running_sum [OF v(2,3) y(2,3) cap]
  define K where "K = max (\<bar>lo\<bar> * int (Suc ?n)) (\<bar>hi\<bar> * int (Suc ?n))"
  have "- K \<le> lo * int (Suc ?n)" "hi * int (Suc ?n) \<le> K"
    using mult_right_mono [of "- \<bar>lo\<bar>" lo "int (Suc ?n)"] mult_right_mono [of hi "\<bar>hi\<bar>" "int (Suc ?n)"]
    unfolding K_def by linarith+
  then have "(of_int (- K) :: rat) \<le> of_int (lo * int (Suc ?n))" "(of_int (hi * int (Suc ?n)) :: rat) \<le> of_int K"
    by (simp_all only: of_int_le_iff)
  moreover have "of_int (lo * int (Suc ?n)) \<le> v + y" "v + y \<le> of_int (hi * int (Suc ?n))"
    using add_mono [OF v(2) y(2)] add_mono [OF v(3) y(3)] by (simp_all add: algebra_simps)
  ultimately have "\<bar>v + y\<bar> \<le> of_int K"
    by (simp only: of_int_minus)
  then have "fl (v + y) = Fin (rnd_double (v + y))"
    by (rule fl_bounded(1)) (use cap in \<open>simp add: K_def\<close>)
  then show ?case using v(1) y(1) b by (simp add: float_sum_snoc)
qed

lemma float_of_small: "int n \<le> 2 ^ 53 \<Longrightarrow> float_of_int (int n) = Inr (Fin (of_nat n))"
  using fl_int [of "int n"] by (simp add: float_of_int_def)

lemma float_mean_value:
  assumes "0 < n" "int n \<le> 2 ^ 53"
  shows "float_mean (Fin v) n = Inr (fl (v / of_nat n))"
  using assms by (simp add: float_mean_def float_of_small)

lemma mean_in_range:
  assumes "list_all (in_range lo hi) xs" "xs \<noteq> []"
    "\<bar>lo\<bar> * int (length xs) \<le> 2 ^ 53" "\<bar>hi\<bar> * int (length xs) \<le> 2 ^ 53"
  shows "in_range lo hi (mean_of xs)"
proof -
  obtain v where v: "float_sum xs = Fin v" "of_int (lo * int (length xs)) \<le> v" "v \<le> of_int (hi * int (length xs))"
    using float_sum_range [OF assms(1,3,4)] by blast
  have n: "0 < length xs" using assms(2) by simp
  have small: "\<bar>k\<bar> \<le> 2 ^ 53" if "\<bar>k\<bar> * int (length xs) \<le> 2 ^ 53" for k
    using that n mult_left_mono [of 1 "int (length xs)" "\<bar>k\<bar>"] by linarith
  note q = binary64.quotient_ge [OF v(2) n small [OF assms(3)]] binary64.quotient_le [OF v(3) n small [OF assms(4)]]
  have "\<bar>v / of_nat (length xs)\<bar> \<le> of_int (max \<bar>lo\<bar> \<bar>hi\<bar>)"
  proof -
    have "of_int lo \<le> v / of_nat (length xs)" "v / of_nat (length xs) \<le> of_int hi"
      using v(2,3) n by (simp_all add: le_divide_eq divide_le_eq)
    moreover have "(of_int (- max \<bar>lo\<bar> \<bar>hi\<bar>) :: rat) \<le> of_int lo" "(of_int hi :: rat) \<le> of_int (max \<bar>lo\<bar> \<bar>hi\<bar>)"
      by (simp_all only: of_int_le_iff)
    ultimately show ?thesis unfolding abs_le_iff of_int_minus by linarith
  qed
  then have "fl (v / of_nat (length xs)) = Fin (rnd_double (v / of_nat (length xs)))"
    by (rule fl_bounded(1)) (use small [OF assms(3)] small [OF assms(4)] in simp)
  then show ?thesis using q v(1) by (simp add: mean_of_def in_range_def)
qed

lemma foldl_py_min:
  assumes "list_all (in_range lo hi) xs" "xs \<noteq> []"
  shows "foldl py_min PInf xs = Fin (Min (fval ` set xs))"
  using assms
proof (induction xs rule: rev_induct)
  case (snoc x xs)
  have x: "x = Fin (fval x)" using snoc.prems(1) in_range_finite by auto
  show ?case
  proof (cases "xs = []")
    case True
    with x show ?thesis by (metis append_Nil foldl_Cons foldl_Nil list.set(1) list.simps(15)
          image_insert image_empty Min_singleton py_min_PInf)
  next
    case False
    then have "foldl py_min PInf xs = Fin (Min (fval ` set xs))" using snoc by simp
    then have "foldl py_min PInf (xs @ [x]) = Fin (min (Min (fval ` set xs)) (fval x))"
      by (subst x) simp
    then show ?thesis using False by (simp add: min.commute)
  qed
qed simp

lemma foldl_py_max:
  assumes "list_all (in_range lo hi) xs" "xs \<noteq> []"
  shows "foldl py_max NInf xs = Fin (Max (fval ` set xs))"
  using assms
proof (induction xs rule: rev_induct)
  case (snoc x xs)
  have x: "x = Fin (fval x)" using snoc.prems(1) in_range_finite by auto
  show ?case
  proof (cases "xs = []")
    case True
    with x show ?thesis by (metis append_Nil foldl_Cons foldl_Nil list.set(1) list.simps(15)
          image_insert image_empty Max_singleton py_max_NInf)
  next
    case False
    then have "foldl py_max NInf xs = Fin (Max (fval ` set xs))" using snoc by simp
    then have "foldl py_max NInf (xs @ [x]) = Fin (max (Max (fval ` set xs)) (fval x))"
      by (subst x) simp
    then show ?thesis using False by (simp add: max.commute)
  qed
qed simp

section \<open>The accumulator of a window\<close>

abbreviation accumulate_all :: "accumulator \<Rightarrow> reading_message list \<Rightarrow> accumulator" where
  "accumulate_all \<equiv> foldl accumulate"

lemma accumulate_all_fields:
  "start_ms (accumulate_all c rs) = start_ms c"
  "deadline_monotonic_ns (accumulate_all c rs) = deadline_monotonic_ns c"
  "acc_nodes (accumulate_all c rs) = acc_nodes c \<union> node_id ` set rs"
  "acc_count (accumulate_all c rs) = acc_count c + length rs"
  "temperature_sum (accumulate_all c rs) = foldl fadd (temperature_sum c) (map temperature_c rs)"
  "temperature_min (accumulate_all c rs) = foldl py_min (temperature_min c) (map temperature_c rs)"
  "temperature_max (accumulate_all c rs) = foldl py_max (temperature_max c) (map temperature_c rs)"
  "humidity_sum (accumulate_all c rs) = foldl fadd (humidity_sum c) (map humidity_pct rs)"
  "humidity_min (accumulate_all c rs) = foldl py_min (humidity_min c) (map humidity_pct rs)"
  "humidity_max (accumulate_all c rs) = foldl py_max (humidity_max c) (map humidity_pct rs)"
  "pressure_sum (accumulate_all c rs) = foldl fadd (pressure_sum c) (map pressure_hpa rs)"
  "pressure_min (accumulate_all c rs) = foldl py_min (pressure_min c) (map pressure_hpa rs)"
  "pressure_max (accumulate_all c rs) = foldl py_max (pressure_max c) (map pressure_hpa rs)"
  by (induction rs arbitrary: c) (simp_all add: accumulate_def)

definition window_acc :: "int \<Rightarrow> received_message list \<Rightarrow> accumulator option" where
  "window_acc ns w = (if w = [] then None else Some (accumulate_all (new_accumulator ns (hd w)) (map rc_reading w)))"

definition usable :: "received_message \<Rightarrow> bool" where
  "usable rc \<longleftrightarrow> valid_message (rm_message rc)"

definition window_ok :: "received_message list \<Rightarrow> bool" where
  "window_ok w \<longleftrightarrow> list_all (\<lambda>rc. counted rc \<and> usable rc) w \<and> 1200 * int (length w) \<le> 2 ^ 53"

lemma window_ok_channels:
  assumes "window_ok w"
  shows "list_all (in_range (- 100) 100) (map (temperature_c \<circ> rc_reading) w)"
    "list_all (in_range 0 100) (map (humidity_pct \<circ> rc_reading) w)"
    "list_all (in_range 0 1200) (map (pressure_hpa \<circ> rc_reading) w)"
  using assms valid_reading_in_range
  by (auto simp: window_ok_def counted_def usable_def list_all_iff)

text \<open>An aggregator whose window passed the constructor: the planned window length in
  milliseconds is a finite number too.\<close>

definition agg_config_ok :: "window_aggregator \<Rightarrow> bool" where
  "agg_config_ok g \<longleftrightarrow> (\<exists>w r. window_seconds g = Fin w \<and> 0 < w \<and> fmul (window_seconds g) (Fin 1000) = Fin r)"

lemma WindowAggregator_ok:
  assumes "WindowAggregator ws = Inr g"
  shows "agg_config_ok g" "window_seconds g = ws" "agg_current g = None"
proof -
  obtain w where w: "ws = Fin w" "0 < w" and ns: "is_finite (fl (w * 1000000000))"
    using assms by (cases ws; cases "fl (fval ws * 1000000000)")
      (auto simp: WindowAggregator_def inf_of_sign_def fle_def feq_def is_finite_def rbind_eq_Inr_iff split: if_splits)
  have "0 \<le> rnd_double (w * 1000)" using w(2) by (intro binary64.rnd_nonneg) simp
  moreover have "rnd_double (w * 1000) \<le> rnd_double (w * 1000000000)"
    using w(2) by (intro binary64.rnd_mono) simp
  ultimately have "\<bar>rnd_double (w * 1000)\<bar> < 2 ^ 1024"
    using ns by (auto simp: is_finite_iff fl_Fin_iff)
  then have "fl (w * 1000) = Fin (rnd_double (w * 1000))" by (simp add: fl_Fin_iff)
  then show "agg_config_ok g" "window_seconds g = ws" "agg_current g = None"
    using assms w by (auto simp: WindowAggregator_def agg_config_ok_def rbind_eq_Inr_iff split: if_splits)
qed

lemma summarize_refines:
  assumes "agg_config_ok g" "agg_current g = window_acc (window_ns g) w" "w \<noteq> []" "window_ok w"
  shows "summarize g p e =
    Inr (summary_of (window_seconds g) \<lparr>sw_messages = w, sw_partial = p, sw_end = e\<rparr>)"
proof -
  let ?rs = "map rc_reading w" and ?n = "length w"
  obtain c where c: "agg_current g = Some c" and cdef: "c = accumulate_all (new_accumulator (window_ns g) (hd w)) ?rs"
    using assms(2,3) by (simp add: window_acc_def)
  have n: "0 < ?n" "int ?n \<le> 2 ^ 53" using assms(3,4) by (auto simp: window_ok_def)
  obtain r where r: "fmul (window_seconds g) (Fin 1000) = Fin r"
    using assms(1) by (auto simp: agg_config_ok_def)
  note ch = window_ok_channels [OF assms(4)]
  have cap: "\<bar>- 100\<bar> * int ?n \<le> 2 ^ 53" "\<bar>100\<bar> * int ?n \<le> 2 ^ 53" "\<bar>1200\<bar> * int ?n \<le> 2 ^ 53" "\<bar>0\<bar> * int ?n \<le> 2 ^ 53"
    using assms(4) by (auto simp: window_ok_def)
  have mean: "float_mean (float_sum xs) ?n = Inr (mean_of xs)"
    if "list_all (in_range lo hi) xs" "length xs = ?n" "\<bar>lo\<bar> * int ?n \<le> 2 ^ 53" "\<bar>hi\<bar> * int ?n \<le> 2 ^ 53" for lo hi xs
    using float_sum_range [OF that(1)] that n by (auto simp: float_mean_value mean_of_def)
  have means:
    "float_mean (temperature_sum c) ?n = Inr (mean_of (map (temperature_c \<circ> rc_reading) w))"
    "float_mean (humidity_sum c) ?n = Inr (mean_of (map (humidity_pct \<circ> rc_reading) w))"
    "float_mean (pressure_sum c) ?n = Inr (mean_of (map (pressure_hpa \<circ> rc_reading) w))"
    using mean [OF ch(1)] mean [OF ch(2)] mean [OF ch(3)] cap
    by (simp_all add: cdef accumulate_all_fields new_accumulator_def float_sum_def)
  have cnt: "acc_count c = ?n" by (simp add: cdef accumulate_all_fields new_accumulator_def)
  have ne: "map f w \<noteq> []" for f :: "received_message \<Rightarrow> pyfloat" using assms(3) by simp
  show ?thesis
    using c cnt means r n foldl_py_min [OF ch(1) ne] foldl_py_max [OF ch(1) ne]
      foldl_py_min [OF ch(2) ne] foldl_py_max [OF ch(2) ne] foldl_py_min [OF ch(3) ne] foldl_py_max [OF ch(3) ne]
    by (cases e) (simp_all add: summarize_def summary_of_def Let_def cdef accumulate_all_fields
        new_accumulator_def image_image)
qed

lemma window_acc_snoc:
  "window_acc ns (w @ [rc]) =
     Some (accumulate (case window_acc ns w of None \<Rightarrow> new_accumulator ns rc | Some c \<Rightarrow> c) (rc_reading rc))"
  by (simp add: window_acc_def)

lemma window_acc_deadline:
  "window_acc ns w = Some c \<Longrightarrow> deadline_monotonic_ns c = received_monotonic_ns (hd w) + ns"
  by (auto simp: window_acc_def accumulate_all_fields new_accumulator_def split: if_splits)

section \<open>Refinement\<close>

definition event_usable :: "agg_event \<Rightarrow> bool" where
  "event_usable e = (case e of Add rc \<Rightarrow> usable rc | Flush _ _ \<Rightarrow> True)"

lemma agg_step_refines:
  assumes "agg_config_ok g" "agg_current g = window_acc (window_ns g) w" "window_ok w"
    "event_usable ev" "1200 * (int (length w) + 1) \<le> 2 ^ 53" "spec_step (window_ns g) w ev = (cl, w')"
  shows "agg_step g ev = Inr (map_option (summary_of (window_seconds g)) cl,
      g\<lparr>agg_current := window_acc (window_ns g) w'\<rparr>) \<and> window_ok w' \<and> length w' \<le> length w + 1"
proof (cases ev)
  case (Flush p e)
  have "has_data g \<longleftrightarrow> w \<noteq> []"
    using assms(2) by (auto simp: has_data_def window_acc_def accumulate_all_fields new_accumulator_def)
  then show ?thesis
    using Flush assms(3,6) summarize_refines [OF assms(1,2) _ assms(3), of p e]
    by (auto simp: agg_flush_def window_acc_def window_ok_def split: if_splits)
next
  case (Add rc)
  show ?thesis
  proof (cases "counted rc")
    case False
    then have "agg_add g rc = Inr (None, g)"
      by (cases "rm_message rc") (auto simp: counted_def agg_add_def)
    then show ?thesis using Add False assms(2,3,6) by simp
  next
    case True
    then obtain r where r: "rm_message rc = Reading r" "rm_sequence_status rc \<noteq> DUPLICATE"
      by (auto simp: counted_def)
    have snoc: "window_acc ns [rc] = Some (accumulate (new_accumulator ns rc) r)" for ns
      using window_acc_snoc [of ns "[]" rc] r by (simp add: window_acc_def)
    have ok: "window_ok (v @ [rc])" if "window_ok v" "length v \<le> length w" for v
      using that True assms(4,5) Add by (auto simp: window_ok_def event_usable_def)
    have ok1: "window_ok [rc]" using ok [of "[]"] by (simp add: window_ok_def)
    show ?thesis
    proof (cases "window_acc (window_ns g) w")
      case None
      then have "w = []" by (simp add: window_acc_def split: if_splits)
      then show ?thesis
        using None Add r True assms(2,6) snoc ok1 by (auto simp: agg_add_def)
    next
      case (Some c)
      then have w: "w \<noteq> []" by (auto simp: window_acc_def)
      note dl = window_acc_deadline [OF Some]
      show ?thesis
        using Some w dl Add r True assms(2,6) snoc ok [OF assms(3)] ok1
          summarize_refines [OF assms(1,2) w assms(3), of False None]
          window_acc_snoc [of "window_ns g" w rc]
        by (auto simp: agg_add_def split: if_splits)
    qed
  qed
qed

lemma agg_run_refines:
  assumes "agg_config_ok g" "agg_current g = window_acc (window_ns g) w" "window_ok w"
    "list_all event_usable es" "1200 * (int (length w) + int (length es)) \<le> 2 ^ 53"
    "spec_run (window_ns g) w es = (cls, w')"
  shows "agg_run g es = Inr (map (summary_of (window_seconds g)) cls,
      g\<lparr>agg_current := window_acc (window_ns g) w'\<rparr>)"
  using assms
proof (induction es arbitrary: g w cls)
  case Nil
  then show ?case by simp
next
  case (Cons e es)
  obtain c w1 where s: "spec_step (window_ns g) w e = (c, w1)" by fastforce
  obtain cs where r: "spec_run (window_ns g) w1 es = (cs, w')"
      and cls: "cls = (case c of None \<Rightarrow> cs | Some x \<Rightarrow> x # cs)"
    using Cons.prems(6) s by (auto simp: Let_def split: prod.splits)
  let ?g1 = "g\<lparr>agg_current := window_acc (window_ns g) w1\<rparr>"
  have st: "agg_step g e = Inr (map_option (summary_of (window_seconds g)) c, ?g1)" "window_ok w1"
      "length w1 \<le> length w + 1"
    using agg_step_refines [OF Cons.prems(1-3) _ _ s] Cons.prems(4,5) by auto
  have "agg_run ?g1 es = Inr (map (summary_of (window_seconds ?g1)) cs,
      ?g1\<lparr>agg_current := window_acc (window_ns ?g1) w'\<rparr>)"
    using Cons.prems(1,4,5) st r by (intro Cons.IH) (auto simp: agg_config_ok_def)
  then show ?case using st(1) cls by (simp split: option.split)
qed

lemma spec_run_partition:
  "spec_run ns w es = (cls, w') \<Longrightarrow>
     concat (map sw_messages cls) @ w' = w @ filter counted (List.map_filter (\<lambda>e. case e of Add rc \<Rightarrow> Some rc | _ \<Rightarrow> None) es)"
proof (induction es arbitrary: w cls)
  case (Cons e es)
  obtain c w1 where s: "spec_step ns w e = (c, w1)" by fastforce
  obtain cs where r: "spec_run ns w1 es = (cs, w')" and cls: "cls = (case c of None \<Rightarrow> cs | Some x \<Rightarrow> x # cs)"
    using Cons.prems s by (auto simp: Let_def split: prod.splits)
  show ?case using Cons.IH [OF r] s cls
    by (cases e) (auto simp: List.map_filter_simps split: if_splits)
qed simp

definition within_deadline :: "int \<Rightarrow> received_message list \<Rightarrow> bool" where
  "within_deadline ns w \<longleftrightarrow>
     list_all (\<lambda>rc. rc = hd w \<or> received_monotonic_ns rc < received_monotonic_ns (hd w) + ns) w"

lemma spec_run_deadlines:
  "spec_run ns w es = (cls, w') \<Longrightarrow> within_deadline ns w \<Longrightarrow>
     list_all (\<lambda>c. sw_messages c \<noteq> [] \<and> within_deadline ns (sw_messages c)) cls \<and> within_deadline ns w'"
proof (induction es arbitrary: w cls)
  case (Cons e es)
  obtain c w1 where s: "spec_step ns w e = (c, w1)" by fastforce
  obtain cs where r: "spec_run ns w1 es = (cs, w')" and cls: "cls = (case c of None \<Rightarrow> cs | Some x \<Rightarrow> x # cs)"
    using Cons.prems s by (auto simp: Let_def split: prod.splits)
  have "within_deadline ns w1 \<and> (case c of None \<Rightarrow> True | Some x \<Rightarrow> sw_messages x \<noteq> [] \<and> within_deadline ns (sw_messages x))"
    using s Cons.prems(2) by (cases e; cases w) (auto simp: within_deadline_def split: if_splits)
  then show ?case using Cons.IH [OF r] cls by (auto split: option.splits)
qed simp

lemma summary_channel_ranges:
  assumes "window_ok (sw_messages w)" "sw_messages w \<noteq> []"
  shows "in_range (- 100) 100 (temperature_mean_c (summary_of ws w)) \<and>
    in_range 0 100 (humidity_mean_pct (summary_of ws w)) \<and>
    in_range 0 1200 (pressure_mean_hpa (summary_of ws w)) \<and>
    in_range (- 100) 100 (temperature_min_c (summary_of ws w)) \<and>
    fle (temperature_min_c (summary_of ws w)) (temperature_max_c (summary_of ws w)) \<and>
    fle (humidity_min_pct (summary_of ws w)) (humidity_max_pct (summary_of ws w)) \<and>
    fle (pressure_min_hpa (summary_of ws w)) (pressure_max_hpa (summary_of ws w))"
proof -
  let ?ms = "sw_messages w"
  note ch = window_ok_channels [OF assms(1)]
  have cap: "\<bar>- 100\<bar> * int (length ?ms) \<le> 2 ^ 53" "\<bar>100\<bar> * int (length ?ms) \<le> 2 ^ 53"
      "\<bar>1200\<bar> * int (length ?ms) \<le> 2 ^ 53" "\<bar>0\<bar> * int (length ?ms) \<le> 2 ^ 53"
    using assms(1) by (auto simp: window_ok_def)
  have minmax: "Min (fval ` f ` set ?ms) \<le> Max (fval ` f ` set ?ms)" for f
    using Min_le [of "fval ` f ` set ?ms" "fval (f (hd ?ms))"] Max_ge [of "fval ` f ` set ?ms" "fval (f (hd ?ms))"]
      assms(2) by (auto intro: order_trans)
  have "Min (fval ` (temperature_c \<circ> rc_reading) ` set ?ms) \<in> fval ` (temperature_c \<circ> rc_reading) ` set ?ms"
    using assms(2) by (intro Min_in) auto
  then have "in_range (- 100) 100 (Fin (Min (fval ` (temperature_c \<circ> rc_reading) ` set ?ms)))"
    using ch(1) by (force simp: list_all_iff in_range_def)
  then show ?thesis
    using mean_in_range [OF ch(1)] mean_in_range [OF ch(2)] mean_in_range [OF ch(3)] cap assms(2) minmax
    by (simp add: summary_of_def Let_def image_image comp_def)
qed

section \<open>Properties\<close>

definition adds :: "agg_event list \<Rightarrow> received_message list" where
  "adds es = List.map_filter (\<lambda>e. case e of Add rc \<Rightarrow> Some rc | _ \<Rightarrow> None) es"

text \<open>C5: The aggregator computes exactly the windows of the specification. For any sequence of
  additions and flushes it never fails, its summaries are those of consecutive windows that
  partition the non-duplicate readings in arrival order (what is not yet summarised is in the
  open window), no window is empty, and every reading of a window arrived before the window's
  deadline. Counts, node counts, minima and maxima are exact; means are the float means.\<close>

theorem aggregator_refines_windows:
  assumes "WindowAggregator ws = Inr g" "list_all event_usable es" "1200 * int (length es) \<le> 2 ^ 53"
  shows "\<exists>wins rest. agg_run g es = Inr (map (summary_of ws) wins, g\<lparr>agg_current := window_acc (window_ns g) rest\<rparr>) \<and>
    concat (map sw_messages wins) @ rest = filter counted (adds es) \<and>
    list_all (\<lambda>c. sw_messages c \<noteq> [] \<and> within_deadline (window_ns g) (sw_messages c)) wins"
proof -
  obtain wins rest where run: "spec_run (window_ns g) [] es = (wins, rest)" by fastforce
  note g = WindowAggregator_ok [OF assms(1)]
  have "agg_run g es = Inr (map (summary_of (window_seconds g)) wins, g\<lparr>agg_current := window_acc (window_ns g) rest\<rparr>)"
    using g assms(2,3) run by (intro agg_run_refines [where w = "[]"]) (auto simp: window_acc_def window_ok_def)
  then show ?thesis
    using spec_run_partition [OF run] spec_run_deadlines [OF run] g(2)
    by (auto simp: adds_def within_deadline_def)
qed


definition sample_received :: "int \<Rightarrow> int \<Rightarrow> received_message" where
  "sample_received s t = \<lparr>rm_message = Reading (sample_reading ''n1'' s), received_at_ms = t div 1000000,
     received_monotonic_ns = t, wire_bytes = 100, rm_sequence_status = IN_ORDER\<rparr>"

definition sample_aggregator :: window_aggregator where
  "sample_aggregator = \<lparr>window_seconds = Fin 5, window_ns = 5000000000, agg_current = None\<rparr>"

lemma sample_aggregator_init: "WindowAggregator (Fin 5) = Inr sample_aggregator"
  by (simp add: WindowAggregator_def sample_aggregator_def)

lemma sample_received_usable: "usable (sample_received 0 t)" "usable (sample_received 3 t)"
  by (simp_all add: usable_def sample_received_def sample_reading_valid)

theorem aggregator_refines_windows_witness:
  "\<exists>wins rest. agg_run sample_aggregator [Add (sample_received 0 0), Add (sample_received 3 6000000000), Flush True (Some 7000)] =
      Inr (map (summary_of (Fin 5)) wins, sample_aggregator\<lparr>agg_current := window_acc 5000000000 rest\<rparr>) \<and>
    concat (map sw_messages wins) @ rest = [sample_received 0 0, sample_received 3 6000000000]"
proof -
  have "filter counted (adds [Add (sample_received 0 0), Add (sample_received 3 6000000000), Flush True (Some 7000)]) =
      [sample_received 0 0, sample_received 3 6000000000]"
    by (simp add: adds_def counted_def sample_received_def List.map_filter_simps)
  then show ?thesis
    using aggregator_refines_windows [OF sample_aggregator_init,
        of "[Add (sample_received 0 0), Add (sample_received 3 6000000000), Flush True (Some 7000)]"]
    by (auto simp: event_usable_def sample_received_usable sample_aggregator_def)
qed


text \<open>The float mean is not bounded by the float maximum: three readings of the double nearest
  to 0.1 have a reported mean strictly above their common value.\<close>

theorem mean_can_exceed_maximum:
  "let x = 3602879701896397 / 36028797018963968
   in flt (Fin x) (mean_of [Fin x, Fin x, Fin x])"
proof -
  let ?x = "3602879701896397 / 36028797018963968 :: rat"
  have r1: "rnd_double ?x = ?x"
    by (rule trans [OF rnd_double_eqI [where e = "- 56" and m = 7205759403792794]])
      (simp_all add: power_int_def power_one_over round_half_even_def Let_def)
  have r2: "rnd_double (2 * ?x) = 2 * ?x"
    by (rule trans [OF rnd_double_eqI [where e = "- 55" and m = 7205759403792794]])
      (simp_all add: power_int_def power_one_over round_half_even_def Let_def)
  have half: "\<lfloor>10808639105689191 / 2 :: rat\<rfloor> = 5404319552844595"
    by (simp add: floor_eq_iff)
  have r3: "rnd_double (3 * ?x) = 10808639105689192 / 36028797018963968"
    by (rule trans [OF rnd_double_eqI [where e = "- 54" and m = 5404319552844596]])
      (simp_all add: power_int_def power_one_over round_half_even_def Let_def half)
  have third: "\<lfloor>21617278211378384 / 3 :: rat\<rfloor> = 7205759403792794"
    by (simp add: floor_eq_iff)
  have r4: "rnd_double (10808639105689192 / 36028797018963968 / 3) = 7205759403792795 / 72057594037927936"
    by (rule trans [OF rnd_double_eqI [where e = "- 56" and m = 7205759403792795]])
      (simp_all add: power_int_def power_one_over round_half_even_def Let_def third)
  have f: "fl y = Fin (rnd_double y)" if "\<bar>y\<bar> \<le> of_int 1" for y
    using fl_bounded(1) [OF that] by simp
  have a1: "fadd (Fin 0) (Fin ?x) = Fin ?x"
    using f [of ?x] r1 by simp
  have "fadd (Fin ?x) (Fin ?x) = fl (2 * ?x)" by (simp only: fadd.simps mult_2)
  then have a2: "fadd (Fin ?x) (Fin ?x) = Fin (2 * ?x)"
    using f [of "2 * ?x"] unfolding r2 by simp
  have "fadd (Fin (2 * ?x)) (Fin ?x) = fl (3 * ?x)" by (simp only: fadd.simps) simp
  then have a3: "fadd (Fin (2 * ?x)) (Fin ?x) = Fin (10808639105689192 / 36028797018963968)"
    using f [of "3 * ?x"] unfolding r3 by simp
  have s: "float_sum [Fin ?x, Fin ?x, Fin ?x] = Fin (10808639105689192 / 36028797018963968)"
    unfolding float_sum_def foldl.simps a1 a2 a3 ..
  have "fl (10808639105689192 / 36028797018963968 / 3) = Fin (7205759403792795 / 72057594037927936)"
    using f [of "10808639105689192 / 36028797018963968 / 3"] unfolding r4 by simp
  then have "mean_of [Fin ?x, Fin ?x, Fin ?x] = Fin (7205759403792795 / 72057594037927936)"
    unfolding mean_of_def s by simp
  then show ?thesis by simp
qed

end
