(* ===== verification/Storage.thy ===== *)
theory Storage
  imports Sinks Aggregator
begin

text \<open>
  Raw message persistence (\<^verbatim>\<open>src/gateway/storage.py\<close>): the store's counters, its bounded
  queue, the worker that takes batches and appends them, exclusive creation of the output. A
  step is one thing that happens between two suspension points of the code: a call, a blocked
  producer resumed, a batch taken, a batch written by the worker thread.
\<close>

section \<open>Data model\<close>

record storage_stats =
  records_enqueued :: int
  records_written :: int
  bytes_written :: int

text \<open>The life of the worker task.\<close>

datatype task = NoTask | Active | Returned | Failed py_error

record raw_message_store =
  path :: string
  batch_size :: nat
  st_stats :: storage_stats
  st_queue :: "received_message bqueue"
  st_handle :: bool
  st_task :: task
  st_inflight :: "(received_message list \<times> string \<times> bool) option"

text \<open>The store together with the file system it writes to.\<close>

type_synonym store_state = "raw_message_store \<times> files"

section \<open>Operations\<close>

definition RawMessageStore :: "string \<Rightarrow> int \<Rightarrow> int \<Rightarrow> raw_message_store result" where
  "RawMessageStore p queue_size bsize =
     (if queue_size < 1 \<or> bsize < 1
      then Inl (ValueError ''queue_size and batch_size must be positive'')
      else Inr \<lparr>path = p, batch_size = nat bsize,
        st_stats = \<lparr>records_enqueued = 0, records_written = 0, bytes_written = 0\<rparr>,
        st_queue = new_queue (nat queue_size), st_handle = False, st_task = NoTask, st_inflight = None\<rparr>)"

definition record_json :: "received_message \<Rightarrow> json" where
  "record_json rc =
     (case model_dump (rm_message rc) of
        JObj fs \<Rightarrow> JObj (fs @
          [(''gateway_received_at_ms'', JInt (received_at_ms rc)),
           (''gateway_received_monotonic_ns'', JInt (received_monotonic_ns rc)),
           (''sensor_wire_bytes'', JInt (wire_bytes rc)),
           (''sequence_status'', JStr (sequence_value (rm_sequence_status rc)))])
      | j \<Rightarrow> j)"

definition encode_record :: "(json \<Rightarrow> string) \<Rightarrow> received_message \<Rightarrow> string result" where
  "encode_record dumps rc = rbind (dumps_strict dumps (record_json rc)) (\<lambda>t. Inr (t @ [newline]))"

fun encode_lines_of :: "('a \<Rightarrow> string result) \<Rightarrow> 'a list \<Rightarrow> string result" where
  "encode_lines_of enc [] = Inr []"
| "encode_lines_of enc (x # xs) = rbind (enc x) (\<lambda>l. rbind (encode_lines_of enc xs) (\<lambda>ls. Inr (l @ ls)))"

definition st_start :: "store_state \<Rightarrow> store_state result" where
  "st_start s =
     (let (st, fs) = s
      in if st_handle st then Inl (RuntimeError ''raw message store is already running'')
         else rbind (create_exclusive (path st) [] fs) (\<lambda>fs'.
           Inr (st\<lparr>st_handle := True, st_task := Active\<rparr>, fs')))"

definition count_enqueued :: "raw_message_store \<Rightarrow> received_message queued option \<Rightarrow> raw_message_store" where
  "count_enqueued st x = (case x of
     Some (Item _) \<Rightarrow> st\<lparr>st_stats := (st_stats st)\<lparr>records_enqueued := records_enqueued (st_stats st) + 1\<rparr>\<rparr>
   | _ \<Rightarrow> st)"

definition st_submit :: "raw_message_store \<Rightarrow> received_message \<Rightarrow> raw_message_store result" where
  "st_submit st rc =
     (if \<not> st_handle st then Inl (RuntimeError ''raw message store is not running'')
      else Inr (let st' = st\<lparr>st_queue := put_wait (Item rc) (st_queue st)\<rparr>
                in if full (st_queue st) then st' else count_enqueued st' (Some (Item rc))))"

definition st_resume :: "raw_message_store \<Rightarrow> nat \<Rightarrow> raw_message_store" where
  "st_resume st k = (let (x, q) = resume_put k (st_queue st) in count_enqueued (st\<lparr>st_queue := q\<rparr>) x)"

definition st_stop :: "raw_message_store \<Rightarrow> raw_message_store" where
  "st_stop st =
     (if \<not> st_handle st then st
      else st\<lparr>st_handle := False, st_queue := put_wait STOP (st_queue st)\<rparr>)"

text \<open>One turn of \<open>_write_loop\<close> up to the write: \<open>get\<close>, the inner loop, the encoding.\<close>

definition st_take :: "(json \<Rightarrow> string) \<Rightarrow> raw_message_store \<Rightarrow> raw_message_store" where
  "st_take dumps st =
     (if st_task st \<noteq> Active \<or> st_inflight st \<noteq> None then st
      else case entries (st_queue st) of
        [] \<Rightarrow> st
      | STOP # xs \<Rightarrow> st\<lparr>st_queue := (st_queue st)\<lparr>entries := xs\<rparr>, st_task := Returned\<rparr>
      | Item a # xs \<Rightarrow>
          (let (batch, stop, rest) = fill_batch (batch_size st) [a] xs;
               st' = st\<lparr>st_queue := (st_queue st)\<lparr>entries := rest\<rparr>\<rparr>
           in case encode_lines_of (encode_record dumps) batch of
                Inl e \<Rightarrow> st'\<lparr>st_task := Failed e\<rparr>
              | Inr text \<Rightarrow> st'\<lparr>st_inflight := Some (batch, text, stop)\<rparr>))"

text \<open>The thread has appended the batch and the loop resumes.\<close>

definition st_written :: "store_state \<Rightarrow> store_state" where
  "st_written s =
     (let (st, fs) = s
      in case st_inflight st of
        None \<Rightarrow> s
      | Some (batch, text, stop) \<Rightarrow>
          (st\<lparr>st_inflight := None,
              st_stats := (st_stats st)\<lparr>records_written := records_written (st_stats st) + int (length batch),
                                        bytes_written := bytes_written (st_stats st) + int (length text)\<rparr>,
              st_task := (if stop then Returned else st_task st)\<rparr>,
           append_text (path st) text fs))"

datatype store_event = SSubmit received_message | SResume nat | SStop | STake | SWritten

definition or_same :: "'a \<Rightarrow> 'a result \<Rightarrow> 'a" where
  "or_same s r = (case r of Inl _ \<Rightarrow> s | Inr s' \<Rightarrow> s')"

fun store_step :: "(json \<Rightarrow> string) \<Rightarrow> store_state \<Rightarrow> store_event \<Rightarrow> store_state" where
  "store_step dumps (st, fs) (SSubmit rc) = (or_same st (st_submit st rc), fs)"
| "store_step dumps (st, fs) (SResume k) = (st_resume st k, fs)"
| "store_step dumps (st, fs) SStop = (st_stop st, fs)"
| "store_step dumps (st, fs) STake = (st_take dumps st, fs)"
| "store_step dumps (st, fs) SWritten = st_written (st, fs)"

section \<open>Encoding of valid messages\<close>

lemma record_json_finite: "valid_message (rm_message rc) \<Longrightarrow> json_finite (record_json rc)"
  by (cases "rm_message rc")
    (auto simp: record_json_def reading_fields_def base_fields_def valid_reading_def temperature_ok_def
      humidity_ok_def pressure_ok_def)

definition line_of :: "(json \<Rightarrow> string) \<Rightarrow> received_message \<Rightarrow> string" where
  "line_of dumps rc = dumps (record_json rc) @ [newline]"

lemma encode_record_valid:
  "valid_message (rm_message rc) \<Longrightarrow> encode_record dumps rc = Inr (line_of dumps rc)"
  by (simp add: encode_record_def dumps_strict_def record_json_finite line_of_def)

definition text_of :: "(json \<Rightarrow> string) \<Rightarrow> received_message list \<Rightarrow> string" where
  "text_of dumps rcs = concat (map (line_of dumps) rcs)"

lemma text_of_append [simp]: "text_of dumps (a @ b) = text_of dumps a @ text_of dumps b"
  by (simp add: text_of_def)

lemma text_of_Nil [simp]: "text_of dumps [] = []"
  by (simp add: text_of_def)

lemma encode_lines_valid:
  "list_all (\<lambda>rc. valid_message (rm_message rc)) rcs \<Longrightarrow>
     encode_lines_of (encode_record dumps) rcs = Inr (text_of dumps rcs)"
  by (induction rcs) (auto simp: encode_record_valid text_of_def)

section \<open>Invariant\<close>

abbreviation rc_valid :: "received_message \<Rightarrow> bool" where
  "rc_valid rc \<equiv> valid_message (rm_message rc)"

definition all_items :: "raw_message_store \<Rightarrow> received_message list" where
  "all_items st = (case st_inflight st of None \<Rightarrow> [] | Some (b, _, _) \<Rightarrow> b) @ items (entries (st_queue st))"

definition store_ok :: "(json \<Rightarrow> string) \<Rightarrow> store_state \<Rightarrow> bool" where
  "store_ok dumps s \<longleftrightarrow> (let (st, fs) = s in
     fs (path st) \<noteq> None \<and>
     list_all rc_valid (all_items st) \<and> list_all rc_valid (items (putters (st_queue st))) \<and>
     (case st_inflight st of None \<Rightarrow> True | Some (b, t, _) \<Rightarrow> t = text_of dumps b) \<and>
     bytes_written (st_stats st) = int (length (the (fs (path st)))) \<and>
     records_enqueued (st_stats st) = records_written (st_stats st) + int (length (all_items st)) \<and>
     (\<forall>e. st_task st \<noteq> Failed e) \<and> (st_handle st \<longrightarrow> STOP \<notin> set (entries (st_queue st) @ putters (st_queue st))) \<and>
     length (entries (st_queue st)) \<le> maxsize (st_queue st))"

definition store_event_ok :: "store_event \<Rightarrow> bool" where
  "store_event_ok e = (case e of SSubmit rc \<Rightarrow> rc_valid rc | _ \<Rightarrow> True)"

definition store_file :: "store_state \<Rightarrow> string" where
  "store_file s = the (snd s (path (fst s)))"

definition store_moving :: "(json \<Rightarrow> string) \<Rightarrow> store_state \<Rightarrow> string" where
  "store_moving dumps s = text_of dumps (all_items (fst s))"

text \<open>The messages a step puts into the queue.\<close>

definition store_accepts :: "store_state \<Rightarrow> store_event \<Rightarrow> received_message list" where
  "store_accepts s e =
     (case e of
        SSubmit rc \<Rightarrow> if st_handle (fst s) \<and> \<not> full (st_queue (fst s)) then [rc] else []
      | SResume k \<Rightarrow> (case fst (resume_put k (st_queue (fst s))) of Some (Item rc) \<Rightarrow> [rc] | _ \<Rightarrow> [])
      | _ \<Rightarrow> [])"

lemmas store_ops = st_submit_def st_resume_def st_stop_def st_written_def count_enqueued_def or_same_def
  put_wait_def resume_put_def all_items_def Let_def


lemma resume_put_length:
  "length (entries q) \<le> maxsize q \<Longrightarrow> length (entries (snd (resume_put k q))) \<le> maxsize (snd (resume_put k q))"
  by (auto simp: resume_put_def full_def)

lemma resume_put_parts:
  assumes "k < length (putters q)"
  shows "set (putters q) = insert (putters q ! k) (set (take k (putters q) @ drop (Suc k) (putters q)))"
    "set (items (take k (putters q) @ drop (Suc k) (putters q))) \<subseteq> set (items (putters q))"
proof -
  have p: "putters q = take k (putters q) @ putters q ! k # drop (Suc k) (putters q)"
    using assms by (simp add: id_take_nth_drop)
  show "set (putters q) = insert (putters q ! k) (set (take k (putters q) @ drop (Suc k) (putters q)))"
    by (subst p) auto
  have "items (putters q) = items (take k (putters q)) @ items (putters q ! k # drop (Suc k) (putters q))"
    by (subst p) simp
  then show "set (items (take k (putters q) @ drop (Suc k) (putters q))) \<subseteq> set (items (putters q))"
    by (cases "putters q ! k") auto
qed

lemma items_nth: "k < length xs \<Longrightarrow> xs ! k = Item a \<Longrightarrow> a \<in> set (items xs)"
  by (induction xs arbitrary: k rule: items.induct) (auto simp: nth_Cons split: nat.splits)

lemma submit_step:
  assumes "store_ok dumps (st, fs)" "rc_valid rc"
  shows "store_ok dumps (store_step dumps (st, fs) (SSubmit rc)) \<and>
    all_items (fst (store_step dumps (st, fs) (SSubmit rc))) = all_items st @ store_accepts (st, fs) (SSubmit rc)"
  using assms
  by (auto simp: store_ok_def store_ops store_accepts_def full_def split: option.splits)

lemma resume_step:
  assumes "store_ok dumps (st, fs)"
  shows "store_ok dumps (store_step dumps (st, fs) (SResume k)) \<and>
    all_items (fst (store_step dumps (st, fs) (SResume k))) = all_items st @ store_accepts (st, fs) (SResume k)"
proof (cases "full (st_queue st) \<or> k \<ge> length (putters (st_queue st))")
  case True
  then show ?thesis using assms by (simp add: store_ops store_accepts_def)
next
  case False
  then have k: "k < length (putters (st_queue st))" "length (entries (st_queue st)) < maxsize (st_queue st)"
    by (auto simp: full_def)
  define x rest where "x = putters (st_queue st) ! k"
    and "rest = take k (putters (st_queue st)) @ drop (Suc k) (putters (st_queue st))"
  note p = resume_put_parts [OF k(1), folded x_def rest_def]
  have r: "resume_put k (st_queue st) = (Some x, (st_queue st)\<lparr>entries := entries (st_queue st) @ [x], putters := rest\<rparr>)"
    using False by (simp add: resume_put_def x_def rest_def)
  have w: "list_all rc_valid (items (putters (st_queue st)))" using assms by (simp add: store_ok_def)
  then have v: "list_all rc_valid (items rest)" "list_all rc_valid (items [x])"
    using p(2) items_nth [OF k(1)] by (auto simp: list_all_iff x_def, cases "putters (st_queue st) ! k", auto)
  show ?thesis
    using assms k v p(1) by (cases x) (auto simp: store_ok_def st_resume_def store_accepts_def r count_enqueued_def all_items_def)
qed

lemma stop_step:
  assumes "store_ok dumps (st, fs)"
  shows "store_ok dumps (store_step dumps (st, fs) SStop) \<and>
    all_items (fst (store_step dumps (st, fs) SStop)) = all_items st"
  using assms by (auto simp: store_ok_def store_ops full_def split: option.splits)

lemma take_step:
  assumes "store_ok dumps (st, fs)"
  shows "store_ok dumps (store_step dumps (st, fs) STake) \<and>
    all_items (fst (store_step dumps (st, fs) STake)) = all_items st"
proof (cases "st_task st \<noteq> Active \<or> st_inflight st \<noteq> None")
  case True
  then show ?thesis using assms by (simp add: st_take_def)
next
  case False
  show ?thesis
  proof (cases "entries (st_queue st)")
    case Nil
    then show ?thesis using assms False by (simp add: st_take_def)
  next
    case (Cons x xs)
    show ?thesis
    proof (cases x)
      case STOP
      then show ?thesis
        using assms False Cons by (auto simp: st_take_def store_ok_def all_items_def Let_def)
    next
      case (Item a)
      obtain b stop rest where f: "fill_batch (batch_size st) [a] xs = (b, stop, rest)" by (cases "fill_batch (batch_size st) [a] xs") auto
      note fl = fill_batch_flow [OF f] fill_batch_length [OF f]
      have none: "st_inflight st = None" using False by blast
      then have all: "all_items st = b @ items rest" using Cons Item fl(1) by (simp add: all_items_def)
      then have "encode_lines_of (encode_record dumps) b = Inr (text_of dumps b)"
        using assms by (intro encode_lines_valid) (simp add: store_ok_def)
      moreover have "STOP \<in> set rest \<longrightarrow> STOP \<in> set xs"
        using fill_batch_stop [OF f] fill_batch_go_on [of "batch_size st" "[a]" xs b rest] f by (cases stop) auto
      moreover have "list_all rc_valid b" "list_all rc_valid (items rest)"
          "int (length (a # items xs)) = int (length b) + int (length (items rest))"
        using assms all arg_cong [OF fl(1), of length] by (auto simp: store_ok_def)
      ultimately show ?thesis
        using assms False none Cons Item f fl by (auto simp: st_take_def store_ok_def Let_def all_items_def)
    qed
  qed
qed

lemma written_step:
  assumes "store_ok dumps (st, fs)"
  shows "store_ok dumps (store_step dumps (st, fs) SWritten)"
    "store_file (store_step dumps (st, fs) SWritten) @ store_moving dumps (store_step dumps (st, fs) SWritten) =
      store_file (st, fs) @ store_moving dumps (st, fs)"
  using assms
  by (auto simp: store_ok_def st_written_def all_items_def store_file_def store_moving_def Let_def
      append_text_def split: option.splits)

lemma store_frame:
  "e \<noteq> SWritten \<Longrightarrow> store_file (store_step dumps (st, fs) e) = store_file (st, fs)"
  by (cases e) (auto simp: store_file_def store_ops st_take_def split: option.splits list.splits queued.splits sum.splits prod.splits)

interpretation store: sink "store_step dumps" "store_ok dumps" store_event_ok store_file "store_moving dumps"
    "\<lambda>s e. text_of dumps (store_accepts s e)" for dumps
proof
  fix s e
  assume s: "store_ok dumps s" and e: "store_event_ok e"
  obtain st fs where sf: "s = (st, fs)" by (cases s) auto
  note st = s [unfolded sf]
  show "store_ok dumps (store_step dumps s e)"
    using submit_step [OF st] resume_step [OF st] stop_step [OF st] take_step [OF st] written_step(1) [OF st] e
    by (cases e) (auto simp: sf store_event_ok_def)
  show "store_file (store_step dumps s e) @ store_moving dumps (store_step dumps s e) =
      store_file s @ store_moving dumps s @ text_of dumps (store_accepts s e)"
    using submit_step [OF st] resume_step [OF st] stop_step [OF st] take_step [OF st] written_step(2) [OF st]
      store_frame [of e dumps st fs] e
    by (cases e) (auto simp: sf store_event_ok_def store_moving_def store_accepts_def)
qed

section \<open>Stopping\<close>

text \<open>A stop is clean when no producer is blocked in \<open>put\<close> at that moment: the sentinel then is
  the last entry, and nothing is behind it.\<close>

definition stop_clean :: "store_state \<Rightarrow> store_event \<Rightarrow> bool" where
  "stop_clean s e \<longleftrightarrow> (e = SStop \<and> st_handle (fst s) \<longrightarrow> putters (st_queue (fst s)) = [])"

fun clean_run :: "(json \<Rightarrow> string) \<Rightarrow> store_state \<Rightarrow> store_event list \<Rightarrow> bool" where
  "clean_run dumps s [] = True"
| "clean_run dumps s (e # es) = (stop_clean s e \<and> clean_run dumps (store_step dumps s e) es)"

definition stopping_flag :: "raw_message_store \<Rightarrow> bool" where
  "stopping_flag st = (case st_inflight st of Some (_, _, stop) \<Rightarrow> stop | None \<Rightarrow> False)"

definition sentinel_last :: "raw_message_store \<Rightarrow> bool" where
  "sentinel_last st \<longleftrightarrow>
     (if st_handle st then st_task st = Active \<and> \<not> stopping_flag st
      else if st_task st = Returned then entries (st_queue st) = [] \<and> putters (st_queue st) = [] \<and> st_inflight st = None
      else st_task st = Active \<and>
        (if stopping_flag st then entries (st_queue st) = [] \<and> putters (st_queue st) = []
         else \<exists>pre. entries (st_queue st) @ putters (st_queue st) = map Item pre @ [STOP] \<and>
           putters (st_queue st) \<in> {[], [STOP]}))"

lemma map_Item_snoc_STOP: "xs @ [y] = map Item pre @ [STOP] \<longleftrightarrow> xs = map Item pre \<and> y = STOP"
  by simp

lemma take_sentinel:
  assumes "sentinel_last st" "st_task st = Active" "st_inflight st = None" "entries (st_queue st) = Item a # xs"
    "fill_batch n [a] xs = (b, stop, rest)" "STOP \<notin> set (entries (st_queue st) @ putters (st_queue st)) \<or> \<not> st_handle st"
  shows "st_handle st \<longrightarrow> \<not> stop"
    "\<not> st_handle st \<longrightarrow> (if stop then rest = [] \<and> putters (st_queue st) = []
       else \<exists>pre. rest @ putters (st_queue st) = map Item pre @ [STOP])"
proof -
  show "st_handle st \<longrightarrow> \<not> stop"
    using fill_batch_stop [OF assms(5)] assms(4,6) by auto
  show "\<not> st_handle st \<longrightarrow> (if stop then rest = [] \<and> putters (st_queue st) = []
       else \<exists>pre. rest @ putters (st_queue st) = map Item pre @ [STOP])"
  proof
    assume h: "\<not> st_handle st"
    then obtain pre where p: "Item a # xs @ putters (st_queue st) = map Item pre @ [STOP]"
      using assms(1-4) by (auto simp: sentinel_last_def stopping_flag_def)
    have no: "STOP \<notin> set (butlast (Item a # xs @ putters (st_queue st)))" by (simp only: p) auto
    show "if stop then rest = [] \<and> putters (st_queue st) = []
       else \<exists>pre. rest @ putters (st_queue st) = map Item pre @ [STOP]"
    proof (cases stop)
      case True
      then obtain q where "xs = map Item q @ STOP # rest" using fill_batch_stop [OF assms(5)] by auto
      then show ?thesis using no True by (auto simp: butlast_append split: if_splits)
    next
      case False
      then obtain q where q: "xs = map Item q @ rest" using fill_batch_go_on [of n "[a]" xs b rest] assms(5) by auto
      have "STOP \<in> set (Item a # xs @ putters (st_queue st))" by (simp only: p) simp
      then have "rest @ putters (st_queue st) \<noteq> []" using q by auto
      then have lb: "last (Item a # xs @ putters (st_queue st)) = last (rest @ putters (st_queue st))"
        "butlast (Item a # xs @ putters (st_queue st)) = Item a # map Item q @ butlast (rest @ putters (st_queue st))"
        using q by (auto simp: butlast_append)
      have "last (rest @ putters (st_queue st)) = STOP" using lb(1) p by simp
      moreover have "STOP \<notin> set (butlast (rest @ putters (st_queue st)))" using no unfolding lb(2) by simp
      ultimately have "rest @ putters (st_queue st) = map Item (items (butlast (rest @ putters (st_queue st)))) @ [STOP]"
        using \<open>rest @ putters (st_queue st) \<noteq> []\<close> by (metis append_butlast_last_id no_stop_items)
      then show ?thesis using False by auto
    qed
  qed
qed

lemma sentinel_step:
  assumes ok: "store_ok dumps (st, fs)" and s: "sentinel_last st" and c: "stop_clean (st, fs) e"
  shows "sentinel_last (fst (store_step dumps (st, fs) e))"
proof (cases e)
  case (SSubmit rc)
  then show ?thesis using s by (auto simp: store_ops sentinel_last_def stopping_flag_def)
next
  case (SResume k)
  show ?thesis
  proof (cases "st_handle st \<or> full (st_queue st) \<or> k \<ge> length (putters (st_queue st))")
    case True
    then show ?thesis using SResume s
      by (auto simp: store_ops sentinel_last_def stopping_flag_def split: option.splits queued.splits)
  next
    case False
    then have "putters (st_queue st) = [STOP]" "k = 0" "st_task st = Active" "\<not> stopping_flag st"
      using s by (auto simp: sentinel_last_def split: if_splits)
    then show ?thesis using SResume s False
      by (auto simp: store_ops sentinel_last_def stopping_flag_def split: option.splits)
  qed
next
  case SStop
  show ?thesis
  proof (cases "st_handle st")
    case True
    then have "putters (st_queue st) = []" "STOP \<notin> set (entries (st_queue st))"
      using c SStop ok by (auto simp: stop_clean_def store_ok_def)
    then have "entries (st_queue st) = map Item (items (entries (st_queue st)))" by (simp add: no_stop_items)
    then show ?thesis using SStop s True \<open>putters (st_queue st) = []\<close>
      by (auto simp: store_ops sentinel_last_def stopping_flag_def split: option.splits)
  qed (use SStop s in \<open>simp add: store_ops\<close>)
next
  case SWritten
  then show ?thesis using s by (auto simp: store_ops sentinel_last_def stopping_flag_def split: option.splits if_splits)
next
  case STake
  show ?thesis
  proof (cases "st_task st = Active \<and> st_inflight st = None \<and> entries (st_queue st) \<noteq> []")
    case False
    then show ?thesis using STake s by (auto simp: st_take_def split: list.splits)
  next
    case True
    then obtain x xs where xs: "entries (st_queue st) = x # xs" by (cases "entries (st_queue st)") auto
    show ?thesis
    proof (cases x)
      case STOP
      then show ?thesis using STake s True xs ok
        by (auto simp: st_take_def sentinel_last_def stopping_flag_def store_ok_def Cons_eq_append_conv map_eq_Cons_conv)
    next
      case (Item a)
      obtain b stop rest where f: "fill_batch (batch_size st) [a] xs = (b, stop, rest)"
        by (cases "fill_batch (batch_size st) [a] xs") auto
      have "STOP \<notin> set (entries (st_queue st) @ putters (st_queue st)) \<or> \<not> st_handle st"
        using ok by (auto simp: store_ok_def)
      note t = take_sentinel [OF s _ _ _ f this]
      have "list_all rc_valid (b @ items rest)"
        using ok True xs Item fill_batch_flow [OF f] by (simp add: store_ok_def all_items_def)
      then have "encode_lines_of (encode_record dumps) b = Inr (text_of dumps b)" by (intro encode_lines_valid) simp
      then show ?thesis using STake s True xs Item f t
        by (auto simp: st_take_def sentinel_last_def stopping_flag_def)
    qed
  qed
qed

section \<open>Runs\<close>

lemma step_enqueued:
  "records_enqueued (st_stats (fst (store_step dumps (st, fs) e))) =
     records_enqueued (st_stats st) + int (length (store_accepts (st, fs) e))"
  by (cases e)
    (auto simp: store_ops st_take_def store_accepts_def split: option.splits queued.splits list.splits sum.splits prod.splits)

lemma step_path [simp]:
  "path (fst (store_step dumps (st, fs) e)) = path st"
  "maxsize (st_queue (fst (store_step dumps (st, fs) e))) = maxsize (st_queue st)"
  "q \<noteq> path st \<Longrightarrow> snd (store_step dumps (st, fs) e) q = fs q"
  by (cases e; auto simp: store_ops st_take_def split: option.splits queued.splits list.splits sum.splits prod.splits)+

lemma run_counters:
  "records_enqueued (st_stats (fst (foldl (store_step dumps) s es))) =
     records_enqueued (st_stats (fst s)) + int (length (gather (store_step dumps) store_accepts s es))"
  "path (fst (foldl (store_step dumps) s es)) = path (fst s)"
  "q \<noteq> path (fst s) \<Longrightarrow> snd (foldl (store_step dumps) s es) q = snd s q"
proof (induction es arbitrary: s)
  case (Cons e es)
  { case 1 then show ?case using Cons(1) step_enqueued [of dumps "fst s" "snd s" e] by simp }
  { case 2 then show ?case using Cons(2) step_path(1) [of dumps "fst s" "snd s" e] by simp }
  { case 3 then show ?case using Cons(3) step_path(1) [of dumps "fst s" "snd s" e] step_path(3) [of q "fst s" dumps "snd s" e] by simp }
qed simp_all

lemma run_sentinel:
  "store_ok dumps s \<Longrightarrow> sentinel_last (fst s) \<Longrightarrow> list_all store_event_ok es \<Longrightarrow> clean_run dumps s es \<Longrightarrow>
     sentinel_last (fst (foldl (store_step dumps) s es))"
proof (induction es arbitrary: s)
  case (Cons e es)
  then show ?case
    using sentinel_step [of dumps "fst s" "snd s" e] store.inv_step [of dumps s e] by simp
qed simp

lemma run_text:
  assumes "store_ok dumps s" "list_all store_event_ok es"
  shows "store_ok dumps (foldl (store_step dumps) s es)"
    "store_file (foldl (store_step dumps) s es) @ store_moving dumps (foldl (store_step dumps) s es) =
      store_file s @ store_moving dumps s @ text_of dumps (gather (store_step dumps) store_accepts s es)"
  using store.run_flow [OF assms] gather_hom [of "text_of dumps" "store_step dumps" store_accepts s es]
  by simp_all

lemma started_ok:
  assumes "RawMessageStore p q b = Inr st" "st_start (st, fs) = Inr s"
  shows "store_ok dumps s" "sentinel_last (fst s)" "store_file s = []" "store_moving dumps s = []"
    "path (fst s) = p" "records_enqueued (st_stats (fst s)) = 0" "fs p = None" "snd s = fs(p \<mapsto> [])" "st_handle (fst s)"
    "0 < maxsize (st_queue (fst s))"
  using assms
  by (auto simp: RawMessageStore_def st_start_def new_queue_def store_ok_def all_items_def sentinel_last_def
      stopping_flag_def store_file_def store_moving_def rbind_eq_Inr_iff create_exclusive_Inr split: if_splits)

lemma returned_empty:
  assumes "sentinel_last st" "st_task st = Returned"
  shows "all_items st = []"
  using assms by (auto simp: sentinel_last_def all_items_def split: if_splits)

section \<open>Draining\<close>

definition drain_round :: "store_event list" where
  "drain_round = [SWritten, SResume 0, STake]"

definition backlog :: "raw_message_store \<Rightarrow> nat" where
  "backlog st = length (entries (st_queue st)) + length (putters (st_queue st))"

lemma written_backlog:
  "backlog (fst (st_written s)) = backlog (fst s)" "st_inflight (fst (st_written s)) = None"
  "st_handle (fst (st_written s)) = st_handle (fst s)"
  "maxsize (st_queue (fst (st_written s))) = maxsize (st_queue (fst s))"
  by (auto simp: st_written_def backlog_def Let_def split: option.splits prod.splits)

lemma resume_backlog:
  assumes "sentinel_last st" "st_task st = Active" "st_inflight st = None" "\<not> st_handle st" "0 < maxsize (st_queue st)"
  shows "backlog (st_resume st 0) = backlog st" "entries (st_queue (st_resume st 0)) \<noteq> []"
    "st_task (st_resume st 0) = Active" "st_inflight (st_resume st 0) = None"
proof -
  obtain pre where p: "entries (st_queue st) @ putters (st_queue st) = map Item pre @ [STOP]"
      "putters (st_queue st) \<in> {[], [STOP]}"
    using assms by (auto simp: sentinel_last_def stopping_flag_def)
  then show "backlog (st_resume st 0) = backlog st" "entries (st_queue (st_resume st 0)) \<noteq> []"
    "st_task (st_resume st 0) = Active" "st_inflight (st_resume st 0) = None"
    using assms by (auto simp: st_resume_def resume_put_def backlog_def full_def count_enqueued_def split: option.splits queued.splits)
qed

lemma take_backlog:
  assumes "st_task st = Active" "st_inflight st = None" "entries (st_queue st) \<noteq> []"
  shows "backlog (st_take dumps st) < backlog st"
proof (cases "entries (st_queue st)")
  case (Cons x xs)
  have f: "length rest \<le> length xs" if "fill_batch (batch_size st) [a] xs = (b, stop, rest)" for a b stop rest
    using fill_batch_length [OF that] by simp
  show ?thesis
    using assms Cons f by (cases x) (auto simp: st_take_def backlog_def Let_def split: sum.splits prod.splits intro: le_imp_less_Suc)
qed (use assms in simp)

lemma round_backlog:
  assumes "store_ok dumps s" "sentinel_last (fst s)" "\<not> st_handle (fst s)" "0 < maxsize (st_queue (fst s))"
  shows "let s' = foldl (store_step dumps) s drain_round in
    store_ok dumps s' \<and> sentinel_last (fst s') \<and> \<not> st_handle (fst s') \<and> 0 < maxsize (st_queue (fst s')) \<and>
    (st_task (fst s') = Returned \<or> backlog (fst s') < backlog (fst s))"
proof -
  let ?s1 = "store_step dumps s SWritten"
  let ?s2 = "store_step dumps ?s1 (SResume 0)" and ?s3 = "store_step dumps (store_step dumps ?s1 (SResume 0)) STake"
  have ev: "list_all store_event_ok drain_round" "clean_run dumps s drain_round"
    by (simp_all add: drain_round_def store_event_ok_def stop_clean_def)
  have ok: "store_ok dumps ?s1" "sentinel_last (fst ?s1)"
    using run_text(1) [OF assms(1), of "[SWritten]"] run_sentinel [OF assms(1,2), of "[SWritten]"]
    by (simp_all add: store_event_ok_def stop_clean_def)
  have h: "st_inflight (fst ?s1) = None" "\<not> st_handle (fst ?s1)" "0 < maxsize (st_queue (fst ?s1))"
      "backlog (fst ?s1) = backlog (fst s)"
    using written_backlog [of s] assms(3,4) by (cases s; simp)+
  have s3: "?s3 = (st_take dumps (st_resume (fst ?s1) 0), snd ?s1)" by (cases ?s1) simp
  have fin: "st_task (fst ?s1) \<in> {Active, Returned}" using ok(2) h(2) by (auto simp: sentinel_last_def split: if_splits)
  have "st_task (fst ?s3) = Returned \<or> backlog (fst ?s3) < backlog (fst s)"
  proof (cases "st_task (fst ?s1) = Active")
    case True
    note r = resume_backlog [OF ok(2) True h(1-3)]
    show ?thesis using take_backlog [OF r(3,4,2)] r(1) h(4) s3 by simp
  next
    case False
    then have "st_task (fst ?s1) = Returned" using fin by simp
    then show ?thesis
      unfolding s3 by (simp add: st_take_def st_resume_def count_enqueued_def split: prod.splits option.splits queued.splits)
  qed
  moreover have "\<not> st_handle (fst ?s3)"
    unfolding s3 using h(2) by (auto simp: st_take_def st_resume_def count_enqueued_def Let_def
        split: prod.splits option.splits queued.splits list.splits sum.splits)
  moreover have "maxsize (st_queue (fst ?s3)) = maxsize (st_queue (fst s))"
    using step_path(2) by (metis prod.collapse)
  ultimately show ?thesis
    using run_text(1) [OF assms(1) ev(1)] run_sentinel [OF assms(1,2) ev] assms(4)
    by (simp add: drain_round_def Let_def)
qed

lemma rounds_return:
  "store_ok dumps s \<Longrightarrow> sentinel_last (fst s) \<Longrightarrow> \<not> st_handle (fst s) \<Longrightarrow> 0 < maxsize (st_queue (fst s)) \<Longrightarrow>
     \<exists>n. st_task (fst (foldl (store_step dumps) s (concat (replicate n drain_round)))) = Returned"
proof (induction "backlog (fst s)" arbitrary: s rule: less_induct)
  case less
  let ?s = "foldl (store_step dumps) s drain_round"
  note r = round_backlog [OF less.prems, unfolded Let_def]
  show ?case
  proof (cases "st_task (fst ?s) = Returned")
    case True
    then show ?thesis by (intro exI [of _ 1]) simp
  next
    case False
    then obtain n where "st_task (fst (foldl (store_step dumps) ?s (concat (replicate n drain_round)))) = Returned"
      using r less.hyps [of ?s] by blast
    then show ?thesis by (intro exI [of _ "Suc n"]) simp
  qed
qed

section \<open>Properties\<close>

text \<open>A store whose counters agree has everything it accepted in its file.\<close>

lemma storage_counters_complete:
  assumes "RawMessageStore p q b = Inr st" "st_start (st, fs) = Inr s0" "list_all store_event_ok es"
    "s = foldl (store_step dumps) s0 es" "records_enqueued (st_stats (fst s)) = records_written (st_stats (fst s))"
  shows "store_file s = text_of dumps (gather (store_step dumps) store_accepts s0 es)"
proof -
  note i = started_ok [OF assms(1,2)]
  note t = run_text [OF i(1) [of dumps] assms(3)]
  have "records_enqueued (st_stats (fst s)) = records_written (st_stats (fst s)) + int (length (all_items (fst s)))"
    unfolding assms(4) using t(1) by (cases "foldl (store_step dumps) s0 es"; simp add: store_ok_def store_file_def)
  then have "all_items (fst s) = []" using assms(5) by simp
  then show ?thesis using t(2) i(3) i(4) [of dumps] i(5,6,8) assms(4) by (auto simp: Let_def store_moving_def)
qed

text \<open>C10: The raw evidence is lossless and in order. For every interleaving of submissions, blocked
  producers resuming, the worker's batches and a stop, the output file followed by what is in
  flight and queued is exactly the accepted messages in acceptance order; the counters agree with
  it; the queue never exceeds its bound; no other file changes. Once the worker has returned after
  a stop that found no blocked producer, the file holds every accepted message.\<close>

theorem storage_lossless:
  assumes "RawMessageStore p q b = Inr st" "st_start (st, fs) = Inr s0" "list_all store_event_ok es"
  shows "let s = foldl (store_step dumps) s0 es; acc = gather (store_step dumps) store_accepts s0 es in
    store_file s @ store_moving dumps s = text_of dumps acc \<and>
    records_enqueued (st_stats (fst s)) = int (length acc) \<and>
    bytes_written (st_stats (fst s)) = int (length (store_file s)) \<and>
    length (entries (st_queue (fst s))) \<le> maxsize (st_queue (fst s)) \<and>
    (\<forall>p'. p' \<noteq> p \<longrightarrow> snd s p' = fs p') \<and>
    (clean_run dumps s0 es \<and> st_task (fst s) = Returned \<longrightarrow>
      store_file s = text_of dumps acc \<and> records_written (st_stats (fst s)) = int (length acc))"
proof -
  note i = started_ok [OF assms(1,2)]
  let ?s = "foldl (store_step dumps) s0 es"
  note t = run_text [OF i(1) [of dumps] assms(3)] and c = run_counters(1,2) [where dumps = dumps and s = s0 and es = es]
    and others = run_counters(3) [where dumps = dumps and s = s0 and es = es]
  have ok: "bytes_written (st_stats (fst ?s)) = int (length (store_file ?s))"
    "length (entries (st_queue (fst ?s))) \<le> maxsize (st_queue (fst ?s))"
    "records_enqueued (st_stats (fst ?s)) = records_written (st_stats (fst ?s)) + int (length (all_items (fst ?s)))"
    using t(1) by (cases ?s; simp add: store_ok_def store_file_def)+
  have "all_items (fst ?s) = []" if "clean_run dumps s0 es" "st_task (fst ?s) = Returned"
    using returned_empty run_sentinel [OF i(1) [of dumps] i(2) assms(3)] that by blast
  then show ?thesis
    using t(2) ok i(3) i(4) [of dumps] i(5,6,8) c others by (auto simp: Let_def store_moving_def)
qed

text \<open>C11: A clean stop terminates: from any state reached by a run, stopping a running store with no
  blocked producer lets the worker finish after finitely many turns, however full the queue is.\<close>

theorem storage_stop_terminates:
  assumes "RawMessageStore p q b = Inr st" "st_start (st, fs) = Inr s0" "list_all store_event_ok es"
    "clean_run dumps s0 (es @ [SStop])"
  shows "\<exists>n. st_task (fst (foldl (store_step dumps) s0 (es @ SStop # concat (replicate n drain_round)))) = Returned"
proof -
  note i = started_ok [OF assms(1,2)]
  let ?s = "foldl (store_step dumps) s0 (es @ [SStop])"
  have ev: "list_all store_event_ok (es @ [SStop])" using assms(3) by (simp add: store_event_ok_def)
  have "\<not> st_handle (fst ?s)"
    by (cases "foldl (store_step dumps) s0 es") (simp add: st_stop_def)
  moreover have "maxsize (st_queue (fst (foldl (store_step dumps) s xs))) = maxsize (st_queue (fst s))" for s xs
    by (induction xs arbitrary: s) (simp_all, metis step_path(2) prod.collapse)
  ultimately obtain n where
    "st_task (fst (foldl (store_step dumps) ?s (concat (replicate n drain_round)))) = Returned"
    using rounds_return [OF run_text(1) [OF i(1) ev] run_sentinel [OF i(1,2) ev assms(4)]] i(10) by metis
  then show ?thesis by (intro exI [of _ n]) simp
qed

text \<open>Existing evidence is never overwritten: starting a store on a path that exists fails and
  leaves the file system as it is, and a running store only ever appends to its own file.\<close>

theorem storage_never_overwrites:
  assumes "store_ok dumps s" "list_all store_event_ok es"
  shows "(fs (path st) \<noteq> None \<longrightarrow> st_handle st \<or> st_start (st, fs) = Inl (FileExistsError (path st))) \<and>
    (\<exists>more. store_file (foldl (store_step dumps) s es) = store_file s @ more)"
proof -
  have one: "\<exists>more. store_file (store_step dumps s e) = store_file s @ more" if "store_ok dumps s" for s e
  proof (cases "e = SWritten")
    case True
    then show ?thesis using that
      by (cases s) (auto simp: st_written_def store_file_def store_ok_def append_text_def Let_def split: option.splits)
  next
    case False
    then show ?thesis using store_frame [of e dumps "fst s" "snd s"] by simp
  qed
  have "\<exists>more. store_file (foldl (store_step dumps) s es) = store_file s @ more"
    using assms
  proof (induction es arbitrary: s)
    case (Cons e es)
    obtain m1 where "store_file (store_step dumps s e) = store_file s @ m1" using one Cons.prems(1) by blast
    then show ?case using Cons store.inv_step [of dumps s e] by fastforce
  qed simp
  then show ?thesis by (auto simp: st_start_def create_exclusive_def)
qed

definition sample_store :: raw_message_store where
  "sample_store = \<lparr>path = ''raw.ndjson'', batch_size = 2,
     st_stats = \<lparr>records_enqueued = 0, records_written = 0, bytes_written = 0\<rparr>,
     st_queue = new_queue 1, st_handle = False, st_task = NoTask, st_inflight = None\<rparr>"

definition sample_store_running :: store_state where
  "sample_store_running = (sample_store\<lparr>st_handle := True, st_task := Active\<rparr>, [''raw.ndjson'' \<mapsto> []])"

lemma sample_store_started:
  "RawMessageStore ''raw.ndjson'' 1 2 = Inr sample_store"
  "st_start (sample_store, Map.empty) = Inr sample_store_running"
  by (simp_all add: RawMessageStore_def sample_store_def st_start_def create_exclusive_def sample_store_running_def)

lemma sample_received_event_ok: "store_event_ok (SSubmit (sample_received 0 5))" "store_event_ok (SSubmit (sample_received 3 7))"
  by (simp_all add: store_event_ok_def sample_received_def sample_reading_valid)

definition sample_store_events :: "store_event list" where
  "sample_store_events = [SSubmit (sample_received 0 5), SSubmit (sample_received 3 7), STake, SResume 0,
     SWritten, STake, SStop, SWritten, STake]"

lemma sample_store_events_ok: "list_all store_event_ok sample_store_events"
  using sample_received_event_ok by (simp add: sample_store_events_def store_event_ok_def)

theorem storage_lossless_witness:
  "let s = foldl (store_step (\<lambda>j. ''x'')) sample_store_running sample_store_events;
       acc = gather (store_step (\<lambda>j. ''x'')) store_accepts sample_store_running sample_store_events in
    store_file s @ store_moving (\<lambda>j. ''x'') s = text_of (\<lambda>j. ''x'') acc"
  using storage_lossless [OF sample_store_started sample_store_events_ok, of "\<lambda>j. ''x''"] by (simp add: Let_def)

theorem storage_stop_terminates_witness:
  "\<exists>n. st_task (fst (foldl (store_step (\<lambda>j. ''x'')) sample_store_running
     ([SSubmit (sample_received 0 5)] @ SStop # concat (replicate n drain_round)))) = Returned"
  by (rule storage_stop_terminates [OF sample_store_started])
    (use sample_received_event_ok in \<open>simp_all add: stop_clean_def sample_store_running_def sample_store_def store_ops full_def new_queue_def\<close>)

theorem storage_never_overwrites_witness:
  "\<exists>more. store_file (foldl (store_step (\<lambda>j. ''x'')) sample_store_running sample_store_events) =
     store_file sample_store_running @ more"
  using storage_never_overwrites [OF started_ok(1) [OF sample_store_started] sample_store_events_ok] by blast

end
