(* ===== verification/Events.thy ===== *)
theory Events
  imports Storage "HOL-Library.Sublist"
begin

text \<open>
  Structured event evidence (\<^verbatim>\<open>src/gateway/events.py\<close>): gateway and health events, the
  generic asynchronous CSV writer with its non-blocking producer side, and the recorder that owns
  one writer of each kind; and the CSV syntax it relies on (the standard library's minimal
  quoting and its reader), with the round trip.
\<close>

section \<open>CSV syntax\<close>

text \<open>\<open>csv.DictWriter\<close> in its default dialect: comma, double quote, \<open>\r\n\<close>, minimal quoting with
  doubled quotes; a one-column empty row is quoted.\<close>

definition carriage_return :: char where
  "carriage_return = CHR 0x0D"

definition comma :: char where
  "comma = CHR '',''"

definition dquote :: char where
  "dquote = CHR 0x22"

definition csv_special :: "char \<Rightarrow> bool" where
  "csv_special c \<longleftrightarrow> c = comma \<or> c = dquote \<or> c = carriage_return \<or> c = newline"

fun double_quotes :: "string \<Rightarrow> string" where
  "double_quotes [] = []"
| "double_quotes (c # cs) = (if c = dquote then [dquote, dquote] else [c]) @ double_quotes cs"

definition csv_field :: "string \<Rightarrow> string" where
  "csv_field s = (if list_ex csv_special s then dquote # double_quotes s @ [dquote] else s)"

fun csv_join :: "string list \<Rightarrow> string" where
  "csv_join [] = []"
| "csv_join [f] = csv_field f"
| "csv_join (f # fs) = csv_field f @ comma # csv_join fs"

definition csv_line :: "string list \<Rightarrow> string" where
  "csv_line fs = (if fs = [[]] then [dquote, dquote] else csv_join fs) @ [carriage_return, newline]"

text \<open>\<open>csv.reader\<close> as its character automaton.\<close>

datatype csv_mode = StartRecord | StartField | InField | InQuoted | QuoteInQuoted

definition at_eol :: "char \<Rightarrow> bool" where
  "at_eol c \<longleftrightarrow> c = carriage_return \<or> c = newline"

fun csv_read :: "csv_mode \<Rightarrow> string \<Rightarrow> string list \<Rightarrow> string \<Rightarrow> string list list" where
  "csv_read StartRecord f row [] = []"
| "csv_read InQuoted f row [] = [row @ [f]]"
| "csv_read _ f row [] = [row @ [f]]"
| "csv_read StartRecord f row (c # cs) =
     (if at_eol c then csv_read StartRecord [] [] cs
      else if c = dquote then csv_read InQuoted [] row cs
      else if c = comma then csv_read StartField [] (row @ [[]]) cs
      else csv_read InField [c] row cs)"
| "csv_read StartField f row (c # cs) =
     (if at_eol c then (row @ [[]]) # csv_read StartRecord [] [] cs
      else if c = dquote then csv_read InQuoted [] row cs
      else if c = comma then csv_read StartField [] (row @ [[]]) cs
      else csv_read InField [c] row cs)"
| "csv_read InField f row (c # cs) =
     (if at_eol c then (row @ [f]) # csv_read StartRecord [] [] cs
      else if c = comma then csv_read StartField [] (row @ [f]) cs
      else csv_read InField (f @ [c]) row cs)"
| "csv_read InQuoted f row (c # cs) =
     (if c = dquote then csv_read QuoteInQuoted f row cs
      else csv_read InQuoted (f @ [c]) row cs)"
| "csv_read QuoteInQuoted f row (c # cs) =
     (if c = dquote then csv_read InQuoted (f @ [dquote]) row cs
      else if c = comma then csv_read StartField [] (row @ [f]) cs
      else if at_eol c then (row @ [f]) # csv_read StartRecord [] [] cs
      else csv_read InField (f @ [c]) row cs)"

lemmas csv_chars = carriage_return_def comma_def dquote_def newline_def at_eol_def csv_special_def

lemma csv_char_facts [simp]:
  "at_eol carriage_return" "at_eol newline" "\<not> at_eol comma" "\<not> at_eol dquote"
  "comma \<noteq> dquote" "dquote \<noteq> comma" "carriage_return \<noteq> dquote" "carriage_return \<noteq> comma"
  "dquote \<noteq> carriage_return" "comma \<noteq> carriage_return" "newline \<noteq> dquote" "dquote \<noteq> newline"
  "newline \<noteq> comma" "comma \<noteq> newline" "newline \<noteq> carriage_return" "carriage_return \<noteq> newline"
  by (simp_all add: csv_chars)

lemma csv_read_plain:
  "\<not> list_ex csv_special s \<Longrightarrow> csv_read InField f row (s @ rest) = csv_read InField (f @ s) row rest"
  by (induction s arbitrary: f) (auto simp: csv_special_def at_eol_def)

lemma csv_read_quoted:
  "csv_read InQuoted f row (double_quotes s @ rest) = csv_read InQuoted (f @ s) row rest"
  by (induction s arbitrary: f) auto

text \<open>A field read back: quoted, plain, or empty in front of its delimiter.\<close>

lemma csv_read_field_comma:
  "m = StartField \<or> m = StartRecord \<Longrightarrow>
     csv_read m [] row (csv_field s @ comma # rest) = csv_read StartField [] (row @ [s]) rest"
  using csv_read_plain [of "tl s" "[hd s]" row "comma # rest"]
    csv_read_quoted [of "[]" row s "dquote # comma # rest"]
  by (cases s) (auto simp: csv_field_def csv_special_def at_eol_def)

lemma csv_read_field_end:
  "m = StartField \<or> m = StartRecord \<and> s \<noteq> [] \<Longrightarrow>
     csv_read m [] row (csv_field s @ carriage_return # newline # rest) = (row @ [s]) # csv_read StartRecord [] [] rest"
  using csv_read_plain [of "tl s" "[hd s]" row "carriage_return # newline # rest"]
    csv_read_quoted [of "[]" row s "dquote # carriage_return # newline # rest"]
  by (cases s) (auto simp: csv_field_def csv_special_def at_eol_def)

lemma csv_read_join:
  "fs \<noteq> [] \<Longrightarrow> m = StartField \<or> m = StartRecord \<and> fs \<noteq> [[]] \<Longrightarrow>
     csv_read m [] row (csv_join fs @ carriage_return # newline # rest) =
       (row @ fs) # csv_read StartRecord [] [] rest"
proof (induction fs arbitrary: m row rule: csv_join.induct)
  case (2 f)
  then show ?case using csv_read_field_end [of m f row rest] by auto
next
  case (3 f g gs)
  then show ?case using csv_read_field_comma [of m row f "csv_join (g # gs) @ carriage_return # newline # rest"] by auto
qed simp

lemma csv_line_read:
  "fs \<noteq> [] \<Longrightarrow> csv_read StartRecord [] [] (csv_line fs @ rest) = fs # csv_read StartRecord [] [] rest"
  using csv_read_join [of fs StartRecord "[]" rest]
  by (auto simp: csv_line_def)

lemma csv_lines_read:
  "list_all (\<lambda>r. r \<noteq> []) rows \<Longrightarrow> csv_read StartRecord [] [] (concat (map csv_line rows)) = rows"
  by (induction rows) (simp_all add: csv_line_read)

text \<open>The CSV evidence reads back as written: for any rows of at least one column and any field
  contents (commas, quotes, line breaks), the reader of the analysis recovers exactly the rows.\<close>

theorem csv_round_trip:
  assumes "list_all (\<lambda>r. r \<noteq> []) rows"
  shows "csv_read StartRecord [] [] (concat (map csv_line rows)) = rows"
  using assms by (rule csv_lines_read)

theorem csv_round_trip_witness:
  "csv_read StartRecord [] [] (concat (map csv_line [[''a'', [comma, dquote]], [[], ''b'']])) =
     [[''a'', [comma, dquote]], [[], ''b'']]"
  by (rule csv_round_trip) simp

section \<open>Events\<close>

record gateway_event =
  ge_timestamp_ms :: int
  ge_source :: string
  ge_event_type :: string
  ge_node_id :: string
  ge_details :: "(string \<times> json) list"

record health_event =
  he_timestamp_ms :: int
  he_node_id :: string
  he_node_kind :: string
  he_old_state :: string
  he_new_state :: string
  he_reason :: string
  he_last_seen_ms :: int
  he_last_sequence :: int

section \<open>The asynchronous CSV writer\<close>

record 'a csv_writer =
  cw_path :: string
  fieldnames :: "string list"
  row_factory :: "'a \<Rightarrow> (string \<times> string) list"
  cw_batch_size :: nat
  enqueued :: int
  written :: int
  cw_queue_full_drops :: int
  cw_queue :: "'a bqueue"
  cw_handle :: bool
  cw_task :: task
  cw_inflight :: "('a list \<times> bool) option"

definition AsyncCsvWriter ::
  "string \<Rightarrow> string list \<Rightarrow> ('a \<Rightarrow> (string \<times> string) list) \<Rightarrow> int \<Rightarrow> int \<Rightarrow> 'a csv_writer result" where
  "AsyncCsvWriter p names factory queue_size bsize =
     (if queue_size < 1 \<or> bsize < 1
      then Inl (ValueError ''queue_size and batch_size must be positive'')
      else Inr \<lparr>cw_path = p, fieldnames = names, row_factory = factory, cw_batch_size = nat bsize,
        enqueued = 0, written = 0, cw_queue_full_drops = 0, cw_queue = new_queue (nat queue_size),
        cw_handle = False, cw_task = NoTask, cw_inflight = None\<rparr>)"

text \<open>\<open>DictWriter\<close>: a key outside the field names is an error, a missing one an empty cell.\<close>

definition dict_row :: "string list \<Rightarrow> (string \<times> string) list \<Rightarrow> string list option" where
  "dict_row names row =
     (if list_ex (\<lambda>(k, v). k \<notin> set names) row then None
      else Some (map (\<lambda>f. case map_of row f of None \<Rightarrow> [] | Some v \<Rightarrow> v) names))"

text \<open>\<open>writerows\<close>: the rows up to the first bad one are written.\<close>

fun append_rows :: "string list \<Rightarrow> (string \<times> string) list list \<Rightarrow> string \<times> py_error option" where
  "append_rows names [] = ([], None)"
| "append_rows names (r # rs) =
     (case dict_row names r of
        None \<Rightarrow> ([], Some (ValueError ''dict contains fields not in fieldnames''))
      | Some cells \<Rightarrow> (let (t, e) = append_rows names rs in (csv_line cells @ t, e)))"

definition cw_start :: "'a csv_writer \<times> files \<Rightarrow> ('a csv_writer \<times> files) result" where
  "cw_start s =
     (let (w, fs) = s
      in if cw_handle w then Inl (RuntimeError ''event writer is already running'')
         else rbind (create_exclusive (cw_path w) (csv_line (fieldnames w)) fs) (\<lambda>fs'.
           Inr (w\<lparr>cw_handle := True, cw_task := Active\<rparr>, fs')))"

definition try_submit_event :: "'a csv_writer \<Rightarrow> 'a \<Rightarrow> (bool \<times> 'a csv_writer) result" where
  "try_submit_event w x =
     (if \<not> cw_handle w then Inl (RuntimeError ''event writer is not running'')
      else case put_nowait (Item x) (cw_queue w) of
        None \<Rightarrow> Inr (False, w\<lparr>cw_queue_full_drops := cw_queue_full_drops w + 1\<rparr>)
      | Some q \<Rightarrow> Inr (True, w\<lparr>cw_queue := q, enqueued := enqueued w + 1\<rparr>))"

definition cw_stop :: "'a csv_writer \<Rightarrow> 'a csv_writer" where
  "cw_stop w =
     (if \<not> cw_handle w then w
      else w\<lparr>cw_handle := False, cw_queue := put_wait STOP (cw_queue w)\<rparr>)"

definition cw_resume :: "'a csv_writer \<Rightarrow> 'a csv_writer" where
  "cw_resume w = w\<lparr>cw_queue := snd (resume_put 0 (cw_queue w))\<rparr>"

definition cw_take :: "'a csv_writer \<Rightarrow> 'a csv_writer" where
  "cw_take w =
     (if cw_task w \<noteq> Active \<or> cw_inflight w \<noteq> None then w
      else case entries (cw_queue w) of
        [] \<Rightarrow> w
      | STOP # xs \<Rightarrow> w\<lparr>cw_queue := (cw_queue w)\<lparr>entries := xs\<rparr>, cw_task := Returned\<rparr>
      | Item a # xs \<Rightarrow>
          (let (batch, stop, rest) = fill_batch (cw_batch_size w) [a] xs
           in w\<lparr>cw_queue := (cw_queue w)\<lparr>entries := rest\<rparr>, cw_inflight := Some (batch, stop)\<rparr>))"

definition cw_written :: "'a csv_writer \<times> files \<Rightarrow> 'a csv_writer \<times> files" where
  "cw_written s =
     (let (w, fs) = s
      in case cw_inflight w of
        None \<Rightarrow> s
      | Some (batch, stop) \<Rightarrow>
          (let (text, err) = append_rows (fieldnames w) (map (row_factory w) batch);
               fs' = append_text (cw_path w) text fs;
               w' = w\<lparr>cw_inflight := None\<rparr>
           in case err of
                Some e \<Rightarrow> (w'\<lparr>cw_task := Failed e\<rparr>, fs')
              | None \<Rightarrow> (w'\<lparr>written := written w + int (length batch),
                            cw_task := (if stop then Returned else cw_task w)\<rparr>, fs')))"

datatype 'a csv_event = CSubmit 'a | CStop | CResume | CTake | CWritten

fun csv_step :: "'a csv_writer \<times> files \<Rightarrow> 'a csv_event \<Rightarrow> 'a csv_writer \<times> files" where
  "csv_step (w, fs) (CSubmit x) = (or_same w (map_sum id snd (try_submit_event w x)), fs)"
| "csv_step (w, fs) CStop = (cw_stop w, fs)"
| "csv_step (w, fs) CResume = (cw_resume w, fs)"
| "csv_step (w, fs) CTake = (cw_take w, fs)"
| "csv_step (w, fs) CWritten = cw_written (w, fs)"

section \<open>The recorder\<close>

definition gateway_fields :: "string list" where
  "gateway_fields = [''timestamp_ms'', ''source'', ''event_type'', ''node_id'', ''details_json'']"

definition health_fields :: "string list" where
  "health_fields = [''timestamp_ms'', ''node_id'', ''node_kind'', ''old_state'', ''new_state'', ''reason'',
     ''last_seen_ms'', ''last_sequence'']"

definition gateway_row :: "(json \<Rightarrow> string) \<Rightarrow> gateway_event \<Rightarrow> (string \<times> string) list" where
  "gateway_row dumps e =
     [(''timestamp_ms'', str_of_int (ge_timestamp_ms e)), (''source'', ge_source e),
      (''event_type'', ge_event_type e), (''node_id'', ge_node_id e),
      (''details_json'', dumps (JObj (ge_details e)))]"

definition health_row :: "health_event \<Rightarrow> (string \<times> string) list" where
  "health_row e =
     [(''timestamp_ms'', str_of_int (he_timestamp_ms e)), (''node_id'', he_node_id e),
      (''node_kind'', he_node_kind e), (''old_state'', he_old_state e), (''new_state'', he_new_state e),
      (''reason'', he_reason e), (''last_seen_ms'', str_of_int (he_last_seen_ms e)),
      (''last_sequence'', str_of_int (he_last_sequence e))]"

record event_recorder =
  gateway_writer :: "gateway_event csv_writer"
  health_writer :: "health_event csv_writer"

definition ExperimentEventRecorder ::
  "(json \<Rightarrow> string) \<Rightarrow> string \<Rightarrow> string \<Rightarrow> int \<Rightarrow> event_recorder result" where
  "ExperimentEventRecorder dumps gp hp queue_size =
     rbind (AsyncCsvWriter gp gateway_fields (gateway_row dumps) queue_size 100) (\<lambda>g.
     rbind (AsyncCsvWriter hp health_fields health_row queue_size 100) (\<lambda>h.
       Inr \<lparr>gateway_writer = g, health_writer = h\<rparr>))"

text \<open>Starting: if the second writer cannot start, the first is stopped again (its stop is
  queued and its worker drains) and the error is raised.\<close>

definition recorder_start ::
  "event_recorder \<times> files \<Rightarrow> py_error option \<times> event_recorder \<times> files" where
  "recorder_start s =
     (let (r, fs) = s
      in case cw_start (gateway_writer r, fs) of
        Inl e \<Rightarrow> (Some e, s)
      | Inr (g, fs1) \<Rightarrow>
          (case cw_start (health_writer r, fs1) of
             Inl e \<Rightarrow> (Some e, r\<lparr>gateway_writer := cw_take (cw_stop g)\<rparr>, fs1)
           | Inr (h, fs2) \<Rightarrow> (None, r\<lparr>gateway_writer := g, health_writer := h\<rparr>, fs2)))"

definition record_gateway :: "event_recorder \<Rightarrow> gateway_event \<Rightarrow> (bool \<times> event_recorder) result" where
  "record_gateway r e =
     rbind (try_submit_event (gateway_writer r) e) (\<lambda>(b, g). Inr (b, r\<lparr>gateway_writer := g\<rparr>))"

definition record_health :: "event_recorder \<Rightarrow> health_event \<Rightarrow> (bool \<times> event_recorder) result" where
  "record_health r e =
     rbind (try_submit_event (health_writer r) e) (\<lambda>(b, h). Inr (b, r\<lparr>health_writer := h\<rparr>))"

section \<open>Invariant and accounting\<close>

definition row_text :: "'a csv_writer \<Rightarrow> 'a \<Rightarrow> string" where
  "row_text w x = csv_line (the (dict_row (fieldnames w) (row_factory w x)))"

definition rows_text :: "'a csv_writer \<Rightarrow> 'a list \<Rightarrow> string" where
  "rows_text w xs = concat (map (row_text w) xs)"

definition factory_ok :: "'a csv_writer \<Rightarrow> bool" where
  "factory_ok w \<longleftrightarrow> (\<forall>x. dict_row (fieldnames w) (row_factory w x) \<noteq> None)"

lemma append_rows_ok:
  "factory_ok w \<Longrightarrow> append_rows (fieldnames w) (map (row_factory w) xs) = (rows_text w xs, None)"
proof (induction xs)
  case (Cons x xs)
  obtain c where "dict_row (fieldnames w) (row_factory w x) = Some c"
    using Cons.prems by (auto simp: factory_ok_def)
  then show ?case using Cons by (simp add: rows_text_def row_text_def)
qed (simp add: rows_text_def)

definition cw_all :: "'a csv_writer \<Rightarrow> 'a list" where
  "cw_all w = (case cw_inflight w of None \<Rightarrow> [] | Some (b, _) \<Rightarrow> b) @ items (entries (cw_queue w))"

definition cw_flag :: "'a csv_writer \<Rightarrow> bool" where
  "cw_flag w = (case cw_inflight w of Some (_, stop) \<Rightarrow> stop | None \<Rightarrow> False)"

definition cw_shape :: "'a csv_writer \<Rightarrow> bool" where
  "cw_shape w \<longleftrightarrow>
     (if cw_handle w
      then cw_task w = Active \<and> \<not> cw_flag w \<and> putters (cw_queue w) = [] \<and> STOP \<notin> set (entries (cw_queue w))
      else if cw_task w = Returned then cw_inflight w = None \<and> entries (cw_queue w) = [] \<and> putters (cw_queue w) = []
      else cw_task w = Active \<and>
        (if cw_flag w then entries (cw_queue w) = [] \<and> putters (cw_queue w) = []
         else \<exists>pre. entries (cw_queue w) = map Item pre @ [STOP] \<and> putters (cw_queue w) = [] \<or>
                    entries (cw_queue w) = map Item pre \<and> putters (cw_queue w) = [STOP]))"

definition csv_ok :: "'a csv_writer \<times> files \<Rightarrow> bool" where
  "csv_ok s \<longleftrightarrow> (let (w, fs) = s in
     fs (cw_path w) \<noteq> None \<and> factory_ok w \<and> cw_shape w \<and>
     enqueued w = written w + int (length (cw_all w)) \<and>
     length (entries (cw_queue w)) \<le> maxsize (cw_queue w) \<and> 0 < maxsize (cw_queue w))"

definition csv_accepts :: "'a csv_writer \<times> files \<Rightarrow> 'a csv_event \<Rightarrow> 'a list" where
  "csv_accepts s e = (case e of
     CSubmit x \<Rightarrow> if cw_handle (fst s) \<and> \<not> full (cw_queue (fst s)) then [x] else []
   | _ \<Rightarrow> [])"

definition csv_file :: "'a csv_writer \<times> files \<Rightarrow> string" where
  "csv_file s = the (snd s (cw_path (fst s)))"

lemma csv_step_frame:
  "fieldnames (fst (csv_step (w, fs) e)) = fieldnames w"
  "row_factory (fst (csv_step (w, fs) e)) = row_factory w"
  "cw_path (fst (csv_step (w, fs) e)) = cw_path w"
  by (cases e; auto simp: try_submit_event_def or_same_def cw_stop_def cw_resume_def cw_take_def cw_written_def Let_def
      split: option.splits list.splits queued.splits prod.splits)+

lemma rows_text_cong:
  "fieldnames w = fieldnames v \<Longrightarrow> row_factory w = row_factory v \<Longrightarrow> rows_text w = rows_text v"
  by (rule ext) (simp add: rows_text_def row_text_def [abs_def])

lemma rows_text_append [simp]: "rows_text w (a @ b) = rows_text w a @ rows_text w b"
  by (simp add: rows_text_def)

lemma rows_text_Nil [simp]: "rows_text w [] = []"
  by (simp add: rows_text_def)

lemma cw_take_cases:
  assumes "cw_shape w"
  obtains (idle) "cw_take w = w"
  | (stop) "cw_task w = Active" "cw_inflight w = None" "entries (cw_queue w) = [STOP]" "putters (cw_queue w) = []"
      "\<not> cw_handle w" "cw_take w = w\<lparr>cw_queue := (cw_queue w)\<lparr>entries := []\<rparr>, cw_task := Returned\<rparr>"
  | (batch) a xs b s rest where "cw_task w = Active" "cw_inflight w = None" "entries (cw_queue w) = Item a # xs"
      "fill_batch (cw_batch_size w) [a] xs = (b, s, rest)"
      "cw_take w = w\<lparr>cw_queue := (cw_queue w)\<lparr>entries := rest\<rparr>, cw_inflight := Some (b, s)\<rparr>"
proof (cases "cw_task w = Active \<and> cw_inflight w = None \<and> entries (cw_queue w) \<noteq> []")
  case False
  then show ?thesis by (intro idle) (auto simp: cw_take_def split: list.splits)
next
  case True
  then obtain x xs where x: "entries (cw_queue w) = x # xs" by (cases "entries (cw_queue w)") auto
  show ?thesis
  proof (cases x)
    case STOP
    then have "xs = []" "putters (cw_queue w) = []" "\<not> cw_handle w"
      using assms x True
      by (auto simp: cw_shape_def cw_flag_def Cons_eq_append_conv map_eq_Cons_conv Cons_eq_map_conv split: if_splits)
    then show ?thesis using stop True x STOP by (simp add: cw_take_def)
  next
    case (Item a)
    then show ?thesis using batch True x
      by (cases "fill_batch (cw_batch_size w) [a] xs") (auto simp: cw_take_def)
  qed
qed

lemma map_Item_inj: "map Item xs = map Item ys \<longleftrightarrow> xs = ys"
  by (simp add: inj_map_eq_map inj_def)

lemma stop_position:
  assumes "Item a # xs = map Item pre @ [STOP]" "xs = map Item p @ STOP # rest"
  shows "rest = []"
proof (rule ccontr)
  assume "rest \<noteq> []"
  then have "STOP \<in> set (butlast (Item a # xs))" using assms(2) by (simp add: butlast_append)
  moreover have "butlast (Item a # xs) = map Item pre" by (simp only: assms(1) butlast_snoc)
  ultimately show False by auto
qed

lemma stopping_shape:
  assumes "cw_shape w" "cw_task w = Active" "cw_inflight w = None" "\<not> cw_handle w"
  shows "\<exists>pre. entries (cw_queue w) = map Item pre @ [STOP] \<and> putters (cw_queue w) = [] \<or>
      entries (cw_queue w) = map Item pre \<and> putters (cw_queue w) = [STOP]"
  using assms unfolding cw_shape_def cw_flag_def by (simp del: map_eq_Cons_conv Cons_eq_map_conv)

lemma batch_shape:
  assumes "cw_shape w" "cw_task w = Active" "cw_inflight w = None" "entries (cw_queue w) = Item a # xs"
    "fill_batch n [a] xs = (b, s, rest)"
  shows "cw_shape (w\<lparr>cw_queue := (cw_queue w)\<lparr>entries := rest\<rparr>, cw_inflight := Some (b, s)\<rparr>)"
proof (cases s)
  case True
  then obtain p where p: "xs = map Item p @ STOP # rest" using fill_batch_stop [OF assms(5)] by auto
  then have "\<not> cw_handle w" using assms(1,4) by (auto simp: cw_shape_def)
  from stopping_shape [OF assms(1-3) this, unfolded assms(4)]
  obtain pre where d: "Item a # xs = map Item pre @ [STOP] \<and> putters (cw_queue w) = [] \<or>
      Item a # xs = map Item pre \<and> putters (cw_queue w) = [STOP]" ..
  have "STOP \<in> set (Item a # xs)" "STOP \<notin> set (map Item pre)" using p by auto
  with d have e: "Item a # xs = map Item pre @ [STOP]" "putters (cw_queue w) = []" by metis+
  have "rest = []" by (rule stop_position [OF e(1) p])
  with e show ?thesis using True \<open>\<not> cw_handle w\<close> assms(2) by (simp add: cw_shape_def cw_flag_def)
next
  case False
  then obtain p where p: "xs = map Item p @ rest" using fill_batch_go_on [of n "[a]" xs b rest] assms(5) by auto
  show ?thesis
  proof (cases "cw_handle w")
    case True
    then show ?thesis using assms(1,4) p False by (auto simp: cw_shape_def cw_flag_def)
  next
    case nh: False
    from stopping_shape [OF assms(1-3) this, unfolded assms(4) p]
    obtain pre where pre: "Item a # map Item p @ rest = map Item pre @ [STOP] \<and> putters (cw_queue w) = [] \<or>
        Item a # map Item p @ rest = map Item pre \<and> putters (cw_queue w) = [STOP]" ..
    have "\<exists>q. rest = map Item q @ [STOP]" if "map Item (a # p) @ rest = map Item pre @ [STOP]"
      using that by (auto simp: append_eq_append_conv2 append_eq_map_conv map_eq_append_conv append_eq_Cons_conv Cons_eq_append_conv)
    moreover have "\<exists>q. rest = map Item q" if "map Item (a # p) @ rest = map Item pre"
      using that by (auto simp: append_eq_map_conv)
    ultimately show ?thesis using pre nh assms(2) False by (auto simp: cw_shape_def cw_flag_def)
  qed
qed

definition csv_flow :: "'a csv_writer \<times> files \<Rightarrow> string" where
  "csv_flow s = csv_file s @ rows_text (fst s) (cw_all (fst s))"

lemma csv_submit_step:
  assumes "csv_ok (w, fs)"
  shows "csv_ok (csv_step (w, fs) (CSubmit x)) \<and>
    cw_all (fst (csv_step (w, fs) (CSubmit x))) = cw_all w @ csv_accepts (w, fs) (CSubmit x)"
  using assms
  by (auto simp: csv_ok_def try_submit_event_def or_same_def put_nowait_def csv_accepts_def full_def cw_all_def
      cw_shape_def cw_flag_def factory_ok_def split: option.splits if_splits)

lemma csv_stop_step:
  assumes "csv_ok (w, fs)"
  shows "csv_ok (csv_step (w, fs) CStop) \<and> cw_all (fst (csv_step (w, fs) CStop)) = cw_all w"
proof (cases "cw_handle w")
  case True
  then have "STOP \<notin> set (entries (cw_queue w))" "putters (cw_queue w) = []" "cw_task w = Active" "\<not> cw_flag w"
    using assms by (auto simp: csv_ok_def cw_shape_def)
  moreover from this have "entries (cw_queue w) = map Item (items (entries (cw_queue w)))"
    by (simp add: no_stop_items)
  ultimately show ?thesis
    using assms True
    by (auto simp: csv_ok_def cw_stop_def put_wait_def full_def cw_all_def cw_shape_def cw_flag_def factory_ok_def)
qed (use assms in \<open>simp add: cw_stop_def\<close>)

lemma csv_resume_step:
  assumes "csv_ok (w, fs)"
  shows "csv_ok (csv_step (w, fs) CResume) \<and> cw_all (fst (csv_step (w, fs) CResume)) = cw_all w"
proof (cases "putters (cw_queue w) = [STOP] \<and> \<not> full (cw_queue w)")
  case True
  then have "\<not> cw_handle w" "cw_task w = Active" "\<not> cw_flag w" "\<exists>pre. entries (cw_queue w) = map Item pre"
    using assms by (auto simp: csv_ok_def cw_shape_def split: if_splits)
  then show ?thesis
    using assms True
    by (auto simp: csv_ok_def cw_resume_def resume_put_def full_def cw_all_def cw_shape_def cw_flag_def factory_ok_def)
next
  case False
  then have "resume_put 0 (cw_queue w) = (None, cw_queue w)"
    using assms by (auto simp: resume_put_def csv_ok_def cw_shape_def split: if_splits)
  then show ?thesis using assms by (simp add: cw_resume_def)
qed

lemma csv_take_step:
  assumes "csv_ok (w, fs)"
  shows "csv_ok (csv_step (w, fs) CTake) \<and> cw_all (fst (csv_step (w, fs) CTake)) = cw_all w"
proof -
  have "cw_shape w" using assms by (simp add: csv_ok_def)
  then show ?thesis
  proof (cases rule: cw_take_cases)
    case idle
    then show ?thesis using assms by simp
  next
    case stop
    then show ?thesis using assms by (auto simp: csv_ok_def cw_all_def cw_shape_def cw_flag_def factory_ok_def)
  next
    case (batch a xs b s rest)
    note sh = batch_shape [OF \<open>cw_shape w\<close> batch(1-4)]
    have "length rest \<le> length xs" "b @ items rest = a # items xs"
      using fill_batch_length [OF batch(4)] fill_batch_flow [OF batch(4)] by simp_all
    moreover from this(2) have "int (length b) + int (length (items rest)) = 1 + int (length (items xs))"
      by (metis length_append length_Cons of_nat_Suc of_nat_add)
    ultimately show ?thesis using assms batch sh by (simp add: csv_ok_def cw_all_def factory_ok_def)
  qed
qed

lemma csv_written_step:
  assumes "csv_ok (w, fs)"
  shows "csv_ok (csv_step (w, fs) CWritten)" "csv_flow (csv_step (w, fs) CWritten) = csv_flow (w, fs)"
proof -
  have f: "append_rows (fieldnames w) (map (row_factory w) xs) = (rows_text w xs, None)" for xs
    using assms by (intro append_rows_ok) (simp add: csv_ok_def)
  show "csv_ok (csv_step (w, fs) CWritten)"
    using assms f
    by (cases "cw_inflight w")
      (auto simp: csv_ok_def cw_written_def append_text_def cw_all_def cw_shape_def cw_flag_def factory_ok_def split: if_splits)
  show "csv_flow (csv_step (w, fs) CWritten) = csv_flow (w, fs)"
    using assms f
    by (cases "cw_inflight w")
      (auto simp: csv_ok_def cw_written_def append_text_def csv_flow_def csv_file_def cw_all_def
        intro!: rows_text_cong [THEN fun_cong])
qed

lemma csv_step_file: "e \<noteq> CWritten \<Longrightarrow> csv_file (csv_step (w, fs) e) = csv_file (w, fs)"
  using csv_step_frame(3) [of w fs e] by (cases e) (auto simp: csv_file_def)

interpretation csv: sink csv_step csv_ok "\<lambda>_. True" csv_file "\<lambda>s. rows_text (fst s) (cw_all (fst s))"
    "\<lambda>s e. rows_text (fst s) (csv_accepts s e)"
proof
  fix s :: "'a csv_writer \<times> files" and e
  assume s: "csv_ok s"
  obtain w fs where sf: "s = (w, fs)" by (cases s) auto
  note ok = s [unfolded sf]
  note steps = csv_submit_step [OF ok] csv_stop_step [OF ok] csv_resume_step [OF ok] csv_take_step [OF ok] csv_written_step [OF ok]
  show "csv_ok (csv_step s e)" using steps by (cases e) (auto simp: sf)
  have fr: "rows_text (fst (csv_step s e)) = rows_text w"
    using csv_step_frame [of w fs e] by (intro rows_text_cong) (simp_all add: sf)
  show "csv_file (csv_step s e) @ rows_text (fst (csv_step s e)) (cw_all (fst (csv_step s e))) =
      csv_file s @ rows_text (fst s) (cw_all (fst s)) @ rows_text (fst s) (csv_accepts s e)"
    using steps csv_step_file [of e w fs] fr
    by (cases e) (auto simp: sf csv_accepts_def csv_flow_def)
qed

section \<open>Properties\<close>

text \<open>What the producers offered while the writer was running, taken or not.\<close>

definition csv_offers :: "'a csv_writer \<times> files \<Rightarrow> 'a csv_event \<Rightarrow> 'a list" where
  "csv_offers s e = (case e of CSubmit x \<Rightarrow> if cw_handle (fst s) then [x] else [] | _ \<Rightarrow> [])"

lemma csv_gather_text:
  "gather csv_step (\<lambda>s e. rows_text (fst s) (csv_accepts s e)) s es = rows_text (fst s) (gather csv_step csv_accepts s es)"
proof (induction es arbitrary: s)
  case (Cons e es)
  have "rows_text (fst (csv_step s e)) = rows_text (fst s)"
    using csv_step_frame [of "fst s" "snd s" e] by (intro rows_text_cong) simp_all
  then show ?case using Cons by simp
qed simp

lemma csv_step_counts:
  "enqueued (fst (csv_step (w, fs) e)) = enqueued w + int (length (csv_accepts (w, fs) e)) \<and>
   enqueued (fst (csv_step (w, fs) e)) + cw_queue_full_drops (fst (csv_step (w, fs) e)) =
     enqueued w + cw_queue_full_drops w + int (length (csv_offers (w, fs) e))"
  by (cases e)
    (auto simp: try_submit_event_def or_same_def put_nowait_def csv_accepts_def csv_offers_def cw_stop_def
      cw_resume_def cw_take_def cw_written_def Let_def split: option.splits list.splits queued.splits prod.splits)

lemma csv_run_counts:
  "enqueued (fst (foldl csv_step s es)) = enqueued (fst s) + int (length (gather csv_step csv_accepts s es)) \<and>
   enqueued (fst (foldl csv_step s es)) + cw_queue_full_drops (fst (foldl csv_step s es)) =
     enqueued (fst s) + cw_queue_full_drops (fst s) + int (length (gather csv_step csv_offers s es))"
proof (induction es arbitrary: s)
  case (Cons e es)
  show ?case using csv_step_counts [of "fst s" "snd s" e] Cons.IH [of "csv_step s e"] by auto
qed simp

lemma cw_started:
  assumes "AsyncCsvWriter p names factory q b = Inr w" "cw_start (w, fs) = Inr s"
    "\<forall>x. dict_row names (factory x) \<noteq> None"
  shows "csv_ok s" "fieldnames (fst s) = names" "row_factory (fst s) = factory" "csv_file s = csv_line names"
    "cw_all (fst s) = []" "enqueued (fst s) = 0" "cw_queue_full_drops (fst s) = 0"
  using assms
  by (auto simp: AsyncCsvWriter_def cw_start_def rbind_eq_Inr_iff create_exclusive_Inr csv_ok_def cw_shape_def
      cw_flag_def cw_all_def new_queue_def factory_ok_def csv_file_def split: if_splits)

lemma dict_row_nonempty: "dict_row names row = Some cells \<Longrightarrow> names \<noteq> [] \<Longrightarrow> cells \<noteq> []"
  by (auto simp: dict_row_def split: if_splits)

text \<open>C12: Event evidence is complete up to counted drops. For a writer whose rows fit its header and
  any interleaving of submissions, batches and a stop: every event offered is either enqueued or
  counted as a queue-full drop; the writer never fails; once its worker has returned, all enqueued
  events are written, and reading the file back yields the header and then their rows in order.\<close>

theorem event_evidence_complete:
  assumes "AsyncCsvWriter p names factory q b = Inr w" "cw_start (w, fs) = Inr s0"
    "\<forall>x. dict_row names (factory x) \<noteq> None" "names \<noteq> []"
  shows "let s = foldl csv_step s0 es; acc = gather csv_step csv_accepts s0 es in
    int (length (gather csv_step csv_offers s0 es)) = enqueued (fst s) + cw_queue_full_drops (fst s) \<and>
    enqueued (fst s) = int (length acc) \<and> (\<forall>e. cw_task (fst s) \<noteq> Failed e) \<and>
    (cw_task (fst s) = Returned \<longrightarrow> written (fst s) = enqueued (fst s) \<and>
      csv_read StartRecord [] [] (csv_file s) = names # map (\<lambda>x. the (dict_row names (factory x))) acc)"
proof -
  note i = cw_started [OF assms(1-3)]
  let ?s = "foldl csv_step s0 es" and ?acc = "gather csv_step csv_accepts s0 es"
  have ok: "csv_ok ?s" and fl: "csv_file ?s @ rows_text (fst ?s) (cw_all (fst ?s)) = csv_line names @ rows_text (fst s0) ?acc"
    using csv.run_flow [OF i(1), of es] i(4,5) csv_gather_text [of s0 es] by (simp_all add: list_all_iff)
  have sh: "cw_shape (fst ?s)" "enqueued (fst ?s) = written (fst ?s) + int (length (cw_all (fst ?s)))"
    using ok by (cases ?s; simp add: csv_ok_def)+
  have nf: "\<forall>e. cw_task (fst ?s) \<noteq> Failed e" using sh(1) by (auto simp: cw_shape_def split: if_splits)
  have empty: "cw_all (fst ?s) = []" if "cw_task (fst ?s) = Returned"
    using sh(1) that by (auto simp: cw_shape_def cw_all_def split: if_splits)
  have rows: "list_all (\<lambda>r. r \<noteq> []) (names # map (\<lambda>x. the (dict_row names (factory x))) ?acc)"
    using assms(3,4) dict_row_nonempty by (fastforce simp: list_all_iff)
  have "csv_read StartRecord [] [] (csv_file ?s) = names # map (\<lambda>x. the (dict_row names (factory x))) ?acc"
    if "cw_task (fst ?s) = Returned"
    using fl empty [OF that] csv_lines_read [OF rows] i(2,3) by (simp add: rows_text_def row_text_def [abs_def] comp_def)
  then show ?thesis
    using csv_run_counts [of s0 es] i(6,7) sh(2) nf empty by (auto simp: Let_def)
qed

lemma recorder_rows_fit:
  "dict_row gateway_fields (gateway_row dumps e) \<noteq> None" "dict_row health_fields (health_row h) \<noteq> None"
  by (simp_all add: dict_row_def gateway_fields_def gateway_row_def health_fields_def health_row_def)

definition sample_event :: gateway_event where
  "sample_event = \<lparr>ge_timestamp_ms = 5, ge_source = ''gateway'', ge_event_type = ''gap'', ge_node_id = ''n1'',
     ge_details = [(''sequence'', JInt 3)]\<rparr>"

definition sample_writer :: "gateway_event csv_writer" where
  "sample_writer = \<lparr>cw_path = ''g.csv'', fieldnames = gateway_fields, row_factory = gateway_row (\<lambda>j. ''{}''),
     cw_batch_size = 100, enqueued = 0, written = 0, cw_queue_full_drops = 0, cw_queue = new_queue 1,
     cw_handle = False, cw_task = NoTask, cw_inflight = None\<rparr>"

theorem event_evidence_complete_witness:
  "let s0 = (sample_writer\<lparr>cw_handle := True, cw_task := Active\<rparr>, [''g.csv'' \<mapsto> csv_line gateway_fields]);
       es = [CSubmit sample_event, CSubmit sample_event, CStop, CTake, CWritten, CResume, CTake];
       s = foldl csv_step s0 es in
     int (length (gather csv_step csv_offers s0 es)) = enqueued (fst s) + cw_queue_full_drops (fst s)"
proof -
  have "AsyncCsvWriter ''g.csv'' gateway_fields (gateway_row (\<lambda>j. ''{}'')) 1 100 = Inr sample_writer"
    "cw_start (sample_writer, Map.empty) =
       Inr (sample_writer\<lparr>cw_handle := True, cw_task := Active\<rparr>, [''g.csv'' \<mapsto> csv_line gateway_fields])"
    by (simp_all add: AsyncCsvWriter_def sample_writer_def cw_start_def create_exclusive_def)
  note complete = event_evidence_complete [OF this, unfolded Let_def, THEN conjunct1]
  have "gateway_fields \<noteq> []" by (simp add: gateway_fields_def)
  then show ?thesis unfolding Let_def by (intro complete) (simp_all add: recorder_rows_fit)
qed

end
