(* ===== verification/Gateway_Server.thy ===== *)
theory Gateway_Server
  imports Framing Events
begin

text \<open>
  The gateway server (\<^verbatim>\<open>src/gateway/server.py\<close>): acceptance of clients, the handling of every
  frame a client's reader delivers, the liveness monitor, health and gateway events. The state
  holds the counters, the registry, the open clients with the nodes each has identified, and
  what was handed to the callbacks. A step is the code between two suspension points of a client
  handler or of the monitor, so a run is an arbitrary interleaving of clients. JSON parsing is a
  parameter in the two forms the code uses: \<open>parse_json\<close> (pydantic) and \<open>loads\<close>
  (\<open>json.loads\<close>).
\<close>

section \<open>Data model\<close>

record gateway_stats =
  connections_accepted :: int
  gs_active_connections :: int
  valid_messages :: int
  sensor_bytes :: int
  malformed_json :: int
  schema_rejections :: int
  rejected_readings :: int
  overlong_messages :: int
  truncated_messages :: int
  idle_disconnects :: int

definition zero_gateway_stats :: gateway_stats where
  "zero_gateway_stats = \<lparr>connections_accepted = 0, gs_active_connections = 0, valid_messages = 0, sensor_bytes = 0,
     malformed_json = 0, schema_rejections = 0, rejected_readings = 0, overlong_messages = 0,
     truncated_messages = 0, idle_disconnects = 0\<rparr>"

definition invalid_messages :: "gateway_stats \<Rightarrow> int" where
  "invalid_messages s = malformed_json s + schema_rejections s + overlong_messages s + truncated_messages s"

text \<open>\<open>gw_clients\<close> maps an open connection to the nodes it has identified
  (\<open>connection_nodes\<close>); the last three fields record the callback calls.\<close>

record gateway_server =
  max_message_bytes :: nat
  client_idle_timeout :: pyfloat
  liveness_check_interval :: pyfloat
  has_gateway_cb :: bool
  has_health_cb :: bool
  has_message_cb :: bool
  gw_stats :: gateway_stats
  gw_registry :: node_registry
  gw_clients :: "(nat, string list) dict"
  gw_monitor :: task
  gw_events :: "gateway_event list"
  gw_health :: "health_event list"
  gw_messages :: "received_message list"

section \<open>Construction\<close>

definition GatewayServer ::
  "int \<Rightarrow> pyfloat \<Rightarrow> node_registry \<Rightarrow> pyfloat \<Rightarrow> bool \<Rightarrow> bool \<Rightarrow> bool \<Rightarrow> gateway_server result" where
  "GatewayServer max_bytes idle reg interval on_message on_gateway on_health =
     (if max_bytes < 1 then Inl (ValueError ''max_message_bytes must be positive'')
      else if fle idle (Fin 0) then Inl (ValueError ''client_idle_timeout must be positive'')
      else if fle interval (Fin 0) then Inl (ValueError ''liveness_check_interval must be positive'')
      else Inr \<lparr>max_message_bytes = nat max_bytes, client_idle_timeout = idle, liveness_check_interval = interval,
        has_gateway_cb = on_gateway, has_health_cb = on_health, has_message_cb = on_message,
        gw_stats = zero_gateway_stats, gw_registry = reg, gw_clients = [], gw_monitor = Active,
        gw_events = [], gw_health = [], gw_messages = []\<rparr>)"

section \<open>Events\<close>

definition emit_gateway_event ::
  "int \<Rightarrow> string \<Rightarrow> string \<Rightarrow> (string \<times> json) list \<Rightarrow> gateway_server \<Rightarrow> gateway_server" where
  "emit_gateway_event at_ms event_type node details g =
     (if \<not> has_gateway_cb g then g
      else g\<lparr>gw_events := gw_events g @
        [\<lparr>ge_timestamp_ms = at_ms, ge_source = ''gateway'', ge_event_type = event_type, ge_node_id = node,
          ge_details = details\<rparr>]\<rparr>)"

definition transition_reason :: "health_transition \<Rightarrow> string" where
  "transition_reason t =
     (if ht_previous t = None then ''initial_message''
      else if ht_current t = ONLINE then ''valid_message_recovery'' else ''liveness_timeout'')"

definition health_event_of :: "node_record \<Rightarrow> health_transition \<Rightarrow> health_event" where
  "health_event_of r t =
     \<lparr>he_timestamp_ms = ht_timestamp_ms t, he_node_id = nr_node_id r, he_node_kind = node_kind_str (nr_node_kind r),
      he_old_state = (case ht_previous t of None \<Rightarrow> [] | Some h \<Rightarrow> health_value h),
      he_new_state = health_value (ht_current t), he_reason = transition_reason t,
      he_last_seen_ms = last_seen_ms r, he_last_sequence = last_sequence r\<rparr>"

text \<open>\<open>_handle_transition\<close>; the registry lookup cannot fail for a transition of the registry.\<close>

definition handle_transition :: "gateway_server \<Rightarrow> health_transition \<Rightarrow> gateway_server" where
  "handle_transition g t =
     (if \<not> has_health_cb g then g
      else case dict_get (nodes (gw_registry g)) (ht_node_id t) of
        None \<Rightarrow> g
      | Some r \<Rightarrow> g\<lparr>gw_health := gw_health g @ [health_event_of r t]\<rparr>)"

section \<open>Rejected lines\<close>

definition is_reading_candidate :: "(bytes \<Rightarrow> json option) \<Rightarrow> bytes \<Rightarrow> bool" where
  "is_reading_candidate loads line =
     (case loads line of Some (JObj fs) \<Rightarrow> map_of fs ''type'' = Some (JStr ''reading'') | _ \<Rightarrow> False)"

text \<open>Python's \<open>value == 1\<close> on a JSON value: \<open>1\<close>, \<open>1.0\<close> and \<open>true\<close>.\<close>

definition equals_one :: "json option \<Rightarrow> bool" where
  "equals_one v \<longleftrightarrow> v = Some (JInt 1) \<or> v = Some (JFloat (Fin 1)) \<or> v = Some (JBool True)"

definition schema_event_type :: "(bytes \<Rightarrow> json option) \<Rightarrow> bytes \<Rightarrow> string" where
  "schema_event_type loads line =
     (case loads line of
        Some (JObj fs) \<Rightarrow>
          if \<not> equals_one (map_of fs ''version'') then ''unsupported_protocol_version'' else ''invalid_message''
      | _ \<Rightarrow> ''invalid_message'')"

definition reject_malformed :: "int \<Rightarrow> gateway_server \<Rightarrow> gateway_server" where
  "reject_malformed now g =
     emit_gateway_event now ''malformed_json'' [] []
       (g\<lparr>gw_stats := (gw_stats g)\<lparr>malformed_json := malformed_json (gw_stats g) + 1\<rparr>\<rparr>)"

definition reject_schema :: "(bytes \<Rightarrow> json option) \<Rightarrow> int \<Rightarrow> bytes \<Rightarrow> gateway_server \<Rightarrow> gateway_server" where
  "reject_schema loads now line g =
     emit_gateway_event now (schema_event_type loads line) [] []
       (g\<lparr>gw_stats := (gw_stats g)\<lparr>schema_rejections := schema_rejections (gw_stats g) + 1,
            rejected_readings := rejected_readings (gw_stats g) + (if is_reading_candidate loads line then 1 else 0)\<rparr>\<rparr>)"

section \<open>Accepted messages\<close>

definition status_event_type :: "sequence_status \<Rightarrow> string" where
  "status_event_type st = (case st of
     FIRST \<Rightarrow> ''first'' | IN_ORDER \<Rightarrow> ''in_order'' | GAP \<Rightarrow> ''gap'' | DUPLICATE \<Rightarrow> ''duplicate''
   | OUT_OF_ORDER \<Rightarrow> ''out_of_order'' | RESET \<Rightarrow> ''reset'')"

definition observe_message :: "sensor_message \<Rightarrow> int \<Rightarrow> int \<Rightarrow> gateway_server \<Rightarrow> sequence_status \<times> gateway_server" where
  "observe_message m at_ms mono_ns g =
     (let transition_count = (case dict_get (nodes (gw_registry g)) (msg_node_id m) of
            None \<Rightarrow> 0 | Some r \<Rightarrow> length (nr_transitions r));
          (st, reg) = observe (gw_registry g) m at_ms mono_ns;
          g1 = g\<lparr>gw_registry := reg\<rparr>;
          trs = (case dict_get (nodes reg) (msg_node_id m) of
            None \<Rightarrow> [] | Some r \<Rightarrow> drop transition_count (nr_transitions r))
      in (st, foldl handle_transition g1 trs))"

definition note_status :: "sequence_status \<Rightarrow> sensor_message \<Rightarrow> int \<Rightarrow> gateway_server \<Rightarrow> gateway_server" where
  "note_status st m at_ms g =
     (if st = FIRST \<or> st = IN_ORDER then g
      else emit_gateway_event at_ms (status_event_type st) (msg_node_id m)
        [(''sequence'', JInt (msg_sequence m)),
         (''last_sequence'', JInt (case dict_get (nodes (gw_registry g)) (msg_node_id m) of
             None \<Rightarrow> 0 | Some r \<Rightarrow> last_sequence r))] g)"

text \<open>The first message of a node on a connection marks it connected.\<close>

definition identify_node :: "nat \<Rightarrow> string \<Rightarrow> int \<Rightarrow> gateway_server \<Rightarrow> gateway_server" where
  "identify_node cid n at_ms g =
     (case dict_get (gw_clients g) cid of
        None \<Rightarrow> g
      | Some ns \<Rightarrow>
          if n \<in> set ns then g
          else (case connection_opened (gw_registry g) n of
             Inl e \<Rightarrow> g
           | Inr reg \<Rightarrow> emit_gateway_event at_ms ''connection_opened'' n []
               (g\<lparr>gw_clients := dict_set cid (ns @ [n]) (gw_clients g), gw_registry := reg\<rparr>)))"

definition deliver :: "received_message \<Rightarrow> gateway_server \<Rightarrow> gateway_server" where
  "deliver rc g = (if has_message_cb g then g\<lparr>gw_messages := gw_messages g @ [rc]\<rparr> else g)"

definition accept_message :: "nat \<Rightarrow> sensor_message \<Rightarrow> nat \<Rightarrow> int \<Rightarrow> int \<Rightarrow> gateway_server \<Rightarrow> gateway_server" where
  "accept_message cid m wire at_ms mono_ns g =
     (let g1 = g\<lparr>gw_stats := (gw_stats g)\<lparr>valid_messages := valid_messages (gw_stats g) + 1,
                              sensor_bytes := sensor_bytes (gw_stats g) + int wire\<rparr>\<rparr>;
          (st, g2) = observe_message m at_ms mono_ns g1;
          g3 = note_status st m at_ms g2;
          g4 = identify_node cid (msg_node_id m) at_ms g3
      in deliver \<lparr>rm_message = m, received_at_ms = at_ms, received_monotonic_ns = mono_ns, wire_bytes = int wire,
                  rm_sequence_status = st\<rparr> g4)"

definition handle_line ::
  "json_parser \<Rightarrow> (bytes \<Rightarrow> json option) \<Rightarrow> nat \<Rightarrow> bytes \<Rightarrow> int \<Rightarrow> int \<Rightarrow> int \<Rightarrow> gateway_server \<Rightarrow> gateway_server" where
  "handle_line parse_json loads cid line at_ms mono_ns now g =
     (case parse_message parse_json (butlast line) of
        Inl MalformedJson \<Rightarrow> reject_malformed now g
      | Inl SchemaValidation \<Rightarrow> reject_schema loads now line g
      | Inr m \<Rightarrow> accept_message cid m (length line) at_ms mono_ns g)"

section \<open>Connections\<close>

definition accept_client :: "nat \<Rightarrow> string \<Rightarrow> int \<Rightarrow> gateway_server \<Rightarrow> gateway_server" where
  "accept_client cid peer now g =
     emit_gateway_event now ''connection_accepted'' [] [(''peer'', JStr peer)]
       (g\<lparr>gw_clients := dict_set cid [] (gw_clients g),
          gw_stats := (gw_stats g)\<lparr>connections_accepted := connections_accepted (gw_stats g) + 1,
            gs_active_connections := gs_active_connections (gw_stats g) + 1\<rparr>\<rparr>)"

definition release_node :: "int \<Rightarrow> gateway_server \<Rightarrow> string \<Rightarrow> gateway_server" where
  "release_node now g n =
     emit_gateway_event now ''connection_closed'' n [] (g\<lparr>gw_registry := connection_closed (gw_registry g) n\<rparr>)"

text \<open>The \<open>finally\<close> block of \<open>_accept_client\<close>.\<close>

definition close_client :: "nat \<Rightarrow> int \<Rightarrow> gateway_server \<Rightarrow> gateway_server" where
  "close_client cid now g =
     (case dict_get (gw_clients g) cid of
        None \<Rightarrow> g
      | Some ns \<Rightarrow>
          foldl (release_node now)
            (g\<lparr>gw_stats := (gw_stats g)\<lparr>gs_active_connections := gs_active_connections (gw_stats g) - 1\<rparr>,
               gw_clients := AList.delete cid (gw_clients g)\<rparr>) ns)"

definition count_end :: "frame \<Rightarrow> int \<Rightarrow> gateway_server \<Rightarrow> gateway_server" where
  "count_end f now g =
     (case f of
        FOverlong \<Rightarrow> emit_gateway_event now ''oversized_message'' [] []
          (g\<lparr>gw_stats := (gw_stats g)\<lparr>overlong_messages := overlong_messages (gw_stats g) + 1\<rparr>\<rparr>)
      | FTruncated \<Rightarrow> emit_gateway_event now ''truncated_eof'' [] []
          (g\<lparr>gw_stats := (gw_stats g)\<lparr>truncated_messages := truncated_messages (gw_stats g) + 1\<rparr>\<rparr>)
      | FIdle \<Rightarrow> emit_gateway_event now ''idle_disconnect'' [] []
          (g\<lparr>gw_stats := (gw_stats g)\<lparr>idle_disconnects := idle_disconnects (gw_stats g) + 1\<rparr>\<rparr>)
      | _ \<Rightarrow> g)"

text \<open>One turn of \<open>_read_client\<close> on the frame its reader delivered; \<open>at_ms\<close> and \<open>mono_ns\<close> are the
  receive times, \<open>now\<close> the later clock read of an event without explicit timestamp.\<close>

definition client_frame ::
  "json_parser \<Rightarrow> (bytes \<Rightarrow> json option) \<Rightarrow> nat \<Rightarrow> frame \<Rightarrow> int \<Rightarrow> int \<Rightarrow> int \<Rightarrow> gateway_server \<Rightarrow> gateway_server" where
  "client_frame parse_json loads cid f at_ms mono_ns now g =
     (if dict_get (gw_clients g) cid = None then g
      else case f of
        FLine line \<Rightarrow> handle_line parse_json loads cid line at_ms mono_ns now g
      | _ \<Rightarrow> close_client cid now (count_end f now g))"

text \<open>One turn of \<open>_monitor_liveness\<close>; an exception ends the monitor task.\<close>

definition monitor_liveness :: "int \<Rightarrow> int \<Rightarrow> gateway_server \<Rightarrow> gateway_server" where
  "monitor_liveness mono_ns wall_ms g =
     (if gw_monitor g \<noteq> Active then g
      else case refresh_health (gw_registry g) mono_ns wall_ms of
        Inl e \<Rightarrow> g\<lparr>gw_monitor := Failed e\<rparr>
      | Inr (changed, reg) \<Rightarrow> foldl handle_transition (g\<lparr>gw_registry := reg\<rparr>) changed)"

datatype gw_event =
    GAccept nat string int
  | GFrame nat frame int int int
  | GHandlerError nat int
  | GLiveness int int

text \<open>\<open>GHandlerError\<close>: an exception in the handler or a callback ends that client only.\<close>

fun gw_step :: "json_parser \<Rightarrow> (bytes \<Rightarrow> json option) \<Rightarrow> gateway_server \<Rightarrow> gw_event \<Rightarrow> gateway_server" where
  "gw_step pj ld g (GAccept cid peer now) = (if dict_get (gw_clients g) cid = None then accept_client cid peer now g else g)"
| "gw_step pj ld g (GFrame cid f at_ms mono_ns now) = client_frame pj ld cid f at_ms mono_ns now g"
| "gw_step pj ld g (GHandlerError cid now) = close_client cid now g"
| "gw_step pj ld g (GLiveness mono_ns wall_ms) = monitor_liveness mono_ns wall_ms g"

section \<open>Frames of the helpers\<close>

lemma emit_frame [simp]:
  "gw_registry (emit_gateway_event a t n d g) = gw_registry g" "gw_clients (emit_gateway_event a t n d g) = gw_clients g"
  "gw_stats (emit_gateway_event a t n d g) = gw_stats g" "gw_health (emit_gateway_event a t n d g) = gw_health g"
  "gw_messages (emit_gateway_event a t n d g) = gw_messages g" "has_health_cb (emit_gateway_event a t n d g) = has_health_cb g"
  "has_message_cb (emit_gateway_event a t n d g) = has_message_cb g" "gw_monitor (emit_gateway_event a t n d g) = gw_monitor g"
  "has_gateway_cb (emit_gateway_event a t n d g) = has_gateway_cb g"
  by (simp_all add: emit_gateway_event_def)

lemma transition_handler_frame [simp]:
  "gw_registry (handle_transition g t) = gw_registry g" "gw_clients (handle_transition g t) = gw_clients g"
  "gw_stats (handle_transition g t) = gw_stats g" "gw_messages (handle_transition g t) = gw_messages g"
  "has_health_cb (handle_transition g t) = has_health_cb g" "has_message_cb (handle_transition g t) = has_message_cb g"
  "gw_events (handle_transition g t) = gw_events g"
  by (auto simp: handle_transition_def split: option.splits)

lemma transitions_handler_frame [simp]:
  "gw_registry (foldl handle_transition g ts) = gw_registry g" "gw_clients (foldl handle_transition g ts) = gw_clients g"
  "gw_stats (foldl handle_transition g ts) = gw_stats g" "gw_messages (foldl handle_transition g ts) = gw_messages g"
  "has_health_cb (foldl handle_transition g ts) = has_health_cb g"
  "has_message_cb (foldl handle_transition g ts) = has_message_cb g"
  by (induction ts arbitrary: g; simp)+

section \<open>Connections and the registry\<close>

definition active_of :: "node_registry \<Rightarrow> string \<Rightarrow> int" where
  "active_of reg n = (case dict_get (nodes reg) n of None \<Rightarrow> 0 | Some r \<Rightarrow> active_connections r)"

definition known :: "node_registry \<Rightarrow> string set" where
  "known reg = fst ` set (nodes reg)"

lemma known_iff: "n \<in> known reg \<longleftrightarrow> dict_get (nodes reg) n \<noteq> None"
  by (simp add: known_def map_of_eq_None_iff)

lemma store_active:
  "active_of (store_record reg n r trs) k = (if k = n then active_connections r else active_of reg k)"
  "known (store_record reg n r trs) = insert n (known reg)"
  by (auto simp: active_of_def store_record_def known_iff split: if_splits)

lemma observe_active:
  "active_of (snd (observe reg m a b)) k = active_of reg k" "known (snd (observe reg m a b)) = insert (msg_node_id m) (known reg)"
proof -
  have cl: "active_connections (snd (classify_sequence r s)) = active_connections r" for r s
    using classify_sequence_frame(4) by (metis prod.collapse)
  have tr: "active_connections (snd (transition r h t i)) = active_connections r" for r h t i
    by (simp add: transition_def Let_def)
  have un: "active_connections (update_seen r m a b) = active_connections r" for r by (simp add: update_seen_def)
  have nw: "active_connections (new_record m a b) = 0" by (simp add: new_record_def)
  show "active_of (snd (observe reg m a b)) k = active_of reg k"
    using cl tr un nw
    by (auto simp: observe_def store_active case_prod_beta Let_def split: option.splits)
      (auto simp: active_of_def)
  show "known (snd (observe reg m a b)) = insert (msg_node_id m) (known reg)"
    by (auto simp: observe_def store_active case_prod_beta Let_def split: option.splits)
qed

lemma opened_active:
  assumes "connection_opened reg n = Inr reg'"
  shows "active_of reg' k = active_of reg k + (if k = n then 1 else 0)" "known reg' = known reg"
  using assms
  by (auto simp: connection_opened_def store_active active_of_def known_iff split: option.splits)
    (auto simp: store_record_def active_of_def known_iff split: if_splits)

lemma opened_known: "n \<in> known reg \<Longrightarrow> \<exists>reg'. connection_opened reg n = Inr reg'"
  by (auto simp: connection_opened_def known_iff)

lemma closed_active:
  "active_of (connection_closed reg n) k = (if k = n \<and> n \<in> known reg then max 0 (active_of reg n - 1) else active_of reg k)"
  "known (connection_closed reg n) = known reg"
  by (auto simp: connection_closed_def store_active active_of_def known_iff Let_def split: option.splits)
    (auto simp: store_record_def known_iff split: if_splits)

lemma refresh_active:
  assumes "refresh_health reg now wall = Inr (ch, reg')"
  shows "active_of reg' k = active_of reg k" "known reg' = known reg" "transitions reg' = transitions reg @ ch"
proof -
  obtain a b where r: "reg' = reg\<lparr>nodes := map (\<lambda>(k, r). (k, snd (refresh_node a b now wall r))) (nodes reg),
      transitions := transitions reg @ ch\<rparr>"
    using assms by (auto simp: refresh_health_def Let_def rbind_eq_Inr_iff)
  have m: "map_of (map (\<lambda>(k, r). (k, f r)) xs) n = map_option f (map_of xs n)" for f :: "node_record \<Rightarrow> node_record" and xs n
    by (induction xs) auto
  have ac: "active_connections (snd (refresh_node a b now wall x)) = active_connections x" for x
    by (simp add: refresh_node_def transition_def Let_def)
  show "active_of reg' k = active_of reg k" "known reg' = known reg" "transitions reg' = transitions reg @ ch"
    unfolding r using m [of "\<lambda>r. snd (refresh_node a b now wall r)" "nodes reg"]
    by (auto simp: active_of_def known_iff ac split: option.splits)
qed

definition holders :: "(nat, string list) dict \<Rightarrow> string \<Rightarrow> nat" where
  "holders cs n = length (filter (\<lambda>(c, ns). n \<in> set ns) cs)"

lemma holders_set:
  "distinct (map fst cs) \<Longrightarrow> dict_get cs c = Some ns \<Longrightarrow>
     int (holders (dict_set c ns' cs) n) = int (holders cs n) + (if n \<in> set ns' then 1 else 0) - (if n \<in> set ns then 1 else 0)"
  by (induction cs) (auto simp: holders_def map_of_eq_None_iff split: if_splits dest: map_of_SomeD)

lemma holders_new: "dict_get cs c = None \<Longrightarrow> holders (dict_set c [] cs) n = holders cs n"
  by (induction cs) (auto simp: holders_def split: if_splits)

lemma holders_delete:
  "distinct (map fst cs) \<Longrightarrow> dict_get cs c = Some ns \<Longrightarrow>
     int (holders (AList.delete c cs) n) = int (holders cs n) - (if n \<in> set ns then 1 else 0)"
proof (induction cs)
  case (Cons p cs)
  show ?case
  proof (cases "fst p = c")
    case True
    then have "AList.delete c cs = cs" using Cons.prems(1) by (intro delete_id) auto
    then show ?thesis using True Cons.prems by (cases p) (auto simp: holders_def)
  next
    case False
    then show ?thesis using Cons by (cases p) (auto simp: holders_def)
  qed
qed simp

definition gw_ok :: "gateway_server \<Rightarrow> bool" where
  "gw_ok g \<longleftrightarrow> registry_ok (gw_registry g) \<and> distinct (map fst (gw_clients g)) \<and>
     (\<forall>(c, ns) \<in> set (gw_clients g). distinct ns \<and> set ns \<subseteq> known (gw_registry g)) \<and>
     (\<forall>n. active_of (gw_registry g) n = int (holders (gw_clients g) n)) \<and>
     gs_active_connections (gw_stats g) = int (length (gw_clients g)) \<and>
     total_received (gw_registry g) = valid_messages (gw_stats g)"

lemma gw_ok_cong:
  assumes "gw_registry g' = gw_registry g" "gw_clients g' = gw_clients g"
    "gs_active_connections (gw_stats g') = gs_active_connections (gw_stats g)"
    "valid_messages (gw_stats g') = valid_messages (gw_stats g)"
  shows "gw_ok g' = gw_ok g"
  using assms by (simp add: gw_ok_def)

lemma observe_message_frame:
  assumes "observe_message m a b g = (st, g')"
  shows "gw_registry g' = snd (observe (gw_registry g) m a b)" "st = fst (observe (gw_registry g) m a b)"
    "gw_clients g' = gw_clients g" "gw_stats g' = gw_stats g" "gw_messages g' = gw_messages g"
    "has_message_cb g' = has_message_cb g" "has_health_cb g' = has_health_cb g"
  using assms by (auto simp: observe_message_def Let_def case_prod_beta)

lemma note_status_frame [simp]:
  "gw_registry (note_status st m a g) = gw_registry g" "gw_clients (note_status st m a g) = gw_clients g"
  "gw_stats (note_status st m a g) = gw_stats g" "gw_messages (note_status st m a g) = gw_messages g"
  "has_message_cb (note_status st m a g) = has_message_cb g" "has_health_cb (note_status st m a g) = has_health_cb g"
  "gw_health (note_status st m a g) = gw_health g"
  by (simp_all add: note_status_def)

lemma identify_node_stats [simp]:
  "gw_stats (identify_node c n a g) = gw_stats g" "gw_messages (identify_node c n a g) = gw_messages g"
  "has_message_cb (identify_node c n a g) = has_message_cb g" "has_health_cb (identify_node c n a g) = has_health_cb g"
  "gw_health (identify_node c n a g) = gw_health g"
  by (auto simp: identify_node_def split: option.splits sum.splits)

lemma deliver_frame [simp]:
  "gw_registry (deliver rc g) = gw_registry g" "gw_clients (deliver rc g) = gw_clients g" "gw_stats (deliver rc g) = gw_stats g"
  "gw_health (deliver rc g) = gw_health g" "has_health_cb (deliver rc g) = has_health_cb g" "has_message_cb (deliver rc g) = has_message_cb g"
  by (simp_all add: deliver_def)

lemma identify_node_ok:
  assumes "gw_ok g" "n \<in> known (gw_registry g)"
  shows "gw_ok (identify_node c n a g)"
proof (cases "dict_get (gw_clients g) c")
  case None
  then show ?thesis using assms by (simp add: identify_node_def)
next
  case (Some ns)
  show ?thesis
  proof (cases "n \<in> set ns")
    case True
    then show ?thesis using assms Some by (simp add: identify_node_def)
  next
    case False
    obtain reg where reg: "connection_opened (gw_registry g) n = Inr reg" using opened_known [OF assms(2)] by blast
    note o = opened_active [OF reg] connection_opened_ok [OF _ reg]
    have "distinct ns" "set ns \<subseteq> known (gw_registry g)" using assms(1) Some by (force simp: gw_ok_def dest: map_of_SomeD)+
    moreover have "total_received reg = total_received (gw_registry g)"
      using registry_step_total [of "gw_registry g" "Opened n"] reg assms(1) by (simp add: gw_ok_def)
    moreover have "length (dict_set c (ns @ [n]) (gw_clients g)) = length (gw_clients g)"
      using Some dict_set_keys [of c "ns @ [n]" "gw_clients g"] map_of_SomeD [OF Some] by (metis fst_conv image_eqI length_map set_map)
    ultimately show ?thesis
      using assms False Some reg o holders_set [OF _ Some, of "ns @ [n]"]
      by (auto simp: identify_node_def gw_ok_def dest!: dict_set_in)
  qed
qed

lemma accept_message_ok:
  assumes "gw_ok g" "valid_message m"
  shows "gw_ok (accept_message c m w a b g)"
proof -
  let ?g1 = "g\<lparr>gw_stats := (gw_stats g)\<lparr>valid_messages := valid_messages (gw_stats g) + 1, sensor_bytes := sensor_bytes (gw_stats g) + int w\<rparr>\<rparr>"
  obtain st g2 where o: "observe_message m a b ?g1 = (st, g2)" by fastforce
  note fr = observe_message_frame [OF o]
  have "registry_ok (gw_registry g)" using assms(1) by (simp add: gw_ok_def)
  then have "registry_ok (gw_registry g2)" "total_received (gw_registry g2) = total_received (gw_registry g) + 1"
    using fr(1) observe_ok [OF _ assms(2)] observe_total by simp_all
  then have "gw_ok g2" using assms(1) fr observe_active [of "gw_registry g" m a b] by (auto simp: gw_ok_def)
  then have "gw_ok (note_status st m a g2)" by (simp add: gw_ok_def)
  then have "gw_ok (identify_node c (msg_node_id m) a (note_status st m a g2))"
    using fr(1) observe_active(2) [of "gw_registry g" m a b] by (intro identify_node_ok) simp_all
  then show ?thesis using o by (simp add: accept_message_def Let_def gw_ok_def)
qed

lemma release_nodes:
  assumes "distinct ns" "set ns \<subseteq> known (gw_registry g)" "\<forall>n \<in> set ns. 1 \<le> active_of (gw_registry g) n" "registry_ok (gw_registry g)"
  shows "registry_ok (gw_registry (foldl (release_node now) g ns)) \<and>
    known (gw_registry (foldl (release_node now) g ns)) = known (gw_registry g) \<and>
    (\<forall>n. active_of (gw_registry (foldl (release_node now) g ns)) n =
      active_of (gw_registry g) n - (if n \<in> set ns then 1 else 0)) \<and>
    total_received (gw_registry (foldl (release_node now) g ns)) = total_received (gw_registry g)"
  using assms
proof (induction ns arbitrary: g)
  case (Cons n ns)
  let ?g = "release_node now g n"
  have r: "gw_registry ?g = connection_closed (gw_registry g) n" by (simp add: release_node_def)
  have t: "total_received (connection_closed (gw_registry g) n) = total_received (gw_registry g)"
    using registry_step_total [of "gw_registry g" "Closed n"] Cons.prems(4) by simp
  note c = closed_active [of "gw_registry g" n] connection_closed_ok [OF Cons.prems(4)]
  have "registry_ok (gw_registry (foldl (release_node now) ?g ns)) \<and>
    known (gw_registry (foldl (release_node now) ?g ns)) = known (gw_registry ?g) \<and>
    (\<forall>k. active_of (gw_registry (foldl (release_node now) ?g ns)) k =
      active_of (gw_registry ?g) k - (if k \<in> set ns then 1 else 0)) \<and>
    total_received (gw_registry (foldl (release_node now) ?g ns)) = total_received (gw_registry ?g)"
    using Cons.prems c r by (intro Cons.IH) auto
  then show ?case using Cons.prems c r t by auto
qed simp

lemma release_frame [simp]:
  "gw_clients (foldl (release_node now) g ns) = gw_clients g" "gw_stats (foldl (release_node now) g ns) = gw_stats g"
  "gw_messages (foldl (release_node now) g ns) = gw_messages g" "gw_health (foldl (release_node now) g ns) = gw_health g"
  "has_message_cb (foldl (release_node now) g ns) = has_message_cb g" "has_health_cb (foldl (release_node now) g ns) = has_health_cb g"
  by (induction ns arbitrary: g; simp add: release_node_def)+

lemma delete_length:
  "distinct (map fst cs) \<Longrightarrow> dict_get cs c = Some ns \<Longrightarrow> length (AList.delete c cs) + 1 = length cs"
proof (induction cs)
  case (Cons p cs)
  then show ?case by (cases "fst p = c") (auto simp: delete_id split: if_splits)
qed simp

lemma close_client_ok:
  assumes "gw_ok g"
  shows "gw_ok (close_client c now g)"
proof (cases "dict_get (gw_clients g) c")
  case None
  then show ?thesis using assms by (simp add: close_client_def)
next
  case (Some ns)
  have ns: "distinct ns" "set ns \<subseteq> known (gw_registry g)" using assms Some by (force simp: gw_ok_def dest: map_of_SomeD)+
  have dist: "distinct (map fst (gw_clients g))" using assms by (simp add: gw_ok_def)
  have "1 \<le> holders (gw_clients g) n" if "n \<in> set ns" for n
    using holders_delete [OF dist Some, of n] that by simp
  then have act: "\<forall>n \<in> set ns. 1 \<le> active_of (gw_registry g) n" using assms by (simp add: gw_ok_def)
  let ?g = "g\<lparr>gw_stats := (gw_stats g)\<lparr>gs_active_connections := gs_active_connections (gw_stats g) - 1\<rparr>,
      gw_clients := AList.delete c (gw_clients g)\<rparr>"
  note r = release_nodes [of ns ?g now]
  have len: "int (length (AList.delete c (gw_clients g))) = int (length (gw_clients g)) - 1"
    using delete_length [OF dist Some] by simp
  have "\<forall>(a, b) \<in> set (AList.delete c (gw_clients g)). distinct b \<and> set b \<subseteq> known (gw_registry g)"
    using assms by (auto simp: AList.delete_eq gw_ok_def)
  moreover have "distinct (map fst (AList.delete c (gw_clients g)))" using dist by (rule distinct_delete)
  ultimately show ?thesis
    using assms Some ns act r len holders_delete [OF dist Some]
    by (simp add: close_client_def gw_ok_def)
qed

lemma monitor_ok:
  assumes "gw_ok g"
  shows "gw_ok (monitor_liveness mns wall g)"
proof (cases "refresh_health (gw_registry g) mns wall")
  case (Inl e)
  then show ?thesis using assms by (simp add: monitor_liveness_def gw_ok_def)
next
  case (Inr p)
  obtain ch reg where p: "refresh_health (gw_registry g) mns wall = Inr (ch, reg)" using Inr by (cases p) auto
  have "registry_ok reg" "total_received reg = total_received (gw_registry g)"
    using assms refresh_health_ok [OF _ p] registry_step_total [of "gw_registry g" "Refresh mns wall"] p
    by (simp_all add: gw_ok_def)
  then show ?thesis
    using assms p refresh_active(1,2) [OF p] by (auto simp: monitor_liveness_def gw_ok_def)
qed

lemma count_end_frame [simp]:
  "gw_registry (count_end f now g) = gw_registry g" "gw_clients (count_end f now g) = gw_clients g"
  "gw_messages (count_end f now g) = gw_messages g" "gw_health (count_end f now g) = gw_health g"
  "has_message_cb (count_end f now g) = has_message_cb g" "has_health_cb (count_end f now g) = has_health_cb g"
  "gs_active_connections (gw_stats (count_end f now g)) = gs_active_connections (gw_stats g)"
  "valid_messages (gw_stats (count_end f now g)) = valid_messages (gw_stats g)"
  "malformed_json (gw_stats (count_end f now g)) = malformed_json (gw_stats g)"
  "schema_rejections (gw_stats (count_end f now g)) = schema_rejections (gw_stats g)"
  "sensor_bytes (gw_stats (count_end f now g)) = sensor_bytes (gw_stats g)"
  by (cases f; simp add: count_end_def)+

lemma parse_valid: "parse_message pj l = Inr m \<Longrightarrow> valid_message m"
  by (auto simp: parse_message_def dest: validate_message_sound split: option.splits)

lemma handle_line_ok:
  assumes "gw_ok g"
  shows "gw_ok (handle_line pj ld c line a b now g)"
proof (cases "parse_message pj (butlast line)")
  case (Inl e)
  have "gw_ok (reject_malformed now g)" "gw_ok (reject_schema ld now line g)"
    using assms by (simp_all add: gw_ok_def reject_malformed_def reject_schema_def)
  then show ?thesis using Inl by (cases e) (simp_all add: handle_line_def)
next
  case (Inr m)
  then show ?thesis using accept_message_ok [OF assms parse_valid [OF Inr]] by (simp add: handle_line_def)
qed

lemma gw_step_ok: "gw_ok g \<Longrightarrow> gw_ok (gw_step pj ld g e)"
proof (cases e)
  case (GAccept c peer now)
  assume ok: "gw_ok g"
  show ?thesis
  proof (cases "dict_get (gw_clients g) c")
    case None
    then have "c \<notin> fst ` set (gw_clients g)" by (simp add: map_of_eq_None_iff)
    then have "length (dict_set c [] (gw_clients g)) = length (gw_clients g) + 1"
      using dict_set_keys [of c "[]" "gw_clients g"] by (metis length_append_singleton length_map set_map Suc_eq_plus1)
    then show ?thesis
      using ok GAccept None holders_new [OF None]
      by (auto simp: accept_client_def gw_ok_def dest!: dict_set_in)
  qed (use ok GAccept in simp)
next
  case (GFrame c f a b now)
  assume ok: "gw_ok g"
  have "gw_ok (close_client c now (count_end f now g))"
    using ok by (intro close_client_ok) (simp add: gw_ok_def)
  then show ?thesis using ok GFrame handle_line_ok [OF ok] by (cases f) (simp_all add: client_frame_def)
qed (auto simp: close_client_ok monitor_ok)

interpretation gw: machine "gw_step pj ld" gw_ok "\<lambda>_. True" for pj ld
  by unfold_locales (simp add: gw_step_ok)

section \<open>Accounting\<close>

text \<open>The lines the gateway processed, and the messages they parse to.\<close>

definition gw_lines :: "gateway_server \<Rightarrow> gw_event \<Rightarrow> bytes list" where
  "gw_lines g e = (case e of
     GFrame c (FLine line) _ _ _ \<Rightarrow> if dict_get (gw_clients g) c = None then [] else [line]
   | _ \<Rightarrow> [])"

definition parsed :: "json_parser \<Rightarrow> bytes \<Rightarrow> sensor_message list" where
  "parsed pj line = (case parse_message pj (butlast line) of Inl _ \<Rightarrow> [] | Inr m \<Rightarrow> [m])"

definition valid_lines :: "json_parser \<Rightarrow> bytes list \<Rightarrow> bytes list" where
  "valid_lines pj = filter (\<lambda>l. parsed pj l \<noteq> [])"

definition lines_counted :: "json_parser \<Rightarrow> gateway_server \<times> bytes list \<Rightarrow> bool" where
  "lines_counted pj p \<longleftrightarrow> (let (g, ls) = p; s = gw_stats g in
     valid_messages s = int (length (valid_lines pj ls)) \<and>
     sensor_bytes s = (\<Sum>l\<leftarrow>valid_lines pj ls. int (length l)) \<and>
     malformed_json s + schema_rejections s = int (length ls) - int (length (valid_lines pj ls)) \<and>
     0 \<le> rejected_readings s \<and> rejected_readings s \<le> schema_rejections s \<and>
     (has_message_cb g \<longrightarrow> map rm_message (gw_messages g) = concat (map (parsed pj) ls)))"

definition gw_trace ::
  "json_parser \<Rightarrow> (bytes \<Rightarrow> json option) \<Rightarrow> gateway_server \<times> bytes list \<Rightarrow> gw_event \<Rightarrow> gateway_server \<times> bytes list" where
  "gw_trace pj ld p e = (gw_step pj ld (fst p) e, snd p @ gw_lines (fst p) e)"

lemma foldl_gw_trace:
  "foldl (gw_trace pj ld) (g, ls) es = (foldl (gw_step pj ld) g es, ls @ gather (gw_step pj ld) gw_lines g es)"
  by (induction es arbitrary: g ls) (simp_all add: gw_trace_def)

definition same_counts :: "gateway_server \<Rightarrow> gateway_server \<Rightarrow> bool" where
  "same_counts g g' \<longleftrightarrow> valid_messages (gw_stats g') = valid_messages (gw_stats g) \<and>
     sensor_bytes (gw_stats g') = sensor_bytes (gw_stats g) \<and> malformed_json (gw_stats g') = malformed_json (gw_stats g) \<and>
     schema_rejections (gw_stats g') = schema_rejections (gw_stats g) \<and>
     rejected_readings (gw_stats g') = rejected_readings (gw_stats g) \<and>
     has_message_cb g' = has_message_cb g \<and> gw_messages g' = gw_messages g"

lemma same_counts_steps:
  "same_counts g (gw_step pj ld g (GAccept c peer now))" "same_counts g (gw_step pj ld g (GHandlerError c now))"
  "same_counts g (gw_step pj ld g (GLiveness mns wall))"
  "\<forall>l. f \<noteq> FLine l \<Longrightarrow> same_counts g (gw_step pj ld g (GFrame c f a b now))"
proof -
  have cl: "same_counts g (close_client c now g)" for g
    by (auto simp: same_counts_def close_client_def split: option.splits)
  show "same_counts g (gw_step pj ld g (GAccept c peer now))" by (simp add: same_counts_def accept_client_def)
  show "same_counts g (gw_step pj ld g (GHandlerError c now))" by (simp add: cl)
  show "same_counts g (gw_step pj ld g (GLiveness mns wall))"
    by (auto simp: same_counts_def monitor_liveness_def split: sum.splits)
  assume f: "\<forall>l. f \<noteq> FLine l"
  have "same_counts g (count_end f now g)" by (cases f) (simp_all add: same_counts_def count_end_def)
  then show "same_counts g (gw_step pj ld g (GFrame c f a b now))"
    using f cl [of "count_end f now g"] by (cases f) (auto simp: client_frame_def same_counts_def)
qed

lemma accept_message_counts:
  "gw_stats (accept_message c m w a b g) = (gw_stats g)\<lparr>valid_messages := valid_messages (gw_stats g) + 1,
     sensor_bytes := sensor_bytes (gw_stats g) + int w\<rparr>"
  "has_message_cb (accept_message c m w a b g) = has_message_cb g"
  "has_message_cb g \<Longrightarrow> map rm_message (gw_messages (accept_message c m w a b g)) = map rm_message (gw_messages g) @ [m]"
  using observe_message_frame [OF surjective_pairing, of m a b]
  by (auto simp: accept_message_def Let_def case_prod_beta deliver_def)

lemma valid_lines_snoc:
  "valid_lines pj (ls @ [line]) = valid_lines pj ls @ (if parsed pj line = [] then [] else [line])"
  by (simp add: valid_lines_def)

lemma line_counted:
  assumes "lines_counted pj (g, ls)"
  shows "lines_counted pj (handle_line pj ld c line a b now g, ls @ [line])"
proof (cases "parse_message pj (butlast line)")
  case (Inl e)
  then have "parsed pj line = []" by (simp add: parsed_def)
  then show ?thesis
    using assms Inl
    by (cases e) (auto simp: handle_line_def reject_malformed_def reject_schema_def lines_counted_def Let_def valid_lines_snoc)
next
  case (Inr m)
  then have "parsed pj line = [m]" by (simp add: parsed_def)
  then show ?thesis
    using assms Inr accept_message_counts [where c = c and m = m and w = "length line" and a = a and b = b and g = g]
    by (auto simp: handle_line_def lines_counted_def Let_def valid_lines_snoc)
qed

interpretation gwl: machine "gw_trace pj ld" "lines_counted pj" "\<lambda>_. True" for pj ld
proof
  fix p e
  assume p: "lines_counted pj p"
  obtain g ls where gl: "p = (g, ls)" by (cases p) auto
  have keep: "lines_counted pj (g', ls)" if "same_counts g g'" for g'
    using p that by (auto simp: gl lines_counted_def same_counts_def Let_def)
  show "lines_counted pj (gw_trace pj ld p e)"
  proof (cases "\<exists>c line a b now. e = GFrame c (FLine line) a b now")
    case True
    then obtain c line a b now where e: "e = GFrame c (FLine line) a b now" by blast
    then show ?thesis
      using line_counted [OF p [unfolded gl]] p by (auto simp: gl gw_trace_def gw_lines_def client_frame_def)
  next
    case False
    have "same_counts g (gw_step pj ld g e)"
    proof (cases e)
      case (GFrame c f a b now)
      then have "\<forall>l. f \<noteq> FLine l" using False by blast
      then show ?thesis unfolding GFrame by (rule same_counts_steps(4))
    qed (use same_counts_steps(1-3) in blast)+
    moreover have "gw_lines g e = []" using False by (auto simp: gw_lines_def split: gw_event.splits frame.splits)
    ultimately show ?thesis using keep by (simp add: gl gw_trace_def)
  qed
qed

lemma message_cb_kept: "has_message_cb (gw_step pj ld g e) = has_message_cb g"
proof (cases "\<exists>c line a b now. e = GFrame c (FLine line) a b now")
  case True
  have "has_message_cb (handle_line pj ld c line a b now g) = has_message_cb g" for c line a b now
    by (auto simp: handle_line_def reject_malformed_def reject_schema_def accept_message_counts(2)
        split: sum.splits protocol_error.splits)
  with True show ?thesis
    by (elim exE) (simp add: client_frame_def split: if_splits)
next
  case False
  show ?thesis
  proof (cases e)
    case (GFrame c f a b now)
    then have "\<forall>l. f \<noteq> FLine l" using False by blast
    from same_counts_steps(4) [OF this] show ?thesis by (simp add: GFrame same_counts_def del: gw_step.simps)
  qed (use same_counts_steps(1-3) in \<open>simp_all add: same_counts_def del: gw_step.simps\<close>)
qed

lemma message_cb_run: "has_message_cb (foldl (gw_step pj ld) g es) = has_message_cb g"
  by (induction es arbitrary: g) (simp_all add: message_cb_kept)

section \<open>Health evidence\<close>

definition mirrors :: "health_event \<Rightarrow> health_transition \<Rightarrow> bool" where
  "mirrors h t \<longleftrightarrow> he_node_id h = ht_node_id t \<and> he_timestamp_ms h = ht_timestamp_ms t \<and>
     he_old_state h = (case ht_previous t of None \<Rightarrow> [] | Some p \<Rightarrow> health_value p) \<and>
     he_new_state h = health_value (ht_current t) \<and> he_reason h = transition_reason t"

lemma handle_transitions_mirror:
  "has_health_cb g \<Longrightarrow> \<forall>t \<in> set ts. \<exists>r. dict_get (nodes (gw_registry g)) (ht_node_id t) = Some r \<and> nr_node_id r = ht_node_id t \<Longrightarrow>
     \<exists>hs. gw_health (foldl handle_transition g ts) = gw_health g @ hs \<and> list_all2 mirrors hs ts"
proof (induction ts arbitrary: g)
  case (Cons t ts)
  then obtain r where r: "dict_get (nodes (gw_registry g)) (ht_node_id t) = Some r" "nr_node_id r = ht_node_id t" by auto
  have h: "gw_health (handle_transition g t) = gw_health g @ [health_event_of r t]" "mirrors (health_event_of r t) t"
    using Cons.prems(1) r by (simp_all add: handle_transition_def mirrors_def health_event_of_def)
  obtain hs where "gw_health (foldl handle_transition (handle_transition g t) ts) = gw_health (handle_transition g t) @ hs"
      "list_all2 mirrors hs ts"
    using Cons.IH [of "handle_transition g t"] Cons.prems by auto
  then show ?case using h by (intro exI [of _ "health_event_of r t # hs"]) simp
qed simp

lemma observe_transitions:
  assumes "dict_get (nodes (snd (observe reg m a b))) (msg_node_id m) = Some r"
  shows "\<exists>trs. transitions (snd (observe reg m a b)) = transitions reg @ trs \<and>
    drop (case dict_get (nodes reg) (msg_node_id m) of None \<Rightarrow> 0 | Some r0 \<Rightarrow> length (nr_transitions r0)) (nr_transitions r) = trs"
proof (cases "dict_get (nodes reg) (msg_node_id m)")
  case None
  then show ?thesis using assms
    by (auto simp: observe_def transition_def new_record_def store_record_def Let_def)
next
  case (Some r0)
  obtain st r1 where cl: "classify_sequence r0 (msg_sequence m) = (st, r1)" by fastforce
  have t: "nr_transitions r1 = nr_transitions r0" by (rule classify_sequence_frame(2) [OF cl])
  show ?thesis using assms Some cl t
    by (auto simp: observe_def transition_def store_record_def Let_def update_seen_def split: if_splits)
qed

definition health_mirrored :: "gateway_server \<Rightarrow> bool" where
  "health_mirrored g \<longleftrightarrow> gw_ok g \<and> has_health_cb g \<and> list_all2 mirrors (gw_health g) (transitions (gw_registry g))"

lemma registry_transition_node:
  assumes "registry_ok reg" "t \<in> set (transitions reg)"
  shows "\<exists>r. dict_get (nodes reg) (ht_node_id t) = Some r \<and> nr_node_id r = ht_node_id t"
proof -
  have "ht_node_id t \<in> known reg" using assms by (simp add: registry_ok_def known_def)
  then obtain r where r: "dict_get (nodes reg) (ht_node_id t) = Some r" by (auto simp: known_iff)
  then show ?thesis using registry_okD(1) [OF assms(1) r] by (simp add: record_ok_def)
qed

lemma mirror_extend:
  assumes "has_health_cb g" "registry_ok (gw_registry g)" "transitions (gw_registry g) = old @ ts"
    "list_all2 mirrors (gw_health g) old"
  shows "list_all2 mirrors (gw_health (foldl handle_transition g ts)) (transitions (gw_registry g))"
proof -
  have "\<forall>t \<in> set ts. \<exists>r. dict_get (nodes (gw_registry g)) (ht_node_id t) = Some r \<and> nr_node_id r = ht_node_id t"
    using registry_transition_node [OF assms(2)] assms(3) by auto
  then obtain hs where "gw_health (foldl handle_transition g ts) = gw_health g @ hs" "list_all2 mirrors hs ts"
    using handle_transitions_mirror [OF assms(1)] by blast
  then show ?thesis using assms(3,4) by (simp add: list_all2_appendI)
qed

lemma opened_transitions: "connection_opened reg n = Inr reg' \<Longrightarrow> transitions reg' = transitions reg"
  by (auto simp: connection_opened_def store_record_def split: option.splits)

lemma closed_transitions: "transitions (connection_closed reg n) = transitions reg"
  by (simp add: connection_closed_def store_record_def Let_def split: option.splits)

lemma identify_transitions: "transitions (gw_registry (identify_node c n a g)) = transitions (gw_registry g)"
  by (auto simp: identify_node_def opened_transitions split: option.splits sum.splits)

lemma release_transitions: "transitions (gw_registry (foldl (release_node now) g ns)) = transitions (gw_registry g)"
  by (induction ns arbitrary: g) (simp_all add: release_node_def closed_transitions)

lemma accept_message_mirror:
  assumes "gw_ok g" "has_health_cb g" "list_all2 mirrors (gw_health g) (transitions (gw_registry g))" "valid_message m"
  shows "list_all2 mirrors (gw_health (accept_message c m w a b g)) (transitions (gw_registry (accept_message c m w a b g)))"
proof -
  let ?g1 = "g\<lparr>gw_stats := (gw_stats g)\<lparr>valid_messages := valid_messages (gw_stats g) + 1, sensor_bytes := sensor_bytes (gw_stats g) + int w\<rparr>\<rparr>"
  let ?reg = "snd (observe (gw_registry g) m a b)"
  have ok: "registry_ok ?reg" using assms(1,4) by (simp add: gw_ok_def observe_ok)
  have "msg_node_id m \<in> known ?reg" using observe_active(2) [of "gw_registry g" m a b] by simp
  then obtain r where r: "dict_get (nodes ?reg) (msg_node_id m) = Some r" by (auto simp: known_iff)
  let ?n = "case dict_get (nodes (gw_registry g)) (msg_node_id m) of None \<Rightarrow> 0 | Some r0 \<Rightarrow> length (nr_transitions r0)"
  have t: "transitions ?reg = transitions (gw_registry g) @ drop ?n (nr_transitions r)"
    using observe_transitions [OF r] by auto
  have om: "snd (observe_message m a b ?g1) = foldl handle_transition (?g1\<lparr>gw_registry := ?reg\<rparr>) (drop ?n (nr_transitions r))"
    using r by (simp add: observe_message_def Let_def case_prod_beta)
  have "list_all2 mirrors (gw_health (snd (observe_message m a b ?g1))) (transitions ?reg)"
    using mirror_extend [of "?g1\<lparr>gw_registry := ?reg\<rparr>" "transitions (gw_registry g)" "drop ?n (nr_transitions r)"] assms(2,3) ok t
    unfolding om by simp
  moreover have "gw_registry (snd (observe_message m a b ?g1)) = ?reg" unfolding om by simp
  ultimately show ?thesis
    by (simp add: accept_message_def Let_def case_prod_beta identify_transitions)
qed

interpretation gwh: machine "gw_step pj ld" health_mirrored "\<lambda>_. True" for pj ld
proof
  fix g e
  assume m: "health_mirrored g"
  have ok: "gw_ok (gw_step pj ld g e)" using m by (simp add: health_mirrored_def gw_step_ok)
  have cl: "gw_health (close_client c now h) = gw_health h" "has_health_cb (close_client c now h) = has_health_cb h"
    "transitions (gw_registry (close_client c now h)) = transitions (gw_registry h)" for c now h
    by (auto simp: close_client_def release_transitions split: option.splits)
  have line: "has_health_cb (handle_line pj ld c line a b now g) = has_health_cb g"
    "has_health_cb g \<Longrightarrow> list_all2 mirrors (gw_health (handle_line pj ld c line a b now g)) (transitions (gw_registry (handle_line pj ld c line a b now g)))"
    for c line a b now
  proof -
    show "has_health_cb (handle_line pj ld c line a b now g) = has_health_cb g"
      using observe_message_frame(7) [OF surjective_pairing]
      by (auto simp: handle_line_def reject_malformed_def reject_schema_def accept_message_def Let_def case_prod_beta
          split: sum.splits protocol_error.splits)
    assume h: "has_health_cb g"
    then show "list_all2 mirrors (gw_health (handle_line pj ld c line a b now g)) (transitions (gw_registry (handle_line pj ld c line a b now g)))"
      using m accept_message_mirror [OF _ h _ parse_valid]
      by (auto simp: health_mirrored_def handle_line_def reject_malformed_def reject_schema_def split: sum.splits protocol_error.splits)
  qed
  show "health_mirrored (gw_step pj ld g e)"
  proof (cases e)
    case (GLiveness mns wall)
    have "list_all2 mirrors (gw_health (gw_step pj ld g e)) (transitions (gw_registry (gw_step pj ld g e)))" if h: "has_health_cb g"
    proof (cases "refresh_health (gw_registry g) mns wall")
      case (Inr p)
      then obtain ch reg where p: "refresh_health (gw_registry g) mns wall = Inr (ch, reg)" by (cases p) auto
      then show ?thesis
        using GLiveness m h mirror_extend [of "g\<lparr>gw_registry := reg\<rparr>" "transitions (gw_registry g)" ch] refresh_active(3) [OF p]
          refresh_health_ok [OF _ p]
        by (auto simp: monitor_liveness_def health_mirrored_def gw_ok_def)
    qed (use GLiveness m h in \<open>simp add: monitor_liveness_def health_mirrored_def\<close>)
    moreover have "has_health_cb (gw_step pj ld g e) = has_health_cb g"
      by (auto simp: GLiveness monitor_liveness_def split: sum.splits)
    ultimately show ?thesis using ok m by (simp add: health_mirrored_def)
  next
    case (GFrame c f a b now)
    then show ?thesis using ok m line cl
      by (cases f) (auto simp: health_mirrored_def client_frame_def)
  qed (use ok m cl in \<open>auto simp: health_mirrored_def accept_client_def\<close>)
qed

section \<open>Properties\<close>

text \<open>C15: Concurrent clients keep registry and connections consistent. For any interleaving of accepts,
  frames of any client, handler failures and liveness checks: the registry is well formed, every
  node's connection count is the number of open connections that identified it, so a node is
  marked connected exactly while some connection holds it, the gateway's own count is the number
  of open connections, and the messages the registry has seen are the valid ones.\<close>

theorem gateway_connections_consistent:
  assumes "GatewayServer mb idle reg interval om og oh = Inr g0" "NodeRegistry e s f = Inr reg"
  shows "let g = foldl (gw_step pj ld) g0 es in registry_ok (gw_registry g) \<and>
    (\<forall>n r. dict_get (nodes (gw_registry g)) n = Some r \<longrightarrow>
       active_connections r = int (holders (gw_clients g) n) \<and>
       (connected r \<longleftrightarrow> (\<exists>(c, ns) \<in> set (gw_clients g). n \<in> set ns))) \<and>
    gs_active_connections (gw_stats g) = int (length (gw_clients g)) \<and>
    total_received (gw_registry g) = valid_messages (gw_stats g)"
proof -
  let ?g = "foldl (gw_step pj ld) g0 es"
  have "nodes reg = []" "total_received reg = 0" using assms(2) by (auto simp: NodeRegistry_def total_received_def split: if_splits)
  then have "gw_ok g0"
    using assms NodeRegistry_ok [OF assms(2)]
    by (auto simp: GatewayServer_def gw_ok_def zero_gateway_stats_def active_of_def holders_def split: if_splits)
  then have ok: "gw_ok ?g" using gw.run_inv [of g0 es pj ld] by (simp add: list_all_iff)
  have h: "0 < holders cs n \<longleftrightarrow> (\<exists>(c, ns) \<in> set cs. n \<in> set ns)" for cs n
    by (auto simp: holders_def filter_empty_conv)
  have "active_connections r = int (holders (gw_clients ?g) n) \<and> (connected r \<longleftrightarrow> 0 < holders (gw_clients ?g) n)"
    if "dict_get (nodes (gw_registry ?g)) n = Some r" for n r
  proof -
    have "active_connections r = int (holders (gw_clients ?g) n)"
      using ok that unfolding gw_ok_def active_of_def by (metis option.simps(5))
    moreover have "connected r \<longleftrightarrow> 0 < active_connections r"
      using registry_okD(1) [of "gw_registry ?g" n r] ok that by (simp add: gw_ok_def record_ok_defs)
    ultimately show ?thesis by simp
  qed
  then show ?thesis using ok unfolding Let_def gw_ok_def h by blast
qed

text \<open>C16: Every line is accounted for once. Lines read from open clients are valid, malformed or schema
  rejections, nothing else; the byte counter is the length of the valid lines; readings counted as
  rejected are among the schema rejections; and the message callback receives exactly the parsed
  messages in the order the lines were processed.\<close>

theorem gateway_line_accounting:
  assumes "GatewayServer mb idle reg interval om og oh = Inr g0"
  shows "let g = foldl (gw_step pj ld) g0 es; ls = gather (gw_step pj ld) gw_lines g0 es in
    int (length ls) = valid_messages (gw_stats g) + malformed_json (gw_stats g) + schema_rejections (gw_stats g) \<and>
    valid_messages (gw_stats g) = int (length (valid_lines pj ls)) \<and>
    sensor_bytes (gw_stats g) = (\<Sum>l\<leftarrow>valid_lines pj ls. int (length l)) \<and>
    rejected_readings (gw_stats g) \<le> schema_rejections (gw_stats g) \<and>
    (om \<longrightarrow> map rm_message (gw_messages g) = concat (map (parsed pj) ls))"
proof -
  let ?ls = "gather (gw_step pj ld) gw_lines g0 es"
  have "lines_counted pj (g0, [])"
    using assms by (auto simp: GatewayServer_def lines_counted_def valid_lines_def zero_gateway_stats_def split: if_splits)
  then have "lines_counted pj (foldl (gw_step pj ld) g0 es, ?ls)"
    using gwl.run_inv [of pj "(g0, [])" es ld] by (simp add: foldl_gw_trace list_all_iff)
  moreover have "has_message_cb (foldl (gw_step pj ld) g0 es) = om"
    using assms by (auto simp: message_cb_run GatewayServer_def split: if_splits)
  ultimately show ?thesis by (simp add: lines_counted_def Let_def)
qed

text \<open>C17: The health evidence is the registry's history: with a health callback, the events emitted are,
  one by one and in order, the transitions the registry recorded, with the right old and new
  state, time and reason.\<close>

theorem health_evidence_mirrors_registry:
  assumes "GatewayServer mb idle reg interval om og True = Inr g0" "NodeRegistry e s f = Inr reg"
  shows "let g = foldl (gw_step pj ld) g0 es in list_all2 mirrors (gw_health g) (transitions (gw_registry g))"
proof -
  have "nodes reg = []" "transitions reg = []" "total_received reg = 0"
    using assms(2) by (auto simp: NodeRegistry_def total_received_def split: if_splits)
  then have "health_mirrored g0"
    using assms NodeRegistry_ok [OF assms(2)]
    by (auto simp: GatewayServer_def health_mirrored_def gw_ok_def zero_gateway_stats_def active_of_def holders_def split: if_splits)
  then show ?thesis using gwh.run_inv [of g0 es pj ld] by (simp add: list_all_iff health_mirrored_def)
qed

text \<open>A client's bad line costs nothing else: it changes one rejection counter (and emits an event)
  and leaves the registry, every connection, the messages delivered and the health evidence as they
  were; the client stays connected.\<close>

theorem bad_line_is_isolated:
  assumes "parse_message pj (butlast line) = Inl err"
  shows "let g' = gw_step pj ld g (GFrame c (FLine line) a b now) in
    gw_registry g' = gw_registry g \<and> gw_clients g' = gw_clients g \<and> gw_messages g' = gw_messages g \<and>
    gw_health g' = gw_health g \<and> valid_messages (gw_stats g') = valid_messages (gw_stats g) \<and>
    invalid_messages (gw_stats g') = invalid_messages (gw_stats g) + (if dict_get (gw_clients g) c = None then 0 else 1)"
  using assms
  by (cases err) (auto simp: client_frame_def handle_line_def reject_malformed_def reject_schema_def invalid_messages_def Let_def)

section \<open>Witnesses\<close>

definition sample_gateway :: gateway_server where
  "sample_gateway = \<lparr>max_message_bytes = 64, client_idle_timeout = Fin 30, liveness_check_interval = Fin 1,
     has_gateway_cb = True, has_health_cb = True, has_message_cb = True, gw_stats = zero_gateway_stats,
     gw_registry = sample_registry, gw_clients = [], gw_monitor = Active, gw_events = [], gw_health = [], gw_messages = []\<rparr>"

lemma sample_gateway_init: "GatewayServer 64 (Fin 30) sample_registry (Fin 1) True True True = Inr sample_gateway"
  by (simp add: GatewayServer_def sample_gateway_def)

definition sample_gw_events :: "gw_event list" where
  "sample_gw_events = [GAccept 0 ''p'' 1, GFrame 0 (FLine (''hb'' @ [newline])) 2 2000000 3,
     GFrame 0 (FLine (''??'' @ [newline])) 4 4000000 5, GAccept 1 ''q'' 6, GFrame 1 (FLine (''hb'' @ [newline])) 7 7000000 8,
     GFrame 0 FClosed 9 9000000 9]"

theorem gateway_connections_consistent_witness:
  "let g = foldl (gw_step sample_parser (\<lambda>_. None)) sample_gateway sample_gw_events in
     registry_ok (gw_registry g) \<and> gs_active_connections (gw_stats g) = int (length (gw_clients g))"
  using gateway_connections_consistent [OF sample_gateway_init sample_registry_init, where pj = sample_parser and ld = "\<lambda>_. None"
      and es = sample_gw_events]
  by (simp add: Let_def)

theorem gateway_line_accounting_witness:
  "let g = foldl (gw_step sample_parser (\<lambda>_. None)) sample_gateway sample_gw_events;
       ls = gather (gw_step sample_parser (\<lambda>_. None)) gw_lines sample_gateway sample_gw_events in
     int (length ls) = valid_messages (gw_stats g) + malformed_json (gw_stats g) + schema_rejections (gw_stats g) \<and>
     map rm_message (gw_messages g) = concat (map (parsed sample_parser) ls)"
  using gateway_line_accounting [OF sample_gateway_init, where pj = sample_parser and ld = "\<lambda>_. None" and es = sample_gw_events]
  by (simp add: Let_def)

theorem health_evidence_mirrors_registry_witness:
  "let g = foldl (gw_step sample_parser (\<lambda>_. None)) sample_gateway sample_gw_events in
     list_all2 mirrors (gw_health g) (transitions (gw_registry g))"
  by (rule health_evidence_mirrors_registry [OF sample_gateway_init sample_registry_init])

theorem bad_line_is_isolated_witness:
  "let g' = gw_step sample_parser (\<lambda>_. None) sample_gateway (GFrame 0 (FLine (''??'' @ [newline])) 4 4000000 5) in
     gw_registry g' = gw_registry sample_gateway \<and> gw_clients g' = gw_clients sample_gateway"
  using bad_line_is_isolated [of sample_parser "''??'' @ [newline]" MalformedJson "\<lambda>_. None" sample_gateway 0 4 4000000 5]
  by (simp add: Let_def parse_message_def sample_parser_def)

end
