(* ===== verification/Upstream_Protocol.thy ===== *)
theory Upstream_Protocol
  imports Aggregator
begin

text \<open>
  The gateway-to-collector protocol (\<^verbatim>\<open>src/gateway/upstream_protocol.py\<close>) and the record the
  forwarder builds for a reading (\<^verbatim>\<open>src/gateway/upstream.py\<close>, in \<open>_run_raw\<close>). Both
  record kinds, their validation from JSON and from keyword arguments, encoding and parsing.
  What pydantic's \<open>Literal[1]\<close> accepts as version is the parameter \<open>literal_one\<close>.
\<close>

section \<open>Data model\<close>

record raw_upstream_record =
  ru_record_id :: string
  ru_forwarded_at_ms :: int
  gateway_received_at_ms :: int
  gateway_received_monotonic_ns :: int
  sensor_wire_bytes :: int
  ru_sequence_status :: sequence_status
  ru_reading :: reading_message

record aggregate_upstream_record =
  au_record_id :: string
  au_forwarded_at_ms :: int
  au_summary :: window_summary

datatype upstream_record =
    RawRecord raw_upstream_record
  | AggregateRecord aggregate_upstream_record

datatype upstream_protocol_error = UpstreamProtocolError

section \<open>Field constraints\<close>

definition record_id_ok :: "string \<Rightarrow> bool" where
  "record_id_ok s \<longleftrightarrow> 1 \<le> str_len s \<and> str_len s \<le> 160"

definition raw_fields_ok :: "raw_upstream_record \<Rightarrow> bool" where
  "raw_fields_ok r \<longleftrightarrow> record_id_ok (ru_record_id r) \<and> 0 \<le> ru_forwarded_at_ms r \<and>
     0 \<le> gateway_received_at_ms r \<and> 0 \<le> gateway_received_monotonic_ns r \<and> 0 < sensor_wire_bytes r"

definition summary_fields_ok :: "window_summary \<Rightarrow> bool" where
  "summary_fields_ok s \<longleftrightarrow> 0 \<le> window_start_ms s \<and> 0 \<le> window_end_ms s \<and>
     flt (Fin 0) (aggregation_window_seconds s) \<and> is_finite (aggregation_window_seconds s) \<and>
     0 < reading_count s \<and> 0 < node_count s \<and>
     list_all is_finite [temperature_mean_c s, temperature_min_c s, temperature_max_c s,
       humidity_mean_pct s, humidity_min_pct s, humidity_max_pct s,
       pressure_mean_hpa s, pressure_min_hpa s, pressure_max_hpa s]"

definition aggregate_fields_ok :: "aggregate_upstream_record \<Rightarrow> bool" where
  "aggregate_fields_ok a \<longleftrightarrow> record_id_ok (au_record_id a) \<and> 0 \<le> au_forwarded_at_ms a \<and>
     summary_fields_ok (au_summary a)"

text \<open>The model constructors: keyword arguments already have their Python types, so only the
  declared bounds can fail; a \<open>ReadingMessage\<close> instance is taken as it is.\<close>

definition RawUpstreamRecord :: "raw_upstream_record \<Rightarrow> raw_upstream_record result" where
  "RawUpstreamRecord r = (if raw_fields_ok r then Inr r else Inl ValidationError)"

definition AggregateUpstreamRecord :: "aggregate_upstream_record \<Rightarrow> aggregate_upstream_record result" where
  "AggregateUpstreamRecord a = (if aggregate_fields_ok a then Inr a else Inl ValidationError)"

definition aggregate_record_id :: "window_summary \<Rightarrow> string" where
  "aggregate_record_id s =
     ''aggregate:'' @ str_of_int (window_start_ms s) @ '':'' @ str_of_int (window_end_ms s)"

definition aggregate_record :: "window_summary \<Rightarrow> int \<Rightarrow> aggregate_upstream_record result" where
  "aggregate_record s forwarded_at =
     AggregateUpstreamRecord \<lparr>au_record_id = aggregate_record_id s,
       au_forwarded_at_ms = forwarded_at, au_summary = s\<rparr>"

definition raw_record_id :: "reading_message \<Rightarrow> int \<Rightarrow> string" where
  "raw_record_id r mono_ns =
     ''raw:'' @ node_id r @ '':'' @ str_of_int (sequence r) @ '':'' @ str_of_int mono_ns"

text \<open>The record \<open>_run_raw\<close> builds for a queued item; the queue holds readings only, and the
  assertion says so.\<close>

definition raw_record :: "received_message \<Rightarrow> int \<Rightarrow> raw_upstream_record result" where
  "raw_record rc forwarded_at =
     (case rm_message rc of
        Heartbeat _ \<Rightarrow> Inl AssertionError
      | Reading r \<Rightarrow>
          RawUpstreamRecord \<lparr>ru_record_id = raw_record_id r (received_monotonic_ns rc),
            ru_forwarded_at_ms = forwarded_at, gateway_received_at_ms = received_at_ms rc,
            gateway_received_monotonic_ns = received_monotonic_ns rc,
            sensor_wire_bytes = wire_bytes rc, ru_sequence_status = rm_sequence_status rc,
            ru_reading = r\<rparr>)"

section \<open>Parsing and encoding\<close>

definition sequence_status_of_str :: "string \<Rightarrow> sequence_status option" where
  "sequence_status_of_str s =
     map_of (map (\<lambda>st. (sequence_value st, st)) [FIRST, IN_ORDER, GAP, DUPLICATE, OUT_OF_ORDER, RESET]) s"

definition raw_keys :: "string list" where
  "raw_keys = [''type'', ''version'', ''record_id'', ''forwarded_at_ms'', ''gateway_received_at_ms'',
     ''gateway_received_monotonic_ns'', ''sensor_wire_bytes'', ''sequence_status'', ''reading'']"

definition summary_keys :: "string list" where
  "summary_keys = [''window_start_ms'', ''window_end_ms'', ''aggregation_window_seconds'',
     ''partial_window'', ''reading_count'', ''node_count'',
     ''temperature_mean_c'', ''temperature_min_c'', ''temperature_max_c'',
     ''humidity_mean_pct'', ''humidity_min_pct'', ''humidity_max_pct'',
     ''pressure_mean_hpa'', ''pressure_min_hpa'', ''pressure_max_hpa'']"

definition aggregate_keys :: "string list" where
  "aggregate_keys = [''type'', ''version'', ''record_id'', ''forwarded_at_ms''] @ summary_keys"

definition nested_reading :: "json option \<Rightarrow> reading_message option" where
  "nested_reading v = (case v of Some (JObj fs) \<Rightarrow> validate_reading fs | _ \<Rightarrow> None)"

definition validate_raw :: "(json \<Rightarrow> bool) \<Rightarrow> (string \<times> json) list \<Rightarrow> raw_upstream_record option" where
  "validate_raw literal_one fs =
     (if \<not> only_keys raw_keys fs \<or> \<not> pred_option literal_one (map_of fs ''version'') \<or>
         map_of fs ''version'' = None then None
      else case (strict_str (map_of fs ''record_id''), strict_int (map_of fs ''forwarded_at_ms''),
                 strict_int (map_of fs ''gateway_received_at_ms''),
                 strict_int (map_of fs ''gateway_received_monotonic_ns''),
                 strict_int (map_of fs ''sensor_wire_bytes''),
                 Option.bind (strict_str (map_of fs ''sequence_status'')) sequence_status_of_str,
                 nested_reading (map_of fs ''reading''))
           of (Some i, Some f, Some g, Some m, Some w, Some s, Some r) \<Rightarrow>
                check raw_fields_ok (Some \<lparr>ru_record_id = i, ru_forwarded_at_ms = f,
                  gateway_received_at_ms = g, gateway_received_monotonic_ns = m,
                  sensor_wire_bytes = w, ru_sequence_status = s, ru_reading = r\<rparr>)
            | _ \<Rightarrow> None)"

definition validate_summary :: "(string \<times> json) list \<Rightarrow> window_summary option" where
  "validate_summary fs =
     Option.bind (strict_int (map_of fs ''window_start_ms'')) (\<lambda>ws.
     Option.bind (strict_int (map_of fs ''window_end_ms'')) (\<lambda>we.
     Option.bind (strict_float (map_of fs ''aggregation_window_seconds'')) (\<lambda>aw.
     Option.bind (strict_bool (map_of fs ''partial_window'')) (\<lambda>pw.
     Option.bind (strict_int (map_of fs ''reading_count'')) (\<lambda>rc.
     Option.bind (strict_int (map_of fs ''node_count'')) (\<lambda>nc.
     Option.bind (strict_float (map_of fs ''temperature_mean_c'')) (\<lambda>t1.
     Option.bind (strict_float (map_of fs ''temperature_min_c'')) (\<lambda>t2.
     Option.bind (strict_float (map_of fs ''temperature_max_c'')) (\<lambda>t3.
     Option.bind (strict_float (map_of fs ''humidity_mean_pct'')) (\<lambda>h1.
     Option.bind (strict_float (map_of fs ''humidity_min_pct'')) (\<lambda>h2.
     Option.bind (strict_float (map_of fs ''humidity_max_pct'')) (\<lambda>h3.
     Option.bind (strict_float (map_of fs ''pressure_mean_hpa'')) (\<lambda>p1.
     Option.bind (strict_float (map_of fs ''pressure_min_hpa'')) (\<lambda>p2.
     Option.bind (strict_float (map_of fs ''pressure_max_hpa'')) (\<lambda>p3.
       Some \<lparr>window_start_ms = ws, window_end_ms = we, aggregation_window_seconds = aw,
         partial_window = pw, reading_count = rc, node_count = nc,
         temperature_mean_c = t1, temperature_min_c = t2, temperature_max_c = t3,
         humidity_mean_pct = h1, humidity_min_pct = h2, humidity_max_pct = h3,
         pressure_mean_hpa = p1, pressure_min_hpa = p2, pressure_max_hpa = p3\<rparr>)))))))))))))))"

definition validate_aggregate :: "(json \<Rightarrow> bool) \<Rightarrow> (string \<times> json) list \<Rightarrow> aggregate_upstream_record option" where
  "validate_aggregate literal_one fs =
     (if \<not> only_keys aggregate_keys fs \<or> \<not> pred_option literal_one (map_of fs ''version'') \<or>
         map_of fs ''version'' = None then None
      else case (strict_str (map_of fs ''record_id''), strict_int (map_of fs ''forwarded_at_ms''),
                 validate_summary fs)
           of (Some i, Some f, Some s) \<Rightarrow>
                check aggregate_fields_ok (Some \<lparr>au_record_id = i, au_forwarded_at_ms = f, au_summary = s\<rparr>)
            | _ \<Rightarrow> None)"

definition validate_upstream :: "(json \<Rightarrow> bool) \<Rightarrow> json \<Rightarrow> upstream_record option" where
  "validate_upstream literal_one j =
     (case j of
        JObj fs \<Rightarrow>
          (case strict_str (map_of fs ''type'') of
             None \<Rightarrow> None
           | Some t \<Rightarrow>
               if t = ''raw'' then map_option RawRecord (validate_raw literal_one fs)
               else if t = ''aggregate'' then map_option AggregateRecord (validate_aggregate literal_one fs)
               else None)
      | _ \<Rightarrow> None)"

definition parse_upstream_record ::
  "json_parser \<Rightarrow> (json \<Rightarrow> bool) \<Rightarrow> bytes \<Rightarrow> upstream_protocol_error + upstream_record" where
  "parse_upstream_record parse_json literal_one data =
     (case Option.bind (parse_json data) (validate_upstream literal_one) of
        None \<Rightarrow> Inl UpstreamProtocolError
      | Some r \<Rightarrow> Inr r)"

definition raw_fields :: "raw_upstream_record \<Rightarrow> (string \<times> json) list" where
  "raw_fields r =
     [(''type'', JStr ''raw''), (''version'', JInt 1), (''record_id'', JStr (ru_record_id r)),
      (''forwarded_at_ms'', JInt (ru_forwarded_at_ms r)),
      (''gateway_received_at_ms'', JInt (gateway_received_at_ms r)),
      (''gateway_received_monotonic_ns'', JInt (gateway_received_monotonic_ns r)),
      (''sensor_wire_bytes'', JInt (sensor_wire_bytes r)),
      (''sequence_status'', JStr (sequence_value (ru_sequence_status r))),
      (''reading'', JObj (reading_fields (ru_reading r)))]"

definition summary_fields :: "window_summary \<Rightarrow> (string \<times> json) list" where
  "summary_fields s =
     [(''window_start_ms'', JInt (window_start_ms s)), (''window_end_ms'', JInt (window_end_ms s)),
      (''aggregation_window_seconds'', JFloat (aggregation_window_seconds s)),
      (''partial_window'', JBool (partial_window s)), (''reading_count'', JInt (reading_count s)),
      (''node_count'', JInt (node_count s)),
      (''temperature_mean_c'', JFloat (temperature_mean_c s)),
      (''temperature_min_c'', JFloat (temperature_min_c s)),
      (''temperature_max_c'', JFloat (temperature_max_c s)),
      (''humidity_mean_pct'', JFloat (humidity_mean_pct s)),
      (''humidity_min_pct'', JFloat (humidity_min_pct s)),
      (''humidity_max_pct'', JFloat (humidity_max_pct s)),
      (''pressure_mean_hpa'', JFloat (pressure_mean_hpa s)),
      (''pressure_min_hpa'', JFloat (pressure_min_hpa s)),
      (''pressure_max_hpa'', JFloat (pressure_max_hpa s))]"

definition aggregate_fields :: "aggregate_upstream_record \<Rightarrow> (string \<times> json) list" where
  "aggregate_fields a =
     [(''type'', JStr ''aggregate''), (''version'', JInt 1), (''record_id'', JStr (au_record_id a)),
      (''forwarded_at_ms'', JInt (au_forwarded_at_ms a))] @ summary_fields (au_summary a)"

fun upstream_dump :: "upstream_record \<Rightarrow> json" where
  "upstream_dump (RawRecord r) = JObj (raw_fields r)"
| "upstream_dump (AggregateRecord a) = JObj (aggregate_fields a)"

definition encode_upstream_record :: "json_printer \<Rightarrow> upstream_record \<Rightarrow> bytes" where
  "encode_upstream_record dump_json r = dump_json (upstream_dump r) @ [newline]"

fun upstream_record_id :: "upstream_record \<Rightarrow> string" where
  "upstream_record_id (RawRecord r) = ru_record_id r"
| "upstream_record_id (AggregateRecord a) = au_record_id a"

section \<open>Validity\<close>

fun valid_upstream :: "upstream_record \<Rightarrow> bool" where
  "valid_upstream (RawRecord r) = (raw_fields_ok r \<and> valid_reading (ru_reading r))"
| "valid_upstream (AggregateRecord a) = aggregate_fields_ok a"

lemma sequence_status_round_trip [simp]: "sequence_status_of_str (sequence_value st) = Some st"
  by (cases st) (simp_all add: sequence_status_of_str_def)

lemma validate_summary_of_fields:
  assumes "\<And>k. k \<in> set summary_keys \<Longrightarrow> map_of fs k = map_of (summary_fields s) k"
  shows "validate_summary fs = Some s"
  using assms by (simp add: summary_keys_def validate_summary_def summary_fields_def)

lemma validate_raw_fields:
  assumes "literal_one (JInt 1)" "raw_fields_ok r" "valid_reading (ru_reading r)"
  shows "validate_raw literal_one (raw_fields r) = Some r"
  using assms
  by (simp add: validate_raw_def raw_fields_def only_keys_def raw_keys_def nested_reading_def
      validate_reading_fields)

lemma validate_aggregate_fields:
  assumes "literal_one (JInt 1)" "aggregate_fields_ok a"
  shows "validate_aggregate literal_one (aggregate_fields a) = Some a"
proof -
  have "validate_summary (aggregate_fields a) = Some (au_summary a)"
    by (rule validate_summary_of_fields) (auto simp: aggregate_fields_def summary_keys_def)
  then show ?thesis
    using assms
    by (simp add: validate_aggregate_def aggregate_fields_def only_keys_def aggregate_keys_def
        summary_keys_def summary_fields_def)
qed

lemma record_type_fields [simp]:
  "map_of (raw_fields r) ''type'' = Some (JStr ''raw'')"
  "map_of (aggregate_fields a) ''type'' = Some (JStr ''aggregate'')"
  by (simp_all add: raw_fields_def aggregate_fields_def)

lemma validate_upstream_dump:
  "literal_one (JInt 1) \<Longrightarrow> valid_upstream r \<Longrightarrow> validate_upstream literal_one (upstream_dump r) = Some r"
  by (cases r) (simp_all add: validate_upstream_def validate_raw_fields validate_aggregate_fields)

lemma validate_upstream_sound: "validate_upstream literal_one j = Some r \<Longrightarrow> valid_upstream r"
  by (auto simp: validate_upstream_def validate_raw_def validate_aggregate_def nested_reading_def
      dest!: validate_reading_sound split: json.splits option.splits if_splits)

lemma node_id_length: "node_id_ok n \<Longrightarrow> length n \<le> 64"
proof -
  assume ok: "node_id_ok n"
  then have "\<forall>c \<in> set n. of_char c < (128::nat)"
    by (auto simp: node_id_ok_def matches_node_id_pattern_def is_alnum_def is_id_char_def list_all_iff Let_def
        split: list.splits)
  with ok show ?thesis by (simp add: str_len_ascii node_id_ok_def)
qed

lemma str_of_int_length: "0 \<le> i \<Longrightarrow> i < 10 ^ Suc k \<Longrightarrow> str_len (str_of_int i) \<le> Suc k"
proof -
  assume i: "0 \<le> i" "i < 10 ^ Suc k"
  then have "nat i < 10 ^ Suc k" by (simp add: nat_less_iff)
  then show ?thesis
    using str_of_nat_length_pow [of "nat i" k] i(1) by (simp add: str_of_int_nonneg str_len_str_of_nat)
qed

lemma colon_notin_str_of_int: "0 \<le> i \<Longrightarrow> CHR '':'' \<notin> set (str_of_int i)"
  by (simp add: str_of_int_nonneg)

lemma str_len_Cons [simp]: "str_len (c # s) = (if continuation_byte c then 0 else 1) + str_len s"
  by (simp add: str_len_def)

lemma str_len_Nil [simp]: "str_len [] = 0"
  by (simp add: str_len_def)

lemma raw_record_id_len:
  "str_len (raw_record_id r t) =
     6 + str_len (node_id r) + str_len (str_of_int (sequence r)) + str_len (str_of_int t)"
  by (simp add: raw_record_id_def continuation_byte_def)

lemma aggregate_record_id_len:
  "str_len (aggregate_record_id s) =
     11 + str_len (str_of_int (window_start_ms s)) + str_len (str_of_int (window_end_ms s))"
  by (simp add: aggregate_record_id_def continuation_byte_def)

lemma raw_record_id_length:
  assumes "valid_reading r" "sequence r < 10 ^ 71" "0 \<le> t" "t < 10 ^ 19"
  shows "record_id_ok (raw_record_id r t)"
proof -
  have n: "str_len (node_id r) \<le> 64" "0 \<le> sequence r"
    using assms(1) by (auto simp: valid_reading_def valid_base_def node_id_ok_def)
  have "str_len (str_of_int (sequence r)) \<le> 71" "str_len (str_of_int t) \<le> 19"
    using str_of_int_length [of "sequence r" 70] str_of_int_length [of t 18] n assms by simp_all
  then show ?thesis using n by (simp add: record_id_ok_def raw_record_id_len)
qed

definition received_ok :: "received_message \<Rightarrow> bool" where
  "received_ok rc \<longleftrightarrow> valid_message (rm_message rc) \<and> 0 \<le> received_at_ms rc \<and>
     0 \<le> received_monotonic_ns rc \<and> received_monotonic_ns rc < 10 ^ 19 \<and> 0 < wire_bytes rc"

lemma window_length_nonneg:
  assumes "ws = Fin x" "0 < x" "fmul ws (Fin 1000) = Fin r"
  shows "0 \<le> round_half_even r"
proof -
  have "r = rnd_double (x * 1000)"
    using assms by (auto simp: fl_def Let_def split: if_splits)
  then have "of_int 0 \<le> r" using assms(2) binary64.rnd_nonneg [of "x * 1000"] by simp
  then show ?thesis by (rule round_half_even_ge)
qed

section \<open>Properties\<close>

text \<open>C7: Upstream records survive the wire: a record that satisfies its schema, encoded as one
  NDJSON line and stripped of the newline, parses back to itself; and whatever the collector
  parses from any bytes satisfies the schema, the nested reading included.\<close>

theorem upstream_round_trip:
  assumes "literal_one (JInt 1)"
    "valid_upstream r \<Longrightarrow> parse_json (dump_json (upstream_dump r)) = Some (upstream_dump r)"
  shows "(valid_upstream r \<longrightarrow>
      parse_upstream_record parse_json literal_one (butlast (encode_upstream_record dump_json r)) = Inr r) \<and>
    (\<forall>data. parse_upstream_record parse_json literal_one data = Inr r \<longrightarrow> valid_upstream r)"
proof -
  have "valid_upstream r" if "parse_upstream_record parse_json literal_one data = Inr r" for data
    using that by (auto simp: parse_upstream_record_def dest!: validate_upstream_sound
        split: option.splits Option.bind_splits)
  then show ?thesis
    using assms by (auto simp: parse_upstream_record_def encode_upstream_record_def validate_upstream_dump)
qed

text \<open>Every accepted reading with a sequence number below 10^71 yields a valid upstream record that
  carries the reading and the gateway's annotations unchanged. Two readings get the same record
  id only if they have the same node, sequence and arrival instant, so deduplication by record
  id never merges two different arrivals.\<close>

theorem raw_record_faithful:
  assumes "received_ok rc" "rm_message rc = Reading r" "sequence r < 10 ^ 71" "0 \<le> now"
    "received_ok rc'" "rm_message rc' = Reading r'"
  shows "(\<exists>u. raw_record rc now = Inr u \<and> valid_upstream (RawRecord u) \<and> ru_reading u = r \<and>
      gateway_received_monotonic_ns u = received_monotonic_ns rc \<and> sensor_wire_bytes u = wire_bytes rc \<and>
      ru_sequence_status u = rm_sequence_status rc) \<and>
    (raw_record_id r (received_monotonic_ns rc) = raw_record_id r' (received_monotonic_ns rc') \<longleftrightarrow>
      node_id r = node_id r' \<and> sequence r = sequence r' \<and> received_monotonic_ns rc = received_monotonic_ns rc')"
proof -
  have v: "valid_reading r" "valid_reading r'" "0 \<le> received_monotonic_ns rc" "0 \<le> received_monotonic_ns rc'"
    using assms by (auto simp: received_ok_def)
  then have c: "CHR '':'' \<notin> set (node_id r)" "CHR '':'' \<notin> set (node_id r')" "0 \<le> sequence r" "0 \<le> sequence r'"
    by (auto simp: valid_reading_def valid_base_def dest: node_id_no_colon)
  have "record_id_ok (raw_record_id r (received_monotonic_ns rc))"
    using assms v by (intro raw_record_id_length) (auto simp: received_ok_def)
  then have "\<exists>u. raw_record rc now = Inr u \<and> valid_upstream (RawRecord u) \<and> ru_reading u = r \<and>
      gateway_received_monotonic_ns u = received_monotonic_ns rc \<and> sensor_wire_bytes u = wire_bytes rc \<and>
      ru_sequence_status u = rm_sequence_status rc"
    using assms v by (simp add: raw_record_def RawUpstreamRecord_def raw_fields_ok_def received_ok_def)
  moreover have "raw_record_id r (received_monotonic_ns rc) = raw_record_id r' (received_monotonic_ns rc') \<longleftrightarrow>
      node_id r = node_id r' \<and> sequence r = sequence r' \<and> received_monotonic_ns rc = received_monotonic_ns rc'"
    using c v by (simp add: raw_record_id_def append_sep_inject colon_notin_str_of_int str_of_int_inj)
  ultimately show ?thesis ..
qed

text \<open>C8: A sensor may send any non-negative sequence number, but the upstream record id is limited to
  160 characters: a schema-valid reading whose sequence has 155 digits or more cannot be turned
  into an upstream record, and the constructor's \<open>ValidationError\<close> is not handled by the
  forwarder's worker.\<close>

theorem long_sequence_breaks_forwarding:
  assumes "rm_message rc = Reading r" "10 ^ 154 \<le> sequence r"
  shows "raw_record rc now = Inl ValidationError"
proof -
  have "10 ^ 154 \<le> nat (sequence r)" using assms(2) by (simp add: nat_le_iff le_nat_iff)
  then have "155 \<le> str_len (str_of_int (sequence r))"
    using str_of_nat_length_ge [of 154 "nat (sequence r)"] assms(2)
    by (simp add: str_of_int_nonneg str_len_str_of_nat)
  then have "160 < str_len (raw_record_id r (received_monotonic_ns rc))"
    by (simp add: raw_record_id_len)
  then show ?thesis
    using assms(1) by (simp add: raw_record_def RawUpstreamRecord_def raw_fields_ok_def record_id_ok_def)
qed

text \<open>Every window the aggregator closes becomes a valid upstream record: with the clock values of
  the next 10^70 milliseconds the constructor accepts the summary, whose float means are finite
  although their sums are rounded, so an aggregated run never loses a window to validation.\<close>

theorem aggregate_record_accepts_windows:
  assumes "WindowAggregator ws = Inr g" "window_ok (sw_messages w)" "sw_messages w \<noteq> []"
    "0 \<le> received_at_ms (hd (sw_messages w))" "pred_option (\<lambda>e. 0 \<le> e) (sw_end w)"
    "window_start_ms (summary_of ws w) < 10 ^ 70" "window_end_ms (summary_of ws w) < 10 ^ 70" "0 \<le> now"
  shows "aggregate_record (summary_of ws w) now =
    Inr \<lparr>au_record_id = aggregate_record_id (summary_of ws w), au_forwarded_at_ms = now,
         au_summary = summary_of ws w\<rparr>"
proof -
  obtain x r where ws: "ws = Fin x" "0 < x" "fmul ws (Fin 1000) = Fin r"
    using WindowAggregator_ok [OF assms(1)] by (auto simp: agg_config_ok_def)
  have pos: "0 \<le> window_start_ms (summary_of ws w)" "0 \<le> window_end_ms (summary_of ws w)"
    using assms(4,5) window_length_nonneg [OF ws] ws(3)
    by (auto simp: summary_of_def Let_def split: option.splits)
  have "is_finite (temperature_mean_c (summary_of ws w))" "is_finite (humidity_mean_pct (summary_of ws w))"
    "is_finite (pressure_mean_hpa (summary_of ws w))"
    using summary_channel_ranges [OF assms(2,3), of ws] by (simp_all add: in_range_def is_finite_iff) blast+
  moreover have "0 < reading_count (summary_of ws w)" "0 < node_count (summary_of ws w)"
    "aggregation_window_seconds (summary_of ws w) = ws"
    using assms(3) by (simp_all add: summary_of_def Let_def card_gt_0_iff)
  moreover have "list_all is_finite [temperature_min_c (summary_of ws w), temperature_max_c (summary_of ws w),
      humidity_min_pct (summary_of ws w), humidity_max_pct (summary_of ws w),
      pressure_min_hpa (summary_of ws w), pressure_max_hpa (summary_of ws w)]"
    by (simp add: summary_of_def Let_def)
  ultimately have fin: "summary_fields_ok (summary_of ws w)"
    using pos ws(1,2) by (simp add: summary_fields_ok_def)
  have "str_len (str_of_int (window_start_ms (summary_of ws w))) \<le> 70"
    "str_len (str_of_int (window_end_ms (summary_of ws w))) \<le> 70"
    using str_of_int_length [of _ 69] pos assms(6,7) by simp_all
  then show ?thesis
    using fin assms(8)
    by (simp add: aggregate_record_def AggregateUpstreamRecord_def aggregate_fields_ok_def record_id_ok_def
        aggregate_record_id_len)
qed

definition sample_upstream :: upstream_record where
  "sample_upstream = RawRecord \<lparr>ru_record_id = ''raw:n1:0:5'', ru_forwarded_at_ms = 0,
     gateway_received_at_ms = 0, gateway_received_monotonic_ns = 5, sensor_wire_bytes = 100,
     ru_sequence_status = FIRST, ru_reading = sample_reading ''n1'' 0\<rparr>"

lemma sample_upstream_valid: "valid_upstream sample_upstream"
  by (simp add: sample_upstream_def raw_fields_ok_def record_id_ok_def sample_reading_valid continuation_byte_def)

theorem upstream_round_trip_witness:
  "parse_upstream_record (\<lambda>b. if b = ''r'' then Some (upstream_dump sample_upstream) else None) (\<lambda>j. j = JInt 1)
     (butlast (encode_upstream_record (\<lambda>j. ''r'') sample_upstream)) = Inr sample_upstream"
  using upstream_round_trip [of "\<lambda>j. j = JInt 1" sample_upstream
      "\<lambda>b. if b = ''r'' then Some (upstream_dump sample_upstream) else None" "\<lambda>j. ''r''"]
  by (simp add: sample_upstream_valid)

lemma sample_received_ok: "received_ok (sample_received 0 5)" "received_ok (sample_received 3 7)"
  by (simp_all add: received_ok_def sample_received_def sample_reading_valid)

theorem raw_record_faithful_witness:
  "(\<exists>u. raw_record (sample_received 0 5) 1 = Inr u \<and> ru_reading u = sample_reading ''n1'' 0) \<and>
   raw_record_id (sample_reading ''n1'' 0) 5 \<noteq> raw_record_id (sample_reading ''n1'' 3) 7"
proof -
  have r: "rm_message (sample_received s t) = Reading (sample_reading ''n1'' s)"
      "received_monotonic_ns (sample_received s t) = t" "sequence (sample_reading ''n1'' s) = s" for s t
    by (simp_all add: sample_received_def sample_reading_def)
  show ?thesis
    using raw_record_faithful [OF sample_received_ok(1) r(1) _ _ sample_received_ok(2) r(1), of 1]
    by (auto simp: r)
qed

theorem long_sequence_breaks_forwarding_witness:
  "raw_record (sample_received (10 ^ 154) 5) 1 = Inl ValidationError"
  by (rule long_sequence_breaks_forwarding [of _ "sample_reading ''n1'' (10 ^ 154)"])
    (simp_all add: sample_received_def sample_reading_def)

theorem aggregate_record_accepts_windows_witness:
  "\<exists>a. aggregate_record (summary_of (Fin 5)
     \<lparr>sw_messages = [sample_received 0 0, sample_received 3 1], sw_partial = True, sw_end = Some 7\<rparr>) 9 = Inr a"
proof -
  let ?w = "\<lparr>sw_messages = [sample_received 0 0, sample_received 3 1], sw_partial = True, sw_end = Some 7\<rparr>"
  have w: "window_ok (sw_messages ?w)"
    by (simp add: window_ok_def sample_received_usable, simp add: counted_def sample_received_def)
  show ?thesis
    using aggregate_record_accepts_windows [OF sample_aggregator_init w, of 9]
    by (simp add: summary_of_def Let_def, simp add: sample_received_def)
qed

end
