(* ===== verification/Forwarder.thy ===== *)
theory Forwarder
  imports Upstream_Protocol Events
begin

text \<open>
  The upstream forwarder (\<^verbatim>\<open>src/gateway/upstream.py\<close>): queueing of readings with and without
  blocking, the RAW and the AGGREGATED worker, delivery with reconnect and exponential backoff,
  and shutdown with its accounting. The worker is a state machine over its suspension points:
  waiting for the queue, opening a connection, draining a write, sleeping before a retry. A step
  is one resumption: a call from outside, an item or a window deadline reaching the worker, the
  outcome of a connection attempt or of a write, the end of a sleep, the shutdown timeout.
\<close>

section \<open>Data model\<close>

datatype forward_mode = RAW | AGGREGATED

record upstream_stats =
  readings_enqueued :: int
  upstream_messages :: int
  upstream_bytes :: int
  connection_attempts :: int
  connection_failures :: int
  send_failures :: int
  records_abandoned_on_shutdown :: int
  queue_full_drops :: int

definition zero_stats :: upstream_stats where
  "zero_stats = \<lparr>readings_enqueued = 0, upstream_messages = 0, upstream_bytes = 0, connection_attempts = 0,
     connection_failures = 0, send_failures = 0, records_abandoned_on_shutdown = 0, queue_full_drops = 0\<rparr>"

text \<open>Where the worker is suspended. A send carries the record, its encoding, the current backoff
  and whether the worker returns afterwards.\<close>

record sending =
  sd_record :: upstream_record
  sd_encoded :: bytes
  sd_backoff :: pyfloat
  sd_last :: bool

datatype phase = Waiting | Connecting sending | Draining sending | Sleeping sending

record upstream_forwarder =
  fw_mode :: forward_mode
  fw_window_seconds :: pyfloat
  reconnect_initial :: pyfloat
  reconnect_max :: pyfloat
  shutdown_timeout :: pyfloat
  fw_has_callback :: bool
  fw_stats :: upstream_stats
  fw_queue :: "received_message bqueue"
  fw_handle :: bool
  fw_task :: task
  fw_phase :: phase
  fw_writer :: "bool option"
  fw_stopping :: bool
  collector_available :: "bool option"
  fw_aggregator :: "window_aggregator option"
  fw_sent :: "(upstream_record \<times> bytes) list"
  fw_events :: "gateway_event list"

text \<open>\<open>fw_writer\<close> is \<open>None\<close> without connection and otherwise tells whether it is closing;
  \<open>fw_stopping\<close> holds while \<open>stop\<close> waits; \<open>fw_sent\<close> lists the records whose write was drained
  and \<open>fw_events\<close> the events handed to the callback.\<close>

section \<open>Construction and events\<close>

definition UpstreamForwarder ::
  "forward_mode \<Rightarrow> pyfloat \<Rightarrow> int \<Rightarrow> pyfloat \<Rightarrow> pyfloat \<Rightarrow> pyfloat \<Rightarrow> bool \<Rightarrow> upstream_forwarder result" where
  "UpstreamForwarder mode window queue_size r_initial r_max timeout cb =
     (if queue_size < 1 then Inl (ValueError ''queue_size must be positive'')
      else if fle r_initial (Fin 0) \<or> flt r_max r_initial then Inl (ValueError ''invalid reconnect backoff'')
      else if fle timeout (Fin 0) then Inl (ValueError ''shutdown_timeout must be positive'')
      else if mode = AGGREGATED \<and> fle window (Fin 0)
      then Inl (ValueError ''aggregation_window_seconds must be positive'')
      else Inr \<lparr>fw_mode = mode, fw_window_seconds = window, reconnect_initial = r_initial, reconnect_max = r_max,
        shutdown_timeout = timeout, fw_has_callback = cb, fw_stats = zero_stats,
        fw_queue = new_queue (nat queue_size), fw_handle = False, fw_task = NoTask, fw_phase = Waiting,
        fw_writer = None, fw_stopping = False, collector_available = None, fw_aggregator = None,
        fw_sent = [], fw_events = []\<rparr>)"

definition emit_event ::
  "int \<Rightarrow> string \<Rightarrow> string \<Rightarrow> (string \<times> json) list \<Rightarrow> upstream_forwarder \<Rightarrow> upstream_forwarder" where
  "emit_event now event_type node details f =
     (if \<not> fw_has_callback f then f
      else f\<lparr>fw_events := fw_events f @
        [\<lparr>ge_timestamp_ms = now, ge_source = ''upstream'', ge_event_type = event_type, ge_node_id = node,
          ge_details = details\<rparr>]\<rparr>)"

text \<open>\<open>start\<close> creates the worker task; in AGGREGATED mode it first builds its aggregator, whose
  constructor may refuse the window.\<close>

definition fw_start :: "upstream_forwarder \<Rightarrow> upstream_forwarder result" where
  "fw_start f =
     (if fw_handle f then Inl (RuntimeError ''upstream forwarder is already running'')
      else Inr (case fw_mode f of
        RAW \<Rightarrow> f\<lparr>fw_handle := True, fw_task := Active, fw_phase := Waiting\<rparr>
      | AGGREGATED \<Rightarrow>
          (case WindowAggregator (fw_window_seconds f) of
             Inl e \<Rightarrow> f\<lparr>fw_handle := True, fw_task := Failed e\<rparr>
           | Inr g \<Rightarrow> f\<lparr>fw_handle := True, fw_task := Active, fw_phase := Waiting, fw_aggregator := Some g\<rparr>)))"

section \<open>Submitting\<close>

definition is_reading :: "received_message \<Rightarrow> bool" where
  "is_reading rc = (case rm_message rc of Reading _ \<Rightarrow> True | Heartbeat _ \<Rightarrow> False)"

definition count_reading :: "received_message queued option \<Rightarrow> upstream_forwarder \<Rightarrow> upstream_forwarder" where
  "count_reading x f = (case x of
     Some (Item _) \<Rightarrow> f\<lparr>fw_stats := (fw_stats f)\<lparr>readings_enqueued := readings_enqueued (fw_stats f) + 1\<rparr>\<rparr>
   | _ \<Rightarrow> f)"

definition fw_submit :: "upstream_forwarder \<Rightarrow> received_message \<Rightarrow> upstream_forwarder result" where
  "fw_submit f rc =
     (if \<not> fw_handle f then Inl (RuntimeError ''upstream forwarder is not running'')
      else if \<not> is_reading rc then Inr f
      else Inr (let f' = f\<lparr>fw_queue := put_wait (Item rc) (fw_queue f)\<rparr>
                in if full (fw_queue f) then f' else count_reading (Some (Item rc)) f'))"

definition fw_try_submit :: "int \<Rightarrow> upstream_forwarder \<Rightarrow> received_message \<Rightarrow> (bool \<times> upstream_forwarder) result" where
  "fw_try_submit now f rc =
     (if \<not> fw_handle f then Inl (RuntimeError ''upstream forwarder is not running'')
      else if \<not> is_reading rc then Inr (True, f)
      else case put_nowait (Item rc) (fw_queue f) of
        None \<Rightarrow> Inr (False,
          emit_event now ''queue_full_drop'' (msg_node_id (rm_message rc))
            [(''queue_size'', JInt (int (maxsize (fw_queue f))))]
            (f\<lparr>fw_stats := (fw_stats f)\<lparr>queue_full_drops := queue_full_drops (fw_stats f) + 1\<rparr>\<rparr>))
      | Some q \<Rightarrow> Inr (True, count_reading (Some (Item rc)) (f\<lparr>fw_queue := q\<rparr>)))"

definition fw_resume :: "upstream_forwarder \<Rightarrow> nat \<Rightarrow> upstream_forwarder" where
  "fw_resume f k = (let (x, q) = resume_put k (fw_queue f) in count_reading x (f\<lparr>fw_queue := q\<rparr>))"

section \<open>Sending\<close>

text \<open>\<open>_send_record\<close> up to its first suspension: with a usable connection the write is handed
  over at once, otherwise a connection attempt starts.\<close>

definition try_write :: "sending \<Rightarrow> upstream_forwarder \<Rightarrow> upstream_forwarder" where
  "try_write sd f =
     (if fw_writer f = Some False then f\<lparr>fw_phase := Draining sd\<rparr>
      else f\<lparr>fw_phase := Connecting sd,
             fw_stats := (fw_stats f)\<lparr>connection_attempts := connection_attempts (fw_stats f) + 1\<rparr>\<rparr>)"

definition send_record :: "json_printer \<Rightarrow> upstream_record \<Rightarrow> bool \<Rightarrow> upstream_forwarder \<Rightarrow> upstream_forwarder" where
  "send_record dump_json r final f =
     try_write \<lparr>sd_record = r, sd_encoded = encode_upstream_record dump_json r,
       sd_backoff = reconnect_initial f, sd_last = final\<rparr> f"

definition connected_ok :: "int \<Rightarrow> upstream_forwarder \<Rightarrow> upstream_forwarder" where
  "connected_ok now f =
     (case fw_phase f of
        Connecting sd \<Rightarrow>
          (let f1 = f\<lparr>fw_writer := Some False\<rparr>;
               f2 = (case collector_available f of
                       Some False \<Rightarrow> emit_event now ''collector_reconnected'' [] [] f1
                     | None \<Rightarrow> emit_event now ''collector_connected'' [] [] f1
                     | Some True \<Rightarrow> f1)
           in f2\<lparr>collector_available := Some True, fw_phase := Draining sd\<rparr>)
      | _ \<Rightarrow> f)"

text \<open>A failed attempt or write: the connection is dropped and the worker sleeps.\<close>

definition fail_send :: "sending \<Rightarrow> upstream_forwarder \<Rightarrow> upstream_forwarder" where
  "fail_send sd f =
     f\<lparr>fw_stats := (fw_stats f)\<lparr>send_failures := send_failures (fw_stats f) + 1\<rparr>,
       fw_writer := None, fw_phase := Sleeping sd\<rparr>"

definition connect_failed :: "int \<Rightarrow> upstream_forwarder \<Rightarrow> upstream_forwarder" where
  "connect_failed now f =
     (case fw_phase f of
        Connecting sd \<Rightarrow>
          (let f1 = f\<lparr>fw_stats := (fw_stats f)\<lparr>connection_failures := connection_failures (fw_stats f) + 1\<rparr>\<rparr>;
               f2 = (if collector_available f \<noteq> Some False
                     then emit_event now ''collector_unavailable'' [] [] (f1\<lparr>collector_available := Some False\<rparr>)
                     else f1)
           in fail_send sd f2)
      | _ \<Rightarrow> f)"

definition drained :: "upstream_forwarder \<Rightarrow> upstream_forwarder" where
  "drained f =
     (case fw_phase f of
        Draining sd \<Rightarrow>
          f\<lparr>fw_stats := (fw_stats f)\<lparr>upstream_messages := upstream_messages (fw_stats f) + 1,
                         upstream_bytes := upstream_bytes (fw_stats f) + int (length (sd_encoded sd))\<rparr>,
            fw_sent := fw_sent f @ [(sd_record sd, sd_encoded sd)], fw_phase := Waiting,
            fw_task := (if sd_last sd then Returned else fw_task f)\<rparr>
      | _ \<Rightarrow> f)"

definition drain_failed :: "upstream_forwarder \<Rightarrow> upstream_forwarder" where
  "drain_failed f = (case fw_phase f of Draining sd \<Rightarrow> fail_send sd f | _ \<Rightarrow> f)"

definition wake :: "upstream_forwarder \<Rightarrow> upstream_forwarder" where
  "wake f =
     (case fw_phase f of
        Sleeping sd \<Rightarrow>
          try_write (sd\<lparr>sd_backoff := py_min (fmul (sd_backoff sd) (Fin 2)) (reconnect_max f)\<rparr>) f
      | _ \<Rightarrow> f)"

definition peer_closed :: "upstream_forwarder \<Rightarrow> upstream_forwarder" where
  "peer_closed f = f\<lparr>fw_writer := map_option (\<lambda>_. True) (fw_writer f)\<rparr>"

section \<open>The workers\<close>

definition worker_fails :: "py_error \<Rightarrow> upstream_forwarder \<Rightarrow> upstream_forwarder" where
  "worker_fails e f = f\<lparr>fw_task := Failed e\<rparr>"

definition send_summary :: "json_printer \<Rightarrow> int \<Rightarrow> window_summary \<Rightarrow> bool \<Rightarrow> upstream_forwarder \<Rightarrow> upstream_forwarder" where
  "send_summary dump_json now s final f =
     (case aggregate_record s now of
        Inl e \<Rightarrow> worker_fails e f
      | Inr a \<Rightarrow> send_record dump_json (AggregateRecord a) final f)"

definition raw_item :: "json_printer \<Rightarrow> int \<Rightarrow> received_message queued \<Rightarrow> upstream_forwarder \<Rightarrow> upstream_forwarder" where
  "raw_item dump_json now item f =
     (case item of
        STOP \<Rightarrow> f\<lparr>fw_task := Returned\<rparr>
      | Item rc \<Rightarrow>
          (case raw_record rc now of
             Inl e \<Rightarrow> worker_fails e f
           | Inr u \<Rightarrow> send_record dump_json (RawRecord u) False f))"

definition aggregated_item ::
  "json_printer \<Rightarrow> int \<Rightarrow> window_aggregator \<Rightarrow> received_message queued \<Rightarrow> upstream_forwarder \<Rightarrow> upstream_forwarder" where
  "aggregated_item dump_json now g item f =
     (case item of
        STOP \<Rightarrow>
          (case agg_flush g True (Some now) of
             Inl e \<Rightarrow> worker_fails e f
           | Inr (None, g') \<Rightarrow> f\<lparr>fw_aggregator := Some g', fw_task := Returned\<rparr>
           | Inr (Some s, g') \<Rightarrow> send_summary dump_json now s True (f\<lparr>fw_aggregator := Some g'\<rparr>))
      | Item rc \<Rightarrow>
          (case agg_add g rc of
             Inl e \<Rightarrow> worker_fails e f
           | Inr (None, g') \<Rightarrow> f\<lparr>fw_aggregator := Some g'\<rparr>
           | Inr (Some s, g') \<Rightarrow> send_summary dump_json now s False (f\<lparr>fw_aggregator := Some g'\<rparr>)))"

text \<open>The worker's \<open>get\<close> returns the head of the queue.\<close>

definition fw_get :: "json_printer \<Rightarrow> int \<Rightarrow> upstream_forwarder \<Rightarrow> upstream_forwarder" where
  "fw_get dump_json now f =
     (if fw_task f \<noteq> Active \<or> fw_phase f \<noteq> Waiting then f
      else case entries (fw_queue f) of
        [] \<Rightarrow> f
      | x # xs \<Rightarrow>
          (let f' = f\<lparr>fw_queue := (fw_queue f)\<lparr>entries := xs\<rparr>\<rparr>
           in case fw_aggregator f of
                None \<Rightarrow> raw_item dump_json now x f'
              | Some g \<Rightarrow> aggregated_item dump_json now g x f'))"

definition aggregation_timeout :: "window_aggregator \<Rightarrow> int \<Rightarrow> pyfloat option" where
  "aggregation_timeout g mono_ns =
     (case agg_deadline g of
        None \<Rightarrow> None
      | Some d \<Rightarrow> Some (py_max (Fin 0) (fl (of_int (d - mono_ns) / 1000000000))))"

text \<open>The wait for the queue ends at the window deadline: the full window is flushed.\<close>

definition window_timeout :: "json_printer \<Rightarrow> int \<Rightarrow> upstream_forwarder \<Rightarrow> upstream_forwarder" where
  "window_timeout dump_json now f =
     (if fw_task f \<noteq> Active \<or> fw_phase f \<noteq> Waiting then f
      else case fw_aggregator f of
        None \<Rightarrow> f
      | Some g \<Rightarrow>
          if agg_deadline g = None then f
          else (case agg_flush g False None of
             Inl e \<Rightarrow> worker_fails e f
           | Inr (None, g') \<Rightarrow> f\<lparr>fw_aggregator := Some g'\<rparr>
           | Inr (Some s, g') \<Rightarrow> send_summary dump_json now s False (f\<lparr>fw_aggregator := Some g'\<rparr>)))"

section \<open>Shutdown\<close>

definition fw_stop :: "upstream_forwarder \<Rightarrow> upstream_forwarder" where
  "fw_stop f =
     (if \<not> fw_handle f then f
      else f\<lparr>fw_handle := False, fw_stopping := True, fw_queue := put_wait STOP (fw_queue f)\<rparr>)"

text \<open>The worker ended by itself: \<open>stop\<close> closes the connection (and re-raises a failure).\<close>

definition stop_completes :: "upstream_forwarder \<Rightarrow> upstream_forwarder" where
  "stop_completes f =
     (if fw_stopping f \<and> fw_task f \<noteq> Active then f\<lparr>fw_stopping := False, fw_writer := None\<rparr> else f)"

text \<open>Cancelling the worker: only a record being sent is counted as abandoned.\<close>

definition cancel_worker :: "upstream_forwarder \<Rightarrow> upstream_forwarder" where
  "cancel_worker f =
     (case fw_phase f of
        Waiting \<Rightarrow> f\<lparr>fw_task := Returned\<rparr>
      | _ \<Rightarrow> f\<lparr>fw_task := Returned, fw_phase := Waiting,
            fw_stats := (fw_stats f)\<lparr>records_abandoned_on_shutdown := records_abandoned_on_shutdown (fw_stats f) + 1\<rparr>\<rparr>)"

text \<open>The timeout path of \<open>stop\<close>: a waiting \<open>put\<close> of the sentinel is withdrawn, the worker is
  cancelled, the queue emptied and counted, the event emitted, the connection closed.\<close>

definition stop_times_out :: "int \<Rightarrow> upstream_forwarder \<Rightarrow> upstream_forwarder" where
  "stop_times_out now f =
     (if \<not> fw_stopping f \<or> fw_task f \<noteq> Active then f
      else let f1 = cancel_worker f;
               n = int (length (items (entries (fw_queue f))));
               f2 = f1\<lparr>fw_queue := (fw_queue f)\<lparr>entries := [], putters := filter (\<lambda>x. x \<noteq> STOP) (putters (fw_queue f))\<rparr>,
                       fw_stats := (fw_stats f1)\<lparr>records_abandoned_on_shutdown :=
                          records_abandoned_on_shutdown (fw_stats f1) + n\<rparr>\<rparr>;
               f3 = emit_event now ''record_abandoned_on_shutdown'' []
                      [(''count'', JInt (records_abandoned_on_shutdown (fw_stats f2)))] f2
           in f3\<lparr>fw_stopping := False, fw_writer := None\<rparr>)"

section \<open>Steps\<close>

datatype fw_event =
    FSubmit received_message
  | FTry int received_message
  | FResume nat
  | FGet int
  | FDeadline int
  | FConnected int
  | FRefused int
  | FDrained
  | FBroken
  | FWake
  | FPeerClosed
  | FStop
  | FStopped
  | FStopTimeout int

fun fw_step :: "json_printer \<Rightarrow> upstream_forwarder \<Rightarrow> fw_event \<Rightarrow> upstream_forwarder" where
  "fw_step dj f (FSubmit rc) = or_same f (fw_submit f rc)"
| "fw_step dj f (FTry now rc) = or_same f (map_sum id snd (fw_try_submit now f rc))"
| "fw_step dj f (FResume k) = fw_resume f k"
| "fw_step dj f (FGet now) = fw_get dj now f"
| "fw_step dj f (FDeadline now) = window_timeout dj now f"
| "fw_step dj f (FConnected now) = connected_ok now f"
| "fw_step dj f (FRefused now) = connect_failed now f"
| "fw_step dj f FDrained = drained f"
| "fw_step dj f FBroken = drain_failed f"
| "fw_step dj f FWake = wake f"
| "fw_step dj f FPeerClosed = peer_closed f"
| "fw_step dj f FStop = fw_stop f"
| "fw_step dj f FStopped = stop_completes f"
| "fw_step dj f (FStopTimeout now) = stop_times_out now f"

section \<open>Accounting in RAW mode\<close>

text \<open>The readings a step puts into the queue.\<close>

definition fw_accepts :: "upstream_forwarder \<Rightarrow> fw_event \<Rightarrow> received_message list" where
  "fw_accepts f e =
     (case e of
        FSubmit rc \<Rightarrow> if fw_handle f \<and> is_reading rc \<and> \<not> full (fw_queue f) then [rc] else []
      | FTry _ rc \<Rightarrow> if fw_handle f \<and> is_reading rc \<and> \<not> full (fw_queue f) then [rc] else []
      | FResume k \<Rightarrow> (case fst (resume_put k (fw_queue f)) of Some (Item rc) \<Rightarrow> [rc] | _ \<Rightarrow> [])
      | _ \<Rightarrow> [])"

text \<open>A record and its encoding carry a reading.\<close>

definition carries :: "json_printer \<Rightarrow> received_message \<Rightarrow> upstream_record \<times> bytes \<Rightarrow> bool" where
  "carries dj rc p \<longleftrightarrow> (\<exists>now u. raw_record rc now = Inr u \<and> p = (RawRecord u, encode_upstream_record dj (RawRecord u)))"

fun in_flight :: "phase \<Rightarrow> sending option" where
  "in_flight Waiting = None"
| "in_flight (Connecting sd) = Some sd"
| "in_flight (Draining sd) = Some sd"
| "in_flight (Sleeping sd) = Some sd"

lemma in_flight_None [simp]: "in_flight p = None \<longleftrightarrow> p = Waiting"
  by (cases p) auto

abbreviation abandoned :: "upstream_forwarder \<Rightarrow> int" where
  "abandoned f \<equiv> records_abandoned_on_shutdown (fw_stats f)"

abbreviation queued_items :: "upstream_forwarder \<Rightarrow> received_message list" where
  "queued_items f \<equiv> items (entries (fw_queue f))"

definition rest_ok :: "json_printer \<Rightarrow> upstream_forwarder \<Rightarrow> received_message list \<Rightarrow> bool" where
  "rest_ok dj f rest =
     (case fw_task f of
        NoTask \<Rightarrow> False
      | Active \<Rightarrow> abandoned f = 0 \<and>
          (case in_flight (fw_phase f) of
             None \<Rightarrow> rest = queued_items f
           | Some sd \<Rightarrow> \<not> sd_last sd \<and> (\<exists>rc. rest = rc # queued_items f \<and> carries dj rc (sd_record sd, sd_encoded sd)))
      | Returned \<Rightarrow> fw_phase f = Waiting \<and> int (length rest) = int (length (queued_items f)) + abandoned f
      | Failed _ \<Rightarrow> fw_phase f = Waiting \<and> abandoned f = 0 \<and> length rest = Suc (length (queued_items f)))"

definition raw_counts :: "upstream_forwarder \<Rightarrow> received_message list \<Rightarrow> bool" where
  "raw_counts f acc \<longleftrightarrow> fw_aggregator f = None \<and>
     readings_enqueued (fw_stats f) = int (length acc) \<and>
     upstream_messages (fw_stats f) = int (length (fw_sent f)) \<and>
     upstream_bytes (fw_stats f) = (\<Sum>x\<leftarrow>fw_sent f. int (length (snd x))) \<and>
     length (entries (fw_queue f)) \<le> maxsize (fw_queue f)"

definition raw_split :: "json_printer \<Rightarrow> upstream_forwarder \<Rightarrow> received_message list \<Rightarrow> bool" where
  "raw_split dj f acc \<longleftrightarrow>
     (\<exists>dl rest. acc = dl @ rest \<and> list_all2 (carries dj) dl (fw_sent f) \<and> rest_ok dj f rest)"

definition raw_inv :: "json_printer \<Rightarrow> upstream_forwarder \<times> received_message list \<Rightarrow> bool" where
  "raw_inv dj p \<longleftrightarrow> raw_counts (fst p) (snd p) \<and> raw_split dj (fst p) (snd p)"

lemma raw_splitI:
  "acc = dl @ rest \<Longrightarrow> list_all2 (carries dj) dl (fw_sent f) \<Longrightarrow> rest_ok dj f rest \<Longrightarrow> raw_split dj f acc"
  by (auto simp: raw_split_def)

lemma raw_invE:
  assumes "raw_inv dj (f, acc)"
  obtains dl rest where "acc = dl @ rest" "list_all2 (carries dj) dl (fw_sent f)" "rest_ok dj f rest" "raw_counts f acc"
  using assms by (auto simp: raw_inv_def raw_split_def)

definition fw_trace ::
  "json_printer \<Rightarrow> upstream_forwarder \<times> received_message list \<Rightarrow> fw_event \<Rightarrow> upstream_forwarder \<times> received_message list" where
  "fw_trace dj p e = (fw_step dj (fst p) e, snd p @ fw_accepts (fst p) e)"

lemma foldl_fw_trace:
  "foldl (fw_trace dj) (f, acc) es = (foldl (fw_step dj) f es, acc @ gather (fw_step dj) fw_accepts f es)"
  by (induction es arbitrary: f acc) (simp_all add: fw_trace_def)

lemma emit_event_frame [simp]:
  "fw_aggregator (emit_event now t n d f) = fw_aggregator f" "fw_sent (emit_event now t n d f) = fw_sent f"
  "fw_task (emit_event now t n d f) = fw_task f" "fw_phase (emit_event now t n d f) = fw_phase f"
  "fw_stats (emit_event now t n d f) = fw_stats f" "fw_queue (emit_event now t n d f) = fw_queue f"
  "fw_handle (emit_event now t n d f) = fw_handle f" "reconnect_max (emit_event now t n d f) = reconnect_max f"
  "reconnect_initial (emit_event now t n d f) = reconnect_initial f"
  "fw_mode (emit_event now t n d f) = fw_mode f"
  by (simp_all add: emit_event_def)

text \<open>Steps that only move readings into the queue.\<close>

definition queue_step :: "upstream_forwarder \<Rightarrow> upstream_forwarder \<Rightarrow> received_message list \<Rightarrow> bool" where
  "queue_step f f' new \<longleftrightarrow> fw_aggregator f' = fw_aggregator f \<and> fw_sent f' = fw_sent f \<and> fw_task f' = fw_task f \<and>
     fw_phase f' = fw_phase f \<and> abandoned f' = abandoned f \<and> queued_items f' = queued_items f @ new \<and>
     readings_enqueued (fw_stats f') = readings_enqueued (fw_stats f) + int (length new) \<and>
     upstream_messages (fw_stats f') = upstream_messages (fw_stats f) \<and>
     upstream_bytes (fw_stats f') = upstream_bytes (fw_stats f) \<and>
     maxsize (fw_queue f') = maxsize (fw_queue f) \<and>
     (length (entries (fw_queue f)) \<le> maxsize (fw_queue f) \<longrightarrow> length (entries (fw_queue f')) \<le> maxsize (fw_queue f'))"

lemma queue_steps:
  "queue_step f (fw_step dj f (FSubmit rc)) (fw_accepts f (FSubmit rc))"
  "queue_step f (fw_step dj f (FTry now rc)) (fw_accepts f (FTry now rc))"
  "queue_step f (fw_step dj f (FResume k)) (fw_accepts f (FResume k))"
  "queue_step f (fw_step dj f FStop) (fw_accepts f FStop)"
  "queue_step f (fw_step dj f FPeerClosed) (fw_accepts f FPeerClosed)"
proof -
  show "queue_step f (fw_step dj f (FSubmit rc)) (fw_accepts f (FSubmit rc))"
    by (auto simp: queue_step_def fw_submit_def or_same_def put_wait_def fw_accepts_def count_reading_def full_def Let_def)
  show "queue_step f (fw_step dj f (FTry now rc)) (fw_accepts f (FTry now rc))"
    by (auto simp: queue_step_def fw_try_submit_def or_same_def put_nowait_def fw_accepts_def count_reading_def full_def)
  show "queue_step f (fw_step dj f (FResume k)) (fw_accepts f (FResume k))"
    by (cases "putters (fw_queue f) ! k")
      (auto simp: queue_step_def fw_resume_def resume_put_def fw_accepts_def count_reading_def full_def)
  show "queue_step f (fw_step dj f FStop) (fw_accepts f FStop)"
    by (auto simp: queue_step_def fw_stop_def put_wait_def fw_accepts_def full_def)
  show "queue_step f (fw_step dj f FPeerClosed) (fw_accepts f FPeerClosed)"
    by (simp add: queue_step_def peer_closed_def fw_accepts_def)
qed

lemma queue_step_inv:
  assumes "raw_inv dj (f, acc)" "queue_step f f' new"
  shows "raw_inv dj (f', acc @ new)"
proof -
  obtain dl rest where d: "acc = dl @ rest" "list_all2 (carries dj) dl (fw_sent f)" "rest_ok dj f rest" "raw_counts f acc"
    using assms(1) by (rule raw_invE)
  have "rest_ok dj f' (rest @ new)"
    using d(3) assms(2) by (auto simp: rest_ok_def queue_step_def split: task.splits option.splits)
  then have "raw_split dj f' (acc @ new)"
    using d assms(2) by (intro raw_splitI [of _ dl "rest @ new"]) (simp_all add: queue_step_def)
  moreover have "raw_counts f' (acc @ new)" using d(4) assms(2) by (auto simp: raw_counts_def queue_step_def)
  ultimately show ?thesis by (simp add: raw_inv_def)
qed

text \<open>Steps that only move the record being sent between its phases.\<close>

definition same_sending :: "sending \<Rightarrow> sending \<Rightarrow> bool" where
  "same_sending a b \<longleftrightarrow> sd_record a = sd_record b \<and> sd_encoded a = sd_encoded b \<and> sd_last a = sd_last b"

definition phase_step :: "upstream_forwarder \<Rightarrow> upstream_forwarder \<Rightarrow> bool" where
  "phase_step f f' \<longleftrightarrow> fw_aggregator f' = fw_aggregator f \<and> fw_sent f' = fw_sent f \<and> fw_task f' = fw_task f \<and>
     rel_option same_sending (in_flight (fw_phase f)) (in_flight (fw_phase f')) \<and> abandoned f' = abandoned f \<and>
     fw_queue f' = fw_queue f \<and> readings_enqueued (fw_stats f') = readings_enqueued (fw_stats f) \<and>
     upstream_messages (fw_stats f') = upstream_messages (fw_stats f) \<and>
     upstream_bytes (fw_stats f') = upstream_bytes (fw_stats f)"

lemma same_sending_refl [simp]: "rel_option same_sending x x"
  by (cases x) (simp_all add: same_sending_def)

lemma phase_steps:
  "phase_step f (fw_step dj f (FConnected now))"
  "phase_step f (fw_step dj f (FRefused now))"
  "phase_step f (fw_step dj f FBroken)"
  "phase_step f (fw_step dj f FWake)"
  "phase_step f (fw_step dj f FStopped)"
  by (auto simp: phase_step_def connected_ok_def connect_failed_def drain_failed_def fail_send_def wake_def try_write_def
      stop_completes_def Let_def same_sending_def split: phase.splits option.splits bool.splits)

lemma phase_step_inv:
  assumes "raw_inv dj (f, acc)" "phase_step f f'"
  shows "raw_inv dj (f', acc)"
proof -
  have "rest_ok dj f' rest" if "rest_ok dj f rest" for rest
    using that assms(2)
    by (auto simp: rest_ok_def phase_step_def same_sending_def split: task.splits option.splits)
  then show ?thesis using assms by (auto simp: raw_inv_def raw_counts_def raw_split_def phase_step_def)
qed

lemma drained_inv:
  assumes "raw_inv dj (f, acc)"
  shows "raw_inv dj (drained f, acc)"
proof (cases "fw_phase f")
  case (Draining sd)
  obtain dl rest where d: "acc = dl @ rest" "list_all2 (carries dj) dl (fw_sent f)" "rest_ok dj f rest" "raw_counts f acc"
    using assms by (rule raw_invE)
  then obtain rc where r: "fw_task f = Active" "\<not> sd_last sd" "rest = rc # queued_items f" "abandoned f = 0"
      "carries dj rc (sd_record sd, sd_encoded sd)"
    using Draining by (auto simp: rest_ok_def split: task.splits)
  have "raw_split dj (drained f) acc"
    using d r Draining
    by (intro raw_splitI [of _ "dl @ [rc]" "queued_items f"]) (auto simp: drained_def rest_ok_def list_all2_appendI)
  moreover have "raw_counts (drained f) acc" using d(4) Draining by (simp add: raw_counts_def drained_def)
  ultimately show ?thesis by (simp add: raw_inv_def)
qed (use assms in \<open>simp_all add: drained_def\<close>)

lemma get_inv:
  assumes "raw_inv dj (f, acc)"
  shows "raw_inv dj (fw_get dj now f, acc)"
proof (cases "fw_task f = Active \<and> fw_phase f = Waiting \<and> entries (fw_queue f) \<noteq> []")
  case False
  then have "fw_get dj now f = f" by (auto simp: fw_get_def split: list.splits)
  then show ?thesis using assms by simp
next
  case True
  then obtain x xs where x: "entries (fw_queue f) = x # xs" by (cases "entries (fw_queue f)") auto
  obtain dl rest where d: "acc = dl @ rest" "list_all2 (carries dj) dl (fw_sent f)" "rest_ok dj f rest" "raw_counts f acc"
    using assms by (rule raw_invE)
  then have r: "rest = queued_items f" "abandoned f = 0" using True by (auto simp: rest_ok_def)
  have a: "fw_aggregator f = None" using d(4) by (simp add: raw_counts_def)
  have "rest_ok dj (fw_get dj now f) rest \<and> fw_sent (fw_get dj now f) = fw_sent f \<and>
      readings_enqueued (fw_stats (fw_get dj now f)) = readings_enqueued (fw_stats f) \<and>
      upstream_messages (fw_stats (fw_get dj now f)) = upstream_messages (fw_stats f) \<and>
      upstream_bytes (fw_stats (fw_get dj now f)) = upstream_bytes (fw_stats f) \<and>
      fw_aggregator (fw_get dj now f) = None \<and> fw_queue (fw_get dj now f) = (fw_queue f)\<lparr>entries := xs\<rparr>"
  proof (cases x)
    case STOP
    then show ?thesis using True x a r by (simp add: fw_get_def raw_item_def rest_ok_def)
  next
    case (Item rc)
    show ?thesis
    proof (cases "raw_record rc now")
      case (Inl e)
      then show ?thesis using True x a r Item by (simp add: fw_get_def raw_item_def rest_ok_def worker_fails_def)
    next
      case (Inr u)
      then have "carries dj rc (RawRecord u, encode_upstream_record dj (RawRecord u))" by (auto simp: carries_def)
      then show ?thesis
        using True x a r Item Inr by (simp add: fw_get_def raw_item_def rest_ok_def send_record_def try_write_def Let_def)
    qed
  qed
  then show ?thesis using d x raw_splitI [OF d(1), of dj "fw_get dj now f"] by (auto simp: raw_inv_def raw_counts_def)
qed

lemma timeout_inv:
  assumes "raw_inv dj (f, acc)"
  shows "raw_inv dj (stop_times_out now f, acc)"
proof (cases "fw_stopping f \<and> fw_task f = Active")
  case True
  obtain dl rest where d: "acc = dl @ rest" "list_all2 (carries dj) dl (fw_sent f)" "rest_ok dj f rest" "raw_counts f acc"
    using assms by (rule raw_invE)
  have "rest_ok dj (stop_times_out now f) rest"
    using True d(3)
    by (cases "fw_phase f") (auto simp: rest_ok_def stop_times_out_def cancel_worker_def Let_def)
  moreover have "fw_sent (stop_times_out now f) = fw_sent f" "raw_counts (stop_times_out now f) acc"
    using True d(4) by (cases "fw_phase f"; auto simp: raw_counts_def stop_times_out_def cancel_worker_def Let_def)+
  ultimately show ?thesis using d raw_splitI [OF d(1), of dj "stop_times_out now f"] by (simp add: raw_inv_def)
qed (use assms in \<open>auto simp: stop_times_out_def\<close>)

interpretation fwd: machine "fw_trace dj" "raw_inv dj" "\<lambda>_. True" for dj
proof
  fix p e
  assume p: "raw_inv dj p"
  obtain f acc where fa: "p = (f, acc)" by (cases p) auto
  note inv = p [unfolded fa]
  have dl: "fw_step dj f (FDeadline now) = f" for now
    using inv by (simp add: window_timeout_def raw_inv_def raw_counts_def)
  show "raw_inv dj (fw_trace dj p e)"
    using queue_step_inv [OF inv queue_steps(1)] queue_step_inv [OF inv queue_steps(2)] queue_step_inv [OF inv queue_steps(3)]
      queue_step_inv [OF inv queue_steps(4)] queue_step_inv [OF inv queue_steps(5)]
      phase_step_inv [OF inv phase_steps(1)] phase_step_inv [OF inv phase_steps(2)] phase_step_inv [OF inv phase_steps(3)]
      phase_step_inv [OF inv phase_steps(4)] phase_step_inv [OF inv phase_steps(5)]
      drained_inv [OF inv] get_inv [OF inv] timeout_inv [OF inv] inv dl
    by (cases e) (simp_all add: fa fw_trace_def fw_accepts_def)
qed

lemma started_raw:
  assumes "UpstreamForwarder RAW window q ri rm t cb = Inr f0" "fw_start f0 = Inr f"
  shows "raw_inv dj (f, [])"
  using assms
  by (auto simp: UpstreamForwarder_def fw_start_def raw_inv_def raw_counts_def raw_split_def rest_ok_def zero_stats_def new_queue_def split: if_splits)

section \<open>AGGREGATED mode against the aggregator\<close>

text \<open>What a step feeds to the aggregator.\<close>

definition fw_feeds :: "upstream_forwarder \<Rightarrow> fw_event \<Rightarrow> agg_event list" where
  "fw_feeds f e =
     (if fw_task f \<noteq> Active \<or> fw_phase f \<noteq> Waiting then []
      else case e of
        FGet now \<Rightarrow> (case entries (fw_queue f) of
            [] \<Rightarrow> [] | Item rc # _ \<Rightarrow> [Add rc] | STOP # _ \<Rightarrow> [Flush True (Some now)])
      | FDeadline now \<Rightarrow> (case fw_aggregator f of
            Some g \<Rightarrow> if agg_deadline g = None then [] else [Flush False None] | None \<Rightarrow> [])
      | _ \<Rightarrow> [])"

definition summarizes :: "json_printer \<Rightarrow> window_summary \<Rightarrow> upstream_record \<times> bytes \<Rightarrow> bool" where
  "summarizes dj s p \<longleftrightarrow>
     (\<exists>now a. aggregate_record s now = Inr a \<and> p = (AggregateRecord a, encode_upstream_record dj (AggregateRecord a)))"

definition pending_ok :: "json_printer \<Rightarrow> upstream_forwarder \<Rightarrow> window_summary list \<Rightarrow> bool" where
  "pending_ok dj f rest =
     (case fw_task f of
        Active \<Rightarrow> abandoned f = 0 \<and> (case in_flight (fw_phase f) of
            None \<Rightarrow> rest = [] | Some sd \<Rightarrow> \<exists>s. rest = [s] \<and> summarizes dj s (sd_record sd, sd_encoded sd))
      | Returned \<Rightarrow> fw_phase f = Waiting \<and> 0 \<le> abandoned f \<and> length rest \<le> 1 \<and> (abandoned f = 0 \<longrightarrow> rest = [])
      | _ \<Rightarrow> False)"

definition not_failed :: "upstream_forwarder \<Rightarrow> bool" where
  "not_failed f \<longleftrightarrow> (\<forall>e. fw_task f \<noteq> Failed e)"

definition agg_inv :: "json_printer \<Rightarrow> window_aggregator \<Rightarrow> upstream_forwarder \<times> agg_event list \<Rightarrow> bool" where
  "agg_inv dj g0 p \<longleftrightarrow> (let (f, evs) = p in fw_aggregator f \<noteq> None \<and> (\<not> not_failed f \<longrightarrow> fw_phase f = Waiting) \<and>
     (not_failed f \<longrightarrow> (\<exists>dl rest g. agg_run g0 evs = Inr (dl @ rest, g) \<and> fw_aggregator f = Some g \<and>
        list_all2 (summarizes dj) dl (fw_sent f) \<and> pending_ok dj f rest)))"

lemma agg_run_snoc:
  "agg_run g (evs @ [e]) =
     rbind (agg_run g evs) (\<lambda>(ss, g1). rbind (agg_step g1 e) (\<lambda>(s, g2). Inr (ss @ (case s of None \<Rightarrow> [] | Some x \<Rightarrow> [x]), g2)))"
proof (induction evs arbitrary: g)
  case Nil
  show ?case by (cases "agg_step g e") (auto split: option.splits)
next
  case (Cons x evs)
  show ?case
  proof (cases "agg_step g x")
    case (Inr p)
    then show ?thesis
      using Cons.IH [of "snd p"]
      by (cases p; cases "agg_run (snd p) evs"; cases "agg_step (snd (projr (agg_run (snd p) evs))) e")
        (auto split: option.splits)
  qed simp
qed

definition agg_trace ::
  "json_printer \<Rightarrow> upstream_forwarder \<times> agg_event list \<Rightarrow> fw_event \<Rightarrow> upstream_forwarder \<times> agg_event list" where
  "agg_trace dj p e = (fw_step dj (fst p) e, snd p @ fw_feeds (fst p) e)"

lemma foldl_agg_trace:
  "foldl (agg_trace dj) (f, evs) es = (foldl (fw_step dj) f es, evs @ gather (fw_step dj) fw_feeds f es)"
  by (induction es arbitrary: f evs) (simp_all add: agg_trace_def)

lemma agg_queue_step:
  assumes "agg_inv dj g0 (f, evs)" "queue_step f f' new"
  shows "agg_inv dj g0 (f', evs)"
proof -
  have "pending_ok dj f' = pending_ok dj f"
    using assms(2) by (rule_tac ext) (auto simp: pending_ok_def queue_step_def split: task.splits)
  then show ?thesis using assms by (simp add: agg_inv_def queue_step_def not_failed_def)
qed

lemma agg_phase_step:
  assumes "agg_inv dj g0 (f, evs)" "phase_step f f'"
  shows "agg_inv dj g0 (f', evs)"
proof -
  have "pending_ok dj f' rest" if "pending_ok dj f rest" for rest
    using that assms(2)
    by (auto simp: pending_ok_def phase_step_def same_sending_def split: task.splits option.splits)
  moreover have "fw_phase f' = Waiting \<longleftrightarrow> fw_phase f = Waiting"
    using assms(2) by (auto simp: phase_step_def simp flip: in_flight_None)
  ultimately show ?thesis using assms by (fastforce simp: agg_inv_def phase_step_def not_failed_def)
qed

lemma agg_invE:
  assumes "agg_inv dj g0 (f, evs)" "not_failed f"
  obtains dl rest g where "agg_run g0 evs = Inr (dl @ rest, g)" "fw_aggregator f = Some g"
    "list_all2 (summarizes dj) dl (fw_sent f)" "pending_ok dj f rest"
  using assms by (auto simp: agg_inv_def)

lemma agg_invI:
  assumes "agg_run g0 evs = Inr (dl @ rest, g)" "fw_aggregator f = Some g"
    "list_all2 (summarizes dj) dl (fw_sent f)" "pending_ok dj f rest"
  shows "agg_inv dj g0 (f, evs)"
  using assms by (auto simp: agg_inv_def not_failed_def pending_ok_def)

lemma agg_drained:
  assumes "agg_inv dj g0 (f, evs)"
  shows "agg_inv dj g0 (drained f, evs)"
proof (cases "not_failed f \<and> (\<exists>sd. fw_phase f = Draining sd)")
  case True
  then obtain sd where D: "fw_phase f = Draining sd" by auto
  from assms True obtain dl rest g where d: "agg_run g0 evs = Inr (dl @ rest, g)" "fw_aggregator f = Some g"
    "list_all2 (summarizes dj) dl (fw_sent f)" "pending_ok dj f rest" by (blast elim: agg_invE)
  then obtain s where s: "fw_task f = Active" "rest = [s]" "abandoned f = 0" "summarizes dj s (sd_record sd, sd_encoded sd)"
    using D by (auto simp: pending_ok_def split: task.splits)
  show ?thesis
    using d s D by (intro agg_invI [of _ _ "dl @ [s]" "[]" g]) (auto simp: drained_def pending_ok_def list_all2_appendI)
next
  case False
  then show ?thesis using assms
    by (cases "fw_phase f") (auto simp: drained_def agg_inv_def not_failed_def split: if_splits)
qed

text \<open>One aggregator step with its summary sent, in the waiting state.\<close>

lemma agg_worker_step:
  assumes "agg_run g0 evs = Inr (dl, g)" "list_all2 (summarizes dj) dl (fw_sent f)"
    "fw_task f = Active" "fw_phase f = Waiting" "abandoned f = 0" "fw_aggregator f = Some g"
    "f' = (case agg_step g e of
             Inl err \<Rightarrow> worker_fails err f
           | Inr (None, g') \<Rightarrow> (if ret then f\<lparr>fw_aggregator := Some g', fw_task := Returned\<rparr> else f\<lparr>fw_aggregator := Some g'\<rparr>)
           | Inr (Some s, g') \<Rightarrow> send_summary dj now s ret (f\<lparr>fw_aggregator := Some g'\<rparr>))"
  shows "agg_inv dj g0 (f', evs @ [e])"
proof (cases "agg_step g e")
  case (Inl err)
  then show ?thesis using assms by (simp add: agg_inv_def worker_fails_def not_failed_def)
next
  case (Inr p)
  obtain o1 g' where p: "p = (o1, g')" by (cases p) auto
  have run: "agg_run g0 (evs @ [e]) = Inr (dl @ (case o1 of None \<Rightarrow> [] | Some x \<Rightarrow> [x]), g')"
    using assms(1) Inr p by (simp add: agg_run_snoc)
  show ?thesis
  proof (cases o1)
    case None
    then show ?thesis using assms(2-7) Inr p run
      by (intro agg_invI [of _ _ dl "[]" g']) (auto simp: pending_ok_def)
  next
    case (Some s)
    show ?thesis
    proof (cases "aggregate_record s now")
      case (Inl err)
      then show ?thesis using assms(4,7) Inr p Some by (simp add: agg_inv_def worker_fails_def not_failed_def send_summary_def)
    next
      case (Inr a)
      then have "summarizes dj s (AggregateRecord a, encode_upstream_record dj (AggregateRecord a))"
        by (auto simp: summarizes_def)
      then show ?thesis using assms(2-7) \<open>agg_step g e = Inr p\<close> p run Some Inr
        by (intro agg_invI [of _ _ dl "[s]" g'])
          (auto simp: pending_ok_def send_summary_def send_record_def try_write_def)
    qed
  qed
qed

lemma agg_get:
  assumes "agg_inv dj g0 (f, evs)"
  shows "agg_inv dj g0 (fw_get dj now f, evs @ fw_feeds f (FGet now))"
proof (cases "fw_task f = Active \<and> fw_phase f = Waiting \<and> entries (fw_queue f) \<noteq> []")
  case False
  then have "fw_get dj now f = f" "fw_feeds f (FGet now) = []" by (auto simp: fw_get_def fw_feeds_def split: list.splits)
  then show ?thesis using assms by simp
next
  case True
  then obtain x xs where x: "entries (fw_queue f) = x # xs" by (cases "entries (fw_queue f)") auto
  have "not_failed f" using True by (simp add: not_failed_def)
  with assms obtain dl rest g where d: "agg_run g0 evs = Inr (dl @ rest, g)" "fw_aggregator f = Some g"
    "list_all2 (summarizes dj) dl (fw_sent f)" "pending_ok dj f rest" by (blast elim: agg_invE)
  then have r: "rest = []" "abandoned f = 0" using True by (auto simp: pending_ok_def)
  let ?f = "f\<lparr>fw_queue := (fw_queue f)\<lparr>entries := xs\<rparr>\<rparr>"
  show ?thesis
  proof (cases x)
    case STOP
    have "fw_feeds f (FGet now) = [Flush True (Some now)]" using d True x STOP by (simp add: fw_feeds_def)
    then show ?thesis
      by (simp only:) (rule agg_worker_step [where f = "?f" and ret = True and now = now and g = g and dl = dl],
        use d r True x STOP in \<open>auto simp: fw_get_def aggregated_item_def split: sum.splits prod.splits option.splits\<close>)
  next
    case (Item rc)
    have "fw_feeds f (FGet now) = [Add rc]" using d True x Item by (simp add: fw_feeds_def)
    then show ?thesis
      by (simp only:) (rule agg_worker_step [where f = "?f" and ret = False and now = now and g = g and dl = dl],
        use d r True x Item in \<open>auto simp: fw_get_def aggregated_item_def split: sum.splits prod.splits option.splits\<close>)
  qed
qed

lemma agg_deadline_step:
  assumes "agg_inv dj g0 (f, evs)"
  shows "agg_inv dj g0 (window_timeout dj now f, evs @ fw_feeds f (FDeadline now))"
proof (cases "fw_task f = Active \<and> fw_phase f = Waiting")
  case False
  then have "window_timeout dj now f = f" "fw_feeds f (FDeadline now) = []" by (auto simp: window_timeout_def fw_feeds_def)
  then show ?thesis using assms by simp
next
  case True
  have "not_failed f" using True by (simp add: not_failed_def)
  with assms obtain dl rest g where d: "agg_run g0 evs = Inr (dl @ rest, g)" "fw_aggregator f = Some g"
    "list_all2 (summarizes dj) dl (fw_sent f)" "pending_ok dj f rest" by (blast elim: agg_invE)
  then have r: "rest = []" "abandoned f = 0" using True by (auto simp: pending_ok_def)
  show ?thesis
  proof (cases "agg_deadline g = None")
    case none: True
    then show ?thesis using assms d(2) by (simp add: window_timeout_def fw_feeds_def)
  next
    case False
    have "fw_feeds f (FDeadline now) = [Flush False None]" using d True False by (simp add: fw_feeds_def)
    then show ?thesis
      by (simp only:) (rule agg_worker_step [where f = "f" and ret = False and now = now and g = g and dl = dl],
        use d r True False in \<open>auto simp: window_timeout_def split: sum.splits prod.splits option.splits\<close>)
  qed
qed

lemma agg_stop_timeout:
  assumes "agg_inv dj g0 (f, evs)"
  shows "agg_inv dj g0 (stop_times_out now f, evs)"
proof (cases "fw_stopping f \<and> fw_task f = Active")
  case True
  then have "not_failed f" by (simp add: not_failed_def)
  with assms obtain dl rest g where d: "agg_run g0 evs = Inr (dl @ rest, g)" "fw_aggregator f = Some g"
    "list_all2 (summarizes dj) dl (fw_sent f)" "pending_ok dj f rest" by (blast elim: agg_invE)
  have "pending_ok dj (stop_times_out now f) rest"
    using True d(4) by (cases "fw_phase f") (auto simp: pending_ok_def stop_times_out_def cancel_worker_def Let_def)
  moreover have "fw_sent (stop_times_out now f) = fw_sent f" "fw_aggregator (stop_times_out now f) = Some g"
    using True d(2) by (cases "fw_phase f"; simp add: stop_times_out_def cancel_worker_def Let_def)+
  ultimately show ?thesis using d by (intro agg_invI [of _ _ dl rest g]) auto
qed (use assms in \<open>auto simp: stop_times_out_def\<close>)

interpretation fwa: machine "agg_trace dj" "agg_inv dj g0" "\<lambda>_. True" for dj g0
proof
  fix p e
  assume p: "agg_inv dj g0 p"
  obtain f evs where fa: "p = (f, evs)" by (cases p) auto
  note inv = p [unfolded fa]
  show "agg_inv dj g0 (agg_trace dj p e)"
    using agg_queue_step [OF inv queue_steps(1)] agg_queue_step [OF inv queue_steps(2)] agg_queue_step [OF inv queue_steps(3)]
      agg_queue_step [OF inv queue_steps(4)] agg_queue_step [OF inv queue_steps(5)]
      agg_phase_step [OF inv phase_steps(1)] agg_phase_step [OF inv phase_steps(2)] agg_phase_step [OF inv phase_steps(3)]
      agg_phase_step [OF inv phase_steps(4)] agg_phase_step [OF inv phase_steps(5)]
      agg_drained [OF inv] agg_get [OF inv] agg_deadline_step [OF inv] agg_stop_timeout [OF inv]
    by (cases e) (simp_all add: fa agg_trace_def, simp_all add: fw_feeds_def)
qed

section \<open>Backoff\<close>

definition double_value :: "pyfloat \<Rightarrow> bool" where
  "double_value x \<longleftrightarrow> (\<exists>r. x = Fin r \<and> fl r = Fin r)"

definition backoff_in :: "upstream_forwarder \<Rightarrow> pyfloat \<Rightarrow> bool" where
  "backoff_in f b \<longleftrightarrow> double_value b \<and> fle (reconnect_initial f) b \<and> fle b (reconnect_max f)"

lemma backoff_doubles:
  assumes "double_value b" "fle i b" "fle b m" "double_value i" "double_value m" "flt (Fin 0) i"
  shows "double_value (py_min (fmul b (Fin 2)) m) \<and> fle i (py_min (fmul b (Fin 2)) m) \<and>
    fle (py_min (fmul b (Fin 2)) m) m \<and> fle b (py_min (fmul b (Fin 2)) m)"
proof -
  obtain x y z where v: "b = Fin x" "i = Fin y" "m = Fin z" "fl x = Fin x" "fl z = Fin z" "0 < y" "y \<le> x" "x \<le> z"
    using assms by (auto simp: double_value_def)
  have up: "fle (Fin x) (fl (x * 2))" using fl_mono_fle [of x "x * 2"] v by simp
  show ?thesis
  proof (cases "fl (x * 2)")
    case (Fin r)
    then have "fl r = Fin r" using binary64.rnd_idem by (auto simp: fl_Fin_iff)
    then show ?thesis using v up Fin by (auto simp: double_value_def min_def)
  qed (use v up in \<open>auto simp: py_min_def double_value_def fle_def feq_def\<close>)
qed

definition backoff_inv :: "pyfloat \<Rightarrow> pyfloat \<Rightarrow> upstream_forwarder \<Rightarrow> bool" where
  "backoff_inv i m f \<longleftrightarrow> reconnect_initial f = i \<and> reconnect_max f = m \<and>
     (case in_flight (fw_phase f) of None \<Rightarrow> True | Some sd \<Rightarrow> backoff_in f (sd_backoff sd))"

lemma worker_frame [simp]:
  "reconnect_initial (count_reading x f) = reconnect_initial f" "reconnect_max (count_reading x f) = reconnect_max f"
  "fw_phase (count_reading x f) = fw_phase f"
  by (auto simp: count_reading_def split: option.splits queued.splits)

lemma send_record_backoff:
  assumes "reconnect_initial f = i" "reconnect_max f = m" "double_value i" "fle i m"
  shows "backoff_inv i m (send_record dj r final f)"
  using assms by (auto simp: send_record_def try_write_def backoff_inv_def backoff_in_def double_value_def)

lemma send_summary_backoff:
  assumes "reconnect_initial f = i" "reconnect_max f = m" "double_value i" "fle i m" "fw_phase f = Waiting"
  shows "backoff_inv i m (send_summary dj now s final f)"
  using assms send_record_backoff [OF assms(1-4)]
  by (auto simp: send_summary_def worker_fails_def backoff_inv_def split: sum.splits)

lemma backoff_worker:
  assumes "backoff_inv i m f" "double_value i" "fle i m"
  shows "backoff_inv i m (fw_get dj now f)" "backoff_inv i m (window_timeout dj now f)"
proof -
  have c: "reconnect_initial f = i" "reconnect_max f = m" using assms(1) by (simp_all add: backoff_inv_def)
  show "backoff_inv i m (window_timeout dj now f)"
    using assms c send_summary_backoff [of _ i m]
    by (auto simp: window_timeout_def worker_fails_def split: sum.splits option.splits prod.splits)
      (auto simp: backoff_inv_def)
  have "backoff_inv i m (aggregated_item dj now g x f')" "backoff_inv i m (raw_item dj now x f')"
    if "reconnect_initial f' = i" "reconnect_max f' = m" "fw_phase f' = Waiting" for g x f'
    using that assms(2,3) send_summary_backoff [of _ i m] send_record_backoff [of _ i m]
    by (auto simp: aggregated_item_def raw_item_def worker_fails_def split: sum.splits option.splits prod.splits queued.splits)
      (auto simp: backoff_inv_def)
  then show "backoff_inv i m (fw_get dj now f)"
    using assms(1) c by (auto simp: fw_get_def Let_def split: list.splits option.splits)
qed

interpretation fwb: machine "fw_step dj" "\<lambda>f. backoff_inv i m f \<and> double_value i \<and> double_value m \<and> fle i m \<and> flt (Fin 0) i"
    "\<lambda>_. True" for dj i m
proof
  fix f e
  assume a: "backoff_inv i m f \<and> double_value i \<and> double_value m \<and> fle i m \<and> flt (Fin 0) i"
  have "backoff_inv i m (wake f)"
    using a backoff_doubles [of _ i m]
    by (auto simp: wake_def try_write_def backoff_inv_def backoff_in_def split: phase.splits)
  moreover have "backoff_inv i m (connected_ok now f)" "backoff_inv i m (connect_failed now f)" "backoff_inv i m (drain_failed f)"
    "backoff_inv i m (drained f)" "backoff_inv i m (peer_closed f)" "backoff_inv i m (fw_stop f)"
    "backoff_inv i m (stop_completes f)" "backoff_inv i m (fw_resume f k)" for now k
    using a
    by (auto simp: connected_ok_def connect_failed_def drain_failed_def drained_def peer_closed_def fw_stop_def
        stop_completes_def fw_resume_def fail_send_def backoff_inv_def backoff_in_def Let_def
        split: phase.splits option.splits bool.splits prod.splits)
  moreover have "backoff_inv i m (stop_times_out now f)" for now
    using a by (auto simp: stop_times_out_def cancel_worker_def Let_def backoff_inv_def backoff_in_def split: phase.splits)
  moreover have "backoff_inv i m (or_same f (fw_submit f rc))" "backoff_inv i m (or_same f (map_sum id snd (fw_try_submit now f rc)))" for rc now
    using a by (auto simp: or_same_def fw_submit_def fw_try_submit_def backoff_inv_def backoff_in_def Let_def split: option.splits sum.splits)
  ultimately show "backoff_inv i m (fw_step dj f e) \<and> double_value i \<and> double_value m \<and> fle i m \<and> flt (Fin 0) i"
    using a backoff_worker [of i m f dj] by (cases e) simp_all
qed

section \<open>Properties\<close>

text \<open>The readings a full queue refuses.\<close>

definition fw_refuses :: "upstream_forwarder \<Rightarrow> fw_event \<Rightarrow> received_message list" where
  "fw_refuses f e = (case e of FTry _ rc \<Rightarrow> if fw_handle f \<and> is_reading rc \<and> full (fw_queue f) then [rc] else [] | _ \<Rightarrow> [])"

lemma step_drops:
  "queue_full_drops (fw_stats (fw_step dj f e)) = queue_full_drops (fw_stats f) + int (length (fw_refuses f e))"
proof -
  have "queue_full_drops (fw_stats (raw_item dj now x f')) = queue_full_drops (fw_stats f')"
    "queue_full_drops (fw_stats (send_summary dj now s b f')) = queue_full_drops (fw_stats f')"
    "queue_full_drops (fw_stats (aggregated_item dj now g x f')) = queue_full_drops (fw_stats f')" for now x g s b f'
    by (auto simp: raw_item_def aggregated_item_def send_summary_def send_record_def try_write_def worker_fails_def
        split: queued.splits sum.splits option.splits prod.splits)
  then show ?thesis
    by (cases e)
      (auto simp: fw_refuses_def or_same_def fw_submit_def fw_try_submit_def put_nowait_def fw_resume_def count_reading_def
        fw_get_def window_timeout_def connected_ok_def connect_failed_def fail_send_def drained_def drain_failed_def wake_def
        try_write_def peer_closed_def fw_stop_def stop_completes_def stop_times_out_def cancel_worker_def worker_fails_def Let_def
        split: queued.splits sum.splits option.splits prod.splits list.splits phase.splits bool.splits)
qed

lemma run_drops:
  "queue_full_drops (fw_stats (foldl (fw_step dj) f es)) =
     queue_full_drops (fw_stats f) + int (length (gather (fw_step dj) fw_refuses f es))"
  by (induction es arbitrary: f) (simp_all add: step_drops)

lemma raw_run_conserves:
  assumes "UpstreamForwarder RAW window q ri rm t cb = Inr f0" "fw_start f0 = Inr f1"
  shows "let f = foldl (fw_step dj) f1 es; acc = gather (fw_step dj) fw_accepts f1 es in
    (\<exists>dl rest. acc = dl @ rest \<and> list_all2 (carries dj) dl (fw_sent f) \<and>
       int (length rest) = (if fw_phase f = Waiting then 0 else 1) + int (length (queued_items f)) + abandoned f +
         (if not_failed f then 0 else 1)) \<and>
    readings_enqueued (fw_stats f) = int (length acc) \<and>
    upstream_messages (fw_stats f) = int (length (fw_sent f)) \<and>
    upstream_bytes (fw_stats f) = (\<Sum>x\<leftarrow>fw_sent f. int (length (snd x))) \<and>
    queue_full_drops (fw_stats f) = int (length (gather (fw_step dj) fw_refuses f1 es)) \<and>
    length (entries (fw_queue f)) \<le> maxsize (fw_queue f)"
proof -
  let ?f = "foldl (fw_step dj) f1 es" and ?acc = "gather (fw_step dj) fw_accepts f1 es"
  have inv: "raw_inv dj (?f, ?acc)"
    using fwd.run_inv [OF started_raw [OF assms], of es dj] by (simp add: foldl_fw_trace list_all_iff)
  then obtain dl rest where d: "?acc = dl @ rest" "list_all2 (carries dj) dl (fw_sent ?f)" "rest_ok dj ?f rest" "raw_counts ?f ?acc"
    by (rule raw_invE)
  have "int (length rest) = (if fw_phase ?f = Waiting then 0 else 1) + int (length (queued_items ?f)) + abandoned ?f +
      (if not_failed ?f then 0 else 1)"
    using d(3) by (cases "fw_phase ?f") (auto simp: rest_ok_def not_failed_def split: task.splits)
  with d(1,2) have ex: "\<exists>dl rest. ?acc = dl @ rest \<and> list_all2 (carries dj) dl (fw_sent ?f) \<and>
      int (length rest) = (if fw_phase ?f = Waiting then 0 else 1) + int (length (queued_items ?f)) + abandoned ?f +
        (if not_failed ?f then 0 else 1)" by blast
  have "queue_full_drops (fw_stats f1) = 0"
    using assms by (auto simp: UpstreamForwarder_def fw_start_def zero_stats_def split: if_splits)
  then show ?thesis using ex d(4) run_drops [of dj f1 es] unfolding Let_def raw_counts_def by simp
qed

text \<open>C13: RAW forwarding conserves readings. Under every interleaving of submissions, collector
  outages, retries and shutdown, the readings accepted into the queue split, in order, into those
  delivered (each by one drained record that carries it, with its encoding) and a remainder; the
  remainder is exactly the one being sent, those queued, those counted as abandoned on shutdown,
  and one more if the worker failed. Message, byte and drop counters are exact, and the queue
  stays within its bound.\<close>

theorem raw_forwarding_conserves:
  assumes "UpstreamForwarder RAW window q ri rm t cb = Inr f0" "fw_start f0 = Inr f1"
  shows "let f = foldl (fw_step dj) f1 es; acc = gather (fw_step dj) fw_accepts f1 es in
    (\<exists>dl rest. acc = dl @ rest \<and> list_all2 (carries dj) dl (fw_sent f) \<and>
       int (length rest) = (if fw_phase f = Waiting then 0 else 1) + int (length (queued_items f)) + abandoned f +
         (if not_failed f then 0 else 1)) \<and>
    readings_enqueued (fw_stats f) = int (length acc) \<and>
    upstream_messages (fw_stats f) = int (length (fw_sent f)) \<and>
    upstream_bytes (fw_stats f) = (\<Sum>x\<leftarrow>fw_sent f. int (length (snd x))) \<and>
    queue_full_drops (fw_stats f) = int (length (gather (fw_step dj) fw_refuses f1 es)) \<and>
    length (entries (fw_queue f)) \<le> maxsize (fw_queue f)"
  using assms by (rule raw_run_conserves)

text \<open>C14: AGGREGATED forwarding delivers the aggregator's summaries: as long as the worker has not
  failed, the records drained so far followed by at most one in flight are exactly the summaries
  the window aggregator produces for the items taken from the queue, in order; after a shutdown
  that abandoned nothing, every summary was delivered.\<close>

theorem aggregated_forwarding_refines:
  assumes "UpstreamForwarder AGGREGATED window q ri rm t cb = Inr f0" "fw_start f0 = Inr f1" "fw_aggregator f1 = Some g0"
  shows "let f = foldl (fw_step dj) f1 es in not_failed f \<longrightarrow>
    (\<exists>dl rest g. agg_run g0 (gather (fw_step dj) fw_feeds f1 es) = Inr (dl @ rest, g) \<and>
       fw_aggregator f = Some g \<and> list_all2 (summarizes dj) dl (fw_sent f) \<and> length rest \<le> 1 \<and>
       (fw_phase f = Waiting \<and> abandoned f = 0 \<longrightarrow> rest = []))"
proof -
  let ?f = "foldl (fw_step dj) f1 es" and ?evs = "gather (fw_step dj) fw_feeds f1 es"
  have "agg_inv dj g0 (f1, [])"
    using assms by (auto simp: UpstreamForwarder_def fw_start_def agg_inv_def not_failed_def pending_ok_def zero_stats_def
        split: if_splits sum.splits)
  then have inv: "agg_inv dj g0 (?f, ?evs)"
    using fwa.run_inv [of dj g0 "(f1, [])" es] by (simp add: foldl_agg_trace list_all_iff)
  show ?thesis
    unfolding Let_def
  proof
    assume nf: "not_failed ?f"
    from agg_invE [OF inv nf] obtain dl rest g where d: "agg_run g0 ?evs = Inr (dl @ rest, g)" "fw_aggregator ?f = Some g"
      "list_all2 (summarizes dj) dl (fw_sent ?f)" "pending_ok dj ?f rest" .
    then have "length rest \<le> 1 \<and> (fw_phase ?f = Waiting \<and> abandoned ?f = 0 \<longrightarrow> rest = [])"
      by (auto simp: pending_ok_def split: task.splits option.splits)
    with d show "\<exists>dl rest g. agg_run g0 ?evs = Inr (dl @ rest, g) \<and> fw_aggregator ?f = Some g \<and>
        list_all2 (summarizes dj) dl (fw_sent ?f) \<and> length rest \<le> 1 \<and> (fw_phase ?f = Waiting \<and> abandoned ?f = 0 \<longrightarrow> rest = [])"
      by blast
  qed
qed

text \<open>Every sleep between two attempts lies between the configured initial and maximum backoff,
  whatever the outage, and a retry never waits less than the one before.\<close>

theorem backoff_bounded:
  assumes "UpstreamForwarder mode window q ri rm t cb = Inr f0" "fw_start f0 = Inr f1" "double_value ri" "double_value rm"
    "fw_phase (foldl (fw_step dj) f1 es) = Sleeping sd"
  shows "fle ri (sd_backoff sd) \<and> fle (sd_backoff sd) rm \<and>
    (case in_flight (fw_phase (wake (foldl (fw_step dj) f1 es))) of
       Some sd' \<Rightarrow> fle (sd_backoff sd) (sd_backoff sd') \<and> sd_record sd' = sd_record sd | None \<Rightarrow> False)"
proof -
  let ?f = "foldl (fw_step dj) f1 es"
  have pos: "flt (Fin 0) ri" "fle ri rm"
    using assms(1,3,4) by (auto simp: UpstreamForwarder_def double_value_def split: if_splits)
  have "backoff_inv ri rm f1"
    using assms(1,2) by (auto simp: UpstreamForwarder_def fw_start_def backoff_inv_def split: if_splits sum.splits forward_mode.splits)
  then have inv: "backoff_inv ri rm ?f"
    using fwb.run_inv [of ri rm f1 es dj] assms(3,4) pos by (simp add: list_all_iff)
  then have b: "double_value (sd_backoff sd)" "fle ri (sd_backoff sd)" "fle (sd_backoff sd) rm" "reconnect_max ?f = rm"
    using assms(5) by (auto simp: backoff_inv_def backoff_in_def)
  show ?thesis
    using b assms(5) backoff_doubles [OF b(1-3) assms(3,4) pos(1)] by (simp add: wake_def try_write_def)
qed

definition delivery_round :: "int \<Rightarrow> fw_event list" where
  "delivery_round now = [FGet now, FConnected now, FDrained]"

definition forwardable :: "received_message \<Rightarrow> bool" where
  "forwardable rc \<longleftrightarrow> received_ok rc \<and> (\<exists>r. rm_message rc = Reading r \<and> sequence r < 10 ^ 71)"

lemma forwardable_record: "forwardable rc \<Longrightarrow> 0 \<le> now \<Longrightarrow> \<exists>u. raw_record rc now = Inr u"
  using raw_record_id_length
  by (auto simp: forwardable_def raw_record_def RawUpstreamRecord_def raw_fields_ok_def received_ok_def)

lemma round_delivers:
  assumes "fw_task f = Active" "fw_phase f = Waiting" "fw_aggregator f = None" "forwardable rc" "0 \<le> now"
    "entries (fw_queue f) = Item rc # xs"
  shows "let f' = foldl (fw_step dj) f (delivery_round now) in
    fw_task f' = Active \<and> fw_phase f' = Waiting \<and> fw_aggregator f' = None \<and> entries (fw_queue f') = xs \<and>
    length (fw_sent f') = Suc (length (fw_sent f))"
proof -
  obtain u where u: "raw_record rc now = Inr u" using forwardable_record [OF assms(4,5)] by blast
  show ?thesis
    using assms u
    by (cases "collector_available f")
      (auto simp: delivery_round_def fw_get_def raw_item_def send_record_def try_write_def connected_ok_def drained_def Let_def
        split: bool.splits)
qed

lemma rounds_deliver:
  "fw_task f = Active \<Longrightarrow> fw_phase f = Waiting \<Longrightarrow> fw_aggregator f = None \<Longrightarrow> list_all forwardable rcs \<Longrightarrow> 0 \<le> now \<Longrightarrow>
   entries (fw_queue f) = map Item rcs @ [STOP] \<Longrightarrow>
     (let f' = foldl (fw_step dj) f (concat (replicate (Suc (length rcs)) (delivery_round now))) in
       fw_task f' = Returned \<and> length (fw_sent f') = length (fw_sent f) + length rcs)"
proof (induction rcs arbitrary: f)
  case Nil
  then show ?case
    by (simp add: delivery_round_def fw_get_def raw_item_def connected_ok_def drained_def)
next
  case (Cons rc rcs)
  note r = round_delivers [OF Cons.prems(1-3) _ Cons.prems(5), of rc "map Item rcs @ [STOP]" dj, unfolded Let_def]
  show ?case
    using r Cons.prems Cons.IH [of "foldl (fw_step dj) f (delivery_round now)"] by (simp add: Let_def)
qed

text \<open>A reachable collector gets everything: if connections and writes succeed, a stopping RAW
  worker with a queue of accepted readings delivers all of them and returns, one round per
  reading and one for the stop.\<close>

theorem raw_drain_delivers_all:
  assumes "fw_task f = Active" "fw_phase f = Waiting" "fw_aggregator f = None" "list_all forwardable rcs" "0 \<le> now"
    "entries (fw_queue f) = map Item rcs @ [STOP]"
  shows "let f' = foldl (fw_step dj) f (concat (replicate (Suc (length rcs)) (delivery_round now))) in
    fw_task f' = Returned \<and> length (fw_sent f') = length (fw_sent f) + length rcs"
  using assms by (rule rounds_deliver)

text \<open>A timed-out shutdown in AGGREGATED mode does not account for the open window: whatever readings
  the aggregator still holds, the abandoned counter grows by the record in flight and the queued
  readings only, and nothing of the open window is sent.\<close>

theorem open_window_not_counted:
  assumes "fw_task f = Active" "fw_stopping f" "in_flight (fw_phase f) = Some sd" "fw_aggregator f = Some g" "has_data g"
  shows "let f' = stop_times_out now f in
    abandoned f' = abandoned f + 1 + int (length (queued_items f)) \<and> fw_sent f' = fw_sent f \<and>
    fw_task f' = Returned \<and> (\<exists>g'. fw_aggregator f' = Some g' \<and> has_data g')"
  using assms by (cases "fw_phase f") (auto simp: stop_times_out_def cancel_worker_def Let_def)

section \<open>Witnesses\<close>

definition sample_forwarder :: "forward_mode \<Rightarrow> upstream_forwarder" where
  "sample_forwarder mode = \<lparr>fw_mode = mode, fw_window_seconds = Fin 5, reconnect_initial = Fin 1, reconnect_max = Fin 4,
     shutdown_timeout = Fin 5, fw_has_callback = True, fw_stats = zero_stats, fw_queue = new_queue 2,
     fw_handle = False, fw_task = NoTask, fw_phase = Waiting, fw_writer = None, fw_stopping = False,
     collector_available = None, fw_aggregator = None, fw_sent = [], fw_events = []\<rparr>"

definition sample_running :: upstream_forwarder where
  "sample_running = (sample_forwarder RAW)\<lparr>fw_handle := True, fw_task := Active\<rparr>"

definition sample_running_agg :: upstream_forwarder where
  "sample_running_agg = (sample_forwarder AGGREGATED)\<lparr>fw_handle := True, fw_task := Active, fw_aggregator := Some sample_aggregator\<rparr>"

lemma sample_forwarder_init: "UpstreamForwarder mode (Fin 5) 2 (Fin 1) (Fin 4) (Fin 5) True = Inr (sample_forwarder mode)"
  by (simp add: UpstreamForwarder_def sample_forwarder_def)

lemma sample_forwarder_start:
  "fw_start (sample_forwarder RAW) = Inr sample_running" "fw_start (sample_forwarder AGGREGATED) = Inr sample_running_agg"
  by (simp_all add: fw_start_def sample_running_def sample_running_agg_def sample_aggregator_init sample_forwarder_def)

lemma sample_double: "double_value (Fin 1)" "double_value (Fin 4)"
  by (simp_all add: double_value_def)

theorem raw_forwarding_conserves_witness:
  "let f = foldl (fw_step (\<lambda>j. [])) sample_running [FTry 1 (sample_received 0 5), FGet 2, FRefused 3, FStop, FStopTimeout 9] in
    upstream_messages (fw_stats f) = int (length (fw_sent f)) \<and>
    readings_enqueued (fw_stats f) = int (length (gather (fw_step (\<lambda>j. [])) fw_accepts sample_running
      [FTry 1 (sample_received 0 5), FGet 2, FRefused 3, FStop, FStopTimeout 9]))"
  using raw_forwarding_conserves [OF sample_forwarder_init sample_forwarder_start(1), of "\<lambda>j. []"
      "[FTry 1 (sample_received 0 5), FGet 2, FRefused 3, FStop, FStopTimeout 9]"]
  unfolding Let_def by blast

theorem aggregated_forwarding_refines_witness:
  "\<exists>dl rest g. agg_run sample_aggregator [Add (sample_received 0 5)] = Inr (dl @ rest, g)"
proof -
  let ?es = "[FTry 1 (sample_received 0 5), FGet 2]"
  have feeds: "gather (fw_step (\<lambda>j. [])) fw_feeds sample_running_agg ?es = [Add (sample_received 0 5)]"
    by (simp add: fw_feeds_def sample_running_agg_def sample_forwarder_def fw_try_submit_def or_same_def put_nowait_def
        full_def new_queue_def is_reading_def sample_received_def count_reading_def)
  have "not_failed (foldl (fw_step (\<lambda>j. [])) sample_running_agg ?es)"
    by (simp add: not_failed_def sample_running_agg_def sample_forwarder_def fw_try_submit_def or_same_def put_nowait_def
        full_def new_queue_def is_reading_def sample_received_def count_reading_def fw_get_def aggregated_item_def
        sample_aggregator_def agg_add_def)
  then show ?thesis
    using aggregated_forwarding_refines [OF sample_forwarder_init sample_forwarder_start(2), of sample_aggregator "\<lambda>j. []" ?es] feeds
    unfolding Let_def by (simp add: sample_running_agg_def) blast
qed

theorem backoff_bounded_witness:
  "\<exists>sd. fw_phase (foldl (fw_step (\<lambda>j. [])) sample_running [FTry 1 (sample_received 0 5), FGet 2, FRefused 3]) = Sleeping sd \<and>
     fle (Fin 1) (sd_backoff sd) \<and> fle (sd_backoff sd) (Fin 4)"
proof -
  let ?es = "[FTry 1 (sample_received 0 5), FGet 2, FRefused 3]"
  have "forwardable (sample_received 0 5)"
    by (auto simp: forwardable_def sample_received_ok) (simp add: sample_received_def sample_reading_def)
  then obtain u where u: "raw_record (sample_received 0 5) 2 = Inr u" using forwardable_record by fastforce
  have "\<exists>sd. fw_phase (foldl (fw_step (\<lambda>j. [])) sample_running ?es) = Sleeping sd"
    using u by (simp add: sample_running_def sample_forwarder_def fw_try_submit_def or_same_def put_nowait_def full_def new_queue_def
        is_reading_def count_reading_def fw_get_def raw_item_def send_record_def try_write_def connect_failed_def fail_send_def Let_def)
      (simp add: sample_received_def)
  then obtain sd where "fw_phase (foldl (fw_step (\<lambda>j. [])) sample_running ?es) = Sleeping sd" ..
  then show ?thesis
    using backoff_bounded [OF sample_forwarder_init sample_forwarder_start(1) sample_double, of "\<lambda>j. []" ?es sd] by blast
qed

lemma sample_forwardable: "forwardable (sample_received 0 5)"
  by (auto simp: forwardable_def sample_received_ok) (simp add: sample_received_def sample_reading_def)

theorem raw_drain_delivers_all_witness:
  "let f = sample_running\<lparr>fw_queue := \<lparr>maxsize = 2, entries = [Item (sample_received 0 5), STOP], putters = []\<rparr>\<rparr>;
       f' = foldl (fw_step (\<lambda>j. [])) f (concat (replicate 2 (delivery_round 3))) in
     fw_task f' = Returned \<and> length (fw_sent f') = 1"
  using raw_drain_delivers_all [of "sample_running\<lparr>fw_queue := \<lparr>maxsize = 2, entries = [Item (sample_received 0 5), STOP], putters = []\<rparr>\<rparr>"
      "[sample_received 0 5]" 3 "\<lambda>j. []"] sample_forwardable
  by (simp add: sample_running_def sample_forwarder_def Let_def numeral_2_eq_2)

theorem open_window_not_counted_witness:
  "let g = sample_aggregator\<lparr>agg_current := Some (accumulate (new_accumulator 5 (sample_received 0 5)) (sample_reading ''n1'' 0))\<rparr>;
       f = sample_running_agg\<lparr>fw_aggregator := Some g, fw_stopping := True, fw_handle := False,
             fw_phase := Sleeping \<lparr>sd_record = sample_upstream, sd_encoded = [], sd_backoff = Fin 1, sd_last = False\<rparr>\<rparr>
   in abandoned (stop_times_out 9 f) = 1"
  using open_window_not_counted [of "sample_running_agg\<lparr>fw_aggregator := Some (sample_aggregator\<lparr>agg_current :=
        Some (accumulate (new_accumulator 5 (sample_received 0 5)) (sample_reading ''n1'' 0))\<rparr>), fw_stopping := True, fw_handle := False,
        fw_phase := Sleeping \<lparr>sd_record = sample_upstream, sd_encoded = [], sd_backoff = Fin 1, sd_last = False\<rparr>\<rparr>" _ _ 9]
  by (simp add: sample_running_agg_def sample_forwarder_def zero_stats_def new_queue_def has_data_def accumulate_def Let_def)

end
