(* ===== verification/Metrics.thy ===== *)
theory Metrics
  imports Events
begin

text \<open>
  Low-frequency resource sampling (\<^verbatim>\<open>src/gateway/metrics.py\<close>). The values come from psutil with
  each sample; the text of a float is the parameter \<open>str\<close>. \<open>sp_rows\<close> remembers the samples whose row
  was appended, to say what the file holds.
\<close>

record metrics_sample =
  ms_timestamp_ms :: int
  ms_process_cpu_percent :: pyfloat
  ms_process_rss_bytes :: int
  ms_process_vms_bytes :: int
  ms_system_cpu_percent :: pyfloat

record metrics_sampler =
  sp_path :: string
  sp_interval_seconds :: pyfloat
  samples_written :: int
  sp_handle :: bool
  sp_task :: task
  sp_stop :: bool
  sp_pending :: "metrics_sample option"
  sp_rows :: "metrics_sample list"

definition SystemMetricsSampler :: "string \<Rightarrow> pyfloat \<Rightarrow> metrics_sampler result" where
  "SystemMetricsSampler p interval =
     (if fle interval (Fin 0) then Inl (ValueError ''interval_seconds must be positive'')
      else Inr \<lparr>sp_path = p, sp_interval_seconds = interval, samples_written = 0, sp_handle = False, sp_task = NoTask,
        sp_stop = False, sp_pending = None, sp_rows = []\<rparr>)"

definition metrics_fields :: "string list" where
  "metrics_fields = [''timestamp_ms'', ''process_cpu_percent'', ''process_rss_bytes'', ''process_vms_bytes'', ''system_cpu_percent'']"

definition metrics_row :: "(pyfloat \<Rightarrow> string) \<Rightarrow> metrics_sample \<Rightarrow> string list" where
  "metrics_row str m = [str_of_int (ms_timestamp_ms m), str (ms_process_cpu_percent m), str_of_int (ms_process_rss_bytes m),
     str_of_int (ms_process_vms_bytes m), str (ms_system_cpu_percent m)]"

definition sp_start :: "metrics_sampler \<times> files \<Rightarrow> (metrics_sampler \<times> files) result" where
  "sp_start s =
     (let (m, fs) = s
      in if sp_handle m then Inl (RuntimeError ''metrics sampler is already running'')
         else rbind (create_exclusive (sp_path m) (csv_line metrics_fields) fs) (\<lambda>fs'.
           Inr (m\<lparr>sp_handle := True, sp_task := Active, sp_stop := False\<rparr>, fs')))"

definition sp_request_stop :: "metrics_sampler \<Rightarrow> metrics_sampler" where
  "sp_request_stop m = (if \<not> sp_handle m then m else m\<lparr>sp_handle := False, sp_stop := True\<rparr>)"

text \<open>The two ends of the wait in \<open>_run\<close>: the interval passed, or the stop event was set.\<close>

definition sp_timeout :: "metrics_sample \<Rightarrow> metrics_sampler \<Rightarrow> metrics_sampler" where
  "sp_timeout x m = (if sp_task m = Active \<and> sp_pending m = None \<and> \<not> sp_stop m then m\<lparr>sp_pending := Some x\<rparr> else m)"

definition sp_wake :: "metrics_sampler \<Rightarrow> metrics_sampler" where
  "sp_wake m = (if sp_task m = Active \<and> sp_pending m = None \<and> sp_stop m then m\<lparr>sp_task := Returned\<rparr> else m)"

definition sp_appended :: "(pyfloat \<Rightarrow> string) \<Rightarrow> metrics_sampler \<times> files \<Rightarrow> metrics_sampler \<times> files" where
  "sp_appended str s =
     (let (m, fs) = s
      in case sp_pending m of
        None \<Rightarrow> s
      | Some x \<Rightarrow> (m\<lparr>sp_pending := None, samples_written := samples_written m + 1, sp_rows := sp_rows m @ [x]\<rparr>,
                   append_text (sp_path m) (csv_line (metrics_row str x)) fs))"

datatype metrics_event = MTimeout metrics_sample | MAppended | MStop | MWake

fun metrics_step :: "(pyfloat \<Rightarrow> string) \<Rightarrow> metrics_sampler \<times> files \<Rightarrow> metrics_event \<Rightarrow> metrics_sampler \<times> files" where
  "metrics_step str (m, fs) (MTimeout x) = (sp_timeout x m, fs)"
| "metrics_step str (m, fs) MAppended = sp_appended str (m, fs)"
| "metrics_step str (m, fs) MStop = (sp_request_stop m, fs)"
| "metrics_step str (m, fs) MWake = (sp_wake m, fs)"

definition metrics_inv :: "(pyfloat \<Rightarrow> string) \<Rightarrow> metrics_sampler \<times> files \<Rightarrow> bool" where
  "metrics_inv str s \<longleftrightarrow> samples_written (fst s) = int (length (sp_rows (fst s))) \<and>
     snd s (sp_path (fst s)) = Some (concat (map csv_line (metrics_fields # map (metrics_row str) (sp_rows (fst s))))) \<and>
     (sp_task (fst s) = Returned \<longrightarrow> sp_pending (fst s) = None)"

interpretation sampler: machine "metrics_step str" "metrics_inv str" "\<lambda>_. True" for str
proof
  fix s e
  assume "metrics_inv str s"
  then show "metrics_inv str (metrics_step str s e)"
    by (cases s; cases e) (auto simp: metrics_inv_def sp_timeout_def sp_appended_def sp_request_stop_def sp_wake_def
        split: option.splits)
qed

lemma sp_start_inv:
  "SystemMetricsSampler p interval = Inr m \<Longrightarrow> sp_start (m, fs) = Inr s \<Longrightarrow> metrics_inv str s"
  by (auto simp: SystemMetricsSampler_def sp_start_def metrics_inv_def create_exclusive_Inr rbind_eq_Inr_iff split: if_splits)

text \<open>What the sampler leaves behind: for any interleaving of samples, appends and the stop, the file
  reads back as the header and one row per counted sample, in order.\<close>

lemma metrics_evidence_complete:
  assumes "SystemMetricsSampler p interval = Inr m" "sp_start (m, fs) = Inr s0" "s = foldl (metrics_step str) s0 es"
  shows "samples_written (fst s) = int (length (sp_rows (fst s))) \<and>
    csv_read StartRecord [] [] (the (snd s (sp_path (fst s)))) = metrics_fields # map (metrics_row str) (sp_rows (fst s))"
proof -
  have i: "metrics_inv str s"
    using sampler.run_inv [OF sp_start_inv [OF assms(1,2)]] assms(3) by (simp add: list_all_iff)
  have "list_all (\<lambda>r. r \<noteq> []) (metrics_fields # map (metrics_row str) (sp_rows (fst s)))"
    by (simp add: metrics_fields_def metrics_row_def list_all_iff)
  from csv_lines_read [OF this] i show ?thesis by (simp add: metrics_inv_def)
qed

end
