(* ===== verification/Gateway_Process.thy ===== *)
theory Gateway_Process
  imports Gateway_Server Forwarder Metrics
begin

text \<open>
  The gateway process (\<^verbatim>\<open>_parse_args\<close>, \<^verbatim>\<open>_run_from_cli\<close> in \<^verbatim>\<open>src/gateway/server.py\<close>): the options
  read from the command line, the components built and started from them in the order of the code, the
  message callback that feeds the store and the forwarder, and the order of the shutdown. Texts of
  floats are read by the parameter \<open>flt_of\<close>; a text it cannot read ends the process.
\<close>

section \<open>Options\<close>

record gateway_options =
  go_raw_output :: "string option"
  go_upstream_mode :: string
  go_aggregation_window :: pyfloat
  go_forwarder_queue_size :: int
  go_storage_queue_size :: int
  go_expected_interval :: pyfloat
  go_suspect_after :: pyfloat
  go_offline_after :: pyfloat
  go_liveness_check_interval :: pyfloat
  go_gateway_events_output :: "string option"
  go_health_events_output :: "string option"
  go_event_queue_size :: int
  go_system_metrics_output :: "string option"
  go_metrics_interval :: pyfloat
  go_summary_output :: "string option"

definition digits_value :: "string \<Rightarrow> int" where
  "digits_value s = foldl (\<lambda>a c. 10 * a + (int (of_char c) - 48)) 0 s"

definition int_of_text :: "string \<Rightarrow> int" where
  "int_of_text s = (case s of [] \<Rightarrow> 0 | c # cs \<Rightarrow> if c = CHR ''-'' then - digits_value cs else digits_value s)"

definition int_flag :: "(string \<times> string) list \<Rightarrow> string \<Rightarrow> int \<Rightarrow> int" where
  "int_flag flags name d = (case map_of flags name of None \<Rightarrow> d | Some s \<Rightarrow> int_of_text s)"

definition float_flag :: "(string \<Rightarrow> pyfloat option) \<Rightarrow> (string \<times> string) list \<Rightarrow> string \<Rightarrow> pyfloat \<Rightarrow> pyfloat result" where
  "float_flag flt_of flags name d =
     (case map_of flags name of None \<Rightarrow> Inr d
      | Some s \<Rightarrow> (case flt_of s of None \<Rightarrow> Inl (ValueError name) | Some x \<Rightarrow> Inr x))"

definition parse_gateway_args :: "(string \<Rightarrow> pyfloat option) \<Rightarrow> (string \<times> string) list \<Rightarrow> gateway_options result" where
  "parse_gateway_args flt_of flags =
     rbind (float_flag flt_of flags ''--aggregation-window'' (Fin 5)) (\<lambda>window.
     rbind (float_flag flt_of flags ''--expected-interval'' (Fin 1)) (\<lambda>expected.
     rbind (float_flag flt_of flags ''--suspect-after'' (Fin 3)) (\<lambda>suspect.
     rbind (float_flag flt_of flags ''--offline-after'' (Fin 5)) (\<lambda>offline.
     rbind (float_flag flt_of flags ''--liveness-check-interval'' (Fin (1 / 2))) (\<lambda>liveness.
     rbind (float_flag flt_of flags ''--metrics-interval'' (Fin (1 / 2))) (\<lambda>metrics.
       if (case map_of flags ''--upstream-mode'' of None \<Rightarrow> False
           | Some m \<Rightarrow> m \<notin> {''disabled'', ''raw'', ''aggregated''}) then Inl (ValueError ''--upstream-mode'')
       else Inr \<lparr>go_raw_output = map_of flags ''--raw-output'',
         go_upstream_mode = (case map_of flags ''--upstream-mode'' of None \<Rightarrow> ''disabled'' | Some m \<Rightarrow> m),
         go_aggregation_window = window, go_forwarder_queue_size = int_flag flags ''--forwarder-queue-size'' 10000,
         go_storage_queue_size = int_flag flags ''--storage-queue-size'' 10000, go_expected_interval = expected,
         go_suspect_after = suspect, go_offline_after = offline, go_liveness_check_interval = liveness,
         go_gateway_events_output = map_of flags ''--gateway-events-output'',
         go_health_events_output = map_of flags ''--health-events-output'',
         go_event_queue_size = int_flag flags ''--event-queue-size'' 10000,
         go_system_metrics_output = map_of flags ''--system-metrics-output'', go_metrics_interval = metrics,
         go_summary_output = map_of flags ''--summary-output''\<rparr>))))))"

section \<open>Building and starting the components\<close>

record gateway_process =
  gp_recorder :: "event_recorder option"
  gp_metrics :: "metrics_sampler option"
  gp_store :: "raw_message_store option"
  gp_forwarder :: "upstream_forwarder option"
  gp_server :: gateway_server

text \<open>Each optional component: built, then started on the files; \<open>None\<close> when it is not asked for.\<close>

definition start_recorder :: "(json \<Rightarrow> string) \<Rightarrow> gateway_options \<Rightarrow> files \<Rightarrow> (event_recorder option \<times> files) result" where
  "start_recorder dumps opts fs =
     (case (go_gateway_events_output opts, go_health_events_output opts) of
        (None, None) \<Rightarrow> Inr (None, fs)
      | (Some g, Some h) \<Rightarrow> rbind (ExperimentEventRecorder dumps g h (go_event_queue_size opts)) (\<lambda>r.
          (case recorder_start (r, fs) of
             (Some e, _) \<Rightarrow> Inl e
           | (None, r', fs') \<Rightarrow> Inr (Some r', fs')))
      | _ \<Rightarrow> Inl (ValueError ''gateway and health event outputs must be configured together''))"

definition start_metrics :: "gateway_options \<Rightarrow> files \<Rightarrow> (metrics_sampler option \<times> files) result" where
  "start_metrics opts fs =
     (case go_system_metrics_output opts of None \<Rightarrow> Inr (None, fs)
      | Some p \<Rightarrow> rbind (SystemMetricsSampler p (go_metrics_interval opts)) (\<lambda>m.
          rbind (sp_start (m, fs)) (\<lambda>(m', fs'). Inr (Some m', fs'))))"

definition start_store :: "gateway_options \<Rightarrow> files \<Rightarrow> (raw_message_store option \<times> files) result" where
  "start_store opts fs =
     (case go_raw_output opts of None \<Rightarrow> Inr (None, fs)
      | Some p \<Rightarrow> rbind (RawMessageStore p (go_storage_queue_size opts) 100) (\<lambda>st.
          rbind (st_start (st, fs)) (\<lambda>(st', fs'). Inr (Some st', fs'))))"

definition forward_mode_of :: "string \<Rightarrow> forward_mode" where
  "forward_mode_of m = (if m = ''raw'' then RAW else AGGREGATED)"

definition start_forwarder :: "bool \<Rightarrow> gateway_options \<Rightarrow> upstream_forwarder option result" where
  "start_forwarder cb opts =
     (if go_upstream_mode opts = ''disabled'' then Inr None
      else rbind (UpstreamForwarder (forward_mode_of (go_upstream_mode opts)) (go_aggregation_window opts)
             (go_forwarder_queue_size opts) (fl (1 / 10)) (Fin 5) (Fin 5) cb) (\<lambda>f.
        rbind (fw_start f) (\<lambda>f'. Inr (Some f'))))"

definition gateway_start :: "(json \<Rightarrow> string) \<Rightarrow> gateway_options \<Rightarrow> files \<Rightarrow> (gateway_process \<times> files) result" where
  "gateway_start dumps opts fs =
     rbind (start_recorder dumps opts fs) (\<lambda>(r, fs1).
     rbind (start_metrics opts fs1) (\<lambda>(m, fs2).
     rbind (start_store opts fs2) (\<lambda>(st, fs3).
     rbind (start_forwarder (r \<noteq> None) opts) (\<lambda>f.
     rbind (NodeRegistry (go_expected_interval opts) (go_suspect_after opts) (go_offline_after opts)) (\<lambda>reg.
     rbind (GatewayServer 65536 (Fin 30) reg (go_liveness_check_interval opts) True (r \<noteq> None) (r \<noteq> None)) (\<lambda>g.
       Inr (\<lparr>gp_recorder = r, gp_metrics = m, gp_store = st, gp_forwarder = f, gp_server = g\<rparr>, fs3)))))))"

section \<open>The message callback\<close>

text \<open>\<open>log_message\<close>: first the store, where the callback may wait for room, then the forwarder, which
  never waits. The two halves are the code before and after the first await.\<close>

definition log_to_store :: "received_message \<Rightarrow> gateway_process \<Rightarrow> gateway_process result" where
  "log_to_store rc p =
     (case gp_store p of None \<Rightarrow> Inr p
      | Some st \<Rightarrow> rbind (st_submit st rc) (\<lambda>st'. Inr (p\<lparr>gp_store := Some st'\<rparr>)))"

definition log_to_forwarder :: "int \<Rightarrow> received_message \<Rightarrow> gateway_process \<Rightarrow> gateway_process result" where
  "log_to_forwarder now rc p =
     (case gp_forwarder p of None \<Rightarrow> Inr p
      | Some f \<Rightarrow> rbind (fw_try_submit now f rc) (\<lambda>(accepted, f'). Inr (p\<lparr>gp_forwarder := Some f'\<rparr>)))"

definition log_message :: "int \<Rightarrow> received_message \<Rightarrow> gateway_process \<Rightarrow> gateway_process result" where
  "log_message now rc p = rbind (log_to_store rc p) (log_to_forwarder now rc)"

section \<open>The summary\<close>

definition opt_json :: "('a \<Rightarrow> json) \<Rightarrow> 'a option \<Rightarrow> json" where
  "opt_json f v = (case v of None \<Rightarrow> JNull | Some x \<Rightarrow> f x)"

definition gateway_stats_json :: "gateway_stats \<Rightarrow> json" where
  "gateway_stats_json g = JObj
     [(''connections_accepted'', JInt (connections_accepted g)), (''active_connections'', JInt (gs_active_connections g)),
      (''valid_messages'', JInt (valid_messages g)), (''sensor_bytes'', JInt (sensor_bytes g)),
      (''malformed_json'', JInt (malformed_json g)), (''schema_rejections'', JInt (schema_rejections g)),
      (''rejected_readings'', JInt (rejected_readings g)), (''overlong_messages'', JInt (overlong_messages g)),
      (''truncated_messages'', JInt (truncated_messages g)), (''idle_disconnects'', JInt (idle_disconnects g)),
      (''invalid_messages'', JInt (invalid_messages g))]"

definition storage_stats_json :: "storage_stats \<Rightarrow> json" where
  "storage_stats_json s = JObj
     [(''records_enqueued'', JInt (records_enqueued s)), (''records_written'', JInt (records_written s)),
      (''bytes_written'', JInt (bytes_written s))]"

definition upstream_stats_json :: "upstream_stats \<Rightarrow> json" where
  "upstream_stats_json u = JObj
     [(''readings_enqueued'', JInt (readings_enqueued u)), (''upstream_messages'', JInt (upstream_messages u)),
      (''upstream_bytes'', JInt (upstream_bytes u)), (''connection_attempts'', JInt (connection_attempts u)),
      (''connection_failures'', JInt (connection_failures u)), (''send_failures'', JInt (send_failures u)),
      (''records_abandoned_on_shutdown'', JInt (records_abandoned_on_shutdown u)),
      (''queue_full_drops'', JInt (queue_full_drops u))]"

definition writer_stats_json :: "'a csv_writer \<Rightarrow> json" where
  "writer_stats_json w = JObj
     [(''enqueued'', JInt (enqueued w)), (''written'', JInt (written w)), (''queue_full_drops'', JInt (cw_queue_full_drops w))]"

text \<open>The registry part, the dump of every node record, is the argument.\<close>

definition gateway_summary :: "json \<Rightarrow> gateway_process \<Rightarrow> (string \<times> json) list" where
  "gateway_summary registry p =
     [(''gateway'', gateway_stats_json (gw_stats (gp_server p))), (''registry'', registry),
      (''storage'', opt_json (\<lambda>st. storage_stats_json (st_stats st)) (gp_store p)),
      (''upstream'', opt_json (\<lambda>f. upstream_stats_json (fw_stats f)) (gp_forwarder p)),
      (''events'', opt_json (\<lambda>r. JObj [(''gateway'', writer_stats_json (gateway_writer r)),
                                        (''health'', writer_stats_json (health_writer r))]) (gp_recorder p)),
      (''metrics'', opt_json (\<lambda>m. JObj [(''samples_written'', JInt (samples_written m))]) (gp_metrics p))]"

section \<open>Starting from sane options\<close>

lemma digits_value_snoc: "digits_value (s @ [c]) = 10 * digits_value s + (int (of_char c) - 48)"
  by (simp add: digits_value_def)

lemma digits_value_str_of_nat: "digits_value (str_of_nat n) = int n"
proof (induction n rule: str_of_nat.induct)
  case (1 n)
  show ?case
  proof (cases "n < 10")
    case True
    then show ?thesis by (simp add: digits_value_def digit_char_code str_of_nat.simps [of n])
  next
    case False
    then have "int n = 10 * int (n div 10) + int (n mod 10)" by presburger
    then show ?thesis using 1 False by (simp add: digits_value_snoc digit_char_code str_of_nat.simps [of n])
  qed
qed

lemma int_of_text_str: "int_of_text (str_of_int i) = i"
proof (cases "i < 0")
  case True
  then show ?thesis by (simp add: str_of_int_def int_of_text_def digits_value_str_of_nat)
next
  case False
  obtain c cs where c: "str_of_nat (nat i) = c # cs" by (cases "str_of_nat (nat i)") auto
  then have "c \<noteq> CHR ''-''" using str_of_nat_digits [of c "nat i"] by auto
  then show ?thesis using False c digits_value_str_of_nat [of "nat i"] by (simp add: str_of_int_def int_of_text_def)
qed

text \<open>What the components demand of the options, and that it is enough on files none of which exists.\<close>

definition options_ok :: "gateway_options \<Rightarrow> bool" where
  "options_ok opts \<longleftrightarrow> 1 \<le> go_forwarder_queue_size opts \<and> 1 \<le> go_storage_queue_size opts \<and> 1 \<le> go_event_queue_size opts \<and>
     \<not> fle (go_expected_interval opts) (Fin 0) \<and> \<not> fle (go_suspect_after opts) (Fin 0) \<and>
     \<not> fle (go_offline_after opts) (go_suspect_after opts) \<and> \<not> fle (go_liveness_check_interval opts) (Fin 0) \<and>
     \<not> fle (go_metrics_interval opts) (Fin 0) \<and>
     (go_upstream_mode opts = ''raw'' \<or> go_upstream_mode opts = ''aggregated'') \<and>
     \<not> fle (go_aggregation_window opts) (Fin 0)"

definition all_outputs :: "gateway_options \<Rightarrow> string list" where
  "all_outputs opts = map the [go_gateway_events_output opts, go_health_events_output opts,
     go_system_metrics_output opts, go_raw_output opts]"

lemma gateway_starts:
  assumes "options_ok opts" "go_gateway_events_output opts \<noteq> None" "go_health_events_output opts \<noteq> None"
    "go_system_metrics_output opts \<noteq> None" "go_raw_output opts \<noteq> None"
    "distinct (all_outputs opts)" "\<forall>p \<in> set (all_outputs opts). fs p = None"
  shows "\<exists>p fs'. gateway_start dumps opts fs = Inr (p, fs') \<and> gp_recorder p \<noteq> None \<and> gp_metrics p \<noteq> None \<and>
    gp_store p \<noteq> None \<and> gp_forwarder p \<noteq> None \<and> (\<forall>q. q \<notin> set (all_outputs opts) \<longrightarrow> fs' q = fs q)"
proof -
  obtain g h m r where o: "go_gateway_events_output opts = Some g" "go_health_events_output opts = Some h"
    "go_system_metrics_output opts = Some m" "go_raw_output opts = Some r"
    using assms(2-5) by auto
  have d: "g \<noteq> h" "h \<noteq> g" "m \<noteq> g" "m \<noteq> h" "r \<noteq> g" "r \<noteq> h" "r \<noteq> m" and n: "fs g = None" "fs h = None" "fs m = None" "fs r = None"
    using assms(6,7) o by (auto simp: all_outputs_def)
  obtain rec fs1 where 1: "start_recorder dumps opts fs = Inr (Some rec, fs1)" "\<forall>q. q \<notin> {g, h} \<longrightarrow> fs1 q = fs q"
    using assms(1) o d n
    by (simp add: start_recorder_def ExperimentEventRecorder_def AsyncCsvWriter_def recorder_start_def cw_start_def
        create_exclusive_def options_ok_def Let_def)
  obtain mt fs2 where 2: "start_metrics opts fs1 = Inr (Some mt, fs2)" "\<forall>q. q \<notin> {g, h, m} \<longrightarrow> fs2 q = fs q"
    using assms(1) o d n 1(2)
    by (simp add: start_metrics_def SystemMetricsSampler_def sp_start_def create_exclusive_def options_ok_def Let_def)
  obtain st fs3 where 3: "start_store opts fs2 = Inr (Some st, fs3)" "\<forall>q. q \<notin> {g, h, m, r} \<longrightarrow> fs3 q = fs q"
    using assms(1) o d n 2(2)
    by (simp add: start_store_def RawMessageStore_def st_start_def create_exclusive_def options_ok_def Let_def)
  obtain f where 4: "start_forwarder True opts = Inr (Some f)"
    using assms(1) fl_tenth
    by (auto simp: start_forwarder_def UpstreamForwarder_def fw_start_def options_ok_def forward_mode_of_def)
  obtain reg where 5: "NodeRegistry (go_expected_interval opts) (go_suspect_after opts) (go_offline_after opts) = Inr reg"
    using assms(1) by (simp add: NodeRegistry_def options_ok_def)
  obtain sv where 6: "GatewayServer 65536 (Fin 30) reg (go_liveness_check_interval opts) True True True = Inr sv"
    using assms(1) by (simp add: GatewayServer_def options_ok_def)
  show ?thesis using 1 2 3 4 5 6 o by (simp add: gateway_start_def all_outputs_def)
qed

end
