(* ===== verification/Collector.thy ===== *)
theory Collector
  imports Framing Upstream_Protocol Sinks Storage
begin

text \<open>
  The upstream collector (\<^verbatim>\<open>src/collector/server.py\<close>): one handler per gateway connection on
  the same framing as the gateway, validation of upstream records, counters, and the append-only
  evidence file. The file system is part of the state; a run interleaves the frames of any
  number of connections.
\<close>

section \<open>Data model\<close>

record collected_record =
  co_record :: upstream_record
  co_received_at_ms :: int
  co_received_monotonic_ns :: int
  co_wire_bytes :: int

record collector_stats =
  cs_connections_accepted :: int
  cs_active_connections :: int
  cs_messages_received :: int
  cs_bytes_received :: int
  cs_invalid_messages :: int
  cs_overlong_messages :: int
  cs_truncated_messages :: int

record collector_server =
  co_max_message_bytes :: nat
  co_output_path :: "string option"
  co_has_callback :: bool
  co_stats :: collector_stats
  co_clients :: "nat list"
  co_collected :: "collected_record list"

definition CollectorServer :: "int \<Rightarrow> string option \<Rightarrow> bool \<Rightarrow> collector_server result" where
  "CollectorServer max_bytes out cb =
     (if max_bytes < 1 then Inl (ValueError ''max_message_bytes must be positive'')
      else Inr \<lparr>co_max_message_bytes = nat max_bytes, co_output_path = out, co_has_callback = cb,
        co_stats = \<lparr>cs_connections_accepted = 0, cs_active_connections = 0, cs_messages_received = 0, cs_bytes_received = 0,
          cs_invalid_messages = 0, cs_overlong_messages = 0, cs_truncated_messages = 0\<rparr>,
        co_clients = [], co_collected = []\<rparr>)"

text \<open>\<open>start\<close>: the output is created first and must not exist.\<close>

definition co_start :: "collector_server \<Rightarrow> files \<Rightarrow> files result" where
  "co_start c fs = (case co_output_path c of None \<Rightarrow> Inr fs | Some p \<Rightarrow> create_exclusive p [] fs)"

section \<open>Operations\<close>

definition collected_json :: "collected_record \<Rightarrow> json" where
  "collected_json x = JObj
     [(''collector_received_at_ms'', JInt (co_received_at_ms x)),
      (''collector_received_monotonic_ns'', JInt (co_received_monotonic_ns x)),
      (''upstream_wire_bytes'', JInt (co_wire_bytes x)), (''record'', upstream_dump (co_record x))]"

definition append_output :: "(json \<Rightarrow> string) \<Rightarrow> string \<Rightarrow> collected_record \<Rightarrow> files \<Rightarrow> files result" where
  "append_output dumps p x fs =
     rbind (dumps_strict dumps (collected_json x)) (\<lambda>t. Inr (append_text p (t @ [newline]) fs))"

type_synonym collector_state = "collector_server \<times> files"

definition co_accept :: "nat \<Rightarrow> collector_server \<Rightarrow> collector_server" where
  "co_accept cid c =
     c\<lparr>co_clients := cid # co_clients c,
       co_stats := (co_stats c)\<lparr>cs_connections_accepted := cs_connections_accepted (co_stats c) + 1,
                     cs_active_connections := cs_active_connections (co_stats c) + 1\<rparr>\<rparr>"

definition co_close :: "nat \<Rightarrow> collector_server \<Rightarrow> collector_server" where
  "co_close cid c =
     (if cid \<notin> set (co_clients c) then c
      else c\<lparr>co_clients := remove1 cid (co_clients c),
             co_stats := (co_stats c)\<lparr>cs_active_connections := cs_active_connections (co_stats c) - 1\<rparr>\<rparr>)"

definition count_message :: "collected_record \<Rightarrow> collector_server \<Rightarrow> collector_server" where
  "count_message x c =
     c\<lparr>co_stats := (co_stats c)\<lparr>cs_messages_received := cs_messages_received (co_stats c) + 1,
                     cs_bytes_received := cs_bytes_received (co_stats c) + co_wire_bytes x\<rparr>\<rparr>"

definition call_back :: "collected_record \<Rightarrow> collector_server \<Rightarrow> collector_server" where
  "call_back x c = (if co_has_callback c then c\<lparr>co_collected := co_collected c @ [x]\<rparr> else c)"

text \<open>A framed line: rejected and counted, or counted, appended to the evidence and handed on. An
  encoding error would end the connection.\<close>

definition co_line ::
  "json_parser \<Rightarrow> (json \<Rightarrow> bool) \<Rightarrow> (json \<Rightarrow> string) \<Rightarrow> nat \<Rightarrow> bytes \<Rightarrow> int \<Rightarrow> int \<Rightarrow> collector_state \<Rightarrow> collector_state" where
  "co_line parse_json literal_one dumps cid line at_ms mono_ns s =
     (let (c, fs) = s
      in case parse_upstream_record parse_json literal_one (butlast line) of
        Inl _ \<Rightarrow> (c\<lparr>co_stats := (co_stats c)\<lparr>cs_invalid_messages := cs_invalid_messages (co_stats c) + 1\<rparr>\<rparr>, fs)
      | Inr r \<Rightarrow>
          (let x = \<lparr>co_record = r, co_received_at_ms = at_ms, co_received_monotonic_ns = mono_ns, co_wire_bytes = int (length line)\<rparr>;
               c1 = count_message x c
           in case co_output_path c of
                None \<Rightarrow> (call_back x c1, fs)
              | Some p \<Rightarrow>
                  (case append_output dumps p x fs of
                     Inl e \<Rightarrow> (co_close cid c1, fs)
                   | Inr fs' \<Rightarrow> (call_back x c1, fs'))))"

definition co_frame ::
  "json_parser \<Rightarrow> (json \<Rightarrow> bool) \<Rightarrow> (json \<Rightarrow> string) \<Rightarrow> nat \<Rightarrow> frame \<Rightarrow> int \<Rightarrow> int \<Rightarrow> collector_state \<Rightarrow> collector_state" where
  "co_frame parse_json literal_one dumps cid f at_ms mono_ns s =
     (let (c, fs) = s
      in if cid \<notin> set (co_clients c) then s
         else case f of
           FLine line \<Rightarrow> co_line parse_json literal_one dumps cid line at_ms mono_ns s
         | FOverlong \<Rightarrow>
             (co_close cid (c\<lparr>co_stats := (co_stats c)\<lparr>cs_overlong_messages := cs_overlong_messages (co_stats c) + 1\<rparr>\<rparr>), fs)
         | FTruncated \<Rightarrow>
             (co_close cid (c\<lparr>co_stats := (co_stats c)\<lparr>cs_truncated_messages := cs_truncated_messages (co_stats c) + 1\<rparr>\<rparr>), fs)
         | _ \<Rightarrow> (co_close cid c, fs))"

datatype co_event = CoAccept nat | CoFrame nat frame int int | CoError nat

fun co_step ::
  "json_parser \<Rightarrow> (json \<Rightarrow> bool) \<Rightarrow> (json \<Rightarrow> string) \<Rightarrow> collector_state \<Rightarrow> co_event \<Rightarrow> collector_state" where
  "co_step pj lit dumps (c, fs) (CoAccept cid) = (if cid \<in> set (co_clients c) then (c, fs) else (co_accept cid c, fs))"
| "co_step pj lit dumps s (CoFrame cid f at_ms mono_ns) = co_frame pj lit dumps cid f at_ms mono_ns s"
| "co_step pj lit dumps (c, fs) (CoError cid) = (co_close cid c, fs)"

text \<open>The summary that the process writes when it ends: \<open>asdict(collector.stats)\<close>.\<close>

definition collector_stats_json :: "collector_stats \<Rightarrow> (string \<times> json) list" where
  "collector_stats_json s =
     [(''connections_accepted'', JInt (cs_connections_accepted s)), (''active_connections'', JInt (cs_active_connections s)),
      (''messages_received'', JInt (cs_messages_received s)), (''bytes_received'', JInt (cs_bytes_received s)),
      (''invalid_messages'', JInt (cs_invalid_messages s)), (''overlong_messages'', JInt (cs_overlong_messages s)),
      (''truncated_messages'', JInt (cs_truncated_messages s))]"

section \<open>Accounting\<close>

definition co_lines :: "collector_state \<Rightarrow> co_event \<Rightarrow> (bytes \<times> int \<times> int) list" where
  "co_lines s e = (case e of
     CoFrame cid (FLine line) a b \<Rightarrow> if cid \<in> set (co_clients (fst s)) then [(line, a, b)] else []
   | _ \<Rightarrow> [])"

definition collect ::
  "json_parser \<Rightarrow> (json \<Rightarrow> bool) \<Rightarrow> bytes \<times> int \<times> int \<Rightarrow> collected_record list" where
  "collect pj lit x = (let (line, a, b) = x in
     case parse_upstream_record pj lit (butlast line) of
       Inl _ \<Rightarrow> []
     | Inr r \<Rightarrow> [\<lparr>co_record = r, co_received_at_ms = a, co_received_monotonic_ns = b, co_wire_bytes = int (length line)\<rparr>])"

definition evidence_line :: "(json \<Rightarrow> string) \<Rightarrow> collected_record \<Rightarrow> string" where
  "evidence_line dumps x = dumps (collected_json x) @ [newline]"

lemma valid_upstream_finite: "valid_upstream r \<Longrightarrow> json_finite (upstream_dump r)"
proof (cases r)
  case (RawRecord u)
  assume v: "valid_upstream r"
  then show ?thesis
    by (auto simp: RawRecord raw_fields_def reading_fields_def base_fields_def valid_reading_def
        temperature_ok_def humidity_ok_def pressure_ok_def)
next
  case (AggregateRecord a)
  assume v: "valid_upstream r"
  then show ?thesis
    by (auto simp: AggregateRecord aggregate_fields_def summary_fields_def aggregate_fields_ok_def summary_fields_ok_def)
qed

lemma parse_upstream_valid: "parse_upstream_record pj lit data = Inr r \<Longrightarrow> valid_upstream r"
  by (auto simp: parse_upstream_record_def dest!: validate_upstream_sound split: option.splits Option.bind_splits)

lemma append_output_ok:
  "valid_upstream (co_record x) \<Longrightarrow> append_output dumps p x fs = Inr (append_text p (evidence_line dumps x) fs)"
  using valid_upstream_finite by (simp add: append_output_def dumps_strict_def collected_json_def evidence_line_def)

text \<open>The state against the lines processed so far; \<open>start\<close> is the file content before the first.\<close>

definition co_inv ::
  "json_parser \<Rightarrow> (json \<Rightarrow> bool) \<Rightarrow> (json \<Rightarrow> string) \<Rightarrow> files \<Rightarrow> collector_state \<times> (bytes \<times> int \<times> int) list \<Rightarrow> bool" where
  "co_inv pj lit dumps fs0 p \<longleftrightarrow> (let ((c, fs), ls) = p; xs = concat (map (collect pj lit) ls); s = co_stats c in
     cs_messages_received s = int (length xs) \<and> cs_bytes_received s = (\<Sum>x\<leftarrow>xs. co_wire_bytes x) \<and>
     cs_invalid_messages s = int (length ls) - int (length xs) \<and>
     cs_active_connections s = int (length (co_clients c)) \<and> distinct (co_clients c) \<and>
     (co_has_callback c \<longrightarrow> co_collected c = xs) \<and>
     (\<forall>q. fs q = (if co_output_path c = Some q then map_option (\<lambda>t. t @ concat (map (evidence_line dumps) xs)) (fs0 q) else fs0 q)) \<and>
     (\<forall>q. co_output_path c = Some q \<longrightarrow> fs0 q \<noteq> None))"

definition co_trace where
  "co_trace pj lit dumps p e = (co_step pj lit dumps (fst p) e, snd p @ co_lines (fst p) e)"

lemma foldl_co_trace:
  "foldl (co_trace pj lit dumps) (s, ls) es =
     (foldl (co_step pj lit dumps) s es, ls @ gather (co_step pj lit dumps) co_lines s es)"
  by (induction es arbitrary: s ls) (simp_all add: co_trace_def)

lemma co_close_stats [simp]:
  "cs_messages_received (co_stats (co_close cid c)) = cs_messages_received (co_stats c)"
  "cs_bytes_received (co_stats (co_close cid c)) = cs_bytes_received (co_stats c)"
  "cs_invalid_messages (co_stats (co_close cid c)) = cs_invalid_messages (co_stats c)"
  "co_has_callback (co_close cid c) = co_has_callback c" "co_collected (co_close cid c) = co_collected c"
  "co_output_path (co_close cid c) = co_output_path c"
  by (simp_all add: co_close_def)

lemma co_close_active:
  assumes "cs_active_connections (co_stats c) = int (length (co_clients c))" "distinct (co_clients c)"
  shows "cs_active_connections (co_stats (co_close cid c)) = int (length (co_clients (co_close cid c))) \<and>
    distinct (co_clients (co_close cid c))"
proof -
  have "Suc (length (co_clients c) - 1) = length (co_clients c)" if "cid \<in> set (co_clients c)"
    using that by (cases "co_clients c") auto
  then show ?thesis using assms by (auto simp: co_close_def length_remove1)
qed

lemma co_keep:
  assumes "co_inv pj lit dumps fs0 ((c, fs), ls)" "co_stats c' = co_stats c \<or>
     (\<exists>s. co_stats c' = s \<and> cs_messages_received s = cs_messages_received (co_stats c) \<and>
       cs_bytes_received s = cs_bytes_received (co_stats c) \<and> cs_invalid_messages s = cs_invalid_messages (co_stats c))"
    "cs_active_connections (co_stats c') = int (length (co_clients c'))" "distinct (co_clients c')"
    "co_has_callback c' = co_has_callback c" "co_collected c' = co_collected c" "co_output_path c' = co_output_path c"
  shows "co_inv pj lit dumps fs0 ((c', fs), ls)"
  using assms by (auto simp: co_inv_def Let_def)

lemma co_line_inv:
  assumes "co_inv pj lit dumps fs0 ((c, fs), ls)"
  shows "co_inv pj lit dumps fs0 (co_line pj lit dumps cid line a b (c, fs), ls @ [(line, a, b)])"
proof (cases "parse_upstream_record pj lit (butlast line)")
  case (Inl e)
  then have "collect pj lit (line, a, b) = []" by (simp add: collect_def)
  then show ?thesis using assms Inl by (simp add: co_line_def co_inv_def Let_def)
next
  case (Inr r)
  let ?x = "\<lparr>co_record = r, co_received_at_ms = a, co_received_monotonic_ns = b, co_wire_bytes = int (length line)\<rparr>"
  have x: "collect pj lit (line, a, b) = [?x]" using Inr by (simp add: collect_def)
  have ap: "append_output dumps p ?x fs = Inr (append_text p (evidence_line dumps ?x) fs)" for p
    using parse_upstream_valid [OF Inr] by (intro append_output_ok) simp
  show ?thesis
  proof (cases "co_output_path c")
    case None
    then show ?thesis using assms Inr x by (auto simp: co_line_def co_inv_def Let_def count_message_def call_back_def)
  next
    case (Some p)
    then obtain t where "fs0 p = Some t" using assms by (auto simp: co_inv_def Let_def)
    then show ?thesis
      using assms Inr x Some ap by (auto simp: co_line_def co_inv_def Let_def count_message_def call_back_def append_text_def)
  qed
qed

interpretation col: machine "co_trace pj lit dumps" "co_inv pj lit dumps fs0" "\<lambda>_. True" for pj lit dumps fs0
proof
  fix p e
  assume inv: "co_inv pj lit dumps fs0 p"
  obtain c fs ls where p: "p = ((c, fs), ls)" by (cases p) auto
  note i = inv [unfolded p]
  have act: "cs_active_connections (co_stats c) = int (length (co_clients c))" "distinct (co_clients c)"
    using i by (simp_all add: co_inv_def Let_def)
  show "co_inv pj lit dumps fs0 (co_trace pj lit dumps p e)"
  proof (cases e)
    case (CoAccept cid)
    have "co_inv pj lit dumps fs0 ((co_accept cid c, fs), ls)" if "cid \<notin> set (co_clients c)"
      using that act by (intro co_keep [OF i]) (auto simp: co_accept_def)
    then show ?thesis using CoAccept i by (simp add: p co_trace_def co_lines_def)
  next
    case (CoError cid)
    have "co_inv pj lit dumps fs0 ((co_close cid c, fs), ls)"
      using co_close_active [OF act] by (intro co_keep [OF i]) auto
    then show ?thesis using CoError by (simp add: p co_trace_def co_lines_def)
  next
    case (CoFrame cid f a b)
    have close: "co_inv pj lit dumps fs0 ((co_close cid c', fs), ls)"
      if "cs_messages_received (co_stats c') = cs_messages_received (co_stats c)" "co_clients c' = co_clients c"
        "cs_bytes_received (co_stats c') = cs_bytes_received (co_stats c)" "cs_invalid_messages (co_stats c') = cs_invalid_messages (co_stats c)"
        "cs_active_connections (co_stats c') = cs_active_connections (co_stats c)" "co_has_callback c' = co_has_callback c"
        "co_collected c' = co_collected c" "co_output_path c' = co_output_path c" for c'
      using that act co_close_active [of c' cid] by (intro co_keep [OF i]) auto
    show ?thesis
    proof (cases "cid \<in> set (co_clients c)")
      case False
      then show ?thesis using CoFrame i by (cases f) (simp_all add: p co_trace_def co_lines_def co_frame_def)
    next
      case True
      then show ?thesis using CoFrame co_line_inv [OF i] close
        by (cases f) (auto simp: p co_trace_def co_lines_def co_frame_def)
    qed
  qed
qed

section \<open>Properties\<close>

lemma collector_run_evidence:
  assumes "CollectorServer mb (Some p) cb = Inr c0" "co_start c0 fs0 = Inr fs1"
  shows "let (c, fs) = foldl (co_step pj lit dumps) (c0, fs1) es;
             ls = gather (co_step pj lit dumps) co_lines (c0, fs1) es; xs = concat (map (collect pj lit) ls) in
    fs0 p = None \<and> fs p = Some (concat (map (evidence_line dumps) xs)) \<and> (\<forall>q. q \<noteq> p \<longrightarrow> fs q = fs0 q) \<and>
    cs_messages_received (co_stats c) = int (length xs) \<and>
    cs_bytes_received (co_stats c) = (\<Sum>x\<leftarrow>xs. co_wire_bytes x) \<and>
    cs_invalid_messages (co_stats c) = int (length ls) - int (length xs) \<and>
    cs_active_connections (co_stats c) = int (length (co_clients c))"
proof -
  let ?s = "foldl (co_step pj lit dumps) (c0, fs1) es" and ?ls = "gather (co_step pj lit dumps) co_lines (c0, fs1) es"
  have c0: "co_output_path c0 = Some p" using assms(1) by (auto simp: CollectorServer_def split: if_splits)
  then have fs: "fs0 p = None" "fs1 = fs0(p \<mapsto> [])" using assms(2) by (auto simp: co_start_def create_exclusive_Inr)
  have "co_inv pj lit dumps fs1 ((c0, fs1), [])"
    using assms(1) fs by (auto simp: CollectorServer_def co_inv_def Let_def split: if_splits)
  then have inv: "co_inv pj lit dumps fs1 (?s, ?ls)"
    using col.run_inv [of pj lit dumps fs1 "((c0, fs1), [])" es] by (simp add: foldl_co_trace list_all_iff)
  have "co_output_path (fst (foldl (co_step pj lit dumps) s xs)) = co_output_path (fst s)" for s xs
  proof (induction xs arbitrary: s)
    case (Cons e es)
    have "co_output_path (fst (co_step pj lit dumps s e)) = co_output_path (fst s)"
      by (cases s; cases e) (auto simp: co_accept_def co_frame_def co_line_def count_message_def call_back_def Let_def
          split: frame.splits sum.splits option.splits)
    then show ?case using Cons by simp
  qed simp
  from this [of "(c0, fs1)" es] have "co_output_path (fst ?s) = Some p" using c0 by simp
  then show ?thesis
    using inv fs by (cases ?s) (auto simp: co_inv_def Let_def)
qed


definition sample_collector :: collector_server where
  "sample_collector = \<lparr>co_max_message_bytes = 64, co_output_path = Some ''up.ndjson'', co_has_callback = True,
     co_stats = \<lparr>cs_connections_accepted = 0, cs_active_connections = 0, cs_messages_received = 0, cs_bytes_received = 0,
       cs_invalid_messages = 0, cs_overlong_messages = 0, cs_truncated_messages = 0\<rparr>,
     co_clients = [], co_collected = []\<rparr>"


end
