(* ===== verification/Lifecycle.thy ===== *)
theory Lifecycle
  imports Gateway_Process Collector
begin

text \<open>
  Starting and stopping the two servers (\<open>start\<close>, \<open>stop\<close> and \<open>bound_port\<close> of
  \<^verbatim>\<open>src/gateway/server.py\<close> and \<^verbatim>\<open>src/collector/server.py\<close>). \<open>stop\<close> is a coroutine: its
  statements run one after another between the events of the clients, and an \<open>await\<close> stays where it is until
  what it waits for has happened. As documented for Python 3.12 and later, and as the comment in the gateway's
  \<open>stop\<close> says, \<open>Server.wait_closed()\<close> waits until no connection is open.
\<close>

section \<open>The statements of stop\<close>

datatype stop_action = CloseListener | CancelMonitor | CloseWriters | AwaitHandlers | AwaitListener

datatype stage = Serving | Stopping "stop_action list" | Stopped | Stop_Failed py_error

text \<open>A server object: the part its handlers change, whether \<open>_server\<close> is set, whether its socket listens, the
  connections whose writer \<open>stop\<close> has closed, and where \<open>stop\<close> stands.\<close>

record 's life =
  lf_server :: 's
  lf_running :: bool
  lf_listening :: bool
  lf_closing :: "nat list"
  lf_stage :: stage

text \<open>What the two classes differ in: the handlers' step, which events open a connection, the open connections,
  the event of reading the end of a stream, cancelling the monitor task, and the statements of \<open>stop\<close>, given
  whether the server was running.\<close>

record ('s, 'e) server_code =
  react :: "'s \<Rightarrow> 'e \<Rightarrow> 's"
  opens :: "'e \<Rightarrow> bool"
  open_clients :: "'s \<Rightarrow> nat list"
  end_of_stream :: "nat \<Rightarrow> 'e"
  cancel_monitor :: "'s \<Rightarrow> 's result"
  stop_order :: "bool \<Rightarrow> stop_action list"

datatype 's outcome = Blocked | Done 's | Raises py_error

fun run_action :: "('s, 'e) server_code \<Rightarrow> stop_action \<Rightarrow> 's life \<Rightarrow> 's life outcome" where
  "run_action K CloseListener l = Done (l\<lparr>lf_listening := False\<rparr>)"
| "run_action K CancelMonitor l =
     (case cancel_monitor K (lf_server l) of Inl e \<Rightarrow> Raises e | Inr s \<Rightarrow> Done (l\<lparr>lf_server := s\<rparr>))"
| "run_action K CloseWriters l = Done (l\<lparr>lf_closing := open_clients K (lf_server l)\<rparr>)"
| "run_action K AwaitHandlers l = (if open_clients K (lf_server l) = [] then Done l else Blocked)"
| "run_action K AwaitListener l = (if open_clients K (lf_server l) = [] then Done l else Blocked)"

definition stage_of :: "stop_action list \<Rightarrow> stage" where
  "stage_of as = (if as = [] then Stopped else Stopping as)"

text \<open>\<open>LDrop c\<close>: the handler of a connection whose writer \<open>stop\<close> closed reads the end of its stream.\<close>

datatype 'e life_event = LStop | LProceed | LDrop nat | LServer 'e

definition life_stop :: "('s, 'e) server_code \<Rightarrow> 's life \<Rightarrow> 's life" where
  "life_stop K l =
     (case lf_stage l of
        Stopping _ \<Rightarrow> l
      | _ \<Rightarrow> l\<lparr>lf_running := False, lf_closing := [], lf_stage := stage_of (stop_order K (lf_running l))\<rparr>)"

definition life_proceed :: "('s, 'e) server_code \<Rightarrow> 's life \<Rightarrow> 's life" where
  "life_proceed K l =
     (case lf_stage l of
        Stopping (a # as) \<Rightarrow>
          (case run_action K a l of
             Blocked \<Rightarrow> l
           | Raises e \<Rightarrow> l\<lparr>lf_stage := Stop_Failed e\<rparr>
           | Done l' \<Rightarrow> l'\<lparr>lf_stage := stage_of as\<rparr>)
      | _ \<Rightarrow> l)"

fun life_step :: "('s, 'e) server_code \<Rightarrow> 's life \<Rightarrow> 'e life_event \<Rightarrow> 's life" where
  "life_step K l LStop = life_stop K l"
| "life_step K l LProceed = life_proceed K l"
| "life_step K l (LDrop c) =
     (if c \<in> set (lf_closing l) then l\<lparr>lf_server := react K (lf_server l) (end_of_stream K c)\<rparr> else l)"
| "life_step K l (LServer e) =
     (if opens K e \<and> \<not> lf_listening l then l else l\<lparr>lf_server := react K (lf_server l) e\<rparr>)"

section \<open>The two servers\<close>

definition new_life :: "'s \<Rightarrow> 's life" where
  "new_life s = \<lparr>lf_server = s, lf_running = False, lf_listening = False, lf_closing = [], lf_stage = Stopped\<rparr>"

definition set_serving :: "'s \<Rightarrow> 's life \<Rightarrow> 's life" where
  "set_serving s l = l\<lparr>lf_server := s, lf_running := True, lf_listening := True, lf_stage := Serving\<rparr>"

text \<open>\<open>GatewayServer.start\<close>; \<open>bind\<close> is the error of binding the socket, if it fails.\<close>

definition gateway_listen :: "py_error option \<Rightarrow> gateway_server life \<Rightarrow> gateway_server life result" where
  "gateway_listen bind l =
     (if lf_running l then Inl (RuntimeError ''gateway is already running'')
      else case bind of
        Some e \<Rightarrow> Inl e
      | None \<Rightarrow> Inr (set_serving ((lf_server l)\<lparr>gw_monitor := Active\<rparr>) l))"

text \<open>\<open>CollectorServer.start\<close>: the output file is created before the socket is bound, and stays when binding
  fails.\<close>

definition collector_listen :: "py_error option \<Rightarrow> collector_state life \<Rightarrow> py_error option \<times> collector_state life" where
  "collector_listen bind l =
     (if lf_running l then (Some (RuntimeError ''collector is already running''), l)
      else let (c, fs) = lf_server l
        in case co_start c fs of
             Inl e \<Rightarrow> (Some e, l)
           | Inr fs' \<Rightarrow>
               (case bind of
                  Some e \<Rightarrow> (Some e, l\<lparr>lf_server := (c, fs')\<rparr>)
                | None \<Rightarrow> (None, set_serving (c, fs') l)))"

text \<open>\<open>bound_port\<close>, given the ports of the server's sockets.\<close>

definition bound_port :: "string \<Rightarrow> int list \<Rightarrow> 's life \<Rightarrow> int result" where
  "bound_port name ports l =
     (if \<not> lf_running l \<or> ports = [] then Inl (RuntimeError (name @ '' has not been started'')) else Inr (hd ports))"

text \<open>The gateway's \<open>serve_forever\<close> refuses to run before \<open>start\<close>; it returns by being cancelled only.\<close>

definition serve_forever :: "gateway_server life \<Rightarrow> unit result" where
  "serve_forever l = (if \<not> lf_running l then Inl (RuntimeError ''gateway has not been started'') else Inr ())"

text \<open>Cancelling a task that has failed and awaiting it raises its exception; only the cancellation itself is
  suppressed.\<close>

definition cancel_liveness :: "gateway_server \<Rightarrow> gateway_server result" where
  "cancel_liveness g = (case gw_monitor g of Failed e \<Rightarrow> Inl e | _ \<Rightarrow> Inr (g\<lparr>gw_monitor := NoTask\<rparr>))"

definition gateway_stop_order :: "bool \<Rightarrow> stop_action list" where
  "gateway_stop_order started =
     (if started then [CloseListener] else []) @ [CancelMonitor, CloseWriters, AwaitHandlers] @
     (if started then [AwaitListener] else [])"

definition collector_stop_order :: "bool \<Rightarrow> stop_action list" where
  "collector_stop_order started =
     (if started then [CloseListener, AwaitListener] else []) @ [CloseWriters, AwaitHandlers]"

definition client_ids :: "gateway_server \<Rightarrow> nat list" where
  "client_ids g = map fst (gw_clients g)"

definition gateway_code ::
  "json_parser \<Rightarrow> (bytes \<Rightarrow> json option) \<Rightarrow> int \<Rightarrow> (gateway_server, gw_event) server_code" where
  "gateway_code pj ld now =
     \<lparr>react = gw_step pj ld, opens = (\<lambda>e. case e of GAccept _ _ _ \<Rightarrow> True | _ \<Rightarrow> False),
      open_clients = client_ids, end_of_stream = (\<lambda>c. GFrame c FClosed now now now),
      cancel_monitor = cancel_liveness, stop_order = gateway_stop_order\<rparr>"

definition collector_code ::
  "json_parser \<Rightarrow> (json \<Rightarrow> bool) \<Rightarrow> (json \<Rightarrow> string) \<Rightarrow> int \<Rightarrow> (collector_state, co_event) server_code" where
  "collector_code pj lit dumps now =
     \<lparr>react = co_step pj lit dumps, opens = (\<lambda>e. case e of CoAccept _ \<Rightarrow> True | _ \<Rightarrow> False),
      open_clients = (\<lambda>s. co_clients (fst s)), end_of_stream = (\<lambda>c. CoFrame c FClosed now now),
      cancel_monitor = Inr, stop_order = collector_stop_order\<rparr>"

lemma server_code_simps [simp]:
  "react (gateway_code pj ld now) = gw_step pj ld" "open_clients (gateway_code pj ld now) = client_ids"
  "stop_order (gateway_code pj ld now) = gateway_stop_order" "cancel_monitor (gateway_code pj ld now) = cancel_liveness"
  "end_of_stream (gateway_code pj ld now) c = GFrame c FClosed now now now"
  "react (collector_code pj lit dumps now) = co_step pj lit dumps"
  "open_clients (collector_code pj lit dumps now) s = co_clients (fst s)"
  "stop_order (collector_code pj lit dumps now) = collector_stop_order" "cancel_monitor (collector_code pj lit dumps now) = Inr"
  "end_of_stream (collector_code pj lit dumps now) c = CoFrame c FClosed now now"
  by (simp_all add: gateway_code_def collector_code_def)

section \<open>Servers whose handlers end with their connections\<close>

text \<open>Orders of statements: the listener is closed first if at all, and before the writers; and awaiting comes
  last, after the writers are closed and the monitor is cancelled.\<close>

fun listener_first :: "stop_action list \<Rightarrow> bool" where
  "listener_first [] \<longleftrightarrow> True"
| "listener_first (a # as) \<longleftrightarrow> CloseListener \<notin> set as \<and> (a = CloseListener \<longrightarrow> CloseWriters \<in> set as)"

definition awaits :: "stop_action \<Rightarrow> bool" where
  "awaits a \<longleftrightarrow> a = AwaitHandlers \<or> a = AwaitListener"

fun self_driven :: "stop_action list \<Rightarrow> bool" where
  "self_driven [] \<longleftrightarrow> False"
| "self_driven [a] \<longleftrightarrow> awaits a"
| "self_driven (a # b # as) \<longleftrightarrow> self_driven (b # as) \<and> (awaits a \<longrightarrow> CloseWriters \<notin> set (b # as)) \<and>
     (awaits a \<or> a = CancelMonitor \<longrightarrow> CancelMonitor \<notin> set (b # as))"

lemma self_driven_suffix: "self_driven (us @ as) \<Longrightarrow> as \<noteq> [] \<Longrightarrow> self_driven as"
proof (induction us)
  case (Cons u us)
  then show ?case by (cases "us @ as") auto
qed simp

lemma self_driven_Cons:
  "self_driven (a # as) \<Longrightarrow> as \<noteq> [] \<Longrightarrow> self_driven as"
  "self_driven (a # as) \<Longrightarrow> awaits a \<Longrightarrow> CloseWriters \<notin> set as"
  "self_driven (a # as) \<Longrightarrow> awaits a \<or> a = CancelMonitor \<Longrightarrow> CancelMonitor \<notin> set as"
  by (cases as; auto)+

locale stoppable = machine "react K" inv "\<lambda>_. True"
  for K :: "('s, 'e) server_code" and inv :: "'s \<Rightarrow> bool" +
  assumes end_closes: "inv s \<Longrightarrow> c \<in> set (open_clients K s) \<Longrightarrow>
      set (open_clients K (react K s (end_of_stream K c))) = set (open_clients K s) - {c}"
    and only_opens: "inv s \<Longrightarrow> \<not> opens K e \<Longrightarrow> set (open_clients K (react K s e)) \<subseteq> set (open_clients K s)"
    and ends_open_nothing: "\<not> opens K (end_of_stream K c)"
    and cancel_keeps: "inv s \<Longrightarrow> cancel_monitor K s = Inr s' \<Longrightarrow> inv s' \<and> open_clients K s' = open_clients K s"
    and stops_in_order: "listener_first (stop_order K b)" "CloseListener \<in> set (stop_order K b) \<longleftrightarrow> b"
      "CloseWriters \<in> set (stop_order K b)"
begin

text \<open>What holds between the events: the listener is closed once its statement has run, and no connection is
  open that \<open>stop\<close> has not closed once that statement has run too.\<close>

definition closed_so_far :: "stop_action list \<Rightarrow> 's life \<Rightarrow> bool" where
  "closed_so_far as l \<longleftrightarrow> listener_first as \<and> (CloseListener \<notin> set as \<longrightarrow> \<not> lf_listening l) \<and>
     (CloseListener \<notin> set as \<and> CloseWriters \<notin> set as \<longrightarrow> set (open_clients K (lf_server l)) \<subseteq> set (lf_closing l))"

definition life_ok :: "'s life \<Rightarrow> bool" where
  "life_ok l \<longleftrightarrow> inv (lf_server l) \<and>
     (case lf_stage l of
        Stopping as \<Rightarrow> as \<noteq> [] \<and> \<not> lf_running l \<and> (\<exists>us b. stop_order K b = us @ as) \<and> closed_so_far as l
      | Serving \<Rightarrow> lf_running l
      | _ \<Rightarrow> \<not> lf_running l \<and> \<not> lf_listening l)"

lemma reacting_ok:
  assumes "life_ok l" "opens K e \<longrightarrow> lf_listening l"
  shows "life_ok (l\<lparr>lf_server := react K (lf_server l) e\<rparr>)"
proof -
  have i: "inv (lf_server l)" using assms(1) by (simp add: life_ok_def)
  have "set (open_clients K (react K (lf_server l) e)) \<subseteq> set (open_clients K (lf_server l))" if "\<not> lf_listening l"
    using only_opens [OF i] that assms(2) by blast
  then show ?thesis
    using assms(1) step_inv [OF i] by (auto simp: life_ok_def closed_so_far_def split: stage.splits)
qed

lemma proceed_ok:
  assumes "life_ok l"
  shows "life_ok (life_proceed K l)"
proof (cases "lf_stage l")
  case (Stopping as)
  then obtain a as' us b where as: "as = a # as'" "stop_order K b = us @ a # as'" "\<not> lf_running l" "inv (lf_server l)"
    and c: "closed_so_far (a # as') l"
    using assms by (cases as) (auto simp: life_ok_def)
  have suf: "\<exists>us b. stop_order K b = us @ as'" using as(2) by (metis append.assoc append_Cons append_Nil)
  have lf: "listener_first as'" using c by (cases as') (auto simp: closed_so_far_def)
  show ?thesis
  proof (cases a)
    case CancelMonitor
    then show ?thesis
      using as c suf lf cancel_keeps [OF as(4)] Stopping
      by (auto simp: life_proceed_def life_ok_def stage_of_def closed_so_far_def split: sum.splits)
  qed (use as c suf lf Stopping in \<open>auto simp: life_proceed_def life_ok_def stage_of_def closed_so_far_def\<close>)
qed (use assms in \<open>simp_all add: life_proceed_def\<close>)

lemma stopping_ok:
  assumes "life_ok l"
  shows "life_ok (life_stop K l)"
proof -
  have ne: "stop_order K b \<noteq> []" for b using stops_in_order(3) [of b] by auto
  have suf: "\<exists>us b'. stop_order K b' = us @ stop_order K b" for b by (metis append_Nil)
  show ?thesis
    using assms stops_in_order(1,3) stops_in_order(2) [of "lf_running l"] ne [of "lf_running l"] suf [of "lf_running l"]
    by (cases "lf_stage l") (auto simp: life_stop_def life_ok_def stage_of_def closed_so_far_def)
qed

lemma life_step_ok: "life_ok l \<Longrightarrow> life_ok (life_step K l e)"
  by (cases e) (auto simp: stopping_ok proceed_ok intro!: reacting_ok simp: ends_open_nothing)

lemma life_run_ok: "life_ok l \<Longrightarrow> life_ok (foldl (life_step K) l es)"
  by (induction es arbitrary: l) (simp_all add: life_step_ok)

text \<open>Reading the ends of their streams, the handlers of closed connections all finish.\<close>

lemma drops_empty:
  assumes "life_ok l" "set (open_clients K (lf_server l)) \<subseteq> set (lf_closing l)"
  shows "\<exists>cs. length cs = card (set (open_clients K (lf_server l))) \<and>
    (let l' = foldl (life_step K) l (map LDrop cs) in
      open_clients K (lf_server l') = [] \<and> life_ok l' \<and> lf_stage l' = lf_stage l)"
  using assms
proof (induction "card (set (open_clients K (lf_server l)))" arbitrary: l)
  case 0
  then show ?case by (intro exI [of _ "[]"]) simp
next
  case (Suc n)
  then obtain c where c: "c \<in> set (open_clients K (lf_server l))" by fastforce
  have i: "inv (lf_server l)" using Suc.prems(1) by (simp add: life_ok_def)
  let ?l = "life_step K l (LDrop c)"
  have l: "?l = l\<lparr>lf_server := react K (lf_server l) (end_of_stream K c)\<rparr>" using c Suc.prems(2) by auto
  have o: "set (open_clients K (lf_server ?l)) = set (open_clients K (lf_server l)) - {c}"
    using end_closes [OF i c] unfolding l by simp
  have "n = card (set (open_clients K (lf_server ?l)))" using Suc.hyps(2) c o by simp
  from Suc.hyps(1) [OF this life_step_ok [OF Suc.prems(1)]] obtain cs where
    "length cs = card (set (open_clients K (lf_server ?l)))"
    "let l' = foldl (life_step K) ?l (map LDrop cs) in open_clients K (lf_server l') = [] \<and> life_ok l' \<and> lf_stage l' = lf_stage ?l"
    using o Suc.prems(2) l by auto
  then show ?case
    using Suc.hyps(2) \<open>n = card _\<close> l by (intro exI [of _ "c # cs"]) (simp add: Let_def)
qed

text \<open>A \<open>stop\<close> that awaits nothing before it has closed the writers returns without any help of the
  peers.\<close>

lemma stop_returns:
  assumes "life_ok l" "lf_stage l = Stopping as" "self_driven as"
    "CancelMonitor \<in> set as \<longrightarrow> (\<exists>s. cancel_monitor K (lf_server l) = Inr s)"
  shows "\<exists>evs. set evs \<subseteq> insert LProceed (range LDrop) \<and>
    length evs \<le> length as + card (set (open_clients K (lf_server l))) \<and>
    (let l' = foldl (life_step K) l evs in lf_stage l' = Stopped \<and> life_ok l' \<and> open_clients K (lf_server l') = [])"
  using assms
proof (induction as arbitrary: l)
  case (Cons a as)
  note k = self_driven_Cons [OF Cons.prems(3)]
  show ?case
  proof (cases "awaits a")
    case True
    have "CloseListener \<notin> set (a # as)" "CloseWriters \<notin> set (a # as)"
      using True k(2) Cons.prems(1,2) by (auto simp: life_ok_def closed_so_far_def awaits_def)
    then have "set (open_clients K (lf_server l)) \<subseteq> set (lf_closing l)"
      using Cons.prems(1,2) by (auto simp: life_ok_def closed_so_far_def)
    from drops_empty [OF Cons.prems(1) this] obtain cs l1 where cs: "length cs = card (set (open_clients K (lf_server l)))"
      "l1 = foldl (life_step K) l (map LDrop cs)" "open_clients K (lf_server l1) = []" "life_ok l1" "lf_stage l1 = Stopping (a # as)"
      using Cons.prems(2) by (auto simp: Let_def)
    let ?l = "life_step K l1 LProceed"
    have l: "?l = l1\<lparr>lf_stage := stage_of as\<rparr>"
      using True cs(3,5) by (auto simp: life_proceed_def awaits_def)
    have ok: "life_ok ?l" using life_step_ok [OF cs(4)] .
    show ?thesis
    proof (cases "as = []")
      case True
      then show ?thesis
        using cs ok l by (intro exI [of _ "map LDrop cs @ [LProceed]"]) (auto simp: Let_def stage_of_def)
    next
      case False
      then have "\<exists>evs. set evs \<subseteq> insert LProceed (range LDrop) \<and> length evs \<le> length as + card (set (open_clients K (lf_server ?l))) \<and>
        (let l' = foldl (life_step K) ?l evs in lf_stage l' = Stopped \<and> life_ok l' \<and> open_clients K (lf_server l') = [])"
        using k \<open>awaits a\<close> ok l by (intro Cons.IH) (auto simp: stage_of_def)
      then obtain evs where "set evs \<subseteq> insert LProceed (range LDrop)" "length evs \<le> length as"
        "let l' = foldl (life_step K) ?l evs in lf_stage l' = Stopped \<and> life_ok l' \<and> open_clients K (lf_server l') = []"
        using l cs(3) by auto
      then show ?thesis using cs by (intro exI [of _ "map LDrop cs @ LProceed # evs"]) auto
    qed
  next
    case False
    then have as: "as \<noteq> []" using Cons.prems(3) by auto
    let ?l = "life_step K l LProceed"
    obtain l1 where r: "run_action K a l = Done l1" and o: "open_clients K (lf_server l1) = open_clients K (lf_server l)"
      and c: "CancelMonitor \<in> set as \<longrightarrow> lf_server l1 = lf_server l"
    proof (cases a)
      case CancelMonitor
      then show ?thesis
        using that Cons.prems(1,4) cancel_keeps [of "lf_server l"] k(3) by (fastforce simp: life_ok_def)
    qed (use that False in \<open>auto simp: awaits_def\<close>)
    have l: "?l = l1\<lparr>lf_stage := stage_of as\<rparr>" using r Cons.prems(2) by (simp add: life_proceed_def)
    have "\<exists>evs. set evs \<subseteq> insert LProceed (range LDrop) \<and> length evs \<le> length as + card (set (open_clients K (lf_server ?l))) \<and>
        (let l' = foldl (life_step K) ?l evs in lf_stage l' = Stopped \<and> life_ok l' \<and> open_clients K (lf_server l') = [])"
      using k as life_step_ok [OF Cons.prems(1), of LProceed] l Cons.prems(4) c by (intro Cons.IH) (auto simp: stage_of_def)
    then obtain evs where "set evs \<subseteq> insert LProceed (range LDrop)" "length evs \<le> length as + card (set (open_clients K (lf_server l)))"
        "let l' = foldl (life_step K) ?l evs in lf_stage l' = Stopped \<and> life_ok l' \<and> open_clients K (lf_server l') = []"
      using l o by auto
    then show ?thesis by (intro exI [of _ "LProceed # evs"]) auto
  qed
qed simp

end

section \<open>Both servers are such servers\<close>

lemma client_ids_iff: "c \<in> set (client_ids g) \<longleftrightarrow> dict_get (gw_clients g) c \<noteq> None"
  by (simp add: client_ids_def map_of_eq_None_iff)

lemma client_ids_cong: "gw_clients g' = gw_clients g \<Longrightarrow> client_ids g' = client_ids g"
  by (simp add: client_ids_def)

lemma close_client_ids: "client_ids (close_client c now g) = filter (\<lambda>k. k \<noteq> c) (client_ids g)"
proof (cases "dict_get (gw_clients g) c")
  case None
  then have "\<forall>k \<in> set (client_ids g). k \<noteq> c" using client_ids_iff by blast
  then show ?thesis using None by (simp add: close_client_def)
next
  case (Some ns)
  have "map fst (filter (\<lambda>(k, _). c \<noteq> k) cs) = filter (\<lambda>k. k \<noteq> c) (map fst cs)" for cs :: "(nat, string list) dict"
    by (induction cs) auto
  then show ?thesis using Some by (simp add: close_client_def client_ids_def AList.delete_eq)
qed

lemma client_ids_frame [simp]:
  "client_ids (emit_gateway_event a t n d g) = client_ids g" "client_ids (snd (observe_message m a b g)) = client_ids g"
  "client_ids (note_status st m a g) = client_ids g" "client_ids (deliver rc g) = client_ids g"
  by (simp_all add: client_ids_def observe_message_def note_status_def deliver_def Let_def case_prod_beta)

lemma identify_node_ids: "client_ids (identify_node c n t g) = client_ids g"
  by (auto simp: identify_node_def client_ids_def dict_set_keys map_of_eq_None_iff rev_image_eqI dest: map_of_SomeD
      split: option.splits sum.splits)

lemma handle_line_ids: "client_ids (handle_line pj ld c line a b now g) = client_ids g"
proof (cases "parse_message pj (butlast line)")
  case (Inl e)
  then show ?thesis by (cases e) (simp_all add: handle_line_def reject_malformed_def reject_schema_def, simp_all add: client_ids_def)
next
  case (Inr m)
  then show ?thesis
    by (simp add: handle_line_def accept_message_def Let_def case_prod_beta identify_node_ids) (simp add: client_ids_def)
qed

lemma gw_step_ids:
  assumes "\<forall>c peer now. e \<noteq> GAccept c peer now"
  shows "set (client_ids (gw_step pj ld g e)) \<subseteq> set (client_ids g)"
proof (cases e)
  case (GFrame c f a b now)
  have "client_ids (count_end f now g) = client_ids g" by (rule client_ids_cong) simp
  then have cl: "set (client_ids (close_client c now (count_end f now g))) \<subseteq> set (client_ids g)"
    by (simp add: close_client_ids)
  then show ?thesis using GFrame by (cases f) (simp_all add: client_frame_def handle_line_ids)
next
  case (GHandlerError c now)
  then show ?thesis by (auto simp: close_client_ids)
next
  case (GLiveness m w)
  have "gw_clients (monitor_liveness m w g) = gw_clients g"
    by (cases "refresh_health (gw_registry g) m w") (simp_all add: monitor_liveness_def case_prod_beta)
  then show ?thesis using GLiveness by (simp add: client_ids_def)
qed (use assms in simp)

interpretation gwlife: stoppable "gateway_code pj ld now" gw_ok for pj ld now
proof unfold_locales
  fix s :: gateway_server and e s' c b
  show "gw_ok s \<Longrightarrow> gw_ok (react (gateway_code pj ld now) s e)"
    by (simp add: gateway_code_def gw_step_ok)
  show "gw_ok s \<Longrightarrow> \<not> opens (gateway_code pj ld now) e \<Longrightarrow>
      set (open_clients (gateway_code pj ld now) (react (gateway_code pj ld now) s e)) \<subseteq> set (open_clients (gateway_code pj ld now) s)"
    using gw_step_ids [of e pj ld s] by (simp add: gateway_code_def split: gw_event.splits)
  show "gw_ok s \<Longrightarrow> c \<in> set (open_clients (gateway_code pj ld now) s) \<Longrightarrow>
      set (open_clients (gateway_code pj ld now) (react (gateway_code pj ld now) s (end_of_stream (gateway_code pj ld now) c))) =
      set (open_clients (gateway_code pj ld now) s) - {c}"
    using close_client_ids [of c now s] by (auto simp: gateway_code_def client_frame_def count_end_def client_ids_iff)
  show "gw_ok s \<Longrightarrow> cancel_monitor (gateway_code pj ld now) s = Inr s' \<Longrightarrow>
      gw_ok s' \<and> open_clients (gateway_code pj ld now) s' = open_clients (gateway_code pj ld now) s"
    by (auto simp: gateway_code_def cancel_liveness_def client_ids_def gw_ok_cong [of "s\<lparr>gw_monitor := NoTask\<rparr>" s]
        split: task.splits)
qed (auto simp: gateway_code_def gateway_stop_order_def)

text \<open>The collector's handlers keep their files apart from the invariant needed here.\<close>

definition co_live :: "collector_state \<Rightarrow> bool" where
  "co_live s \<longleftrightarrow> distinct (co_clients (fst s)) \<and> cs_active_connections (co_stats (fst s)) = int (length (co_clients (fst s)))"

lemma co_close_live: "co_live (c, fs) \<Longrightarrow> co_live (co_close cid c, fs')"
  using co_close_active [of c cid] by (simp add: co_live_def)

lemma co_live_cong: "co_clients c' = co_clients c \<Longrightarrow> cs_active_connections (co_stats c') = cs_active_connections (co_stats c) \<Longrightarrow>
  co_live (c', fs') = co_live (c, fs)"
  by (simp add: co_live_def)

lemma co_step_live:
  assumes "co_live s"
  shows "co_live (co_step pj lit dumps s e)"
proof -
  obtain c fs where s: "s = (c, fs)" by (cases s) auto
  have cl: "co_live (co_close cid c', fs')" if "co_clients c' = co_clients c"
    "cs_active_connections (co_stats c') = cs_active_connections (co_stats c)" for cid c' fs'
    using assms that co_live_cong [OF that, of fs' fs] s by (blast intro: co_close_live)
  show ?thesis
  proof (cases e)
    case (CoFrame cid f a b)
    then show ?thesis
      using assms s cl
      by (cases f) (auto simp: co_frame_def co_line_def count_message_def call_back_def Let_def co_live_def
          split: sum.splits option.splits)
  qed (use assms s cl in \<open>auto simp: co_accept_def co_live_def\<close>)
qed

lemma co_close_ids: "distinct (co_clients c) \<Longrightarrow> set (co_clients (co_close cid c)) = set (co_clients c) - {cid}"
  by (auto simp: co_close_def)

lemma co_step_ids:
  assumes "co_live s" "\<forall>c. e \<noteq> CoAccept c"
  shows "set (co_clients (fst (co_step pj lit dumps s e))) \<subseteq> set (co_clients (fst s))"
proof -
  obtain c fs where s: "s = (c, fs)" by (cases s) auto
  have cl: "set (co_clients (co_close cid c')) \<subseteq> set (co_clients c)" if "co_clients c' = co_clients c" for cid c'
    using that by (auto simp: co_close_def dest: in_set_remove1 set_remove1_subset [THEN subsetD])
  show ?thesis
  proof (cases e)
    case (CoFrame cid f a b)
    then show ?thesis
      using s cl
      by (cases f) (auto simp: co_frame_def co_line_def count_message_def call_back_def Let_def
          split: sum.splits option.splits)
  qed (use assms s cl in auto)
qed

interpretation colife: stoppable "collector_code pj lit dumps now" co_live for pj lit dumps now
proof unfold_locales
  fix s :: collector_state and e s' c b
  let ?K = "collector_code pj lit dumps now"
  show "co_live s \<Longrightarrow> co_live (react ?K s e)"
    by (simp add: collector_code_def co_step_live)
  show "co_live s \<Longrightarrow> \<not> opens ?K e \<Longrightarrow> set (open_clients ?K (react ?K s e)) \<subseteq> set (open_clients ?K s)"
    using co_step_ids [of s e pj lit dumps] by (simp add: collector_code_def split: co_event.splits)
  show "co_live s \<Longrightarrow> c \<in> set (open_clients ?K s) \<Longrightarrow>
      set (open_clients ?K (react ?K s (end_of_stream ?K c))) = set (open_clients ?K s) - {c}"
    using co_close_ids [of "fst s" c] by (cases s) (simp add: collector_code_def co_frame_def co_live_def)
qed (auto simp: collector_code_def collector_stop_order_def)

section \<open>Stopping\<close>

lemma new_gateway_ok:
  assumes "GatewayServer mb idle reg interval om og oh = Inr g0" "NodeRegistry e s f = Inr reg"
  shows "gw_ok g0"
proof -
  have "nodes reg = []" "total_received reg = 0" using assms(2) by (auto simp: NodeRegistry_def total_received_def split: if_splits)
  then show ?thesis
    using assms NodeRegistry_ok [OF assms(2)]
    by (auto simp: GatewayServer_def gw_ok_def zero_gateway_stats_def active_of_def holders_def split: if_splits)
qed

lemma gateway_order_self_driven: "self_driven (gateway_stop_order b)"
  by (simp add: gateway_stop_order_def awaits_def)


text \<open>The events by which a client's connection to the collector ends.\<close>

fun disconnects :: "nat \<Rightarrow> co_event life_event \<Rightarrow> bool" where
  "disconnects cid (LServer (CoFrame c f _ _)) = (c = cid \<and> (case f of FLine _ \<Rightarrow> False | _ \<Rightarrow> True))"
| "disconnects cid (LServer (CoError c)) = (c = cid)"
| "disconnects cid _ = False"

lemma co_step_keeps:
  assumes "cid \<in> set (co_clients (fst s))" "\<not> disconnects cid (LServer e)"
  shows "cid \<in> set (co_clients (fst (co_step pj lit dumps s e)))"
proof -
  obtain c fs where s: "s = (c, fs)" by (cases s) auto
  have cl: "cid \<in> set (co_clients (co_close k c'))" if "k \<noteq> cid" "co_clients c' = co_clients c" for k c'
    using that assms(1) s by (simp add: co_close_def in_set_remove1)
  have line: "co_clients (fst (co_line pj lit dumps k ln a b s)) = co_clients c" for k ln a b
    using append_output_ok [OF parse_upstream_valid] s
    by (auto simp: co_line_def count_message_def call_back_def Let_def split: sum.splits option.splits)
  show ?thesis
  proof (cases e)
    case (CoFrame k f a b)
    then show ?thesis using assms s cl line by (cases f) (auto simp: co_frame_def)
  qed (use assms s cl in \<open>auto simp: co_accept_def\<close>)
qed

text \<open>C20: Stopping a collector waits for its clients: \<open>stop\<close> awaits the listener before it closes any
  connection, so while one client stays connected, sending lines or silent, it never returns, whatever else
  happens and however long it runs.\<close>

theorem collector_stop_waits_for_peers:
  assumes "lf_stage l = Serving" "lf_running l" "cid \<in> set (co_clients (fst (lf_server l)))"
    "list_all (\<lambda>e. \<not> disconnects cid e) evs"
  shows "let l' = foldl (life_step (collector_code pj lit dumps now)) l (LStop # evs) in
    (\<exists>as. lf_stage l' = Stopping as \<and> CloseWriters \<in> set as) \<and> cid \<in> set (co_clients (fst (lf_server l')))"
proof -
  let ?K = "collector_code pj lit dumps now"
  let ?full = "[CloseListener, AwaitListener, CloseWriters, AwaitHandlers]"
  let ?P = "\<lambda>l. (lf_stage l = Stopping ?full \<or> lf_stage l = Stopping (tl ?full)) \<and> lf_closing l = [] \<and>
    cid \<in> set (co_clients (fst (lf_server l)))"
  have step: "?P (life_step ?K l e)" if "?P l" "\<not> disconnects cid e" for l :: "collector_state life" and e
  proof (cases e)
    case LProceed
    have "open_clients ?K (lf_server l) \<noteq> []" using that(1) by (auto)
    then show ?thesis using that(1) LProceed by (auto simp: life_proceed_def stage_of_def)
  next
    case (LServer x)
    have "cid \<in> set (co_clients (fst (react ?K (lf_server l) x)))"
      using co_step_keeps [of cid "lf_server l" x pj lit dumps] that LServer by simp
    then show ?thesis using that(1) LServer by simp
  qed (use that(1) in \<open>auto simp: life_stop_def\<close>)
  have "?P (foldl (life_step ?K) l evs)" if "?P l" "list_all (\<lambda>e. \<not> disconnects cid e) evs" for l evs
    using that step by (induction evs arbitrary: l) auto
  moreover have "?P (life_step ?K l LStop)"
    using assms by (simp add: life_stop_def stage_of_def collector_stop_order_def)
  ultimately have "?P (foldl (life_step ?K) (life_step ?K l LStop) evs)" using assms(4) by blast
  then show ?thesis by (auto simp: Let_def)
qed

text \<open>Without a connection the same \<open>stop\<close> returns; and a collector whose socket could not be bound leaves
  its empty output behind, which refuses the next start.\<close>

lemma collector_stop_without_clients:
  assumes "lf_stage l = Serving" "lf_running l" "co_clients (fst (lf_server l)) = []"
  shows "lf_stage (foldl (life_step (collector_code pj lit dumps now)) l (LStop # replicate 4 LProceed)) = Stopped"
  using assms
  by (simp add: eval_nat_numeral life_stop_def life_proceed_def stage_of_def collector_stop_order_def)

lemma collector_restart_after_failed_bind:
  assumes "collector_listen (Some e) (new_life (c, fs)) = (Some e, l)" "co_output_path c = Some p" "fs p = None"
  shows "fst (collector_listen bind l) = Some (FileExistsError p)"
  using assms by (auto simp: collector_listen_def new_life_def co_start_def create_exclusive_def)

section \<open>Witnesses\<close>

definition sample_life :: "gateway_server life" where
  "sample_life = foldl (life_step (gateway_code sample_parser (\<lambda>_. None) 9)) (set_serving sample_gateway (new_life sample_gateway))
     [LServer (GAccept 0 ''p'' 1), LServer (GAccept 1 ''q'' 2), LStop, LServer (GAccept 2 ''r'' 3), LProceed]"


theorem collector_stop_waits_for_peers_witness:
  "let l = foldl (life_step (collector_code (\<lambda>b. None) (\<lambda>j. True) (\<lambda>j. []) 9))
         (set_serving (co_accept 1 (co_accept 2 sample_collector), Map.empty) (new_life (sample_collector, Map.empty)))
         (LStop # [LProceed, LServer (CoFrame 1 (FLine ''x'') 2 3), LServer (CoFrame 2 FClosed 4 5), LProceed, LDrop 1, LProceed])
   in \<exists>as. lf_stage l = Stopping as \<and> CloseWriters \<in> set as"
  using collector_stop_waits_for_peers [of "set_serving (co_accept 1 (co_accept 2 sample_collector), Map.empty)
      (new_life (sample_collector, Map.empty))" 1
      "[LProceed, LServer (CoFrame 1 (FLine ''x'') 2 3), LServer (CoFrame 2 FClosed 4 5), LProceed, LDrop 1, LProceed]"
      "\<lambda>b. None" "\<lambda>j. True" "\<lambda>j. []" 9]
  by (simp add: set_serving_def co_accept_def Let_def)

end
