(* ===== verification/Measures.thy ===== *)
theory Measures
  imports Upstream_Protocol "HOL-Library.Sublist" "HOL-Library.Multiset"
begin

text \<open>
  The measures of the analysis (\<^verbatim>\<open>src/analysis/analyze.py\<close>) that are computed from single records and
  lists of numbers: typed access to evidence dictionaries, the filters of the measurement interval,
  deduplication by record id, the baseline readings, delays, ratios, mean, median and percentile. A
  JSON object of the evidence is an association list; \<open>text_of\<close> is Python's \<open>str\<close> on a JSON value.
\<close>

section \<open>Access to evidence\<close>

type_synonym evidence = "(string \<times> json) list"

definition field :: "evidence \<Rightarrow> string \<Rightarrow> json result" where
  "field d k = (case map_of d k of None \<Rightarrow> Inl (KeyError k) | Some v \<Rightarrow> Inr v)"

definition digits :: "string \<Rightarrow> bool" where
  "digits s \<longleftrightarrow> s \<noteq> [] \<and> list_all (\<lambda>c. 48 \<le> (of_char c :: nat) \<and> of_char c \<le> (57 :: nat)) s"

definition decimal :: "string \<Rightarrow> int" where
  "decimal s = foldl (\<lambda>a c. 10 * a + (int (of_char c) - 48)) 0 s"

text \<open>\<open>int(...)\<close> of a JSON value.\<close>

fun py_int_json :: "json \<Rightarrow> int result" where
  "py_int_json (JInt i) = Inr i"
| "py_int_json (JBool b) = Inr (if b then 1 else 0)"
| "py_int_json (JFloat f) = py_int f"
| "py_int_json (JStr s) = (if digits s then Inr (decimal s) else Inl (ValueError ''invalid literal for int()''))"
| "py_int_json _ = Inl (TypeError ''int() argument'')"

definition int_field :: "evidence \<Rightarrow> string \<Rightarrow> int result" where
  "int_field d k = rbind (field d k) py_int_json"

text \<open>Python's truth of a JSON value, and equality, which compares numbers by value and objects without
  their order.\<close>

fun truthy :: "json \<Rightarrow> bool" where
  "truthy JNull = False"
| "truthy (JBool b) = b"
| "truthy (JInt i) = (i \<noteq> 0)"
| "truthy (JFloat f) = (\<not> feq f (Fin 0))"
| "truthy (JStr s) = (s \<noteq> [])"
| "truthy (JArr xs) = (xs \<noteq> [])"
| "truthy (JObj fs) = (fs \<noteq> [])"

fun number :: "json \<Rightarrow> pyfloat option" where
  "number (JInt i) = Some (Fin (of_int i))"
| "number (JBool b) = Some (Fin (if b then 1 else 0))"
| "number (JFloat f) = Some f"
| "number _ = None"

function py_eq :: "json \<Rightarrow> json \<Rightarrow> bool" where
  "py_eq a b =
     (case (number a, number b) of
        (Some x, Some y) \<Rightarrow> feq x y
      | _ \<Rightarrow> (case (a, b) of
          (JNull, JNull) \<Rightarrow> True
        | (JStr s, JStr t) \<Rightarrow> s = t
        | (JArr xs, JArr ys) \<Rightarrow> length xs = length ys \<and> list_all (\<lambda>i. py_eq (xs ! i) (ys ! i)) [0..<length xs]
        | (JObj fs, JObj gs) \<Rightarrow> length fs = length gs \<and>
            list_all (\<lambda>p. case map_of gs (fst p) of None \<Rightarrow> False | Some w \<Rightarrow> py_eq (snd p) w) fs
        | _ \<Rightarrow> False))"
  by pat_completeness auto

lemma size_nth_json: "i < length xs \<Longrightarrow> size (xs ! i) < Suc (size_list size xs)"
  by (meson nth_mem size_list_estimation' order_refl le_imp_less_Suc)

lemma size_snd_json: "(k, v) \<in> set fs \<Longrightarrow> size v < Suc (size_list (size_prod (\<lambda>x. 0) size) fs)"
  by (rule le_imp_less_Suc, erule size_list_estimation') simp

termination py_eq
  by (relation "measure (\<lambda>(a, b). size a)") (auto simp: size_nth_json size_snd_json)

declare py_eq.simps [simp del]

lemma py_eq_str [simp]: "py_eq (JStr s) (JStr t) \<longleftrightarrow> s = t" "py_eq (JInt i) (JInt j) \<longleftrightarrow> i = j"
  by (simp_all add: py_eq.simps feq_def)

text \<open>A value without NaN and with distinct keys equals itself.\<close>

fun comparable :: "json \<Rightarrow> bool" where
  "comparable (JFloat f) = (f \<noteq> NaN)"
| "comparable (JArr xs) = list_all comparable xs"
| "comparable (JObj fs) = (distinct (map fst fs) \<and> list_all (\<lambda>p. comparable (snd p)) fs)"
| "comparable _ = True"

lemma py_eq_refl: "comparable a \<Longrightarrow> py_eq a a"
proof (induction a)
  case (JArr xs)
  then show ?case by (simp add: py_eq.simps [of "JArr xs"] list_all_iff)
next
  case (JObj fs)
  have "py_eq v v \<and> map_of fs k = Some v" if "(k, v) \<in> set fs" for k v
    using that JObj by (force simp: list_all_iff)
  then show ?case by (auto simp: py_eq.simps [of "JObj fs"] list_all_iff)
qed (simp_all add: py_eq.simps [of JNull] py_eq.simps [of "JBool _"] py_eq.simps [of "JFloat _"] feq_def)

section \<open>Lists of results\<close>

fun map_result :: "('a \<Rightarrow> 'b result) \<Rightarrow> 'a list \<Rightarrow> 'b list result" where
  "map_result f [] = Inr []"
| "map_result f (x # xs) = rbind (f x) (\<lambda>y. rbind (map_result f xs) (\<lambda>ys. Inr (y # ys)))"

fun filter_result :: "('a \<Rightarrow> bool result) \<Rightarrow> 'a list \<Rightarrow> 'a list result" where
  "filter_result p [] = Inr []"
| "filter_result p (x # xs) = rbind (p x) (\<lambda>b. rbind (filter_result p xs) (\<lambda>ys. Inr (if b then x # ys else ys)))"

lemma filter_result_Inr:
  "filter_result p xs = Inr ys \<Longrightarrow> ys = filter (\<lambda>x. p x = Inr True) xs \<and> (\<forall>x \<in> set xs. is_ok (p x))"
  by (induction xs arbitrary: ys) (auto simp: rbind_eq_Inr_iff is_ok_iff split: if_splits)

lemma filter_result_total: "\<forall>x \<in> set xs. is_ok (p x) \<Longrightarrow> filter_result p xs = Inr (filter (\<lambda>x. p x = Inr True) xs)"
  by (induction xs) (auto simp: is_ok_iff)

section \<open>The measurement interval\<close>

definition record_of :: "evidence \<Rightarrow> evidence result" where
  "record_of w = (case map_of w ''record'' of None \<Rightarrow> Inr [] | Some (JObj r) \<Rightarrow> Inr r
     | Some _ \<Rightarrow> Inl (TypeError ''record has no attribute get''))"

definition has_type :: "string \<Rightarrow> evidence \<Rightarrow> bool" where
  "has_type t r \<longleftrightarrow> map_of r ''type'' = Some (JStr t)"

definition include_reading :: "int \<Rightarrow> int \<Rightarrow> evidence \<Rightarrow> bool result" where
  "include_reading from_ms until_ms item =
     (if \<not> has_type ''reading'' item then Inr False
      else rbind (int_field item ''gateway_received_at_ms'') (\<lambda>t. Inr (from_ms \<le> t \<and> t < until_ms)))"

definition measurement_readings :: "int \<Rightarrow> int \<Rightarrow> evidence list \<Rightarrow> evidence list result" where
  "measurement_readings from_ms until_ms items = filter_result (include_reading from_ms until_ms) items"

definition include_upstream :: "int \<Rightarrow> int \<Rightarrow> evidence \<Rightarrow> bool result" where
  "include_upstream from_ms until_ms w =
     rbind (record_of w) (\<lambda>r.
       if has_type ''raw'' r
       then rbind (int_field r ''gateway_received_at_ms'') (\<lambda>t. Inr (from_ms \<le> t \<and> t < until_ms))
       else if has_type ''aggregate'' r
       then rbind (int_field r ''window_start_ms'') (\<lambda>ws.
         if from_ms \<le> ws then rbind (int_field r ''window_end_ms'') (\<lambda>we. Inr (we \<le> until_ms)) else Inr False)
       else Inr False)"

definition filter_upstream :: "evidence list \<Rightarrow> int \<Rightarrow> int \<Rightarrow> evidence list result" where
  "filter_upstream records from_ms until_ms = filter_result (include_upstream from_ms until_ms) records"

section \<open>Deduplication\<close>

text \<open>\<open>wrapper["record"]\<close>, which has to be an object with a \<open>record_id\<close>.\<close>

definition record_field :: "evidence \<Rightarrow> evidence result" where
  "record_field w = rbind (field w ''record'') (\<lambda>j. case j of JObj r \<Rightarrow> Inr r | _ \<Rightarrow> Inl (TypeError ''not subscriptable''))"

definition record_id_of :: "(json \<Rightarrow> string) \<Rightarrow> evidence \<Rightarrow> (string \<times> evidence) result" where
  "record_id_of text_of w =
     rbind (record_field w) (\<lambda>r. rbind (field r ''record_id'') (\<lambda>j. Inr (text_of j, r)))"

fun dedup_from :: "(json \<Rightarrow> string) \<Rightarrow> (string \<times> evidence) list \<Rightarrow> evidence list \<Rightarrow> (evidence list \<times> int) result" where
  "dedup_from text_of seen [] = Inr ([], 0)"
| "dedup_from text_of seen (w # ws) =
     rbind (record_id_of text_of w) (\<lambda>(rid, r).
       case map_of seen rid of
         Some r' \<Rightarrow>
           if \<not> py_eq (JObj r) (JObj r') then Inl (AnalysisError ''collector record_id has conflicting payloads'')
           else rbind (dedup_from text_of seen ws) (\<lambda>(us, n). Inr (us, n + 1))
       | None \<Rightarrow> rbind (dedup_from text_of (seen @ [(rid, r)]) ws) (\<lambda>(us, n). Inr (w # us, n)))"

definition deduplicate_upstream :: "(json \<Rightarrow> string) \<Rightarrow> evidence list \<Rightarrow> (evidence list \<times> int) result" where
  "deduplicate_upstream text_of records = dedup_from text_of [] records"

section \<open>Baseline and delays\<close>

definition window_of :: "evidence \<Rightarrow> (int \<times> int) result" where
  "window_of w = rbind (record_field w) (\<lambda>r. rbind (int_field r ''window_start_ms'') (\<lambda>s.
     rbind (int_field r ''window_end_ms'') (\<lambda>e. Inr (s, e))))"

definition is_aggregate :: "evidence \<Rightarrow> bool result" where
  "is_aggregate w = rbind (record_of w) (\<lambda>r. Inr (has_type ''aggregate'' r))"

definition in_windows :: "(int \<times> int) list \<Rightarrow> evidence \<Rightarrow> bool result" where
  "in_windows windows item =
     (if windows = [] then Inr False
      else rbind (int_field item ''gateway_received_at_ms'') (\<lambda>t. Inr (list_ex (\<lambda>(s, e). s \<le> t \<and> t < e) windows)))"

definition baseline_readings :: "evidence list \<Rightarrow> evidence list \<Rightarrow> string \<Rightarrow> evidence list result" where
  "baseline_readings readings unique mode =
     (if mode = ''raw'' then Inr readings
      else rbind (filter_result is_aggregate unique) (\<lambda>aggregates.
        rbind (map_result window_of aggregates) (\<lambda>windows. filter_result (in_windows windows) readings)))"

definition information_delay :: "evidence \<Rightarrow> int result" where
  "information_delay w =
     rbind (record_field w) (\<lambda>r. rbind (field r ''type'') (\<lambda>t.
       rbind (if t = JStr ''raw'' then int_field r ''gateway_received_at_ms'' else int_field r ''window_start_ms'') (\<lambda>origin.
         rbind (int_field w ''collector_received_at_ms'') (\<lambda>c. Inr (c - origin)))))"

text \<open>\<open>_hypothetical_raw_bytes\<close>: what the reading would have cost as a raw record.\<close>

definition reading_keys_of :: "string list" where
  "reading_keys_of = [''type'', ''version'', ''node_id'', ''node_kind'', ''sequence'', ''timestamp_ms'', ''temperature_c'',
     ''humidity_pct'', ''pressure_hpa'']"

definition hypothetical_raw_bytes :: "json_printer \<Rightarrow> evidence \<Rightarrow> int result" where
  "hypothetical_raw_bytes dump_json item =
     rbind (map_result (\<lambda>k. rbind (field item k) (\<lambda>v. Inr (k, v))) reading_keys_of) (\<lambda>fs.
       case validate_reading fs of
         None \<Rightarrow> Inl ValidationError
       | Some r \<Rightarrow>
         rbind (int_field item ''gateway_received_at_ms'') (\<lambda>at_ms.
         rbind (int_field item ''gateway_received_monotonic_ns'') (\<lambda>mono.
         rbind (int_field item ''sensor_wire_bytes'') (\<lambda>wire.
         rbind (field item ''sequence_status'') (\<lambda>st.
           case (case st of JStr s \<Rightarrow> sequence_status_of_str s | _ \<Rightarrow> None) of
             None \<Rightarrow> Inl (ValueError ''not a valid SequenceStatus'')
           | Some status \<Rightarrow>
             rbind (RawUpstreamRecord \<lparr>ru_record_id = raw_record_id r mono, ru_forwarded_at_ms = at_ms,
                 gateway_received_at_ms = at_ms, gateway_received_monotonic_ns = mono, sensor_wire_bytes = wire,
                 ru_sequence_status = status, ru_reading = r\<rparr>) (\<lambda>u.
               Inr (int (length (encode_upstream_record dump_json (RawRecord u))))))))))"

section \<open>Statistics\<close>

definition safe_ratio :: "int \<Rightarrow> int \<Rightarrow> pyfloat" where
  "safe_ratio n d = (if d = 0 then Fin 0 else fl (of_int n / of_int d))"

definition reduction :: "int \<Rightarrow> int \<Rightarrow> pyfloat option" where
  "reduction actual baseline = (if baseline = 0 then None else Some (fsub (Fin 1) (fl (of_int actual / of_int baseline))))"

definition mean :: "int list \<Rightarrow> pyfloat option" where
  "mean xs = (if xs = [] then None else Some (case fdiv (fl (of_int (sum_list xs))) (fl (of_nat (length xs))) of Inr m \<Rightarrow> m | Inl _ \<Rightarrow> NaN))"

text \<open>\<open>statistics.median\<close>: the middle value, or half the sum of the two in the middle.\<close>

definition median :: "int list \<Rightarrow> pyfloat option" where
  "median xs =
     (if xs = [] then None
      else let ys = sort xs; n = length ys
        in Some (if odd n then fl (of_int (ys ! (n div 2))) else fl (of_int (ys ! (n div 2 - 1) + ys ! (n div 2)) / 2)))"

text \<open>The index of \<open>_percentile\<close>, with its float arithmetic.\<close>

definition percentile_index :: "nat \<Rightarrow> pyfloat \<Rightarrow> int result" where
  "percentile_index n q =
     rbind (py_int (fadd (fmul (fl (of_nat (n - 1))) q) (fl (999999 / 1000000)))) (\<lambda>i.
       Inr (min (int n - 1) (max 0 i)))"

definition percentile :: "int list \<Rightarrow> pyfloat \<Rightarrow> pyfloat option result" where
  "percentile xs q =
     (if xs = [] then Inr None
      else rbind (percentile_index (length xs) q) (\<lambda>i. Inr (Some (fl (of_int (sort xs ! nat i))))))"

section \<open>The percentile is the nearest rank\<close>

lemma fl_095: "fl (95 / 100) = Fin (4278419646001971 / 4503599627370496)"
proof -
  have f: "\<lfloor>42784196460019712 / 5 :: rat\<rfloor> = 8556839292003942" by (simp add: floor_eq_iff)
  have "rnd_double (95 / 100) = 4278419646001971 / 4503599627370496"
    by (rule trans [OF rnd_double_eqI [where e = "- 53" and m = 8556839292003942]])
      (simp_all add: power_int_def power_one_over round_half_even_def Let_def f)
  moreover have "fl (95 / 100) = Fin (rnd_double (95 / 100))" by (rule fl_bounded [where n = 1]) simp_all
  ultimately show ?thesis by (simp only:)
qed

lemma fl_0999999: "fl (999999 / 1000000) = Fin (9007190247541737 / 9007199254740992)"
proof -
  have f: "\<lfloor>140737347617839644672 / 15625 :: rat\<rfloor> = 9007190247541737" by (simp add: floor_eq_iff)
  have "rnd_double (999999 / 1000000) = 9007190247541737 / 9007199254740992"
    by (rule trans [OF rnd_double_eqI [where e = "- 53" and m = 9007190247541737]])
      (simp_all add: power_int_def power_one_over round_half_even_def Let_def f)
  moreover have "fl (999999 / 1000000) = Fin (rnd_double (999999 / 1000000))" by (rule fl_bounded [where n = 1]) simp_all
  ultimately show ?thesis by (simp only:)
qed

text \<open>Values on the grid of \<open>2\<^sup>-\<^sup>2\<^sup>0\<close> below \<open>2\<^sup>3\<^sup>3\<close> are doubles.\<close>

lemma rnd_grid:
  assumes "\<bar>k\<bar> \<le> 2 ^ 53"
  shows "rnd_double (of_int k / 1048576) = of_int k / 1048576"
proof -
  have "representable (of_int k / 1048576)"
    unfolding representable_def
    by (rule exI [of _ k], rule exI [of _ "- 20"]) (use assms in \<open>simp add: power_int_def power_one_over\<close>)
  then show ?thesis by (rule rnd_double_representable)
qed

lemma rnd_le_grid: "x \<le> of_int k / 1048576 \<Longrightarrow> \<bar>k\<bar> \<le> 2 ^ 53 \<Longrightarrow> rnd_double x \<le> of_int k / 1048576"
  using binary64.rnd_mono [of x "of_int k / 1048576"] rnd_grid by simp

lemma rnd_ge_grid: "of_int k / 1048576 \<le> x \<Longrightarrow> \<bar>k\<bar> \<le> 2 ^ 53 \<Longrightarrow> of_int k / 1048576 \<le> rnd_double x"
  using binary64.rnd_mono [of "of_int k / 1048576" x] rnd_grid by simp

text \<open>The product is off by less than \<open>2\<^sup>-\<^sup>2\<^sup>0\<close> from the exact rank, so adding almost one and truncating gives
  its ceiling.\<close>

lemma percentile_index_exact:
  assumes "0 < n" "n \<le> 2 ^ 30"
  shows "percentile_index n (fl (95 / 100)) = Inr \<lceil>19 * (of_nat (n - 1) :: rat) / 20\<rceil>"
proof -
  define N :: rat where "N = of_nat (n - 1)"
  define K where "K = \<lceil>19 * N / 20\<rceil>"
  let ?q = "4278419646001971 / 4503599627370496 :: rat" and ?c = "9007190247541737 / 9007199254740992 :: rat"
  have N: "0 \<le> N" "N \<le> 2 ^ 30" using assms by (auto simp: N_def simp del: of_nat_diff)
  have K: "19 * N / 20 \<le> of_int K" "of_int K < 19 * N / 20 + 1" 
    using ceiling_correct [of "19 * N / 20"] by (simp_all add: K_def)
  have "(of_int (20 * K) :: rat) < of_int (19 * int (n - 1) + 20)"
    using K(2) by (simp add: N_def del: of_nat_diff)
  then have "20 * K \<le> 19 * int (n - 1) + 19" by (simp only: of_int_less_iff)
  then have "(of_int (20 * K) :: rat) \<le> of_int (19 * int (n - 1) + 19)" by (simp only: of_int_le_iff)
  then have gap: "of_int K - 19 / 20 \<le> 19 * N / 20" by (simp add: N_def del: of_nat_diff)
  have K0: "0 \<le> K" "K \<le> 2 ^ 30"
  proof -
    show "0 \<le> K" using N(1) by (simp add: K_def)
    show "K \<le> 2 ^ 30" unfolding K_def using N(2) by (intro ceiling_le) simp
  qed
  let ?x = "rnd_double (N * ?q)"
  let ?y = "rnd_double (?x + ?c)"
  have "of_int ((K - 1) * 1048576 + 32768) / 1048576 \<le> N * ?q" using gap N by (simp add: field_simps)
  then have lo: "of_int ((K - 1) * 1048576 + 32768) / 1048576 \<le> ?x" using K0 by (intro rnd_ge_grid) (auto simp: abs_le_iff)
  have "N * ?q \<le> of_int (K * 1048576) / 1048576" using K(1) N(1) by (simp add: field_simps)
  then have hi: "?x \<le> of_int (K * 1048576) / 1048576" using K0 by (intro rnd_le_grid) (auto simp: abs_le_iff)
  have "of_int (K * 1048576) / 1048576 \<le> ?x + ?c" using lo by (simp add: field_simps)
  then have "of_int (K * 1048576) / 1048576 \<le> ?y" using K0 by (intro rnd_ge_grid) (auto simp: abs_le_iff)
  moreover have "?x + ?c \<le> of_int (K * 1048576 + 1048575) / 1048576" using hi by (simp add: field_simps)
  then have "?y \<le> of_int (K * 1048576 + 1048575) / 1048576" using K0 by (intro rnd_le_grid) (auto simp: abs_le_iff)
  ultimately have y: "of_int K \<le> ?y" "?y < of_int K + 1" by (simp_all add: field_simps)
  have x0: "0 \<le> ?x" using N(1) by (intro binary64.rnd_nonneg) simp
  have "(of_int K :: rat) \<le> of_int (2 ^ 30)" using K0(2) by (simp only: of_int_le_iff)
  then have cap: "(of_int K :: rat) \<le> 2 ^ 30" by simp
  have b: "\<bar>N * ?q\<bar> \<le> of_int (2 ^ 31)" "\<bar>?x + ?c\<bar> \<le> of_int (2 ^ 31)"
    using N x0 hi cap by (simp_all add: abs_mult abs_le_iff)
  have "fl (of_int (int (n - 1))) = Fin (of_int (int (n - 1)))" using assms(2) by (intro fl_int) simp
  then have N': "fl (of_nat (n - 1)) = Fin N" by (simp add: N_def)
  have m: "fmul (Fin N) (Fin ?q) = Fin ?x" "fadd (Fin ?x) (Fin ?c) = Fin ?y"
    using fl_bounded(1) [OF b(1)] fl_bounded(1) [OF b(2)] by simp_all
  have t: "trunc ?y = K" using y K0(1) by (auto simp: trunc_def floor_eq_iff)
  have le: "K \<le> int n - 1"
  proof -
    have "19 * N / 20 \<le> of_int (int (n - 1))" using N(1) by (simp add: N_def del: of_nat_diff)
    then have "K \<le> int (n - 1)" unfolding K_def by (rule ceiling_le)
    then show ?thesis using assms(1) by simp
  qed
  have "percentile_index n (fl (95 / 100)) = Inr (min (int n - 1) (max 0 K))"
    unfolding percentile_index_def N' fl_095 fl_0999999 m by (simp only: to_integer.simps t rbind_Inr)
  moreover have "min (int n - 1) (max 0 K) = K" using K0(1) le by simp
  ultimately show ?thesis by (simp only: K_def N_def)
qed



section \<open>Deduplication keeps one wrapper per record\<close>

definition rid :: "(json \<Rightarrow> string) \<Rightarrow> evidence \<Rightarrow> string" where
  "rid text_of w = (case record_id_of text_of w of Inl _ \<Rightarrow> [] | Inr p \<Rightarrow> fst p)"

definition payload :: "(json \<Rightarrow> string) \<Rightarrow> evidence \<Rightarrow> evidence" where
  "payload text_of w = (case record_id_of text_of w of Inl _ \<Rightarrow> [] | Inr p \<Rightarrow> snd p)"

lemma dedup_from_spec:
  assumes "dedup_from text_of seen ws = Inr (us, n)"
  shows "subseq us ws \<and> n = int (length ws) - int (length us) \<and> distinct (map (rid text_of) us) \<and>
    set (map (rid text_of) us) = set (map (rid text_of) ws) - fst ` set seen \<and>
    (\<forall>w \<in> set ws. w \<in> set us \<or> (\<exists>r. (map_of seen (rid text_of w) = Some r \<or>
        (\<exists>u \<in> set us. rid text_of u = rid text_of w \<and> payload text_of u = r)) \<and> py_eq (JObj (payload text_of w)) (JObj r)))"
  using assms
proof (induction ws arbitrary: seen us n)
  case (Cons w ws)
  obtain i r where w: "record_id_of text_of w = Inr (i, r)"
    using Cons.prems by (auto simp: rbind_eq_Inr_iff)
  then have i: "rid text_of w = i" "payload text_of w = r" by (simp_all add: rid_def payload_def)
  show ?case
  proof (cases "map_of seen i")
    case None
    then obtain vs where vs: "dedup_from text_of (seen @ [(i, r)]) ws = Inr (vs, n)" "us = w # vs"
      using Cons.prems w by (auto simp: rbind_eq_Inr_iff)
    note IH = Cons.IH [OF vs(1)]
    have keys: "i \<notin> fst ` set seen" using None by (simp add: map_of_eq_None_iff)
    have kept: "\<exists>r0. (map_of seen (rid text_of x) = Some r0 \<or>
        (\<exists>u \<in> set us. rid text_of u = rid text_of x \<and> payload text_of u = r0)) \<and> py_eq (JObj (payload text_of x)) (JObj r0)"
      if x: "x \<in> set ws" "x \<notin> set us" for x
    proof -
      have "x \<notin> set vs" using x(2) vs(2) by simp
      then obtain r0 where r0: "map_of (seen @ [(i, r)]) (rid text_of x) = Some r0 \<or>
          (\<exists>u \<in> set vs. rid text_of u = rid text_of x \<and> payload text_of u = r0)" "py_eq (JObj (payload text_of x)) (JObj r0)"
        using IH x(1) by blast
      have "map_of seen (rid text_of x) = Some r0 \<or> (rid text_of x = i \<and> r0 = r)"
        if "map_of (seen @ [(i, r)]) (rid text_of x) = Some r0"
        using that by (auto simp: map_add_Some_iff split: if_splits)
      then consider "map_of seen (rid text_of x) = Some r0" | "rid text_of x = i \<and> r0 = r"
        | "\<exists>u \<in> set vs. rid text_of u = rid text_of x \<and> payload text_of u = r0"
        using r0(1) by blast
      then show ?thesis
      proof cases
        case 2
        then show ?thesis using r0(2) i vs(2) by (intro exI [of _ r]) auto
      qed (use r0(2) vs(2) in auto)
    qed
    have "set (map (rid text_of) us) = set (map (rid text_of) (w # ws)) - fst ` set seen"
      using IH vs(2) i keys by auto
    moreover have "distinct (map (rid text_of) us)" using IH vs(2) i by auto
    moreover have "subseq us (w # ws) \<and> n = int (length (w # ws)) - int (length us)" using IH vs(2) by simp
    ultimately show ?thesis using kept vs(2) by auto
  next
    case (Some r')
    then obtain m where m: "dedup_from text_of seen ws = Inr (us, m)" "n = m + 1" "py_eq (JObj r) (JObj r')"
      using Cons.prems w by (auto simp: rbind_eq_Inr_iff split: if_splits)
    have "i \<in> fst ` set seen" using Some by (force dest: map_of_SomeD)
    then show ?thesis using Cons.IH [OF m(1)] m(2,3) i Some by auto
  qed
qed simp

text \<open>Deduplication of the collector's records keeps a subsequence with one wrapper for every record
  id and counts the rest; whatever it drops carries the same payload as the wrapper it kept.\<close>

theorem deduplication_keeps_one_per_id:
  assumes "deduplicate_upstream text_of ws = Inr (us, n)"
  shows "subseq us ws \<and> n = int (length ws) - int (length us) \<and> distinct (map (rid text_of) us) \<and>
    set (map (rid text_of) us) = set (map (rid text_of) ws) \<and>
    (\<forall>w \<in> set ws. w \<in> set us \<or> (\<exists>u \<in> set us. rid text_of u = rid text_of w \<and>
       py_eq (JObj (payload text_of w)) (JObj (payload text_of u))))"
  using dedup_from_spec [OF assms [unfolded deduplicate_upstream_def]] by auto

definition sample_wrapper :: "string \<Rightarrow> int \<Rightarrow> evidence" where
  "sample_wrapper i t = [(''collector_received_at_ms'', JInt t), (''record'', JObj [(''type'', JStr ''raw''), (''record_id'', JStr i)])]"

fun plain_text :: "json \<Rightarrow> string" where
  "plain_text (JStr s) = s"
| "plain_text _ = []"

theorem deduplication_keeps_one_per_id_witness:
  "deduplicate_upstream plain_text [sample_wrapper ''a'' 1, sample_wrapper ''b'' 2, sample_wrapper ''a'' 3] =
     Inr ([sample_wrapper ''a'' 1, sample_wrapper ''b'' 2], 1) \<and>
   distinct (map (rid plain_text) [sample_wrapper ''a'' 1, sample_wrapper ''b'' 2]) \<and>
   set (map (rid plain_text) [sample_wrapper ''a'' 1, sample_wrapper ''b'' 2]) =
     set (map (rid plain_text) [sample_wrapper ''a'' 1, sample_wrapper ''b'' 2, sample_wrapper ''a'' 3])"
proof -
  have "py_eq (JObj [(''type'', JStr ''raw''), (''record_id'', JStr i)]) (JObj [(''type'', JStr ''raw''), (''record_id'', JStr i)])" for i
    by (rule py_eq_refl) simp
  then have d: "deduplicate_upstream plain_text [sample_wrapper ''a'' 1, sample_wrapper ''b'' 2, sample_wrapper ''a'' 3] =
     Inr ([sample_wrapper ''a'' 1, sample_wrapper ''b'' 2], 1)"
    by (simp add: deduplicate_upstream_def record_id_of_def record_field_def field_def sample_wrapper_def)
  then show ?thesis using deduplication_keeps_one_per_id [OF d] by blast
qed

end
