(* ===== verification/Experiment_Config.thy ===== *)
theory Experiment_Config
  imports Json Sinks
begin

text \<open>
  The validated experiment configuration (\<^verbatim>\<open>src/experiments/config.py\<close>) and the evidence
  directory with its manifest (\<^verbatim>\<open>src/experiments/manifest.py\<close>). A configuration is a record of
  typed values; \<open>ExperimentConfig\<close> applies the declared bounds and then the relationships between
  fields. Pydantic refuses a number that compares beyond its bound, so a NaN, which compares with
  nothing, passes the bounds; the relationships are the comparisons of the source.
\<close>

section \<open>Configuration\<close>

datatype experiment_type = Scaling | Aggregation | Failure | Impairment

datatype aggregation_mode = Raw_mode | Aggregated_mode

datatype impairment_mode = No_impairment | Application

datatype run_classification = Engineering_rehearsal | Controlled_final

record experiment_config =
  cf_experiment_type :: experiment_type
  cf_node_count :: int
  cf_physical_node_count :: int
  cf_virtual_node_count :: int
  cf_duration_seconds :: pyfloat
  cf_warmup_seconds :: pyfloat
  cf_sampling_interval_ms :: pyfloat
  cf_aggregation_mode :: aggregation_mode
  cf_aggregation_window_seconds :: pyfloat
  cf_impairment_mode :: impairment_mode
  cf_drop_probability :: pyfloat
  cf_artificial_delay_ms :: pyfloat
  cf_random_seed :: int
  cf_gateway_host :: string
  cf_gateway_port :: int
  cf_collector_host :: string
  cf_collector_port :: int
  cf_expected_interval_seconds :: pyfloat
  cf_suspect_after_intervals :: pyfloat
  cf_offline_after_intervals :: pyfloat
  cf_liveness_check_interval_seconds :: pyfloat
  cf_forwarder_queue_size :: int
  cf_storage_queue_size :: int
  cf_event_queue_size :: int
  cf_metrics_interval_seconds :: pyfloat
  cf_failure_at_seconds :: "pyfloat option"
  cf_recovery_at_seconds :: "pyfloat option"
  cf_campaign_id :: "string option"
  cf_condition_id :: "string option"
  cf_repetition_index :: int
  cf_base_seed :: int
  cf_run_classification :: run_classification

text \<open>The defaults of the fields that have one; the others are the arguments.\<close>

definition default_config :: "experiment_type \<Rightarrow> int \<Rightarrow> int \<Rightarrow> pyfloat \<Rightarrow> pyfloat \<Rightarrow> experiment_config" where
  "default_config et nodes_total virtual_total duration expected =
     \<lparr>cf_experiment_type = et, cf_node_count = nodes_total, cf_physical_node_count = 0,
      cf_virtual_node_count = virtual_total, cf_duration_seconds = duration, cf_warmup_seconds = Fin 0,
      cf_sampling_interval_ms = Fin 1000, cf_aggregation_mode = Raw_mode, cf_aggregation_window_seconds = Fin 0,
      cf_impairment_mode = No_impairment, cf_drop_probability = Fin 0, cf_artificial_delay_ms = Fin 0,
      cf_random_seed = 662, cf_gateway_host = ''127.0.0.1'', cf_gateway_port = 0, cf_collector_host = ''127.0.0.1'',
      cf_collector_port = 0, cf_expected_interval_seconds = expected, cf_suspect_after_intervals = Fin 3,
      cf_offline_after_intervals = Fin 5, cf_liveness_check_interval_seconds = Fin (1 / 2),
      cf_forwarder_queue_size = 10000, cf_storage_queue_size = 10000, cf_event_queue_size = 10000,
      cf_metrics_interval_seconds = Fin (1 / 2), cf_failure_at_seconds = None, cf_recovery_at_seconds = None,
      cf_campaign_id = None, cf_condition_id = None, cf_repetition_index = 0, cf_base_seed = 662,
      cf_run_classification = Engineering_rehearsal\<rparr>"

text \<open>\<open>Field(gt=0)\<close>, \<open>Field(ge=0)\<close>, \<open>Field(le=1)\<close> on a float.\<close>

definition gt0 :: "pyfloat \<Rightarrow> bool" where
  "gt0 x \<longleftrightarrow> \<not> fle x (Fin 0)"

definition ge0 :: "pyfloat \<Rightarrow> bool" where
  "ge0 x \<longleftrightarrow> \<not> flt x (Fin 0)"

definition le1 :: "pyfloat \<Rightarrow> bool" where
  "le1 x \<longleftrightarrow> \<not> flt (Fin 1) x"

definition config_bounds :: "experiment_config \<Rightarrow> bool" where
  "config_bounds c \<longleftrightarrow> 1 \<le> cf_node_count c \<and> cf_node_count c \<le> 10000 \<and> 0 \<le> cf_physical_node_count c \<and>
     1 \<le> cf_virtual_node_count c \<and> gt0 (cf_duration_seconds c) \<and> ge0 (cf_warmup_seconds c) \<and>
     gt0 (cf_sampling_interval_ms c) \<and> ge0 (cf_aggregation_window_seconds c) \<and>
     ge0 (cf_drop_probability c) \<and> le1 (cf_drop_probability c) \<and> ge0 (cf_artificial_delay_ms c) \<and>
     0 \<le> cf_gateway_port c \<and> cf_gateway_port c \<le> 65535 \<and> 0 \<le> cf_collector_port c \<and> cf_collector_port c \<le> 65535 \<and>
     gt0 (cf_expected_interval_seconds c) \<and> gt0 (cf_suspect_after_intervals c) \<and> gt0 (cf_offline_after_intervals c) \<and>
     gt0 (cf_liveness_check_interval_seconds c) \<and> 1 \<le> cf_forwarder_queue_size c \<and> 1 \<le> cf_storage_queue_size c \<and>
     1 \<le> cf_event_queue_size c \<and> gt0 (cf_metrics_interval_seconds c) \<and> 0 \<le> cf_repetition_index c"

definition failure_inside :: "pyfloat option \<Rightarrow> pyfloat \<Rightarrow> bool" where
  "failure_inside failure duration = (case failure of None \<Rightarrow> True | Some f \<Rightarrow> fle (Fin 0) f \<and> flt f duration)"

definition recovery_outside :: "pyfloat option \<Rightarrow> pyfloat option \<Rightarrow> pyfloat \<Rightarrow> bool" where
  "recovery_outside failure recovery duration =
     (case recovery of None \<Rightarrow> False
      | Some r \<Rightarrow> (case failure of None \<Rightarrow> True | Some f \<Rightarrow> fle r f \<or> fle duration r))"

definition validate_relationships :: "experiment_config \<Rightarrow> experiment_config result" where
  "validate_relationships c =
     (if cf_node_count c \<noteq> cf_physical_node_count c + cf_virtual_node_count c
      then Inl (ValueError ''node_count must equal physical plus virtual nodes'')
      else if fle (cf_offline_after_intervals c) (cf_suspect_after_intervals c)
      then Inl (ValueError ''offline threshold must exceed suspect threshold'')
      else if cf_aggregation_mode c = Raw_mode \<and> \<not> feq (cf_aggregation_window_seconds c) (Fin 0)
      then Inl (ValueError ''raw mode requires a zero aggregation window'')
      else if cf_aggregation_mode c = Aggregated_mode \<and> fle (cf_aggregation_window_seconds c) (Fin 0)
      then Inl (ValueError ''aggregated mode requires a positive window'')
      else if cf_impairment_mode c = No_impairment \<and>
        (flt (Fin 0) (cf_drop_probability c) \<or> flt (Fin 0) (cf_artificial_delay_ms c))
      then Inl (ValueError ''application impairment values require impairment_mode=application'')
      else if \<not> failure_inside (cf_failure_at_seconds c) (cf_duration_seconds c)
      then Inl (ValueError ''failure time must be inside measurement interval'')
      else if recovery_outside (cf_failure_at_seconds c) (cf_recovery_at_seconds c) (cf_duration_seconds c)
      then Inl (ValueError ''recovery must follow failure inside measurement interval'')
      else if (cf_campaign_id c = None) \<noteq> (cf_condition_id c = None)
      then Inl (ValueError ''campaign_id and condition_id must be supplied together'')
      else if cf_campaign_id c \<noteq> None \<and> cf_random_seed c \<noteq> cf_base_seed c + cf_repetition_index c
      then Inl (ValueError ''campaign random_seed must equal base_seed + repetition_index'')
      else if cf_run_classification c = Controlled_final \<and> cf_campaign_id c = None
      then Inl (ValueError ''controlled final runs require campaign and condition identifiers'')
      else Inr c)"

text \<open>Both kinds of refusal reach the caller as a \<open>ValidationError\<close>.\<close>

definition ExperimentConfig :: "experiment_config \<Rightarrow> experiment_config result" where
  "ExperimentConfig c =
     (if \<not> config_bounds c then Inl ValidationError
      else case validate_relationships c of Inl _ \<Rightarrow> Inl ValidationError | Inr d \<Rightarrow> Inr d)"

lemma ExperimentConfig_Inr:
  "ExperimentConfig c = Inr d \<longleftrightarrow> d = c \<and> config_bounds c \<and> validate_relationships c = Inr c"
  by (auto simp: ExperimentConfig_def validate_relationships_def split: sum.splits if_splits)

section \<open>The evidence directory\<close>

record run_artifacts =
  ra_run_id :: string
  ra_run_dir :: string
  ra_manifest :: string
  ra_readings :: string
  ra_upstream :: string
  ra_health_events :: string
  ra_gateway_events :: string
  ra_system_metrics :: string
  ra_node_stats :: string
  ra_simulator_summary :: string
  ra_gateway_summary :: string
  ra_collector_summary :: string
  ra_run_summary :: string

definition slash :: "string \<Rightarrow> string \<Rightarrow> string" where
  "slash a b = a @ ''/'' @ b"

definition artifacts_in :: "string \<Rightarrow> string \<Rightarrow> run_artifacts" where
  "artifacts_in base run_id =
     (let d = slash base run_id
      in \<lparr>ra_run_id = run_id, ra_run_dir = d, ra_manifest = slash d ''manifest.json'',
         ra_readings = slash d ''readings.ndjson'', ra_upstream = slash d ''upstream.ndjson'',
         ra_health_events = slash d ''health_events.csv'', ra_gateway_events = slash d ''gateway_events.csv'',
         ra_system_metrics = slash d ''system_metrics.csv'', ra_node_stats = slash d ''node_stats.csv'',
         ra_simulator_summary = slash d ''simulator_summary.json'', ra_gateway_summary = slash d ''gateway_summary.json'',
         ra_collector_summary = slash d ''collector_summary.json'', ra_run_summary = slash d ''run_summary.json''\<rparr>)"

text \<open>\<open>RunArtifacts.create\<close>: the directories are a set of paths; an existing one is refused.\<close>

definition create_artifacts :: "string \<Rightarrow> string \<Rightarrow> string list \<Rightarrow> (run_artifacts \<times> string list) result" where
  "create_artifacts base run_id dirs =
     (let a = artifacts_in base run_id
      in if ra_run_dir a \<in> set dirs then Inl (FileExistsError (ra_run_dir a)) else Inr (a, dirs @ [ra_run_dir a]))"

text \<open>The outputs of one run, which different components create exclusively.\<close>

definition artifact_paths :: "run_artifacts \<Rightarrow> string list" where
  "artifact_paths a = [ra_manifest a, ra_readings a, ra_upstream a, ra_health_events a, ra_gateway_events a,
     ra_system_metrics a, ra_node_stats a, ra_simulator_summary a, ra_gateway_summary a, ra_collector_summary a, ra_run_summary a]"

lemma slash_inject: "slash d x = slash d y \<longleftrightarrow> x = y"
  by (simp add: slash_def)

lemma artifact_paths_distinct: "distinct (artifact_paths (artifacts_in base run_id))"
  by (simp add: artifact_paths_def artifacts_in_def Let_def slash_inject)

text \<open>\<open>new_run_id\<close> from the formatted time and the random hexadecimal digits.\<close>

fun experiment_type_str :: "experiment_type \<Rightarrow> string" where
  "experiment_type_str Scaling = ''scaling''"
| "experiment_type_str Aggregation = ''aggregation''"
| "experiment_type_str Failure = ''failure''"
| "experiment_type_str Impairment = ''impairment''"

definition new_run_id :: "string \<Rightarrow> string \<Rightarrow> experiment_type \<Rightarrow> string" where
  "new_run_id timestamp hex et = timestamp @ ''-'' @ experiment_type_str et @ ''-'' @ take 8 hex"

text \<open>\<open>git_context\<close> from the outputs of the two git commands: the commit without its surrounding
  white space, and the non-empty status lines.\<close>

definition is_space :: "char \<Rightarrow> bool" where
  "is_space c \<longleftrightarrow> c = CHR '' '' \<or> c = newline \<or> c = CHR 0x0D \<or> c = CHR 0x09"

definition strip :: "string \<Rightarrow> string" where
  "strip s = rev (dropWhile is_space (rev (dropWhile is_space s)))"

fun splitlines :: "string \<Rightarrow> string \<Rightarrow> string list" where
  "splitlines cur [] = (if cur = [] then [] else [cur])"
| "splitlines cur (c # cs) = (if c = newline then cur # splitlines [] cs else splitlines (cur @ [c]) cs)"

definition git_context :: "string \<Rightarrow> string \<Rightarrow> string \<times> bool \<times> string list" where
  "git_context rev_output status_output =
     (let status = filter (\<lambda>l. l \<noteq> []) (splitlines [] status_output)
      in (strip rev_output, status \<noteq> [], status))"

lemma splitlines_nonempty: "splitlines cur s = [] \<longleftrightarrow> cur = [] \<and> s = []"
  by (induction cur s rule: splitlines.induct) auto

lemma splitlines_all_empty: "(\<forall>l \<in> set (splitlines cur s). l = []) \<longleftrightarrow> cur = [] \<and> (\<forall>c \<in> set s. c = newline)"
  by (induction cur s rule: splitlines.induct) auto

lemma git_dirty_iff: "fst (snd (git_context r s)) \<longleftrightarrow> (\<exists>c \<in> set s. c \<noteq> newline)"
  using splitlines_all_empty [of "[]" s] by (auto simp: git_context_def Let_def filter_empty_conv)

text \<open>\<open>write_json_exclusive\<close>; the JSON text, with its final newline, is the argument.\<close>

definition write_json_exclusive :: "string \<Rightarrow> string \<Rightarrow> files \<Rightarrow> files result" where
  "write_json_exclusive path text fs = create_exclusive path (text @ [newline]) fs"

section \<open>The manifest\<close>

fun aggregation_mode_str :: "aggregation_mode \<Rightarrow> string" where
  "aggregation_mode_str Raw_mode = ''raw''"
| "aggregation_mode_str Aggregated_mode = ''aggregated''"

fun impairment_mode_str :: "impairment_mode \<Rightarrow> string" where
  "impairment_mode_str No_impairment = ''none''"
| "impairment_mode_str Application = ''application''"

fun run_classification_str :: "run_classification \<Rightarrow> string" where
  "run_classification_str Engineering_rehearsal = ''engineering_rehearsal''"
| "run_classification_str Controlled_final = ''controlled_final''"

definition optional :: "('a \<Rightarrow> json) \<Rightarrow> 'a option \<Rightarrow> json" where
  "optional f v = (case v of None \<Rightarrow> JNull | Some x \<Rightarrow> f x)"

definition config_dump :: "experiment_config \<Rightarrow> (string \<times> json) list" where
  "config_dump c =
     [(''schema_version'', JInt 1),
      (''experiment_type'', JStr (experiment_type_str (cf_experiment_type c))),
      (''node_count'', JInt (cf_node_count c)),
      (''physical_node_count'', JInt (cf_physical_node_count c)),
      (''virtual_node_count'', JInt (cf_virtual_node_count c)),
      (''duration_seconds'', JFloat (cf_duration_seconds c)),
      (''warmup_seconds'', JFloat (cf_warmup_seconds c)),
      (''sampling_interval_ms'', JFloat (cf_sampling_interval_ms c)),
      (''aggregation_mode'', JStr (aggregation_mode_str (cf_aggregation_mode c))),
      (''aggregation_window_seconds'', JFloat (cf_aggregation_window_seconds c)),
      (''impairment_mode'', JStr (impairment_mode_str (cf_impairment_mode c))),
      (''drop_probability'', JFloat (cf_drop_probability c)),
      (''artificial_delay_ms'', JFloat (cf_artificial_delay_ms c)),
      (''random_seed'', JInt (cf_random_seed c)),
      (''gateway_host'', JStr (cf_gateway_host c)),
      (''gateway_port'', JInt (cf_gateway_port c)),
      (''collector_host'', JStr (cf_collector_host c)),
      (''collector_port'', JInt (cf_collector_port c)),
      (''expected_interval_seconds'', JFloat (cf_expected_interval_seconds c)),
      (''suspect_after_intervals'', JFloat (cf_suspect_after_intervals c)),
      (''offline_after_intervals'', JFloat (cf_offline_after_intervals c)),
      (''liveness_check_interval_seconds'', JFloat (cf_liveness_check_interval_seconds c)),
      (''forwarder_queue_size'', JInt (cf_forwarder_queue_size c)),
      (''storage_queue_size'', JInt (cf_storage_queue_size c)),
      (''event_queue_size'', JInt (cf_event_queue_size c)),
      (''metrics_interval_seconds'', JFloat (cf_metrics_interval_seconds c)),
      (''failure_at_seconds'', optional JFloat (cf_failure_at_seconds c)),
      (''recovery_at_seconds'', optional JFloat (cf_recovery_at_seconds c)),
      (''campaign_id'', optional JStr (cf_campaign_id c)),
      (''condition_id'', optional JStr (cf_condition_id c)),
      (''repetition_index'', JInt (cf_repetition_index c)),
      (''base_seed'', JInt (cf_base_seed c)),
      (''run_classification'', JStr (run_classification_str (cf_run_classification c)))]"

record host_context =
  hc_created_at :: string
  hc_git_commit :: string
  hc_git_dirty :: bool
  hc_git_status :: "string list"
  hc_python_version :: string
  hc_host_platform :: string

definition build_manifest :: "host_context \<Rightarrow> experiment_config \<Rightarrow> string \<Rightarrow> (string \<times> json) list" where
  "build_manifest h c run_id =
     [(''manifest_schema_version'', JInt 1), (''run_id'', JStr run_id), (''created_at'', JStr (hc_created_at h)),
      (''git_commit'', JStr (hc_git_commit h)), (''git_dirty'', JBool (hc_git_dirty h)),
      (''git_status'', JArr (map JStr (hc_git_status h))), (''python_version'', JStr (hc_python_version h)),
      (''host_platform'', JStr (hc_host_platform h)), (''orchestration_mode'', JStr ''subprocess_local_tcp'')] @
     config_dump c"

lemma config_dump_keys: "map fst (config_dump c) = map fst (config_dump d)"
  by (simp add: config_dump_def)

lemma build_manifest_distinct: "distinct (map fst (build_manifest h c run_id))"
  by (simp add: build_manifest_def config_dump_def)

lemma build_manifest_config:
  "(k, v) \<in> set (config_dump c) \<Longrightarrow> map_of (build_manifest h c run_id) k = Some v"
  by (rule map_of_is_SomeI [OF build_manifest_distinct]) (simp add: build_manifest_def)

end
