(* ===== verification/Virtual_Node.thy ===== *)
theory Virtual_Node
  imports Aggregator Forwarder
begin

text \<open>
  Synthetic sensor nodes (\<^verbatim>\<open>src/virtual_nodes/node.py\<close>). The clocks, the Gaussian noise and the uniform draw come
  from outside the model as arguments of the step that uses them, and \<open>math.sin\<close> is the parameter
  \<open>sine\<close>; the float arithmetic on them, with Python's rounding to three decimals, is computed. A node is a state
  machine over its suspension points. The lemmas keep its counters and the sequence numbers of what
  it sent in step, and keep every reading inside the ranges of the protocol.
\<close>

section \<open>Node configuration\<close>

record virtual_node_config =
  vc_node_id :: string
  vc_sampling_interval :: pyfloat
  vc_startup_delay :: pyfloat
  vc_drop_probability :: pyfloat
  vc_artificial_delay :: pyfloat
  vc_seed :: int
  vc_reconnect_initial :: pyfloat
  vc_reconnect_max :: pyfloat

definition VirtualNodeConfig :: "virtual_node_config \<Rightarrow> virtual_node_config result" where
  "VirtualNodeConfig c =
     rbind (validate_node_id (vc_node_id c)) (\<lambda>_.
       if fle (vc_sampling_interval c) (Fin 0) then Inl (ValueError ''sampling_interval must be positive'')
       else if flt (vc_startup_delay c) (Fin 0) \<or> flt (vc_artificial_delay c) (Fin 0)
       then Inl (ValueError ''delays must be non-negative'')
       else if \<not> (fle (Fin 0) (vc_drop_probability c) \<and> fle (vc_drop_probability c) (Fin 1))
       then Inl (ValueError ''drop_probability must be between 0 and 1'')
       else if fle (vc_reconnect_initial c) (Fin 0) \<or> flt (vc_reconnect_max c) (vc_reconnect_initial c)
       then Inl (ValueError ''invalid reconnect backoff'')
       else Inr c)"

section \<open>The node\<close>

text \<open>Where \<open>run\<close> is suspended: in the startup delay, opening a connection, sleeping between two samples, delaying or draining a write, or
  sleeping before a reconnect; \<open>Finished\<close> once it returned.\<close>

datatype node_phase = Starting | Opening | Sampling | Writing reading_message | Backing_off | Finished

record virtual_node =
  vn_config :: virtual_node_config
  vn_max_samples :: "int option"
  vn_sequence :: int
  samples_generated :: int
  send_attempts :: int
  messages_sent :: int
  application_drops :: int
  started_monotonic :: "pyfloat option"
  vn_next_sample :: pyfloat
  vn_sleep :: pyfloat
  vn_phase :: node_phase
  vn_backoff :: pyfloat
  vn_stop :: bool
  vn_sent :: "reading_message list"

definition VirtualNode :: "virtual_node_config \<Rightarrow> virtual_node" where
  "VirtualNode c = \<lparr>vn_config = c, vn_max_samples = None, vn_sequence = 0, samples_generated = 0, send_attempts = 0,
     messages_sent = 0, application_drops = 0, started_monotonic = None, vn_next_sample = Fin 0, vn_sleep = Fin 0, vn_phase = Finished, vn_backoff = vc_reconnect_initial c,
     vn_stop = False, vn_sent = []\<rparr>"

text \<open>Python's \<open>round(x, 3)\<close>: the decimal rounding of the exact value, then the nearest double.\<close>

fun round3 :: "pyfloat \<Rightarrow> pyfloat" where
  "round3 (Fin x) = fl (of_int (round_half_even (x * 1000)) / 1000)"
| "round3 f = f"

text \<open>What one sample reads from outside: the two readings of the monotonic clock, the wall clock,
  the three Gaussian draws and the uniform one, and the loop time at its end.\<close>

record noise =
  first_clock :: pyfloat
  clock :: pyfloat
  clock_ms :: int
  gauss_t :: pyfloat
  gauss_h :: pyfloat
  gauss_p :: pyfloat
  uniform :: pyfloat
  loop_time :: pyfloat

definition channel :: "rat \<Rightarrow> rat \<Rightarrow> pyfloat \<Rightarrow> pyfloat \<Rightarrow> pyfloat" where
  "channel base amplitude d g = round3 (fadd (fadd (fl base) (fmul (fl amplitude) d)) g)"

definition started_at :: "noise \<Rightarrow> virtual_node \<Rightarrow> pyfloat" where
  "started_at z v = (case started_monotonic v of None \<Rightarrow> first_clock z | Some t \<Rightarrow> t)"

text \<open>\<open>make_reading\<close>: the reading is validated on construction; the counters move only after.\<close>

definition make_reading :: "(pyfloat \<Rightarrow> pyfloat) \<Rightarrow> noise \<Rightarrow> virtual_node \<Rightarrow> (reading_message \<times> virtual_node) result" where
  "make_reading sine z v =
     rbind (fdiv (fsub (clock z) (started_at z v)) (Fin 60)) (\<lambda>phase.
       let slow_drift = sine phase;
           r = \<lparr>version = PROTOCOL_VERSION, node_id = vc_node_id (vn_config v), node_kind = Virtual,
                sequence = vn_sequence v, timestamp_ms = clock_ms z,
                temperature_c = channel 22 (8 / 10) slow_drift (gauss_t z),
                humidity_pct = channel 48 (15 / 10) slow_drift (gauss_h z),
                pressure_hpa = channel 1013 (6 / 10) slow_drift (gauss_p z)\<rparr>
       in if valid_reading r
          then Inr (r, v\<lparr>vn_sequence := vn_sequence v + 1, samples_generated := samples_generated v + 1,
                        started_monotonic := Some (started_at z v)\<rparr>)
          else Inl ValidationError)"

definition node_done :: "virtual_node \<Rightarrow> bool" where
  "node_done v \<longleftrightarrow> (case vn_max_samples v of None \<Rightarrow> False | Some n \<Rightarrow> samples_generated v \<ge> n) \<or> vn_stop v"

text \<open>The entry of the reconnect loop, and \<open>run\<close> up to its first suspension; a startup delay of
  zero is skipped.\<close>

definition enter_loop :: "virtual_node \<Rightarrow> virtual_node" where
  "enter_loop v =
     v\<lparr>vn_backoff := vc_reconnect_initial (vn_config v), vn_phase := (if node_done v then Finished else Opening)\<rparr>"

definition node_run :: "int option \<Rightarrow> virtual_node \<Rightarrow> virtual_node result" where
  "node_run max_samples v =
     (if (case max_samples of None \<Rightarrow> False | Some n \<Rightarrow> n < 0) then Inl (ValueError ''max_samples must be non-negative'')
      else let w = v\<lparr>vn_max_samples := max_samples\<rparr>
        in if max_samples = Some 0 then Inr (w\<lparr>vn_phase := Finished\<rparr>)
           else if feq (vc_startup_delay (vn_config v)) (Fin 0) then Inr (enter_loop w)
           else Inr (w\<lparr>vn_phase := Starting\<rparr>))"

definition node_started :: "virtual_node \<Rightarrow> virtual_node" where
  "node_started v = (if vn_phase v = Starting then enter_loop v else v)"

text \<open>\<open>open_connection\<close> returned; \<open>_send_loop\<close> starts its schedule at the current loop time.\<close>

definition node_connected :: "pyfloat \<Rightarrow> virtual_node \<Rightarrow> virtual_node" where
  "node_connected t v =
     (if vn_phase v = Opening
      then v\<lparr>vn_phase := Sampling, vn_backoff := vc_reconnect_initial (vn_config v), vn_next_sample := t, vn_sleep := Fin 0\<rparr>
      else v)"

text \<open>A connection error: sleep before the next attempt unless the node is done.\<close>

definition node_disconnected :: "virtual_node \<Rightarrow> virtual_node" where
  "node_disconnected v =
     (if (case vn_phase v of Opening \<Rightarrow> True | Writing _ \<Rightarrow> True | _ \<Rightarrow> False)
      then v\<lparr>vn_phase := (if node_done v then Finished else Backing_off)\<rparr> else v)"

definition node_retry :: "virtual_node \<Rightarrow> virtual_node" where
  "node_retry v =
     (if vn_phase v = Backing_off
      then v\<lparr>vn_backoff := py_min (fmul (vn_backoff v) (Fin 2)) (vc_reconnect_max (vn_config v)),
             vn_phase := (if node_done v then Finished else Opening)\<rparr>
      else v)"

text \<open>The end of a turn of \<open>_send_loop\<close>: the schedule advances by the interval, whatever the send
  took, and the sleep is what is left of it.\<close>

definition pace :: "pyfloat \<Rightarrow> virtual_node \<Rightarrow> virtual_node" where
  "pace t v =
     (let next = fadd (vn_next_sample v) (vc_sampling_interval (vn_config v))
      in v\<lparr>vn_next_sample := next, vn_sleep := py_max (Fin 0) (fsub next t), vn_phase := Sampling\<rparr>)"

text \<open>One turn of \<open>_send_loop\<close> up to the drain, or to the sleep when the sample is dropped. A
  validation error would escape \<open>run\<close> and end the node.\<close>

definition node_sample :: "(pyfloat \<Rightarrow> pyfloat) \<Rightarrow> noise \<Rightarrow> virtual_node \<Rightarrow> virtual_node" where
  "node_sample sine z v =
     (if vn_phase v \<noteq> Sampling then v
      else if node_done v then v\<lparr>vn_phase := Finished\<rparr>
      else case make_reading sine z v of
        Inl e \<Rightarrow> v\<lparr>vn_phase := Finished\<rparr>
      | Inr (r, w) \<Rightarrow>
          if fle (vc_drop_probability (vn_config v)) (uniform z)
          then w\<lparr>send_attempts := send_attempts w + 1, vn_phase := Writing r\<rparr>
          else pace (loop_time z) (w\<lparr>application_drops := application_drops w + 1\<rparr>))"

definition node_drained :: "pyfloat \<Rightarrow> virtual_node \<Rightarrow> virtual_node" where
  "node_drained t v =
     (case vn_phase v of
        Writing r \<Rightarrow> pace t (v\<lparr>messages_sent := messages_sent v + 1, vn_sent := vn_sent v @ [r]\<rparr>)
      | _ \<Rightarrow> v)"

datatype node_event =
  NStarted | NConnected pyfloat | NDisconnected | NRetry | NSample noise | NDrained pyfloat | NStop | NCancel

fun node_step :: "(pyfloat \<Rightarrow> pyfloat) \<Rightarrow> virtual_node \<Rightarrow> node_event \<Rightarrow> virtual_node" where
  "node_step sine v NStarted = node_started v"
| "node_step sine v (NConnected t) = node_connected t v"
| "node_step sine v NDisconnected = node_disconnected v"
| "node_step sine v NRetry = node_retry v"
| "node_step sine v (NSample z) = node_sample sine z v"
| "node_step sine v (NDrained t) = node_drained t v"
| "node_step sine v NStop = v\<lparr>vn_stop := True\<rparr>"
| "node_step sine v NCancel = v\<lparr>vn_phase := Finished\<rparr>"

section \<open>Readings stay inside the protocol's ranges\<close>

lemma in_range_Fin: "in_range lo hi (Fin x) \<longleftrightarrow> of_int lo \<le> x \<and> x \<le> of_int hi"
  by (simp add: in_range_def)

lemma in_range_fl:
  assumes "of_int lo \<le> x" "x \<le> of_int hi" "\<bar>lo\<bar> \<le> 2 ^ 53" "\<bar>hi\<bar> \<le> 2 ^ 53"
  shows "in_range lo hi (fl x)"
proof -
  have "(of_int (- (2 ^ 53)) :: rat) \<le> of_int lo" "(of_int hi :: rat) \<le> of_int (2 ^ 53)"
    using assms(3,4) by (simp_all only: of_int_le_iff)
  then have "\<bar>x\<bar> \<le> of_int (2 ^ 53)" using assms(1,2) by simp
  then have "fl x = Fin (rnd_double x)" by (rule fl_bounded) simp
  then show ?thesis
    using assms binary64.rnd_ge_int binary64.rnd_le_int by (auto simp: in_range_def)
qed

lemma in_range_fadd:
  assumes "in_range a b x" "in_range c d y" "\<bar>a + c\<bar> \<le> 2 ^ 53" "\<bar>b + d\<bar> \<le> 2 ^ 53"
  shows "in_range (a + c) (b + d) (fadd x y)"
  using assms by (auto simp: in_range_def [of a b] in_range_def [of c d] intro!: in_range_fl add_mono)

lemma in_range_fmul_unit:
  assumes "in_range 0 a x" "in_range (- 1) 1 y" "0 \<le> a" "a \<le> 2 ^ 53"
  shows "in_range (- a) a (fmul x y)"
proof -
  obtain u w where v: "x = Fin u" "y = Fin w" "0 \<le> u" "u \<le> of_int a" "- 1 \<le> w" "w \<le> 1"
    using assms(1,2) by (auto simp: in_range_def)
  then have "\<bar>u * w\<bar> \<le> of_int a * 1"
    unfolding abs_mult by (intro mult_mono) auto
  then show ?thesis using v assms(3,4) by (auto intro!: in_range_fl simp: abs_le_iff)
qed

lemma in_range_round3:
  assumes "in_range lo hi x" "\<bar>lo\<bar> \<le> 2 ^ 53" "\<bar>hi\<bar> \<le> 2 ^ 53"
  shows "in_range lo hi (round3 x)"
proof -
  obtain u where u: "x = Fin u" "of_int lo \<le> u" "u \<le> of_int hi"
    using assms(1) by (auto simp: in_range_def)
  have "lo * 1000 \<le> round_half_even (u * 1000)"
    using u(2) by (intro round_half_even_ge) simp
  moreover have "round_half_even (u * 1000) \<le> hi * 1000"
    using u(3) by (intro round_half_even_le) simp
  ultimately have "(of_int (lo * 1000) :: rat) \<le> of_int (round_half_even (u * 1000))"
    "(of_int (round_half_even (u * 1000)) :: rat) \<le> of_int (hi * 1000)"
    by (simp_all only: of_int_le_iff)
  then show ?thesis using assms(2,3) u(1) by (auto intro!: in_range_fl)
qed

lemma channel_in_range:
  assumes "in_range (- 1) 1 d" "in_range (- 10) 10 g" "0 \<le> amplitude" "amplitude \<le> 2"
    "b = of_int base" "\<bar>base\<bar> \<le> 2000"
  shows "in_range (base - 12) (base + 12) (channel b amplitude d g)"
proof -
  have "in_range base base (fl b)" using assms(5,6) by (intro in_range_fl) auto
  moreover have "in_range (- 2) 2 (fmul (fl amplitude) d)"
    using assms by (intro in_range_fmul_unit in_range_fl) auto
  ultimately have "in_range (base + - 2) (base + 2) (fadd (fl b) (fmul (fl amplitude) d))"
    using assms(6) by (intro in_range_fadd) auto
  then have "in_range (base + - 2 + - 10) (base + 2 + 10) (fadd (fadd (fl b) (fmul (fl amplitude) d)) g)"
    by (rule in_range_fadd [OF _ assms(2)]) (use assms(6) in auto)
  then show ?thesis
    unfolding channel_def using assms(6) by (intro in_range_round3) (auto simp: algebra_simps)
qed

definition sine_bounded :: "(pyfloat \<Rightarrow> pyfloat) \<Rightarrow> bool" where
  "sine_bounded sine \<longleftrightarrow> (\<forall>x. is_finite x \<longrightarrow> in_range (- 1) 1 (sine x))"

definition plausible_noise :: "noise \<Rightarrow> bool" where
  "plausible_noise z \<longleftrightarrow> 0 \<le> clock_ms z \<and> in_range 0 (2 ^ 50) (first_clock z) \<and> in_range 0 (2 ^ 50) (clock z) \<and>
     in_range (- 10) 10 (gauss_t z) \<and> in_range (- 10) 10 (gauss_h z) \<and> in_range (- 10) 10 (gauss_p z)"

lemma in_range_fsub_clock:
  assumes "in_range 0 (2 ^ 50) x" "in_range 0 (2 ^ 50) y"
  shows "\<exists>q. fdiv (fsub x y) (Fin 60) = Inr q \<and> is_finite q"
proof -
  obtain u w where v: "x = Fin u" "y = Fin w" "0 \<le> u" "u \<le> 2 ^ 50" "0 \<le> w" "w \<le> 2 ^ 50"
    using assms by (auto simp: in_range_def)
  then have "in_range (- (2 ^ 50)) (2 ^ 50) (fl (u + - w))" by (intro in_range_fl) auto
  then obtain d where d: "fsub x y = Fin d" "\<bar>d\<bar> \<le> 2 ^ 50"
    using v by (auto simp: in_range_def fsub_def abs_le_iff)
  have "in_range (- (2 ^ 50)) (2 ^ 50) (fl (d / 60))" using d(2) by (intro in_range_fl) (auto simp: abs_le_iff)
  then show ?thesis using d(1) by (auto simp: in_range_def is_finite_iff)
qed

lemma make_reading_ok:
  assumes "sine_bounded sine" "plausible_noise z" "node_id_ok (vc_node_id (vn_config v))" "0 \<le> vn_sequence v"
    "case started_monotonic v of None \<Rightarrow> True | Some t \<Rightarrow> in_range 0 (2 ^ 50) t"
  shows "\<exists>r w. make_reading sine z v = Inr (r, w) \<and> valid_reading r \<and> sequence r = vn_sequence v"
proof -
  have "in_range 0 (2 ^ 50) (started_at z v)"
    using assms(2,5) by (auto simp: started_at_def plausible_noise_def split: option.splits)
  then obtain q where q: "fdiv (fsub (clock z) (started_at z v)) (Fin 60) = Inr q" "is_finite q"
    using in_range_fsub_clock assms(2) by (auto simp: plausible_noise_def)
  have c: "in_range (base - 12) (base + 12) (channel b a (sine q) g)"
    if "in_range (- 10) 10 g" "0 \<le> a" "a \<le> 2" "b = of_int base" "\<bar>base\<bar> \<le> 2000" for base b a g
    using that assms(1) q(2) by (intro channel_in_range) (auto simp: sine_bounded_def)
  have "temperature_ok (channel 22 (8 / 10) (sine q) (gauss_t z))"
    "humidity_ok (channel 48 (15 / 10) (sine q) (gauss_h z))"
    "pressure_ok (channel 1013 (6 / 10) (sine q) (gauss_p z))"
    using c [of "gauss_t z" "8 / 10" 22 22] c [of "gauss_h z" "15 / 10" 48 48] c [of "gauss_p z" "6 / 10" 1013 1013] assms(2)
    by (auto simp: plausible_noise_def temperature_ok_def humidity_ok_def pressure_ok_def in_range_def)
  then show ?thesis
    using assms(2-4) q(1)
    by (auto simp: make_reading_def valid_reading_def valid_base_def base_sensor_message.defs plausible_noise_def
        PROTOCOL_VERSION_def Let_def simp del: fdiv.simps)
qed

section \<open>A node's accounting\<close>

definition pending :: "virtual_node \<Rightarrow> reading_message list" where
  "pending v = (case vn_phase v of Writing r \<Rightarrow> [r] | _ \<Rightarrow> [])"

definition own_reading :: "virtual_node \<Rightarrow> reading_message \<Rightarrow> bool" where
  "own_reading v r \<longleftrightarrow> valid_reading r \<and> node_id r = vc_node_id (vn_config v) \<and> sequence r < vn_sequence v"

text \<open>Attempts that neither succeeded nor are under way.\<close>

definition lost :: "virtual_node \<Rightarrow> int" where
  "lost v = send_attempts v - messages_sent v - int (length (pending v))"

definition node_inv :: "virtual_node \<Rightarrow> bool" where
  "node_inv v \<longleftrightarrow> samples_generated v = send_attempts v + application_drops v \<and> vn_sequence v = samples_generated v \<and>
     0 \<le> application_drops v \<and> 0 \<le> lost v \<and> messages_sent v = int (length (vn_sent v)) \<and>
     sorted_wrt (<) (map sequence (vn_sent v @ pending v)) \<and> list_all (own_reading v) (vn_sent v @ pending v) \<and>
     (vn_max_samples v = None \<or> samples_generated v \<le> the (vn_max_samples v))"

text \<open>Phase changes that drop a pending write, and those that keep the write history.\<close>

lemma node_inv_phase:
  assumes "node_inv v" "pending (v\<lparr>vn_phase := p\<rparr>) = []"
  shows "node_inv (v\<lparr>vn_phase := p\<rparr>)"
  using assms
  by (auto simp: node_inv_def lost_def sorted_wrt_append own_reading_def list_all_iff)

lemma pending_updates [simp]:
  "pending (v\<lparr>vn_backoff := b\<rparr>) = pending v" "pending (v\<lparr>vn_stop := t\<rparr>) = pending v"
  "pending (v\<lparr>vn_next_sample := n\<rparr>) = pending v" "pending (v\<lparr>vn_sleep := d\<rparr>) = pending v"
  "pending (v\<lparr>vn_phase := Sampling\<rparr>) = []" "pending (v\<lparr>vn_phase := Opening\<rparr>) = []"
  "pending (v\<lparr>vn_phase := Finished\<rparr>) = []" "pending (v\<lparr>vn_phase := Backing_off\<rparr>) = []"
  "pending (v\<lparr>vn_phase := Starting\<rparr>) = []" "pending (v\<lparr>vn_phase := Writing r\<rparr>) = [r]"
  by (simp_all add: pending_def)

lemma node_inv_timing [simp]:
  "node_inv (v\<lparr>vn_backoff := b\<rparr>) = node_inv v" "node_inv (v\<lparr>vn_stop := t\<rparr>) = node_inv v"
  "node_inv (v\<lparr>vn_next_sample := n\<rparr>) = node_inv v" "node_inv (v\<lparr>vn_sleep := d\<rparr>) = node_inv v"
  by (simp_all add: node_inv_def lost_def own_reading_def list_all_iff)

lemma make_reading_Inr:
  "make_reading sine z v = Inr (r, w) \<Longrightarrow>
     valid_reading r \<and> node_id r = vc_node_id (vn_config v) \<and> sequence r = vn_sequence v \<and>
     w = v\<lparr>vn_sequence := vn_sequence v + 1, samples_generated := samples_generated v + 1,
           started_monotonic := Some (started_at z v)\<rparr>"
  by (auto simp: make_reading_def Let_def rbind_eq_Inr_iff split: if_splits)

lemma sorted_snoc: "sorted_wrt (<) (map f (xs @ [x])) \<longleftrightarrow> sorted_wrt (<) (map f xs) \<and> (\<forall>y \<in> set xs. f y < f x)"
  by (auto simp: sorted_wrt_append)

lemma node_inv_sample:
  assumes "node_inv v"
  shows "node_inv (node_sample sine z v)"
proof (cases "vn_phase v = Sampling \<and> \<not> node_done v")
  case True
  then have p: "pending v = []" by (simp add: pending_def)
  have m: "vn_max_samples v = None \<or> samples_generated v + 1 \<le> the (vn_max_samples v)"
    using True by (auto simp: node_done_def split: option.splits)
  show ?thesis
  proof (cases "make_reading sine z v")
    case (Inl e)
    then show ?thesis using True assms by (auto simp: node_sample_def intro: node_inv_phase)
  next
    case (Inr a)
    obtain r w where a: "a = (r, w)" by force
    note r = make_reading_Inr [OF Inr [unfolded a]]
    have "0 \<le> lost v" "sorted_wrt (<) (map sequence (vn_sent v))" "list_all (own_reading v) (vn_sent v)"
      using assms p by (auto simp: node_inv_def)
    then show ?thesis using True assms p m r Inr a
      by (auto simp: node_sample_def pace_def Let_def node_inv_def lost_def own_reading_def sorted_snoc list_all_iff
          pending_def simp del: map_append split: option.splits)
  qed
qed (use assms in \<open>auto simp: node_sample_def intro: node_inv_phase\<close>)

lemma node_inv_drained:
  assumes "node_inv v"
  shows "node_inv (node_drained t v)"
  using assms
  by (cases "vn_phase v")
    (auto simp: node_drained_def pace_def Let_def node_inv_def lost_def own_reading_def pending_def list_all_iff)

interpretation vnode: machine "node_step sine" node_inv "\<lambda>_. True" for sine
proof
  fix v e
  assume "node_inv v"
  then show "node_inv (node_step sine v e)"
    by (cases e) (auto simp: node_inv_sample node_inv_drained node_started_def enter_loop_def node_connected_def
      node_disconnected_def node_retry_def intro: node_inv_phase)
qed

lemma node_run_inv: "node_run m (VirtualNode c) = Inr v \<Longrightarrow> node_inv v"
  by (auto simp: node_run_def VirtualNode_def node_inv_def lost_def pending_def enter_loop_def Let_def split: if_splits option.splits)

section \<open>Progress between two observations\<close>

text \<open>Every event moves the counters only upwards, and never takes back a lost attempt.\<close>

definition grows :: "virtual_node \<Rightarrow> virtual_node \<Rightarrow> bool" where
  "grows v w \<longleftrightarrow> send_attempts v \<le> send_attempts w \<and> messages_sent v \<le> messages_sent w \<and>
     application_drops v \<le> application_drops w \<and> lost v \<le> lost w"

lemma grows_refl [simp]: "grows v v"
  by (simp add: grows_def)

lemma grows_trans: "grows u v \<Longrightarrow> grows v w \<Longrightarrow> grows u w"
  by (auto simp: grows_def)

lemma grows_phase: "pending (v\<lparr>vn_phase := p\<rparr>) = [] \<Longrightarrow> grows v (v\<lparr>vn_phase := p\<rparr>)"
  by (simp add: grows_def lost_def)

lemma grows_timing [simp]:
  "grows v (w\<lparr>vn_backoff := b\<rparr>) = grows v w" "grows v (w\<lparr>vn_stop := t\<rparr>) = grows v w"
  "grows v (w\<lparr>vn_next_sample := n\<rparr>) = grows v w" "grows v (w\<lparr>vn_sleep := d\<rparr>) = grows v w"
  by (simp_all add: grows_def lost_def)

lemma grows_step: "grows v (node_step sine v e)"
proof (cases e)
  case (NSample z)
  then show ?thesis
    by (auto simp: node_sample_def grows_phase grows_def lost_def pending_def pace_def Let_def
        dest!: make_reading_Inr split: sum.splits)
next
  case (NDrained t)
  then show ?thesis
    by (cases "vn_phase v") (auto simp: node_drained_def pace_def Let_def grows_def lost_def pending_def)
qed (auto simp: node_started_def enter_loop_def node_connected_def node_disconnected_def node_retry_def grows_def lost_def)

section \<open>What a node promises\<close>

text \<open>C22: Under a sine in \<open>[-1, 1]\<close>, Gaussian draws of magnitude at most 10 and sane clocks, every
  synthetic reading passes the protocol's validation: \<open>make_reading\<close> returns a valid reading with the
  node's next sequence number and advances both counters, whatever the rounding of the floats.\<close>

theorem virtual_readings_valid:
  assumes "sine_bounded sine" "plausible_noise z" "node_id_ok (vc_node_id (vn_config v))" "0 \<le> vn_sequence v"
    "case started_monotonic v of None \<Rightarrow> True | Some t \<Rightarrow> in_range 0 (2 ^ 50) t"
  shows "\<exists>r w. make_reading sine z v = Inr (r, w) \<and> valid_reading r \<and> sequence r = vn_sequence v \<and>
    vn_sequence w = vn_sequence v + 1 \<and> samples_generated w = samples_generated v + 1"
  using make_reading_ok [OF assms] make_reading_Inr by fastforce

definition sample_config :: virtual_node_config where
  "sample_config = \<lparr>vc_node_id = ''virtual-001'', vc_sampling_interval = Fin 1, vc_startup_delay = Fin 0,
     vc_drop_probability = Fin 0, vc_artificial_delay = Fin 0, vc_seed = 662, vc_reconnect_initial = Fin 1,
     vc_reconnect_max = Fin 5\<rparr>"

definition sample_noise :: noise where
  "sample_noise = \<lparr>first_clock = Fin 100, clock = Fin 130, clock_ms = 1700000000000, gauss_t = Fin (- 1), gauss_h = Fin 2,
     gauss_p = Fin 0, uniform = Fin 0, loop_time = Fin 131\<rparr>"

definition half_sine :: "pyfloat \<Rightarrow> pyfloat" where
  "half_sine x = Fin (1 / 2)"

theorem virtual_readings_valid_witness:
  "sine_bounded half_sine \<and> plausible_noise sample_noise \<and> node_id_ok ''virtual-001'' \<and>
   (\<exists>r w. make_reading half_sine sample_noise (VirtualNode sample_config) = Inr (r, w) \<and> valid_reading r \<and> sequence r = 0 \<and>
     vn_sequence w = 0 + 1 \<and> samples_generated w = 0 + 1)"
proof -
  have a: "sine_bounded half_sine" by (simp add: sine_bounded_def half_sine_def in_range_Fin)
  have b: "plausible_noise sample_noise" by (simp add: plausible_noise_def sample_noise_def in_range_def)
  have c: "node_id_ok ''virtual-001''" by code_simp
  have v: "vc_node_id (vn_config (VirtualNode sample_config)) = ''virtual-001''" "vn_sequence (VirtualNode sample_config) = 0"
    "started_monotonic (VirtualNode sample_config) = None" "samples_generated (VirtualNode sample_config) = 0"
    by (simp_all add: VirtualNode_def sample_config_def)
  show ?thesis
    using virtual_readings_valid [OF a b, of "VirtualNode sample_config"] a b c by (simp add: v)
qed

text \<open>C21: However connections fail, retries, stops and cancellations interleave, a node's counters
  balance: every sample is an attempt or an application drop, at most the attempts were written, at
  most \<open>max_samples\<close> samples are taken, and the readings it wrote are valid, carry its own id and have
  strictly increasing sequence numbers below the number of samples.\<close>

theorem node_accounting:
  assumes "node_run m (VirtualNode c) = Inr v" "w = foldl (node_step sine) v es"
  shows "samples_generated w = send_attempts w + application_drops w \<and> 0 \<le> application_drops w \<and>
    messages_sent w \<le> send_attempts w \<and> messages_sent w = int (length (vn_sent w)) \<and>
    (\<forall>n. vn_max_samples w = Some n \<longrightarrow> samples_generated w \<le> n) \<and> sorted_wrt (<) (map sequence (vn_sent w)) \<and>
    (\<forall>r \<in> set (vn_sent w). valid_reading r \<and> node_id r = vc_node_id (vn_config w) \<and> sequence r < samples_generated w)"
proof -
  have "node_inv w" using vnode.run_inv [OF node_run_inv [OF assms(1)]] assms(2) by (simp add: list_all_iff)
  then show ?thesis by (auto simp: node_inv_def lost_def own_reading_def list_all_iff sorted_wrt_append)
qed

theorem node_accounting_witness:
  "\<exists>v w. node_run (Some 3) (VirtualNode sample_config) = Inr v \<and>
     w = foldl (node_step half_sine) v [NConnected (Fin 131), NSample sample_noise, NDrained (Fin 132)] \<and>
     (samples_generated w = send_attempts w + application_drops w \<and> 0 \<le> application_drops w \<and>
      messages_sent w \<le> send_attempts w \<and> messages_sent w = int (length (vn_sent w)) \<and>
      (\<forall>n. vn_max_samples w = Some n \<longrightarrow> samples_generated w \<le> n) \<and> sorted_wrt (<) (map sequence (vn_sent w)) \<and>
      (\<forall>r \<in> set (vn_sent w). valid_reading r \<and> node_id r = vc_node_id (vn_config w) \<and> sequence r < samples_generated w))"
proof -
  obtain v where v: "node_run (Some 3) (VirtualNode sample_config) = Inr v"
    by (cases "node_run (Some 3) (VirtualNode sample_config)") (auto simp: node_run_def Let_def split: if_splits)
  show ?thesis
    using v node_accounting [OF v refl, of half_sine "[NConnected (Fin 131), NSample sample_noise, NDrained (Fin 132)]"] by blast
qed

end
