(* ===== verification/Simulator.thy ===== *)
theory Simulator
  imports Virtual_Node "HOL-Library.Char_ord" "HOL-Library.List_Lexorder" "HOL-Library.Multiset"
begin

text \<open>
  The one-process simulator of many virtual nodes (\<^verbatim>\<open>src/virtual_nodes/simulator.py\<close>): it keeps
  the incarnations of every node id and the running tasks, injects the failure and the recovery of
  one node, and measures by subtracting two sums of counters. The lemmas show that the measured
  rows balance and name every node once.
\<close>

section \<open>State and operations\<close>

record node_totals =
  nt_samples_generated :: int
  nt_send_attempts :: int
  nt_successful_writes :: int
  nt_application_drops :: int

definition zero_totals :: node_totals where
  "zero_totals = \<lparr>nt_samples_generated = 0, nt_send_attempts = 0, nt_successful_writes = 0, nt_application_drops = 0\<rparr>"

definition totals_add :: "node_totals \<Rightarrow> virtual_node \<Rightarrow> node_totals" where
  "totals_add t v = \<lparr>nt_samples_generated = nt_samples_generated t + samples_generated v,
     nt_send_attempts = nt_send_attempts t + send_attempts v,
     nt_successful_writes = nt_successful_writes t + messages_sent v,
     nt_application_drops = nt_application_drops t + application_drops v\<rparr>"

definition totals_subtract :: "node_totals \<Rightarrow> node_totals \<Rightarrow> node_totals" where
  "totals_subtract a b = \<lparr>nt_samples_generated = nt_samples_generated a - nt_samples_generated b,
     nt_send_attempts = nt_send_attempts a - nt_send_attempts b,
     nt_successful_writes = nt_successful_writes a - nt_successful_writes b,
     nt_application_drops = nt_application_drops a - nt_application_drops b\<rparr>"

record simulator =
  sm_node_count :: nat
  sm_sampling_interval :: pyfloat
  sm_warmup_seconds :: pyfloat
  sm_duration_seconds :: pyfloat
  sm_seed :: int
  sm_drop_probability :: pyfloat
  sm_artificial_delay :: pyfloat
  sm_failure_at :: "pyfloat option"
  sm_recovery_at :: "pyfloat option"
  incarnations :: "(string, virtual_node list) dict"
  sm_tasks :: "string list"
  failure_timestamp_ms :: "int option"
  recovery_timestamp_ms :: "int option"

definition VirtualNodeSimulator ::
  "int \<Rightarrow> pyfloat \<Rightarrow> pyfloat \<Rightarrow> pyfloat \<Rightarrow> int \<Rightarrow> pyfloat \<Rightarrow> pyfloat \<Rightarrow> pyfloat option \<Rightarrow> pyfloat option \<Rightarrow> simulator result" where
  "VirtualNodeSimulator many interval warmup duration seed drop_probability delay failure recovery =
     (if many < 1 then Inl (ValueError ''node_count must be positive'')
      else if flt warmup (Fin 0) \<or> fle duration (Fin 0) then Inl (ValueError ''invalid warmup or duration'')
      else if (case failure of None \<Rightarrow> False | Some f \<Rightarrow> \<not> (fle (Fin 0) f \<and> flt f duration))
      then Inl (ValueError ''failure time must be inside measurement interval'')
      else if (case recovery of None \<Rightarrow> False
               | Some r \<Rightarrow> (case failure of None \<Rightarrow> True | Some f \<Rightarrow> fle r f \<or> fle duration r))
      then Inl (ValueError ''recovery time must follow failure inside measurement interval'')
      else Inr \<lparr>sm_node_count = nat many, sm_sampling_interval = interval, sm_warmup_seconds = warmup,
        sm_duration_seconds = duration, sm_seed = seed, sm_drop_probability = drop_probability, sm_artificial_delay = delay,
        sm_failure_at = failure, sm_recovery_at = recovery, incarnations = [], sm_tasks = [],
        failure_timestamp_ms = None, recovery_timestamp_ms = None\<rparr>)"

text \<open>The format \<open>virtual-%03d\<close>.\<close>

definition pad3 :: "nat \<Rightarrow> string" where
  "pad3 n = replicate (3 - length (str_of_nat n)) (CHR ''0'') @ str_of_nat n"

definition virtual_id :: "nat \<Rightarrow> string" where
  "virtual_id i = ''virtual-'' @ pad3 i"

definition incarnation_config :: "simulator \<Rightarrow> nat \<Rightarrow> virtual_node_config" where
  "incarnation_config s i = \<lparr>vc_node_id = virtual_id i, vc_sampling_interval = sm_sampling_interval s,
     vc_startup_delay = Fin 0, vc_drop_probability = sm_drop_probability s, vc_artificial_delay = sm_artificial_delay s,
     vc_seed = sm_seed s + int i, vc_reconnect_initial = py_min (fl (1 / 10)) (sm_sampling_interval s),
     vc_reconnect_max = Fin 5\<rparr>"

definition start_incarnation :: "nat \<Rightarrow> simulator \<Rightarrow> simulator result" where
  "start_incarnation i s =
     rbind (VirtualNodeConfig (incarnation_config s i)) (\<lambda>c.
     rbind (node_run None (VirtualNode c)) (\<lambda>v.
       Inr (s\<lparr>incarnations := dict_set (virtual_id i)
                 ((case dict_get (incarnations s) (virtual_id i) of None \<Rightarrow> [] | Some vs \<Rightarrow> vs) @ [v]) (incarnations s),
              sm_tasks := (if virtual_id i \<in> set (sm_tasks s) then sm_tasks s else sm_tasks s @ [virtual_id i])\<rparr>)))"

fun start_all :: "nat list \<Rightarrow> simulator \<Rightarrow> simulator result" where
  "start_all [] s = Inr s"
| "start_all (i # is) s = rbind (start_incarnation i s) (start_all is)"

text \<open>Cancelling a task ends the newest incarnation of its node.\<close>

definition cancel_newest :: "virtual_node list \<Rightarrow> virtual_node list" where
  "cancel_newest vs = (if vs = [] then [] else butlast vs @ [(last vs)\<lparr>vn_phase := Finished\<rparr>])"

definition stop_node :: "string \<Rightarrow> simulator \<Rightarrow> simulator" where
  "stop_node n s =
     (if n \<notin> set (sm_tasks s) then s
      else s\<lparr>sm_tasks := remove1 n (sm_tasks s),
             incarnations := (case dict_get (incarnations s) n of None \<Rightarrow> incarnations s
               | Some vs \<Rightarrow> dict_set n (cancel_newest vs) (incarnations s))\<rparr>)"

definition stop_all :: "simulator \<Rightarrow> simulator" where
  "stop_all s = foldl (\<lambda>s n. stop_node n s) s (sm_tasks s)"

text \<open>The two halves of \<open>_failure_sequence\<close>.\<close>

definition fail_node :: "int \<Rightarrow> simulator \<Rightarrow> simulator" where
  "fail_node now s = stop_node (virtual_id 0) (s\<lparr>failure_timestamp_ms := Some now\<rparr>)"

definition recover_node :: "int \<Rightarrow> simulator \<Rightarrow> simulator result" where
  "recover_node now s = rbind (start_incarnation 0 s) (\<lambda>s'. Inr (s'\<lparr>recovery_timestamp_ms := Some now\<rparr>))"

definition node_total :: "virtual_node list \<Rightarrow> node_totals" where
  "node_total vs = foldl totals_add zero_totals vs"

definition totals :: "simulator \<Rightarrow> (string, node_totals) dict" where
  "totals s = map (\<lambda>(n, vs). (n, node_total vs)) (incarnations s)"

definition scheduled_readings :: "simulator \<Rightarrow> int result" where
  "scheduled_readings s = rbind (fdiv (sm_duration_seconds s) (sm_sampling_interval s)) py_floor"

text \<open>\<open>_write_stats\<close>: one row per node in the order of the ids; a node missing from the baseline
  raises \<open>KeyError\<close>.\<close>

record stats_row =
  sr_node_id :: string
  sr_scheduled :: int
  sr_measured :: node_totals
  sr_incarnations :: nat

fun stats_rows :: "simulator \<Rightarrow> int \<Rightarrow> (string, node_totals) dict \<Rightarrow> (string, node_totals) dict \<Rightarrow> stats_row list result" where
  "stats_rows s scheduled baseline [] = Inr []"
| "stats_rows s scheduled baseline ((n, t) # ts) =
     (case dict_get baseline n of
        None \<Rightarrow> Inl (KeyError n)
      | Some b \<Rightarrow> rbind (stats_rows s scheduled baseline ts) (\<lambda>rows.
          Inr (\<lparr>sr_node_id = n, sr_scheduled = scheduled, sr_measured = totals_subtract t b,
                sr_incarnations = (case dict_get (incarnations s) n of None \<Rightarrow> 0 | Some vs \<Rightarrow> length vs)\<rparr> # rows)))"

definition write_stats ::
  "simulator \<Rightarrow> (string, node_totals) dict \<Rightarrow> (string, node_totals) dict \<Rightarrow> stats_row list result" where
  "write_stats s baseline final =
     rbind (scheduled_readings s) (\<lambda>scheduled. stats_rows s scheduled baseline (sort_key fst final))"

section \<open>A run of the simulator\<close>

datatype sim_event = SimNode string node_event | SimFail int | SimRecover int

fun sim_step :: "(pyfloat \<Rightarrow> pyfloat) \<Rightarrow> simulator \<Rightarrow> sim_event \<Rightarrow> simulator" where
  "sim_step sine s (SimNode n e) =
     (if n \<notin> set (sm_tasks s) then s
      else case dict_get (incarnations s) n of
        None \<Rightarrow> s
      | Some vs \<Rightarrow> if vs = [] then s
          else s\<lparr>incarnations := dict_set n (butlast vs @ [node_step sine (last vs) e]) (incarnations s)\<rparr>)"
| "sim_step sine s (SimFail now) =
     (if sm_failure_at s = None \<or> failure_timestamp_ms s \<noteq> None then s else fail_node now s)"
| "sim_step sine s (SimRecover now) =
     (if sm_recovery_at s = None \<or> failure_timestamp_ms s = None \<or> recovery_timestamp_ms s \<noteq> None then s
      else or_same s (recover_node now s))"

record sim_summary =
  measurement_boundary_guard :: pyfloat
  effective_warmup :: pyfloat
  failure_node_id :: "string option"
  ss_failure_timestamp_ms :: "int option"
  ss_recovery_timestamp_ms :: "int option"

text \<open>\<open>run\<close>: the warmup events, the baseline, the events of the measurement interval, then the stop.
  The result is the state after the stop, the rows of the statistics file and the computed part of
  the summary; the four clock readings it also stores are read, not computed.\<close>

definition simulator_run ::
  "(pyfloat \<Rightarrow> pyfloat) \<Rightarrow> simulator \<Rightarrow> sim_event list \<Rightarrow> sim_event list \<Rightarrow> (simulator \<times> stats_row list \<times> sim_summary) result" where
  "simulator_run sine s warm measured =
     rbind (start_all [0..<sm_node_count s] s) (\<lambda>s1.
     rbind (fdiv (sm_sampling_interval s1) (Fin 2)) (\<lambda>guard.
       let s2 = foldl (sim_step sine) s1 warm;
           s3 = stop_all (foldl (sim_step sine) s2 measured)
       in rbind (write_stats s3 (totals s2) (totals s3)) (\<lambda>rows.
            Inr (s3, rows,
                 \<lparr>measurement_boundary_guard = guard, effective_warmup = fadd (sm_warmup_seconds s) guard,
                   failure_node_id = (if sm_failure_at s = None then None else Some ''virtual-000''),
                   ss_failure_timestamp_ms = failure_timestamp_ms s3,
                   ss_recovery_timestamp_ms = recovery_timestamp_ms s3\<rparr>))))"

section \<open>Sums over incarnations\<close>

lemma node_total_sums:
  "nt_samples_generated (node_total vs) = (\<Sum>v\<leftarrow>vs. samples_generated v)"
  "nt_send_attempts (node_total vs) = (\<Sum>v\<leftarrow>vs. send_attempts v)"
  "nt_successful_writes (node_total vs) = (\<Sum>v\<leftarrow>vs. messages_sent v)"
  "nt_application_drops (node_total vs) = (\<Sum>v\<leftarrow>vs. application_drops v)"
proof (induction vs rule: rev_induct)
  case Nil { case 1 show ?case by (simp add: node_total_def zero_totals_def) }
    { case 2 show ?case by (simp add: node_total_def zero_totals_def) }
    { case 3 show ?case by (simp add: node_total_def zero_totals_def) }
    { case 4 show ?case by (simp add: node_total_def zero_totals_def) }
qed (simp_all add: node_total_def totals_add_def)

definition in_flight_writes :: "virtual_node list \<Rightarrow> int" where
  "in_flight_writes vs = (\<Sum>v\<leftarrow>vs. int (length (pending v)))"

definition lost_writes :: "virtual_node list \<Rightarrow> int" where
  "lost_writes vs = (\<Sum>v\<leftarrow>vs. lost v)"

lemma writes_split:
  "nt_successful_writes (node_total vs) = nt_send_attempts (node_total vs) - lost_writes vs - in_flight_writes vs"
  unfolding node_total_sums lost_writes_def in_flight_writes_def lost_def
  by (induction vs) auto

text \<open>A later list of incarnations of the same node.\<close>

definition later :: "virtual_node list \<Rightarrow> virtual_node list \<Rightarrow> bool" where
  "later vs ws \<longleftrightarrow> length vs \<le> length ws \<and> list_all2 grows vs (take (length vs) ws) \<and> list_all node_inv ws"

lemma node_inv_nonneg:
  "node_inv v \<Longrightarrow> 0 \<le> send_attempts v \<and> 0 \<le> messages_sent v \<and> 0 \<le> application_drops v \<and> 0 \<le> lost v"
  by (auto simp: node_inv_def lost_def)

lemma sum_grows:
  assumes "list_all2 grows vs us" "list_all node_inv ws"
    "\<And>v w. grows v w \<Longrightarrow> f v \<le> f w" "\<And>v. node_inv v \<Longrightarrow> 0 \<le> f v"
  shows "sum_list (map f vs) \<le> (\<Sum>v\<leftarrow>us @ ws. f v :: int)"
proof -
  have "sum_list (map f vs) \<le> sum_list (map f us)"
    using assms(1,3) by (induction rule: list_all2_induct) (auto intro: add_mono)
  moreover have "0 \<le> sum_list (map f ws)"
    using assms(2,4) by (auto simp: list_all_iff intro!: sum_list_nonneg)
  ultimately show ?thesis by simp
qed

lemma later_totals:
  assumes "later vs ws" "list_all node_inv vs"
  defines "m \<equiv> totals_subtract (node_total ws) (node_total vs)"
  shows "nt_samples_generated m = nt_send_attempts m + nt_application_drops m" "0 \<le> nt_send_attempts m"
    "0 \<le> nt_successful_writes m" "0 \<le> nt_application_drops m"
    "nt_successful_writes m \<le> nt_send_attempts m + in_flight_writes vs"
proof -
  let ?us = "take (length vs) ws" and ?rest = "drop (length vs) ws"
  have g: "list_all2 grows vs ?us" "list_all node_inv ?rest"
    using assms(1) by (auto simp: later_def list_all_iff dest: in_set_dropD)
  have mono: "sum_list (map f vs) \<le> sum_list (map f ws)"
    if "\<And>v w. grows v w \<Longrightarrow> f v \<le> f w" "\<And>v. node_inv v \<Longrightarrow> 0 \<le> f v" for f :: "virtual_node \<Rightarrow> int"
    using sum_grows [OF g that] by simp
  have bal: "nt_samples_generated (node_total us) = nt_send_attempts (node_total us) + nt_application_drops (node_total us)"
    if "list_all node_inv us" for us
    using that unfolding node_total_sums by (induction us) (auto simp: node_inv_def)
  have inv: "list_all node_inv ws" using assms(1) by (simp add: later_def)
  show "nt_samples_generated m = nt_send_attempts m + nt_application_drops m"
    using bal [OF inv] bal [OF assms(2)] by (simp add: m_def totals_subtract_def)
  show "0 \<le> nt_send_attempts m" "0 \<le> nt_successful_writes m" "0 \<le> nt_application_drops m"
    using mono [of send_attempts] mono [of messages_sent] mono [of application_drops]
    by (auto simp: m_def totals_subtract_def node_total_sums grows_def node_inv_nonneg)
  have "lost_writes vs \<le> lost_writes ws" "0 \<le> in_flight_writes ws"
    using mono [of lost] by (auto simp: lost_writes_def in_flight_writes_def grows_def node_inv_nonneg intro!: sum_list_nonneg)
  then show "nt_successful_writes m \<le> nt_send_attempts m + in_flight_writes vs"
    using writes_split [of ws] writes_split [of vs] by (simp add: m_def totals_subtract_def)
qed

section \<open>Node ids\<close>

definition numeral_value :: "string \<Rightarrow> nat" where
  "numeral_value s = foldl (\<lambda>a c. 10 * a + (of_char c - 48)) 0 s"

lemma numeral_value_snoc: "numeral_value (s @ [c]) = 10 * numeral_value s + (of_char c - 48)"
  by (simp add: numeral_value_def)

lemma numeral_value_str_of_nat: "numeral_value (str_of_nat n) = n"
proof (induction n rule: str_of_nat.induct)
  case (1 n)
  show ?case
  proof (cases "n < 10")
    case True
    then show ?thesis by (simp add: numeral_value_def digit_char_code str_of_nat.simps [of n])
  next
    case False
    then show ?thesis using 1 by (simp add: numeral_value_snoc digit_char_code str_of_nat.simps [of n])
  qed
qed

lemma numeral_value_pad: "numeral_value (replicate k (CHR ''0'') @ s) = numeral_value s"
  by (induction k) (simp_all add: numeral_value_def)

lemma virtual_id_inj: "virtual_id i = virtual_id j \<Longrightarrow> i = j"
  by (auto simp: virtual_id_def pad3_def numeral_value_pad numeral_value_str_of_nat dest: arg_cong [of _ _ numeral_value])

lemma distinct_virtual_ids: "distinct (map virtual_id [0..<n])"
  by (auto simp: distinct_map inj_on_def dest: virtual_id_inj)

text \<open>Ids below this bound fit the protocol's 64 characters with room to spare.\<close>

definition id_limit :: nat where
  "id_limit = 10 ^ 50"

lemma virtual_id_ok:
  assumes "i < id_limit"
  shows "node_id_ok (virtual_id i)"
proof -
  have d: "is_alnum c" if "c \<in> set (pad3 i)" for c
    using that str_of_nat_digits [of c i] by (auto simp: pad3_def is_alnum_def)
  have l: "length (str_of_nat i) \<le> 50" using str_of_nat_length_pow [of i 49] assms by (simp add: id_limit_def)
  then have "length (virtual_id i) \<le> 64" by (simp add: virtual_id_def pad3_def)
  moreover have "str_len (virtual_id i) = length (virtual_id i)"
    using d by (intro str_len_ascii) (fastforce simp: virtual_id_def is_alnum_def Let_def)
  moreover have "matches_node_id_pattern (virtual_id i)"
    using d by (auto simp: virtual_id_def matches_node_id_pattern_def is_alnum_def is_id_char_def list_all_iff)
  ultimately show ?thesis by (simp add: node_id_ok_def virtual_id_def)
qed

section \<open>The simulator's invariant\<close>

definition incarnations_ok :: "simulator \<Rightarrow> string \<Rightarrow> virtual_node list \<Rightarrow> bool" where
  "incarnations_ok s n vs \<longleftrightarrow> list_all node_inv vs \<and> list_all (\<lambda>v. vn_phase v = Finished) (butlast vs) \<and>
     (n \<notin> set (sm_tasks s) \<longrightarrow> vn_phase (last vs) = Finished) \<and>
     length vs = (if n = virtual_id 0 \<and> recovery_timestamp_ms s \<noteq> None then 2 else 1)"

definition startable :: "simulator \<Rightarrow> bool" where
  "startable s \<longleftrightarrow> sm_node_count s \<le> id_limit \<and> 1 \<le> sm_node_count s \<and>
     flt (Fin 0) (sm_sampling_interval s) \<and> is_finite (sm_sampling_interval s) \<and>
     fle (Fin 0) (sm_drop_probability s) \<and> fle (sm_drop_probability s) (Fin 1) \<and> fle (Fin 0) (sm_artificial_delay s)"

definition node_ids :: "simulator \<Rightarrow> string list" where
  "node_ids s = map virtual_id [0..<sm_node_count s]"

definition sim_frame :: "simulator \<Rightarrow> bool" where
  "sim_frame s \<longleftrightarrow> startable s \<and> map fst (incarnations s) = node_ids s \<and>
     set (sm_tasks s) \<subseteq> set (node_ids s) \<and> distinct (sm_tasks s) \<and>
     (failure_timestamp_ms s \<noteq> None \<and> recovery_timestamp_ms s = None \<longrightarrow> virtual_id 0 \<notin> set (sm_tasks s)) \<and>
     (failure_timestamp_ms s = None \<longrightarrow> recovery_timestamp_ms s = None)"

definition sim_inv :: "simulator \<Rightarrow> bool" where
  "sim_inv s \<longleftrightarrow> sim_frame s \<and> (\<forall>n vs. dict_get (incarnations s) n = Some vs \<longrightarrow> incarnations_ok s n vs)"

lemma start_incarnation_eq:
  assumes "startable s" "i < id_limit"
  shows "\<exists>v. node_inv v \<and> start_incarnation i s =
    Inr (s\<lparr>incarnations := dict_set (virtual_id i)
             ((case dict_get (incarnations s) (virtual_id i) of None \<Rightarrow> [] | Some vs \<Rightarrow> vs) @ [v]) (incarnations s),
           sm_tasks := (if virtual_id i \<in> set (sm_tasks s) then sm_tasks s else sm_tasks s @ [virtual_id i])\<rparr>)"
proof -
  obtain t where t: "sm_sampling_interval s = Fin t" "0 < t"
    using assms(1) by (auto simp: startable_def is_finite_iff)
  obtain u where u: "fl (1 / 10) = Fin u" "0 < u" "u \<le> 1" 
    by (rule that [OF fl_tenth]) simp_all
  have "VirtualNodeConfig (incarnation_config s i) = Inr (incarnation_config s i)"
    using assms virtual_id_ok [OF assms(2)] t u
    by (simp add: VirtualNodeConfig_def incarnation_config_def validate_node_id_def startable_def fle_not_flt)
  moreover obtain v where "node_run None (VirtualNode (incarnation_config s i)) = Inr v"
    by (cases "node_run None (VirtualNode (incarnation_config s i))") (auto simp: node_run_def Let_def split: if_splits)
  ultimately show ?thesis using node_run_inv by (auto simp: start_incarnation_def)
qed

lemma startable_updates [simp]:
  "startable (s\<lparr>incarnations := d\<rparr>) = startable s" "startable (s\<lparr>sm_tasks := t\<rparr>) = startable s"
  "startable (s\<lparr>failure_timestamp_ms := a\<rparr>) = startable s" "startable (s\<lparr>recovery_timestamp_ms := b\<rparr>) = startable s"
  by (simp_all add: startable_def)

lemma incarnations_ok_cong:
  "sm_tasks s = sm_tasks t \<Longrightarrow> recovery_timestamp_ms s = recovery_timestamp_ms t \<Longrightarrow>
    incarnations_ok s n vs = incarnations_ok t n vs"
  by (simp add: incarnations_ok_def)

text \<open>The start: after the ids below \<open>k\<close> each has its first incarnation and its task.\<close>

lemma start_all_from:
  assumes "startable s" "k \<le> sm_node_count s" "map fst (incarnations s) = map virtual_id [0..<k]"
    "sm_tasks s = map virtual_id [0..<k]" "failure_timestamp_ms s = None" "recovery_timestamp_ms s = None"
    "\<forall>n vs. dict_get (incarnations s) n = Some vs \<longrightarrow> length vs = 1 \<and> list_all node_inv vs"
  shows "\<exists>s'. start_all [k..<sm_node_count s] s = Inr s' \<and> sim_inv s' \<and>
    s' = s\<lparr>incarnations := incarnations s', sm_tasks := sm_tasks s'\<rparr>"
  using assms
proof (induction "sm_node_count s - k" arbitrary: k s)
  case 0
  have keys: "fst ` set (incarnations s) = set (sm_tasks s)"
    using arg_cong [OF 0(4), of set] 0(5) by simp
  have ok: "incarnations_ok s n vs" if "dict_get (incarnations s) n = Some vs" for n vs
  proof -
    have "n \<in> fst ` set (incarnations s)" using that by (force dest: map_of_SomeD)
    then have "n \<in> set (sm_tasks s)" using keys by simp
    then show ?thesis using that 0(7,8) by (fastforce simp: incarnations_ok_def length_Suc_conv)
  qed
  show ?case
    by (rule exI [of _ s]) (use 0 keys ok in \<open>auto simp: sim_inv_def sim_frame_def node_ids_def distinct_virtual_ids\<close>)
next
  case (Suc m)
  have k: "k < sm_node_count s" using Suc.hyps(2) by simp
  have new: "virtual_id k \<notin> set (map virtual_id [0..<k])"
    using distinct_virtual_ids [of "Suc k"] by simp
  have "k < id_limit" using Suc.prems(1) k unfolding startable_def by linarith
  moreover have "dict_get (incarnations s) (virtual_id k) = None" "virtual_id k \<notin> set (sm_tasks s)"
    using new Suc.prems(3,4) by (simp_all add: map_of_eq_None_iff flip: list.set_map)
  ultimately obtain v where v: "node_inv v" "start_incarnation k s = Inr (s\<lparr>incarnations := dict_set (virtual_id k) [v] (incarnations s),
      sm_tasks := sm_tasks s @ [virtual_id k]\<rparr>)" (is "_ = Inr ?t")
    using start_incarnation_eq [OF Suc.prems(1), of k] by auto
  have "map fst (incarnations ?t) = map virtual_id [0..<Suc k]"
    using new Suc.prems(3) by (simp add: dict_set_keys)
  then have "\<exists>s'. start_all [Suc k..<sm_node_count ?t] ?t = Inr s' \<and> sim_inv s' \<and>
      s' = ?t\<lparr>incarnations := incarnations s', sm_tasks := sm_tasks s'\<rparr>"
    using Suc.hyps(2) Suc.prems v(1) k by (intro Suc.hyps(1)) (auto split: if_splits)
  then show ?case using v(2) k by (auto simp: upt_conv_Cons)
qed

section \<open>Steps of a running simulation\<close>

lemma later_refl: "list_all node_inv vs \<Longrightarrow> later vs vs"
  by (simp add: later_def list_all2_refl)

lemma later_trans:
  assumes "later us vs" "later vs ws"
  shows "later us ws"
proof -
  have "list_all2 grows (take (length us) vs) (take (length us) ws)"
    using assms list_all2_takeI [of grows vs "take (length vs) ws" "length us"] by (auto simp: later_def min_def)
  then show ?thesis
    using assms by (auto simp: later_def intro: list_all2_trans [of grows grows grows, OF grows_trans])
qed

lemma later_snoc: "list_all node_inv vs \<Longrightarrow> node_inv v \<Longrightarrow> later vs (vs @ [v])"
  by (simp add: later_def list_all2_refl)

lemma later_newest:
  "list_all node_inv vs \<Longrightarrow> vs \<noteq> [] \<Longrightarrow> grows (List.last vs) w \<Longrightarrow> node_inv w \<Longrightarrow> later vs (butlast vs @ [w])"
  by (cases vs rule: rev_cases) (auto simp: later_def list_all2_refl intro!: list_all2_appendI)

definition settings :: "simulator \<Rightarrow> nat \<times> pyfloat \<times> pyfloat" where
  "settings s = (sm_node_count s, sm_sampling_interval s, sm_duration_seconds s)"

definition sim_later :: "simulator \<Rightarrow> simulator \<Rightarrow> bool" where
  "sim_later s t \<longleftrightarrow> settings t = settings s \<and> (\<forall>n vs. dict_get (incarnations s) n = Some vs \<longrightarrow>
     (\<exists>ws. dict_get (incarnations t) n = Some ws \<and> later vs ws))"

lemma sim_later_trans: "sim_later s t \<Longrightarrow> sim_later t u \<Longrightarrow> sim_later s u"
  unfolding sim_later_def by (fastforce intro: later_trans)

lemma sim_inv_get:
  assumes "sim_inv s" "dict_get (incarnations s) n = Some vs"
  shows "incarnations_ok s n vs \<and> vs \<noteq> [] \<and> list_all node_inv vs"
proof -
  have ok: "incarnations_ok s n vs" using assms by (simp add: sim_inv_def)
  then have "0 < length vs" by (simp add: incarnations_ok_def)
  then show ?thesis using ok by (simp add: incarnations_ok_def)
qed

lemma sim_frame_incarnations:
  "map fst d = map fst (incarnations s) \<Longrightarrow> sim_frame (s\<lparr>incarnations := d\<rparr>) = sim_frame s"
  by (simp add: sim_frame_def node_ids_def)

lemma sim_later_refl: "sim_inv s \<Longrightarrow> sim_later s s"
  by (auto simp: sim_later_def dest: sim_inv_get intro: later_refl)

text \<open>Replacing the incarnations of one node by later ones.\<close>

lemma replace_incarnations:
  assumes "sim_inv s" "dict_get (incarnations s) n = Some vs" "later vs ws"
  shows "sim_later s (s\<lparr>incarnations := dict_set n ws (incarnations s), sm_tasks := t\<rparr>)"
    "map fst (dict_set n ws (incarnations s)) = map fst (incarnations s)"
proof -
  show "sim_later s (s\<lparr>incarnations := dict_set n ws (incarnations s), sm_tasks := t\<rparr>)"
    using assms by (auto simp: sim_later_def settings_def dest: sim_inv_get intro: later_refl)
  have "n \<in> set (map fst (incarnations s))" using assms(2) by (force dest: map_of_SomeD)
  then show "map fst (dict_set n ws (incarnations s)) = map fst (incarnations s)"
    by (simp add: dict_set_keys)
qed

definition steps_to :: "simulator \<Rightarrow> simulator \<Rightarrow> bool" where
  "steps_to s t \<longleftrightarrow> sim_inv t \<and> sim_later s t"

lemma steps_to_refl: "sim_inv s \<Longrightarrow> steps_to s s"
  by (simp add: steps_to_def sim_later_refl)

lemma node_event_steps:
  assumes "sim_inv s"
  shows "steps_to s (sim_step sine s (SimNode n e))"
proof (cases "n \<in> set (sm_tasks s) \<and> dict_get (incarnations s) n \<noteq> None")
  case True
  then obtain vs where vs: "dict_get (incarnations s) n = Some vs" by auto
  note ok = sim_inv_get [OF assms vs]
  let ?w = "node_step sine (List.last vs) e" and ?ws = "butlast vs @ [node_step sine (List.last vs) e]"
  have "node_inv ?w" using ok by (cases vs rule: rev_cases) (auto intro: vnode.step_inv)
  then have l: "later vs ?ws" using ok by (intro later_newest) (auto intro: grows_step)
  have "incarnations_ok s n ?ws"
    using ok True l by (auto simp: incarnations_ok_def later_def list_all_iff)
  then have "sim_inv (s\<lparr>incarnations := dict_set n ?ws (incarnations s)\<rparr>)"
    using assms replace_incarnations(2) [OF assms vs l]
    by (simp add: sim_inv_def sim_frame_incarnations incarnations_ok_def)
  then show ?thesis
    using True vs ok replace_incarnations(1) [OF assms vs l, of "sm_tasks s"] by (simp add: steps_to_def)
qed (use assms in \<open>auto simp: steps_to_refl\<close>)

lemma stop_node_steps:
  assumes "sim_inv s"
  shows "steps_to s (stop_node n s)" "sm_tasks (stop_node n s) = remove1 n (sm_tasks s)"
proof -
  show "sm_tasks (stop_node n s) = remove1 n (sm_tasks s)" by (simp add: stop_node_def remove1_idem)
  show "steps_to s (stop_node n s)"
  proof (cases "n \<in> set (sm_tasks s)")
    case True
    then have "n \<in> set (map fst (incarnations s))" using assms by (auto simp: sim_inv_def sim_frame_def simp del: list.set_map)
    then obtain vs where vs: "dict_get (incarnations s) n = Some vs"
      by (metis map_of_eq_None_iff list.set_map option.exhaust)
    note ok = sim_inv_get [OF assms vs]
    have "node_inv ((List.last vs)\<lparr>vn_phase := Finished\<rparr>)"
      using ok by (cases vs rule: rev_cases) (auto intro: node_inv_phase)
    then have l: "later vs (cancel_newest vs)"
      using ok by (auto simp: cancel_newest_def intro!: later_newest grows_phase)
    let ?t = "s\<lparr>incarnations := dict_set n (cancel_newest vs) (incarnations s), sm_tasks := remove1 n (sm_tasks s)\<rparr>"
    have "incarnations_ok ?t n (cancel_newest vs)"
      using ok l by (auto simp: incarnations_ok_def later_def cancel_newest_def list_all_iff)
    moreover have "incarnations_ok ?t m us" if "dict_get (incarnations s) m = Some us" "m \<noteq> n" for m us
      using sim_inv_get [OF assms that(1)] that(2) by (auto simp: incarnations_ok_def)
    moreover have "sim_frame ?t"
      using assms replace_incarnations(2) [OF assms vs l]
      by (auto simp: sim_inv_def sim_frame_def node_ids_def simp del: list.set_map dest: notin_set_remove1)
    ultimately have "sim_inv ?t" by (simp add: sim_inv_def)
    moreover have "stop_node n s = ?t" using True vs by (simp add: stop_node_def)
    ultimately show ?thesis using replace_incarnations(1) [OF assms vs l] by (simp add: steps_to_def)
  qed (use assms in \<open>auto simp: steps_to_refl stop_node_def\<close>)
qed

lemma fail_node_steps:
  assumes "sim_inv s" "failure_timestamp_ms s = None"
  shows "steps_to s (fail_node now s)"
proof -
  have s: "steps_to s (stop_node (virtual_id 0) s)" "sm_tasks (stop_node (virtual_id 0) s) = remove1 (virtual_id 0) (sm_tasks s)"
    by (rule stop_node_steps [OF assms(1)])+
  have f: "fail_node now s = (stop_node (virtual_id 0) s)\<lparr>failure_timestamp_ms := Some now\<rparr>"
    by (simp add: fail_node_def stop_node_def split: option.splits)
  have "virtual_id 0 \<notin> set (sm_tasks (stop_node (virtual_id 0) s))"
    using assms(1) by (simp add: s(2) sim_inv_def sim_frame_def)
  then show ?thesis
    using s(1) f by (auto simp: steps_to_def sim_inv_def sim_frame_def node_ids_def incarnations_ok_def sim_later_def settings_def)
qed

lemma recover_node_steps:
  assumes "sim_inv s" "failure_timestamp_ms s \<noteq> None" "recovery_timestamp_ms s = None"
  shows "\<exists>t. recover_node now s = Inr t \<and> steps_to s t"
proof -
  have st: "startable s" and keys: "map fst (incarnations s) = node_ids s" and out: "virtual_id 0 \<notin> set (sm_tasks s)"
    using assms by (auto simp: sim_inv_def sim_frame_def)
  have "(0::nat) < id_limit" by (simp add: id_limit_def)
  from start_incarnation_eq [OF st this] obtain v where v: "node_inv v" "start_incarnation 0 s =
      Inr (s\<lparr>incarnations := dict_set (virtual_id 0)
               ((case dict_get (incarnations s) (virtual_id 0) of None \<Rightarrow> [] | Some vs \<Rightarrow> vs) @ [v]) (incarnations s),
             sm_tasks := sm_tasks s @ [virtual_id 0]\<rparr>)"
    using out by auto
  have id0: "virtual_id 0 \<in> set (node_ids s)" using st by (simp add: node_ids_def startable_def)
  then obtain vs where vs: "dict_get (incarnations s) (virtual_id 0) = Some vs"
    using keys by (metis map_of_eq_None_iff list.set_map option.exhaust)
  note ok = sim_inv_get [OF assms(1) vs]
  have l: "later vs (vs @ [v])" using ok v(1) by (intro later_snoc) auto
  let ?t = "s\<lparr>incarnations := dict_set (virtual_id 0) (vs @ [v]) (incarnations s),
              sm_tasks := sm_tasks s @ [virtual_id 0], recovery_timestamp_ms := Some now\<rparr>"
  have "recover_node now s = Inr ?t" using v(2) vs by (simp add: recover_node_def)
  moreover have "sim_frame ?t"
    using assms id0 out replace_incarnations(2) [OF assms(1) vs l]
    by (auto simp: sim_inv_def sim_frame_def node_ids_def simp del: list.set_map)
  moreover have "incarnations_ok ?t (virtual_id 0) (vs @ [v])"
    using ok v(1) out assms(3) by (cases vs rule: rev_cases) (auto simp: incarnations_ok_def)
  moreover have "incarnations_ok ?t m us" if "dict_get (incarnations s) m = Some us" "m \<noteq> virtual_id 0" for m us
    using sim_inv_get [OF assms(1) that(1)] that(2) by (auto simp: incarnations_ok_def)
  moreover have "sim_later s ?t" using replace_incarnations(1) [OF assms(1) vs l] by (simp add: sim_later_def settings_def)
  ultimately show ?thesis by (simp add: steps_to_def sim_inv_def)
qed

lemma sim_step_steps:
  assumes "sim_inv s"
  shows "steps_to s (sim_step sine s e)"
proof (cases e)
  case (SimNode n x)
  then show ?thesis using node_event_steps [OF assms] by (simp only:)
next
  case (SimFail now)
  then show ?thesis using fail_node_steps [OF assms] steps_to_refl [OF assms] by simp
next
  case (SimRecover now)
  then show ?thesis
    using recover_node_steps [OF assms, of now] steps_to_refl [OF assms] by (auto simp: or_same_def)
qed

lemma steps_to_trans: "steps_to s t \<Longrightarrow> steps_to t u \<Longrightarrow> steps_to s u"
  by (auto simp: steps_to_def intro: sim_later_trans)

interpretation sim: machine "sim_step sine" "steps_to s" "\<lambda>_. True" for sine s
  by unfold_locales (metis steps_to_def sim_step_steps steps_to_trans)

lemma stop_tasks_steps: "sim_inv s \<Longrightarrow> steps_to s (foldl (\<lambda>s n. stop_node n s) s ns)"
proof (induction ns arbitrary: s)
  case (Cons n ns)
  then have "steps_to s (stop_node n s)" by (intro stop_node_steps)
  then show ?case using Cons.IH [of "stop_node n s"] steps_to_trans by (auto simp: steps_to_def)
qed (simp add: steps_to_refl)

section \<open>The measured rows\<close>

lemma map_sort_key: "map f (sort_key f xs) = sort (map f xs)"
  by (rule properties_for_sort [symmetric]) simp_all

lemma stats_rows_total:
  assumes "\<forall>p \<in> set ts. dict_get b (fst p) \<noteq> None"
  shows "\<exists>rows. stats_rows s k b ts = Inr rows \<and> map sr_node_id rows = map fst ts \<and>
    (\<forall>r \<in> set rows. \<exists>t u. (sr_node_id r, t) \<in> set ts \<and> dict_get b (sr_node_id r) = Some u \<and>
       sr_measured r = totals_subtract t u \<and> sr_scheduled r = k \<and>
       sr_incarnations r = (case dict_get (incarnations s) (sr_node_id r) of None \<Rightarrow> 0 | Some vs \<Rightarrow> length vs))"
  using assms
proof (induction ts)
  case (Cons p ts)
  obtain n t where p: "p = (n, t)" by force
  obtain u where u: "dict_get b n = Some u" using Cons.prems p by auto
  obtain rows where r: "stats_rows s k b ts = Inr rows" "map sr_node_id rows = map fst ts"
    "\<forall>r \<in> set rows. \<exists>t u. (sr_node_id r, t) \<in> set ts \<and> dict_get b (sr_node_id r) = Some u \<and>
       sr_measured r = totals_subtract t u \<and> sr_scheduled r = k \<and>
       sr_incarnations r = (case dict_get (incarnations s) (sr_node_id r) of None \<Rightarrow> 0 | Some vs \<Rightarrow> length vs)"
    using Cons by auto
  then show ?case using p u by simp blast
qed simp

lemma totals_get: "dict_get (totals s) n = map_option node_total (dict_get (incarnations s) n)"
  by (simp add: totals_def map_of_map)

lemma totals_keys: "map fst (totals s) = map fst (incarnations s)"
  by (simp add: totals_def case_prod_beta comp_def)

lemma in_flight_le:
  assumes "incarnations_ok s n vs" "vs \<noteq> []"
  shows "in_flight_writes vs \<le> 1"
proof -
  obtain us v where vs: "vs = us @ [v]" using assms(2) by (cases vs rule: rev_cases) auto
  have "\<forall>u \<in> set us. pending u = []"
    using assms(1) vs by (auto simp: incarnations_ok_def list_all_iff pending_def)
  then have "(\<Sum>u\<leftarrow>us. int (length (pending u))) = 0" by (simp cong: map_cong)
  then show ?thesis using vs by (simp add: in_flight_writes_def pending_def split: node_phase.splits)
qed

definition row_balances :: "stats_row \<Rightarrow> bool" where
  "row_balances r \<longleftrightarrow>
     nt_samples_generated (sr_measured r) = nt_send_attempts (sr_measured r) + nt_application_drops (sr_measured r) \<and>
     0 \<le> nt_send_attempts (sr_measured r) \<and> 0 \<le> nt_application_drops (sr_measured r) \<and>
     0 \<le> nt_successful_writes (sr_measured r) \<and> nt_successful_writes (sr_measured r) \<le> nt_send_attempts (sr_measured r) + 1"

lemma virtual_id_0: "virtual_id 0 = ''virtual-000''"
  by code_simp

lemma write_stats_rows:
  assumes "sim_inv b" "steps_to b t" "scheduled_readings b = Inr k"
  shows "\<exists>rows. write_stats t (totals b) (totals t) = Inr rows \<and> map sr_node_id rows = sort (node_ids b) \<and>
    (\<forall>r \<in> set rows. row_balances r \<and> sr_scheduled r = k \<and>
       sr_incarnations r = (if sr_node_id r = ''virtual-000'' \<and> recovery_timestamp_ms t \<noteq> None then 2 else 1))"
proof -
  have it: "sim_inv t" and l: "sim_later b t" using assms(2) by (auto simp: steps_to_def)
  have set: "settings t = settings b" using l by (simp add: sim_later_def)
  then have ids: "node_ids t = node_ids b" by (simp add: settings_def node_ids_def)
  have k: "scheduled_readings t = Inr k" using assms(3) set by (simp add: settings_def scheduled_readings_def)
  have keys: "map fst (incarnations t) = node_ids b" "map fst (incarnations b) = node_ids b"
    using it assms(1) ids by (auto simp: sim_inv_def sim_frame_def)
  have dist: "distinct (map fst (totals t))" using keys by (simp add: totals_keys node_ids_def distinct_virtual_ids)
  have "\<forall>p \<in> set (sort_key fst (totals t)). dict_get (totals b) (fst p) \<noteq> None"
  proof
    fix p
    assume "p \<in> set (sort_key fst (totals t))"
    then have "fst p \<in> set (map fst (totals t))" by (simp only: set_sort set_map) (rule imageI)
    then have "fst p \<in> set (map fst (incarnations b))" using keys by (simp only: totals_keys)
    then show "dict_get (totals b) (fst p) \<noteq> None" by (simp add: totals_get map_of_eq_None_iff)
  qed
  from stats_rows_total [OF this, of t k] obtain rows where rows:
    "stats_rows t k (totals b) (sort_key fst (totals t)) = Inr rows" "map sr_node_id rows = map fst (sort_key fst (totals t))"
    "\<And>r. r \<in> set rows \<Longrightarrow> \<exists>x u. (sr_node_id r, x) \<in> set (totals t) \<and> dict_get (totals b) (sr_node_id r) = Some u \<and>
       sr_measured r = totals_subtract x u \<and> sr_scheduled r = k \<and>
       sr_incarnations r = (case dict_get (incarnations t) (sr_node_id r) of None \<Rightarrow> 0 | Some vs \<Rightarrow> length vs)"
    by auto
  have "row_balances r \<and> sr_scheduled r = k \<and>
      sr_incarnations r = (if sr_node_id r = ''virtual-000'' \<and> recovery_timestamp_ms t \<noteq> None then 2 else 1)"
    if mem: "r \<in> set rows" for r
  proof -
    obtain x u where r: "(sr_node_id r, x) \<in> set (totals t)" "dict_get (totals b) (sr_node_id r) = Some u"
      "sr_measured r = totals_subtract x u" "sr_scheduled r = k"
      "sr_incarnations r = (case dict_get (incarnations t) (sr_node_id r) of None \<Rightarrow> 0 | Some vs \<Rightarrow> length vs)"
      using rows(3) [OF mem] by auto
    obtain vs where vs: "dict_get (incarnations b) (sr_node_id r) = Some vs" "u = node_total vs"
      using r(2) by (auto simp: totals_get)
    obtain ws where ws: "dict_get (incarnations t) (sr_node_id r) = Some ws" "later vs ws"
      using l vs(1) by (auto simp: sim_later_def)
    have x: "x = node_total ws" using dict_values_get [OF dist r(1)] ws(1) by (simp add: totals_get)
    note okb = sim_inv_get [OF assms(1) vs(1)] and okt = sim_inv_get [OF it ws(1)]
    have "row_balances r"
      using later_totals [OF ws(2)] okb in_flight_le [of b _ vs] r(3) x vs(2) by (fastforce simp: row_balances_def)
    then show ?thesis using r(4,5) ws(1) okt by (auto simp: incarnations_ok_def virtual_id_0)
  qed
  then show ?thesis
    using rows(1,2) k keys(1) by (auto simp: write_stats_def map_sort_key totals_keys)
qed

lemma stop_tasks: "sm_tasks (foldl (\<lambda>s n. stop_node n s) s ns) = foldl (\<lambda>ts n. remove1 n ts) (sm_tasks s) ns"
  by (induction ns arbitrary: s) (simp_all add: stop_node_def remove1_idem)

lemma stop_all_tasks: "sm_tasks (stop_all s) = []"
proof -
  have "foldl (\<lambda>ts n. remove1 n ts) ns ns = []" for ns :: "string list" by (induction ns) simp_all
  then show ?thesis by (simp add: stop_all_def stop_tasks)
qed

lemma VirtualNodeSimulator_Inr:
  "VirtualNodeSimulator many interval warmup duration seed p delay failure recovery = Inr s \<Longrightarrow>
     sm_node_count s = nat many \<and> incarnations s = [] \<and> sm_tasks s = [] \<and> failure_timestamp_ms s = None \<and>
     recovery_timestamp_ms s = None"
  by (auto simp: VirtualNodeSimulator_def split: if_splits)

text \<open>C23: A run of the simulator on any schedule of node, failure and recovery events returns a
  statistics file with one row for each of the ids \<open>virtual-000\<close> up to the node count, in order,
  and no \<open>KeyError\<close>; in every row the measured samples are the attempts plus the application drops,
  nothing is negative, the successful writes exceed the attempts by at most the one write that was in
  flight at the baseline, and only the failed node can have a second incarnation. No task is left.\<close>

theorem simulator_measures:
  assumes "VirtualNodeSimulator many interval warmup duration seed p delay failure recovery = Inr s"
    "startable s" "scheduled_readings s = Inr k"
  shows "\<exists>t rows summary. simulator_run sine s warm measured = Inr (t, rows, summary) \<and>
    map sr_node_id rows = sort (map virtual_id [0..<nat many]) \<and> sm_tasks t = [] \<and>
    (\<forall>r \<in> set rows. row_balances r \<and> sr_scheduled r = k \<and>
       sr_incarnations r = (if sr_node_id r = ''virtual-000'' \<and> ss_recovery_timestamp_ms summary \<noteq> None then 2 else 1))"
proof -
  note s = VirtualNodeSimulator_Inr [OF assms(1)]
  obtain s1 where s1: "start_all [0..<sm_node_count s] s = Inr s1" "sim_inv s1"
    "s1 = s\<lparr>incarnations := incarnations s1, sm_tasks := sm_tasks s1\<rparr>"
    using start_all_from [OF assms(2), of 0] s by auto
  have same: "settings s1 = settings s" by (subst s1(3)) (simp add: settings_def)
  let ?s2 = "foldl (sim_step sine) s1 warm"
  let ?s3 = "foldl (sim_step sine) ?s2 measured"
  have st2: "steps_to s1 ?s2" by (rule sim.run_inv [OF steps_to_refl [OF s1(2)]]) (simp add: list_all_iff)
  then have i2: "sim_inv ?s2" by (simp add: steps_to_def)
  have st3: "steps_to ?s2 ?s3" by (rule sim.run_inv [OF steps_to_refl [OF i2]]) (simp add: list_all_iff)
  then have st4: "steps_to ?s2 (stop_all ?s3)"
    unfolding stop_all_def by (blast intro: steps_to_trans stop_tasks_steps steps_to_def [THEN iffD1, THEN conjunct1])
  have set2: "settings ?s2 = settings s" using st2 same by (simp add: steps_to_def sim_later_def)
  then have k: "scheduled_readings ?s2 = Inr k" using assms(3) by (simp add: settings_def scheduled_readings_def)
  obtain rows where rows: "write_stats (stop_all ?s3) (totals ?s2) (totals (stop_all ?s3)) = Inr rows"
    "map sr_node_id rows = sort (node_ids ?s2)"
    "\<forall>r \<in> set rows. row_balances r \<and> sr_scheduled r = k \<and>
       sr_incarnations r = (if sr_node_id r = ''virtual-000'' \<and> recovery_timestamp_ms (stop_all ?s3) \<noteq> None then 2 else 1)"
    using write_stats_rows [OF i2 st4 k] by blast
  obtain g where g: "fdiv (sm_sampling_interval s1) (Fin 2) = Inr g"
    by (cases "sm_sampling_interval s1") auto
  have "node_ids ?s2 = map virtual_id [0..<nat many]" using set2 s by (simp add: settings_def node_ids_def)
  then show ?thesis using s1(1) g rows by (simp add: simulator_run_def Let_def stop_all_tasks)
qed

definition sample_simulator :: simulator where
  "sample_simulator = \<lparr>sm_node_count = 2, sm_sampling_interval = Fin 1, sm_warmup_seconds = Fin 0,
     sm_duration_seconds = Fin 10, sm_seed = 662, sm_drop_probability = Fin 0, sm_artificial_delay = Fin 0,
     sm_failure_at = Some (Fin 3), sm_recovery_at = Some (Fin 6), incarnations = [], sm_tasks = [],
     failure_timestamp_ms = None, recovery_timestamp_ms = None\<rparr>"

theorem simulator_measures_witness:
  "VirtualNodeSimulator 2 (Fin 1) (Fin 0) (Fin 10) 662 (Fin 0) (Fin 0) (Some (Fin 3)) (Some (Fin 6)) = Inr sample_simulator \<and>
   startable sample_simulator \<and> scheduled_readings sample_simulator = Inr 10 \<and>
   (\<exists>t rows summary. simulator_run (\<lambda>_. Fin 0) sample_simulator [SimNode ''virtual-001'' (NConnected (Fin 0))]
      [SimFail 3, SimRecover 6] = Inr (t, rows, summary) \<and>
    map sr_node_id rows = sort (map virtual_id [0..<nat 2]) \<and> sm_tasks t = [] \<and>
    (\<forall>r \<in> set rows. row_balances r \<and> sr_scheduled r = 10 \<and>
       sr_incarnations r = (if sr_node_id r = ''virtual-000'' \<and> ss_recovery_timestamp_ms summary \<noteq> None then 2 else 1)))"
proof -
  have a: "VirtualNodeSimulator 2 (Fin 1) (Fin 0) (Fin 10) 662 (Fin 0) (Fin 0) (Some (Fin 3)) (Some (Fin 6)) = Inr sample_simulator"
    by (simp add: VirtualNodeSimulator_def sample_simulator_def)
  have b: "startable sample_simulator" by (simp add: startable_def sample_simulator_def id_limit_def)
  have c: "scheduled_readings sample_simulator = Inr 10"
    by (simp add: scheduled_readings_def sample_simulator_def)
  show ?thesis
    using a b c simulator_measures [OF a b c, of "\<lambda>_. Fin 0" "[SimNode ''virtual-001'' (NConnected (Fin 0))]" "[SimFail 3, SimRecover 6]"]
    by blast
qed

end
