(* ===== verification/Runner.thy ===== *)
theory Runner
  imports Experiment_Config Simulator Gateway_Process Collector
begin

text \<open>
  The subprocess experiment runner (\<^verbatim>\<open>src/experiments/run.py\<close>): the command lines it gives its
  children, waiting for a port, stopping a child, the run itself with its cleanup on every path, the
  summary it leaves, and the command-line front end. What the operating system answers (spawned or
  not, exit codes, when a port opens) is the argument \<open>run_outcomes\<close>; the text of a float is the
  parameter \<open>str\<close>.
\<close>

section \<open>Children\<close>

datatype run_error = Raised py_error | Cancelled

datatype sig = SIGINT | SIGTERM | SIGKILL

record child =
  ch_name :: string
  ch_returncode :: "int option"
  ch_signals :: "sig list"
  ch_log_open :: bool

text \<open>How a child ends once it is to be stopped: it had exited by itself, or it exits on one of the
  three signals, sent five and one seconds apart.\<close>

datatype stop_behaviour = Exited int | On_interrupt int | On_terminate int | On_kill int

definition observe_exit :: "stop_behaviour \<Rightarrow> child \<Rightarrow> child" where
  "observe_exit b c =
     (case b of Exited rc \<Rightarrow> (case ch_returncode c of None \<Rightarrow> c\<lparr>ch_returncode := Some rc\<rparr> | Some _ \<Rightarrow> c) | _ \<Rightarrow> c)"

definition stop_child :: "stop_behaviour \<Rightarrow> child \<Rightarrow> child" where
  "stop_child b c0 =
     (let c = observe_exit b c0
      in case ch_returncode c of
        Some _ \<Rightarrow> c
      | None \<Rightarrow> (case b of
          Exited rc \<Rightarrow> c\<lparr>ch_returncode := Some rc\<rparr>
        | On_interrupt rc \<Rightarrow> c\<lparr>ch_signals := ch_signals c @ [SIGINT], ch_returncode := Some rc\<rparr>
        | On_terminate rc \<Rightarrow> c\<lparr>ch_signals := ch_signals c @ [SIGINT, SIGTERM], ch_returncode := Some rc\<rparr>
        | On_kill rc \<Rightarrow> c\<lparr>ch_signals := ch_signals c @ [SIGINT, SIGTERM, SIGKILL], ch_returncode := Some rc\<rparr>))"

definition ensure_success :: "child \<Rightarrow> run_error + unit" where
  "ensure_success c = (if ch_returncode c = Some 0 then Inr () else Inl (Raised (ExperimentChildError (ch_name c))))"

text \<open>\<open>_wait_for_port\<close>: one poll per turn of the loop, with the loop time, the child's return code and
  whether the connection succeeded. \<open>None\<close> means that the polls ended while it still waits.\<close>

record poll =
  po_time :: pyfloat
  po_returncode :: "int option"
  po_connects :: bool

fun wait_for_port :: "pyfloat \<Rightarrow> poll list \<Rightarrow> (run_error + unit) option" where
  "wait_for_port deadline [] = None"
| "wait_for_port deadline (p # ps) =
     (if \<not> flt (po_time p) deadline then Some (Inl (Raised TimeoutError))
      else case po_returncode p of
        Some rc \<Rightarrow> Some (Inl (Raised (ExperimentChildError ''child exited before listening'')))
      | None \<Rightarrow> if po_connects p then Some (Inr ()) else wait_for_port deadline ps)"

section \<open>Command lines\<close>

text \<open>\<open>_gateway_args\<close>: the flags with their values, flattened by \<open>command_line\<close>. The window falls back
  to the integer 1, whose text the gateway parses as the float one.\<close>

definition gateway_args :: "(pyfloat \<Rightarrow> string) \<Rightarrow> experiment_config \<Rightarrow> run_artifacts \<Rightarrow> (string \<times> string) list" where
  "gateway_args str c a =
     [(''--host'', cf_gateway_host c), (''--port'', str_of_int (cf_gateway_port c)), (''--raw-output'', ra_readings a),
      (''--upstream-mode'', aggregation_mode_str (cf_aggregation_mode c)), (''--collector-host'', cf_collector_host c),
      (''--collector-port'', str_of_int (cf_collector_port c)),
      (''--aggregation-window'', if feq (cf_aggregation_window_seconds c) (Fin 0) then str_of_int 1
                                 else str (cf_aggregation_window_seconds c)),
      (''--forwarder-queue-size'', str_of_int (cf_forwarder_queue_size c)),
      (''--storage-queue-size'', str_of_int (cf_storage_queue_size c)),
      (''--expected-interval'', str (cf_expected_interval_seconds c)),
      (''--suspect-after'', str (cf_suspect_after_intervals c)), (''--offline-after'', str (cf_offline_after_intervals c)),
      (''--liveness-check-interval'', str (cf_liveness_check_interval_seconds c)),
      (''--gateway-events-output'', ra_gateway_events a), (''--health-events-output'', ra_health_events a),
      (''--event-queue-size'', str_of_int (cf_event_queue_size c)), (''--system-metrics-output'', ra_system_metrics a),
      (''--metrics-interval'', str (cf_metrics_interval_seconds c)), (''--summary-output'', ra_gateway_summary a),
      (''--log-level'', ''WARNING'')]"

definition optional_arg :: "string \<Rightarrow> (pyfloat \<Rightarrow> string) \<Rightarrow> pyfloat option \<Rightarrow> (string \<times> string) list" where
  "optional_arg flag str v = (case v of None \<Rightarrow> [] | Some x \<Rightarrow> [(flag, str x)])"

definition seconds_of_ms :: "pyfloat \<Rightarrow> pyfloat result" where
  "seconds_of_ms x = fdiv x (Fin 1000)"

definition simulator_args ::
  "(pyfloat \<Rightarrow> string) \<Rightarrow> experiment_config \<Rightarrow> run_artifacts \<Rightarrow> (string \<times> string) list result" where
  "simulator_args str c a =
     rbind (seconds_of_ms (cf_sampling_interval_ms c)) (\<lambda>interval. Inr (
     [(''--nodes'', str_of_int (cf_virtual_node_count c)), (''--host'', cf_gateway_host c),
      (''--port'', str_of_int (cf_gateway_port c)), (''--sampling-interval'', str interval),
      (''--warmup'', str (cf_warmup_seconds c)), (''--duration'', str (cf_duration_seconds c)),
      (''--seed'', str_of_int (cf_random_seed c)), (''--drop-probability'', str (cf_drop_probability c)),
      (''--artificial-delay-ms'', str (cf_artificial_delay_ms c)), (''--stats-output'', ra_node_stats a),
      (''--summary-output'', ra_simulator_summary a)] @
     optional_arg ''--failure-at'' str (cf_failure_at_seconds c) @
     optional_arg ''--recovery-at'' str (cf_recovery_at_seconds c)))"

definition collector_args :: "experiment_config \<Rightarrow> run_artifacts \<Rightarrow> (string \<times> string) list" where
  "collector_args c a =
     [(''--host'', cf_collector_host c), (''--port'', str_of_int (cf_collector_port c)), (''--output'', ra_upstream a),
      (''--summary-output'', ra_collector_summary a), (''--log-level'', ''WARNING'')]"

fun command_line :: "(string \<times> string) list \<Rightarrow> string list" where
  "command_line [] = []"
| "command_line ((flag, v) # xs) = flag # v # command_line xs"

text \<open>What the child's \<open>argparse\<close> reads back: the words in pairs of flag and value.\<close>

fun read_flags :: "string list \<Rightarrow> (string \<times> string) list" where
  "read_flags (flag # v # ws) = (flag, v) # read_flags ws"
| "read_flags _ = []"

lemma read_flags_command_line: "read_flags (command_line xs) = xs"
  by (induction xs rule: command_line.induct) auto

section \<open>A run\<close>

record run_state =
  rs_files :: files
  rs_children :: "child list"

type_synonym 'a act = "run_state \<Rightarrow> (run_error + 'a) \<times> run_state"

definition then_do :: "'a act \<Rightarrow> ('a \<Rightarrow> 'b act) \<Rightarrow> 'b act" where
  "then_do m f s = (case m s of (Inl e, s') \<Rightarrow> (Inl e, s') | (Inr x, s') \<Rightarrow> f x s')"

text \<open>What the operating system does for one child: whether it can be spawned, how the wait for its
  port ends, and how it ends when it is stopped.\<close>

record child_outcome =
  spawn_error :: "run_error option"
  port_result :: "run_error + unit"
  stop_result :: stop_behaviour

record run_outcomes =
  for_collector :: child_outcome
  for_gateway :: child_outcome
  for_simulator :: child_outcome
  simulator_exit :: "run_error + int"
  clock_start :: int
  clock_end :: int

text \<open>\<open>_start_child\<close>: the log file is created exclusively; a failed spawn closes it and raises.\<close>

definition start_child :: "run_artifacts \<Rightarrow> string \<Rightarrow> child_outcome \<Rightarrow> unit act" where
  "start_child a name oc s =
     (case create_exclusive (slash (ra_run_dir a) (name @ ''.log'')) [] (rs_files s) of
        Inl e \<Rightarrow> (Inl (Raised e), s)
      | Inr fs \<Rightarrow> (case spawn_error oc of
          Some e \<Rightarrow> (Inl e, s\<lparr>rs_files := fs\<rparr>)
        | None \<Rightarrow> (Inr (), s\<lparr>rs_files := fs, rs_children := rs_children s @
            [\<lparr>ch_name = name, ch_returncode = None, ch_signals = [], ch_log_open = True\<rparr>]\<rparr>)))"

definition await_port :: "child_outcome \<Rightarrow> unit act" where
  "await_port oc s = (port_result oc, s)"

definition update_child :: "string \<Rightarrow> (child \<Rightarrow> child) \<Rightarrow> run_state \<Rightarrow> run_state" where
  "update_child name f s = s\<lparr>rs_children := map (\<lambda>c. if ch_name c = name then f c else c) (rs_children s)\<rparr>"

definition await_simulator :: "run_error + int \<Rightarrow> unit act" where
  "await_simulator r s =
     (case r of Inl e \<Rightarrow> (Inl e, s)
      | Inr rc \<Rightarrow> (Inr (), update_child ''simulator'' (\<lambda>c. c\<lparr>ch_returncode := Some rc\<rparr>) s))"

definition check_child :: "string \<Rightarrow> unit act" where
  "check_child name s =
     (case filter (\<lambda>c. ch_name c = name) (rs_children s) of
        [] \<Rightarrow> (Inr (), s)
      | c # _ \<Rightarrow> (ensure_success c, s))"

definition stop_named :: "string \<Rightarrow> child_outcome \<Rightarrow> unit act" where
  "stop_named name oc s = (Inr (), update_child name (stop_child (stop_result oc)) s)"

text \<open>The body of the \<open>try\<close> in \<open>run_once\<close>, in its three phases and the end of a successful run: the
  gateway is stopped before the collector, so that it can drain to it.\<close>

definition finish_run :: "run_outcomes \<Rightarrow> unit act" where
  "finish_run env =
     then_do (await_simulator (simulator_exit env)) (\<lambda>_.
     then_do (check_child ''simulator'') (\<lambda>_.
     then_do (stop_named ''gateway'' (for_gateway env)) (\<lambda>_.
     then_do (stop_named ''collector'' (for_collector env)) (\<lambda>_.
     then_do (check_child ''gateway'') (\<lambda>_.
     check_child ''collector'')))))"

definition run_simulator :: "run_artifacts \<Rightarrow> run_outcomes \<Rightarrow> unit act" where
  "run_simulator a env = then_do (start_child a ''simulator'' (for_simulator env)) (\<lambda>_. finish_run env)"

definition run_gateway :: "run_artifacts \<Rightarrow> run_outcomes \<Rightarrow> unit act" where
  "run_gateway a env =
     then_do (start_child a ''gateway'' (for_gateway env)) (\<lambda>_.
     then_do (await_port (for_gateway env)) (\<lambda>_. run_simulator a env))"

definition run_body :: "run_artifacts \<Rightarrow> run_outcomes \<Rightarrow> unit act" where
  "run_body a env =
     then_do (start_child a ''collector'' (for_collector env)) (\<lambda>_.
     then_do (await_port (for_collector env)) (\<lambda>_. run_gateway a env))"

definition outcome_of :: "run_outcomes \<Rightarrow> string \<Rightarrow> child_outcome" where
  "outcome_of env name = (if name = ''collector'' then for_collector env
     else if name = ''gateway'' then for_gateway env else for_simulator env)"

text \<open>The \<open>finally\<close> block: stop every child that was started and close its log.\<close>

definition reap :: "run_outcomes \<Rightarrow> child list \<Rightarrow> child list" where
  "reap env cs = map (\<lambda>c. (stop_child (stop_result (outcome_of env (ch_name c))) c)\<lparr>ch_log_open := False\<rparr>) cs"

text \<open>\<open>describe\<close> is the name and message of an exception.\<close>

definition error_text :: "(py_error \<Rightarrow> string) \<Rightarrow> run_error \<Rightarrow> string" where
  "error_text describe e = (case e of Cancelled \<Rightarrow> ''runner task cancelled'' | Raised x \<Rightarrow> describe x)"

definition run_status :: "run_error + unit \<Rightarrow> string" where
  "run_status r = (case r of Inr _ \<Rightarrow> ''success'' | Inl Cancelled \<Rightarrow> ''interrupted'' | Inl _ \<Rightarrow> ''failed'')"

definition read_json_if_present :: "(string \<Rightarrow> json) \<Rightarrow> string \<Rightarrow> files \<Rightarrow> json" where
  "read_json_if_present loads p fs = (case fs p of None \<Rightarrow> JNull | Some t \<Rightarrow> loads t)"

definition build_summary ::
  "(py_error \<Rightarrow> string) \<Rightarrow> (string \<Rightarrow> json) \<Rightarrow> run_artifacts \<Rightarrow> experiment_config \<Rightarrow> run_error + unit \<Rightarrow> run_outcomes \<Rightarrow> child list \<Rightarrow> files \<Rightarrow>
   (string \<times> json) list" where
  "build_summary describe loads a c r env cs fs =
     [(''run_summary_schema_version'', JInt 1), (''run_id'', JStr (ra_run_id a)), (''status'', JStr (run_status r)),
      (''error'', (case r of Inr _ \<Rightarrow> JNull | Inl e \<Rightarrow> JStr (error_text describe e))),
      (''runner_start_ms'', JInt (clock_start env)), (''runner_end_ms'', JInt (clock_end env)),
      (''children'', JObj (map (\<lambda>ch. (ch_name ch, optional JInt (ch_returncode ch))) cs)),
      (''simulator'', read_json_if_present loads (ra_simulator_summary a) fs),
      (''gateway'', read_json_if_present loads (ra_gateway_summary a) fs),
      (''collector'', read_json_if_present loads (ra_collector_summary a) fs), (''config'', JObj (config_dump c))]"

text \<open>The ports: a configured one, or what \<open>_free_port\<close> returns next; the collector's is drawn again
  while it equals the gateway's. \<open>None\<close> means that the draws ended while the loop still runs.\<close>

definition port_or_free :: "int \<Rightarrow> int list \<Rightarrow> (int \<times> int list) option" where
  "port_or_free p ports = (if p \<noteq> 0 then Some (p, ports) else case ports of [] \<Rightarrow> None | q # qs \<Rightarrow> Some (q, qs))"

fun distinct_port :: "int \<Rightarrow> int \<Rightarrow> int list \<Rightarrow> int option" where
  "distinct_port g c [] = (if c \<noteq> g then Some c else None)"
| "distinct_port g c (p # ps) = (if c \<noteq> g then Some c else distinct_port g p ps)"

definition choose_ports :: "experiment_config \<Rightarrow> int list \<Rightarrow> (int \<times> int) option" where
  "choose_ports c ports =
     (case port_or_free (cf_gateway_port c) ports of None \<Rightarrow> None
      | Some (g, ps) \<Rightarrow> (case port_or_free (cf_collector_port c) ps of None \<Rightarrow> None
          | Some (k, qs) \<Rightarrow> map_option (\<lambda>k'. (g, k')) (distinct_port g k qs)))"

record runner_env =
  re_git_status :: "string list"
  re_host :: host_context
  re_run_id :: string
  re_ports :: "int list"
  re_outcomes :: run_outcomes
  re_evidence :: "(string \<times> string) list"

record run_result =
  rr_outcome :: "run_error + run_artifacts"
  rr_config :: experiment_config
  rr_files :: files
  rr_children :: "child list"
  rr_artifacts :: "run_artifacts option"

definition refuse :: "py_error \<Rightarrow> experiment_config \<Rightarrow> files \<Rightarrow> run_result" where
  "refuse e c fs = \<lparr>rr_outcome = Inl (Raised e), rr_config = c, rr_files = fs, rr_children = [], rr_artifacts = None\<rparr>"

text \<open>The children write their own files meanwhile: \<open>re_evidence\<close>, which has to be in the run directory.\<close>

definition run_in :: "(py_error \<Rightarrow> string) \<Rightarrow> (string \<Rightarrow> json) \<Rightarrow> (json \<Rightarrow> string) \<Rightarrow> runner_env \<Rightarrow> experiment_config \<Rightarrow>
    run_artifacts \<Rightarrow> files \<Rightarrow> run_result" where
  "run_in describe loads dumps env c a fs =
     (case write_json_exclusive (ra_manifest a) (dumps (JObj (build_manifest (re_host env) c (ra_run_id a)))) fs of
        Inl e \<Rightarrow> refuse e c fs
      | Inr fs1 \<Rightarrow>
        (let (r, s) = run_body a (re_outcomes env) \<lparr>rs_files = fs1, rs_children = []\<rparr>;
             cs = reap (re_outcomes env) (rs_children s);
             fs2 = rs_files s ++ map_of (re_evidence env);
             summary = dumps (JObj (build_summary describe loads a c r (re_outcomes env) cs fs2));
             fs3 = (case write_json_exclusive (ra_run_summary a) summary fs2 of Inl _ \<Rightarrow> fs2 | Inr f \<Rightarrow> f)
         in \<lparr>rr_outcome = (case r of Inl e \<Rightarrow> Inl e | Inr _ \<Rightarrow> Inr a), rr_config = c, rr_files = fs3, rr_children = cs,
             rr_artifacts = Some a\<rparr>))"

definition run_once :: "(py_error \<Rightarrow> string) \<Rightarrow> (string \<Rightarrow> json) \<Rightarrow> (json \<Rightarrow> string) \<Rightarrow> string \<Rightarrow> runner_env \<Rightarrow>
    experiment_config \<Rightarrow> files \<times> string list \<Rightarrow> run_result option" where
  "run_once describe loads dumps base env c disk =
     (let (fs, dirs) = disk
      in if cf_physical_node_count c \<noteq> 0
         then Some (refuse (ValueError ''the local subprocess runner supports virtual nodes only'') c fs)
         else if cf_run_classification c = Controlled_final \<and> re_git_status env \<noteq> []
         then Some (refuse (ValueError ''controlled final runs require a clean tracked worktree'') c fs)
         else case choose_ports c (re_ports env) of
           None \<Rightarrow> None
         | Some (g, k) \<Rightarrow>
           (let c' = c\<lparr>cf_gateway_port := g, cf_collector_port := k\<rparr>
            in case create_artifacts base (re_run_id env) dirs of
                 Inl e \<Rightarrow> Some (refuse e c' fs)
               | Inr (a, dirs') \<Rightarrow> Some (run_in describe loads dumps env c' a fs)))"

section \<open>Every path cleans up\<close>

lemma stop_child_ends [simp]: "ch_returncode (stop_child b c) \<noteq> None" "ch_name (stop_child b c) = ch_name c"
  by (auto simp: stop_child_def observe_exit_def Let_def split: option.splits stop_behaviour.splits)

lemma stop_child_done: "ch_returncode c = Some rc \<Longrightarrow> stop_child b c = c"
  by (auto simp: stop_child_def observe_exit_def Let_def split: option.splits stop_behaviour.splits)

lemma reap_ends: "list_all (\<lambda>c. ch_returncode c \<noteq> None \<and> \<not> ch_log_open c) (reap env cs)"
  using stop_child_ends(1) by (auto simp: reap_def list_all_iff simp del: not_None_eq)

lemma reap_names [simp]: "map ch_name (reap env cs) = map ch_name cs"
  by (simp add: reap_def)

lemma wait_for_port_ends:
  assumes "p \<in> set ps" "\<not> flt (po_time p) deadline"
  shows "wait_for_port deadline ps \<noteq> None"
  using assms by (induction ps) (auto split: option.splits)

lemma distinct_port_Some: "distinct_port g c ps = Some k \<Longrightarrow> k \<noteq> g"
  by (induction g c ps rule: distinct_port.induct) (auto split: if_splits)

lemma distinct_port_ends: "p \<in> set ps \<Longrightarrow> p \<noteq> g \<Longrightarrow> distinct_port g c ps \<noteq> None"
proof (induction g c ps rule: distinct_port.induct)
  case (2 g c q ps)
  then show ?case by (cases ps) auto
qed simp

definition roles :: "string list" where
  "roles = [''collector'', ''gateway'', ''simulator'']"

text \<open>The body starts the children in the order of \<open>roles\<close>, creates only their log files, and succeeds
  only when all three have exited with status zero.\<close>

definition body_ok :: "run_artifacts \<Rightarrow> files \<Rightarrow> (run_error + unit) \<times> run_state \<Rightarrow> bool" where
  "body_ok a fs r \<longleftrightarrow> (\<exists>n. map ch_name (rs_children (snd r)) = take n roles) \<and>
     (fst r = Inr () \<longrightarrow> map ch_name (rs_children (snd r)) = roles \<and> list_all (\<lambda>c. ch_returncode c = Some 0) (rs_children (snd r))) \<and>
     (\<forall>q. q \<notin> (\<lambda>n. slash (ra_run_dir a) (n @ ''.log'')) ` set roles \<longrightarrow> rs_files (snd r) q = fs q)"

lemma start_child_cases:
  obtains e where "start_child a name oc s = (Inl e, s)"
  | e fs where "start_child a name oc s = (Inl e, s\<lparr>rs_files := fs\<rparr>)"
      "fs = (rs_files s)(slash (ra_run_dir a) (name @ ''.log'') \<mapsto> [])"
  | fs where "start_child a name oc s = (Inr (), s\<lparr>rs_files := fs, rs_children := rs_children s @
            [\<lparr>ch_name = name, ch_returncode = None, ch_signals = [], ch_log_open = True\<rparr>]\<rparr>)"
      "fs = (rs_files s)(slash (ra_run_dir a) (name @ ''.log'') \<mapsto> [])"
  by (cases "create_exclusive (slash (ra_run_dir a) (name @ ''.log'')) [] (rs_files s)"; cases "spawn_error oc")
    (auto simp: start_child_def create_exclusive_Inr)

lemma fail_body_ok:
  "map ch_name (rs_children s) = take n roles \<Longrightarrow>
    (\<And>q. q \<notin> (\<lambda>n. slash (ra_run_dir a) (n @ ''.log'')) ` set roles \<Longrightarrow> rs_files s q = fs q) \<Longrightarrow> body_ok a fs (Inl e, s)"
  by (auto simp: body_ok_def)

text \<open>The part after the three starts.\<close>

lemma finish_body_ok:
  assumes "map ch_name (rs_children s) = roles"
    "\<And>q. q \<notin> (\<lambda>n. slash (ra_run_dir a) (n @ ''.log'')) ` set roles \<Longrightarrow> rs_files s q = fs q"
  shows "body_ok a fs (finish_run env s)"
proof -
  obtain x y z where cs: "rs_children s = [x, y, z]" "ch_name x = ''collector''" "ch_name y = ''gateway''" "ch_name z = ''simulator''"
    using assms(1) by (auto simp: roles_def)
  have take: "take 3 roles = roles" by (simp add: roles_def)
  show ?thesis
  proof (cases "simulator_exit env")
    case (Inl e)
    then show ?thesis using assms fail_body_ok [of s 3] take by (simp add: finish_run_def then_do_def await_simulator_def)
  next
    case (Inr rc)
    then show ?thesis using assms(2) cs take
      by (auto simp: finish_run_def body_ok_def then_do_def await_simulator_def update_child_def check_child_def stop_named_def
          ensure_success_def roles_def intro!: exI [of _ 3])
  qed
qed

definition started :: "run_artifacts \<Rightarrow> files \<Rightarrow> nat \<Rightarrow> run_state \<Rightarrow> bool" where
  "started a fs k s \<longleftrightarrow> map ch_name (rs_children s) = take k roles \<and>
     (\<forall>q. q \<notin> (\<lambda>n. slash (ra_run_dir a) (n @ ''.log'')) ` set roles \<longrightarrow> rs_files s q = fs q)"

lemma started_fails: "started a fs k s \<Longrightarrow> body_ok a fs (Inl e, s)"
  by (auto simp: started_def intro: fail_body_ok)

lemma start_stage:
  assumes "started a fs k s" "k < length roles" "name = roles ! k"
    "\<And>s'. started a fs (Suc k) s' \<Longrightarrow> body_ok a fs (f () s')"
  shows "body_ok a fs (then_do (start_child a name oc) f s)"
proof -
  have mem: "name \<in> set roles" using assms(2,3) by simp
  show ?thesis
  proof (cases rule: start_child_cases [of a name oc s])
    case 1
    then show ?thesis using assms(1) by (simp add: then_do_def started_fails)
  next
    case (2 e fs')
    have "started a fs k (s\<lparr>rs_files := fs'\<rparr>)" using assms(1) 2(2) mem by (auto simp: started_def)
    then show ?thesis using 2(1) by (simp add: then_do_def started_fails)
  next
    case (3 fs')
    then show ?thesis using assms mem
      by (auto simp: then_do_def started_def take_Suc_conv_app_nth intro!: assms(4))
  qed
qed

lemma port_stage:
  "started a fs k s \<Longrightarrow> (\<And>s'. started a fs k s' \<Longrightarrow> body_ok a fs (f () s')) \<Longrightarrow>
     body_ok a fs (then_do (await_port oc) f s)"
  by (auto simp: then_do_def await_port_def started_fails split: sum.splits)

lemma run_simulator_ok: "started a fs 2 s \<Longrightarrow> body_ok a fs (run_simulator a env s)"
  unfolding run_simulator_def
  by (rule start_stage [where k = 2]) (auto simp: started_def roles_def intro!: finish_body_ok)

lemma run_gateway_ok: "started a fs 1 s \<Longrightarrow> body_ok a fs (run_gateway a env s)"
  unfolding run_gateway_def
  by (rule start_stage [where k = 1])
    (auto simp: roles_def numeral_2_eq_2 intro!: port_stage run_simulator_ok)

lemma run_body_ok: "body_ok a fs (run_body a env \<lparr>rs_files = fs, rs_children = []\<rparr>)"
  unfolding run_body_def
  by (rule start_stage [where k = 0]) (auto simp: started_def [of _ _ 0] roles_def intro!: port_stage run_gateway_ok)

definition child_outputs :: "run_artifacts \<Rightarrow> string list" where
  "child_outputs a = [ra_readings a, ra_upstream a, ra_health_events a, ra_gateway_events a, ra_system_metrics a,
     ra_node_stats a, ra_simulator_summary a, ra_gateway_summary a, ra_collector_summary a]"

definition run_ok :: "(py_error \<Rightarrow> string) \<Rightarrow> (string \<Rightarrow> json) \<Rightarrow> (json \<Rightarrow> string) \<Rightarrow> runner_env \<Rightarrow> files \<Rightarrow> run_result \<Rightarrow> bool" where
  "run_ok describe loads dumps env fs R \<longleftrightarrow>
     list_all (\<lambda>c. ch_returncode c \<noteq> None \<and> \<not> ch_log_open c) (rr_children R) \<and>
     (\<exists>n. map ch_name (rr_children R) = take n roles) \<and>
     (\<forall>a. rr_outcome R = Inr a \<longrightarrow> map (\<lambda>c. (ch_name c, ch_returncode c)) (rr_children R) = map (\<lambda>n. (n, Some 0)) roles) \<and>
     (\<forall>q t. fs q = Some t \<longrightarrow> rr_files R q = Some t) \<and>
     (\<forall>a. rr_artifacts R = Some a \<longrightarrow>
        rr_files R (ra_manifest a) = Some (dumps (JObj (build_manifest (re_host env) (rr_config R) (ra_run_id a))) @ [newline]) \<and>
        (\<exists>fs2. rr_files R (ra_run_summary a) = Some (dumps (JObj (build_summary describe loads a (rr_config R)
           (map_sum id (\<lambda>_. ()) (rr_outcome R)) (re_outcomes env) (rr_children R) fs2)) @ [newline]) \<and>
          (\<forall>q \<in> set (child_outputs a). fs2 q = map_of (re_evidence env) q \<and> rr_files R q = fs2 q)))"

lemma reap_success:
  assumes "map ch_name cs = roles" "list_all (\<lambda>c. ch_returncode c = Some 0) cs"
  shows "map (\<lambda>c. (ch_name c, ch_returncode c)) (reap env cs) = map (\<lambda>n. (n, Some 0)) roles"
  using assms by (auto simp: reap_def roles_def stop_child_done)

lemma run_in_ok:
  assumes "a = artifacts_in base run_id" "\<forall>x. fs (slash (ra_run_dir a) x) = None"
    "fst ` set (re_evidence env) \<subseteq> set (child_outputs a)"
  shows "run_ok describe loads dumps env fs (run_in describe loads dumps env c a fs)"
proof -
  let ?m = "dumps (JObj (build_manifest (re_host env) c (ra_run_id a))) @ [newline]"
  let ?fs1 = "fs(ra_manifest a \<mapsto> ?m)"
  have in_dir: "q \<in> (\<lambda>x. slash (ra_run_dir a) x) ` UNIV" if "q \<in> set (ra_manifest a # ra_run_summary a # child_outputs a)" for q
    using that assms(1) by (auto simp: artifacts_in_def child_outputs_def Let_def)
  have sep: "ra_manifest a \<notin> set (child_outputs a)" "ra_run_summary a \<notin> set (child_outputs a)" "ra_run_summary a \<noteq> ra_manifest a"
    and logs: "\<And>q n. q \<in> set (ra_manifest a # ra_run_summary a # child_outputs a) \<Longrightarrow> n \<in> set roles \<Longrightarrow> q \<noteq> slash (ra_run_dir a) (n @ ''.log'')"
    using assms(1) by (auto simp: artifacts_in_def child_outputs_def Let_def slash_inject roles_def)
  have m: "write_json_exclusive (ra_manifest a) (dumps (JObj (build_manifest (re_host env) c (ra_run_id a)))) fs = Inr ?fs1"
    using assms(2) in_dir [of "ra_manifest a"] by (auto simp: write_json_exclusive_def create_exclusive_Inr)
  obtain r s where b: "run_body a (re_outcomes env) \<lparr>rs_files = ?fs1, rs_children = []\<rparr> = (r, s)" by force
  note ok = run_body_ok [of a ?fs1 "re_outcomes env", unfolded b body_ok_def fst_conv snd_conv]
  let ?fs2 = "rs_files s ++ map_of (re_evidence env)"
  have keep: "rs_files s q = ?fs1 q" if "q \<notin> (\<lambda>n. slash (ra_run_dir a) (n @ ''.log'')) ` set roles" for q
    using ok that by blast
  have ev: "map_of (re_evidence env) q = None" if "q \<notin> set (child_outputs a)" for q
    using that assms(3) by (auto simp: map_of_eq_None_iff)
  have none: "fs q = None" if "q \<in> set (ra_manifest a # ra_run_summary a # child_outputs a)" for q
    using in_dir [OF that] assms(2) by auto
  have own: "rs_files s q = ?fs1 q" if "q \<in> set (ra_manifest a # ra_run_summary a # child_outputs a)" for q
    using logs [OF that] by (intro keep) auto
  have manifest: "?fs2 (ra_manifest a) = Some ?m"
    using own [of "ra_manifest a"] ev [OF sep(1)] by (simp add: map_add_def)
  have summary: "?fs2 (ra_run_summary a) = None"
    using own [of "ra_run_summary a"] none [of "ra_run_summary a"] ev [OF sep(2)] sep(3) by (simp add: map_add_def)
  have outputs: "?fs2 q = map_of (re_evidence env) q" if "q \<in> set (child_outputs a)" for q
    using own [of q] none [of q] sep(1) that by (auto simp: map_add_def split: option.splits)
  have old: "?fs2 q = Some t \<and> q \<noteq> ra_run_summary a" if "fs q = Some t" for q t
  proof -
    have q: "q \<notin> set (ra_manifest a # ra_run_summary a # child_outputs a)" using none [of q] that by auto
    have "q \<notin> (\<lambda>n. slash (ra_run_dir a) (n @ ''.log'')) ` set roles" using assms(2) that by auto
    then show ?thesis using keep [of q] ev [of q] q that by (simp add: map_add_def)
  qed
  let ?cs = "reap (re_outcomes env) (rs_children s)"
  let ?t = "dumps (JObj (build_summary describe loads a c r (re_outcomes env) ?cs ?fs2)) @ [newline]"
  have R: "run_in describe loads dumps env c a fs = \<lparr>rr_outcome = (case r of Inl e \<Rightarrow> Inl e | Inr _ \<Rightarrow> Inr a), rr_config = c,
      rr_files = ?fs2(ra_run_summary a \<mapsto> ?t), rr_children = ?cs, rr_artifacts = Some a\<rparr>"
    using b summary unfolding run_in_def m
    by (simp add: write_json_exclusive_def create_exclusive_def Let_def del: map_add_None)
  have r: "map_sum id (\<lambda>_. ()) (case r of Inl e \<Rightarrow> Inl e | Inr _ \<Rightarrow> Inr a) = r"
    by (cases r) simp_all
  have names: "\<exists>n. map ch_name ?cs = take n roles" using ok by simp
  have success: "map (\<lambda>c. (ch_name c, ch_returncode c)) ?cs = map (\<lambda>n. (n, Some 0)) roles" if "r = Inr ()"
    using ok that by (intro reap_success) auto
  have "\<forall>q \<in> set (child_outputs a). ?fs2 q = map_of (re_evidence env) q \<and> (?fs2(ra_run_summary a \<mapsto> ?t)) q = ?fs2 q"
    using outputs sep(2) by auto
  then show ?thesis
    unfolding R run_ok_def using reap_ends names success r manifest sep(3) old
    by (auto split: sum.splits)
qed

lemma run_once_run_ok:
  assumes "run_once describe loads dumps base env c (fs, dirs) = Some R"
    "\<forall>d x. d \<notin> set dirs \<longrightarrow> fs (slash d x) = None"
    "fst ` set (re_evidence env) \<subseteq> set (child_outputs (artifacts_in base (re_run_id env)))"
  shows "run_ok describe loads dumps env fs R \<and>
    (rr_artifacts R \<noteq> None \<longrightarrow> cf_gateway_port (rr_config R) \<noteq> cf_collector_port (rr_config R))"
proof -
  have ref: "run_ok describe loads dumps env fs (refuse e x fs)" for e x
    by (auto simp: run_ok_def refuse_def intro: exI [of _ 0])
  show ?thesis
  proof (cases "rr_artifacts R")
    case None
    then show ?thesis
      using assms(1) ref
      by (auto simp: run_once_def Let_def run_in_def refuse_def split: if_splits option.splits sum.splits prod.splits)
  next
    case (Some a)
    obtain g k where p: "choose_ports c (re_ports env) = Some (g, k)" and
      R: "R = run_in describe loads dumps env (c\<lparr>cf_gateway_port := g, cf_collector_port := k\<rparr>) (artifacts_in base (re_run_id env)) fs"
      and new: "ra_run_dir (artifacts_in base (re_run_id env)) \<notin> set dirs"
      using assms(1) Some
      by (auto simp: run_once_def Let_def refuse_def create_artifacts_def split: if_splits option.splits)
    have "k \<noteq> g" using p by (auto simp: choose_ports_def dest: distinct_port_Some split: option.splits)
    moreover have "rr_config R = c\<lparr>cf_gateway_port := g, cf_collector_port := k\<rparr>"
      unfolding R by (auto simp: run_in_def refuse_def Let_def split: sum.splits prod.splits)
    ultimately show ?thesis
      using run_in_ok [OF refl, of fs base "re_run_id env" env] assms(2,3) new R by auto
  qed
qed


section \<open>The simulator's command line\<close>

definition required_float :: "(string \<Rightarrow> pyfloat option) \<Rightarrow> (string \<times> string) list \<Rightarrow> string \<Rightarrow> pyfloat result" where
  "required_float flt_of flags name =
     (case map_of flags name of None \<Rightarrow> Inl (ValueError name)
      | Some t \<Rightarrow> (case flt_of t of None \<Rightarrow> Inl (ValueError name) | Some x \<Rightarrow> Inr x))"

definition optional_float :: "(string \<Rightarrow> pyfloat option) \<Rightarrow> (string \<times> string) list \<Rightarrow> string \<Rightarrow> pyfloat option result" where
  "optional_float flt_of flags name =
     (case map_of flags name of None \<Rightarrow> Inr None
      | Some t \<Rightarrow> (case flt_of t of None \<Rightarrow> Inl (ValueError name) | Some x \<Rightarrow> Inr (Some x)))"

text \<open>\<open>_parse_args\<close> and \<open>main\<close> of the simulator: the delay arrives in milliseconds.\<close>

definition simulator_main :: "(string \<Rightarrow> pyfloat option) \<Rightarrow> (string \<times> string) list \<Rightarrow> simulator result" where
  "simulator_main flt_of flags =
     (if map_of flags ''--nodes'' = None \<or> map_of flags ''--stats-output'' = None \<or> map_of flags ''--summary-output'' = None
      then Inl (ValueError ''required'')
      else rbind (float_flag flt_of flags ''--sampling-interval'' (Fin 1)) (\<lambda>interval.
        rbind (float_flag flt_of flags ''--warmup'' (Fin 0)) (\<lambda>warmup.
        rbind (required_float flt_of flags ''--duration'') (\<lambda>duration.
        rbind (float_flag flt_of flags ''--drop-probability'' (Fin 0)) (\<lambda>p.
        rbind (float_flag flt_of flags ''--artificial-delay-ms'' (Fin 0)) (\<lambda>delay_ms.
        rbind (optional_float flt_of flags ''--failure-at'') (\<lambda>failure.
        rbind (optional_float flt_of flags ''--recovery-at'') (\<lambda>recovery.
        rbind (fdiv delay_ms (Fin 1000)) (\<lambda>delay.
          VirtualNodeSimulator (int_flag flags ''--nodes'' 0) interval warmup duration (int_flag flags ''--seed'' 662)
            p delay failure recovery)))))))))"

section \<open>An accepted configuration starts its children\<close>

definition config_floats :: "experiment_config \<Rightarrow> pyfloat list" where
  "config_floats c = [cf_duration_seconds c, cf_warmup_seconds c, cf_sampling_interval_ms c, cf_aggregation_window_seconds c,
     cf_drop_probability c, cf_artificial_delay_ms c, cf_expected_interval_seconds c, cf_suspect_after_intervals c,
     cf_offline_after_intervals c, cf_liveness_check_interval_seconds c, cf_metrics_interval_seconds c] @
     (case cf_failure_at_seconds c of None \<Rightarrow> [] | Some f \<Rightarrow> [f]) @ (case cf_recovery_at_seconds c of None \<Rightarrow> [] | Some r \<Rightarrow> [r])"

text \<open>Python prints a float so that reading the text gives it back; the gateway reads the text of the
  integer 1 as the float one.\<close>

definition texts_read_back :: "(pyfloat \<Rightarrow> string) \<Rightarrow> (string \<Rightarrow> pyfloat option) \<Rightarrow> experiment_config \<Rightarrow> bool" where
  "texts_read_back str flt_of c \<longleftrightarrow> list_all (\<lambda>x. flt_of (str x) = Some x) (config_floats c) \<and> flt_of ''1'' = Some (Fin 1) \<and>
     (\<forall>y. seconds_of_ms (cf_sampling_interval_ms c) = Inr y \<longrightarrow> flt_of (str y) = Some y)"

lemma gateway_args_options:
  assumes "texts_read_back str flt_of c"
  shows "\<exists>opts. parse_gateway_args flt_of (gateway_args str c a) = Inr opts \<and>
    go_forwarder_queue_size opts = cf_forwarder_queue_size c \<and> go_storage_queue_size opts = cf_storage_queue_size c \<and>
    go_event_queue_size opts = cf_event_queue_size c \<and> go_expected_interval opts = cf_expected_interval_seconds c \<and>
    go_suspect_after opts = cf_suspect_after_intervals c \<and> go_offline_after opts = cf_offline_after_intervals c \<and>
    go_liveness_check_interval opts = cf_liveness_check_interval_seconds c \<and> go_metrics_interval opts = cf_metrics_interval_seconds c \<and>
    go_upstream_mode opts = aggregation_mode_str (cf_aggregation_mode c) \<and>
    go_aggregation_window opts = (if feq (cf_aggregation_window_seconds c) (Fin 0) then Fin 1 else cf_aggregation_window_seconds c) \<and>
    go_gateway_events_output opts = Some (ra_gateway_events a) \<and> go_health_events_output opts = Some (ra_health_events a) \<and>
    go_system_metrics_output opts = Some (ra_system_metrics a) \<and> go_raw_output opts = Some (ra_readings a)"
proof -
  have one: "str_of_int 1 = ''1''" by code_simp
  have mode: "aggregation_mode_str (cf_aggregation_mode c) \<in> {''disabled'', ''raw'', ''aggregated''}"
    by (cases "cf_aggregation_mode c") simp_all
  show ?thesis
    using assms mode
    by (simp add: texts_read_back_def config_floats_def parse_gateway_args_def gateway_args_def float_flag_def int_flag_def
        int_of_text_str one)
qed

lemma simulator_args_main:
  assumes "texts_read_back str flt_of c" "seconds_of_ms (cf_sampling_interval_ms c) = Inr interval"
    "seconds_of_ms (cf_artificial_delay_ms c) = Inr delay"
  shows "\<exists>args. simulator_args str c a = Inr args \<and> simulator_main flt_of args =
    VirtualNodeSimulator (cf_virtual_node_count c) interval (cf_warmup_seconds c) (cf_duration_seconds c) (cf_random_seed c)
      (cf_drop_probability c) delay (cf_failure_at_seconds c) (cf_recovery_at_seconds c)"
  using assms
  by (cases "cf_failure_at_seconds c"; cases "cf_recovery_at_seconds c")
    (simp_all add: texts_read_back_def config_floats_def simulator_args_def simulator_main_def float_flag_def int_flag_def
        required_float_def optional_float_def optional_arg_def seconds_of_ms_def int_of_text_str del: fdiv.simps)

lemma seconds_positive:
  assumes "1 \<le> x" "x \<le> 2 ^ 53"
  shows "\<exists>y. seconds_of_ms (Fin x) = Inr (Fin y) \<and> 0 < y"
proof -
  have "rnd_double (1 / 1024) = 1 / 1024"
    by (rule trans [OF rnd_double_eqI [where e = "- 62" and m = "4503599627370496"]])
      (simp_all add: power_int_def power_one_over round_half_even_def Let_def)
  then have "1 / 1024 \<le> rnd_double (x / 1000)" using binary64.rnd_mono [of "1 / 1024" "x / 1000"] assms(1) by simp
  moreover have "fl (x / 1000) = Fin (rnd_double (x / 1000))" using assms by (intro fl_bounded [where n = "2 ^ 53"]) auto
  ultimately show ?thesis by (simp add: seconds_of_ms_def)
qed

lemma accepted_simulator:
  assumes "ExperimentConfig c = Inr d" "list_all is_finite (config_floats c)"
    "fle (Fin 1) (cf_sampling_interval_ms c)" "fle (cf_sampling_interval_ms c) (Fin (2 ^ 53))"
  shows "\<exists>interval delay s. seconds_of_ms (cf_sampling_interval_ms c) = Inr interval \<and>
    seconds_of_ms (cf_artificial_delay_ms c) = Inr delay \<and>
    VirtualNodeSimulator (cf_virtual_node_count c) interval (cf_warmup_seconds c) (cf_duration_seconds c) (cf_random_seed c)
      (cf_drop_probability c) delay (cf_failure_at_seconds c) (cf_recovery_at_seconds c) = Inr s \<and> startable s"
proof -
  have b: "config_bounds c" and v: "validate_relationships c = Inr c" using assms(1) by (auto simp: ExperimentConfig_Inr)
  obtain x where x: "cf_sampling_interval_ms c = Fin x" "1 \<le> x" "x \<le> 2 ^ 53"
    using assms(2-4) by (auto simp: config_floats_def is_finite_iff)
  obtain y where y: "seconds_of_ms (Fin x) = Inr (Fin y)" "0 < y" using seconds_positive x(2,3) by blast
  obtain p where p: "cf_drop_probability c = Fin p" "0 \<le> p" "p \<le> 1"
    using assms(2) b by (auto simp: config_floats_def is_finite_iff config_bounds_def ge0_def le1_def)
  obtain w where w: "cf_artificial_delay_ms c = Fin w" "0 \<le> w"
    using assms(2) b by (auto simp: config_floats_def is_finite_iff config_bounds_def ge0_def)
  have delay: "fle (Fin 0) (fl (w / 1000))" using fl_mono_fle [of 0 "w / 1000"] w(2) by simp
  have "cf_virtual_node_count c \<le> 10000" "1 \<le> cf_virtual_node_count c"
    using b v by (auto simp: config_bounds_def validate_relationships_def split: if_splits)
  moreover have "(10000 :: nat) \<le> id_limit" by (simp add: id_limit_def)
  moreover have "failure_inside (cf_failure_at_seconds c) (cf_duration_seconds c)"
    "\<not> recovery_outside (cf_failure_at_seconds c) (cf_recovery_at_seconds c) (cf_duration_seconds c)"
    using v by (auto simp: validate_relationships_def split: if_splits)
  ultimately show ?thesis
    using b x y p w(1) delay
    by (auto simp: VirtualNodeSimulator_def startable_def seconds_of_ms_def failure_inside_def recovery_outside_def
        config_bounds_def ge0_def gt0_def split: option.splits)
qed


section \<open>The command-line front end\<close>

definition parse_aggregation ::
  "(string \<Rightarrow> pyfloat option) \<Rightarrow> string \<Rightarrow> pyfloat option \<Rightarrow> (aggregation_mode \<times> pyfloat) result" where
  "parse_aggregation flt_of text window =
     (if text = ''raw'' then Inr (Raw_mode, Fin 0)
      else if text = ''aggregated''
      then (case window of
              None \<Rightarrow> Inl (ValueError ''--aggregation-window is required for aggregated mode'')
            | Some w \<Rightarrow> if fle w (Fin 0) then Inl (ValueError ''--aggregation-window is required for aggregated mode'')
                else Inr (Aggregated_mode, w))
      else case flt_of text of
        None \<Rightarrow> Inl (ValueError ''aggregation must be raw, aggregated, or a window in seconds'')
      | Some w \<Rightarrow> if fle w (Fin 0) then Inl (ValueError ''aggregation window must be positive'') else Inr (Aggregated_mode, w))"

record cli_args =
  ca_experiment :: experiment_type
  ca_nodes :: int
  ca_duration :: pyfloat
  ca_warmup :: pyfloat
  ca_sampling_interval_ms :: pyfloat
  ca_aggregation :: string
  ca_aggregation_window :: "pyfloat option"
  ca_drop_probability :: pyfloat
  ca_artificial_delay_ms :: pyfloat
  ca_failure_at :: "pyfloat option"
  ca_recovery_at :: "pyfloat option"
  ca_seed :: int
  ca_repetitions :: int
  ca_metrics_interval :: pyfloat

text \<open>The times of a failure experiment that names none: a third and two thirds of the duration.\<close>

definition failure_times :: "cli_args \<Rightarrow> (pyfloat option \<times> pyfloat option) result" where
  "failure_times args =
     (if ca_experiment args = Failure \<and> ca_failure_at args = None
      then rbind (fdiv (ca_duration args) (Fin 3)) (\<lambda>f. rbind (fdiv (fmul (Fin 2) (ca_duration args)) (Fin 3)) (\<lambda>r.
        Inr (Some f, Some r)))
      else Inr (ca_failure_at args, ca_recovery_at args))"

definition cli_config ::
  "cli_args \<Rightarrow> aggregation_mode \<Rightarrow> pyfloat \<Rightarrow> pyfloat option \<Rightarrow> pyfloat option \<Rightarrow> nat \<Rightarrow> experiment_config result" where
  "cli_config args mode window failure recovery repetition =
     rbind (fdiv (ca_sampling_interval_ms args) (Fin 1000)) (\<lambda>expected.
     rbind (fdiv (ca_sampling_interval_ms args) (Fin 2000)) (\<lambda>half.
       ExperimentConfig ((default_config (ca_experiment args) (ca_nodes args) (ca_nodes args) (ca_duration args) expected)
         \<lparr>cf_warmup_seconds := ca_warmup args, cf_sampling_interval_ms := ca_sampling_interval_ms args,
          cf_aggregation_mode := mode, cf_aggregation_window_seconds := window,
          cf_impairment_mode := (if flt (Fin 0) (ca_drop_probability args) \<or> flt (Fin 0) (ca_artificial_delay_ms args)
                                 then Application else No_impairment),
          cf_drop_probability := ca_drop_probability args, cf_artificial_delay_ms := ca_artificial_delay_ms args,
          cf_random_seed := ca_seed args + int repetition, cf_base_seed := ca_seed args,
          cf_repetition_index := int repetition, cf_liveness_check_interval_seconds := py_min (Fin (1 / 2)) half,
          cf_metrics_interval_seconds := ca_metrics_interval args, cf_failure_at_seconds := failure,
          cf_recovery_at_seconds := recovery\<rparr>)))"

fun sequence_results :: "'a result list \<Rightarrow> 'a list result" where
  "sequence_results [] = Inr []"
| "sequence_results (r # rs) = rbind r (\<lambda>x. rbind (sequence_results rs) (\<lambda>xs. Inr (x # xs)))"

text \<open>\<open>_run_cli\<close>: the configurations of the repetitions, in order.\<close>

definition run_cli :: "(string \<Rightarrow> pyfloat option) \<Rightarrow> cli_args \<Rightarrow> experiment_config list result" where
  "run_cli flt_of args =
     (if ca_repetitions args < 1 then Inl (ValueError ''repetitions must be positive'')
      else rbind (parse_aggregation flt_of (ca_aggregation args) (ca_aggregation_window args)) (\<lambda>(mode, window).
        rbind (failure_times args) (\<lambda>(failure, recovery).
          sequence_results (map (cli_config args mode window failure recovery) [0..<nat (ca_repetitions args)]))))"

lemma parse_aggregation_window:
  "parse_aggregation flt_of text window = Inr (mode, w) \<Longrightarrow>
     (mode = Raw_mode \<and> w = Fin 0) \<or> (mode = Aggregated_mode \<and> \<not> fle w (Fin 0))"
  by (auto simp: parse_aggregation_def split: if_splits option.splits)

lemma sequence_results_Inr: "sequence_results rs = Inr xs \<Longrightarrow> rs = map Inr xs"
  by (induction rs arbitrary: xs) (auto simp: rbind_eq_Inr_iff)

section \<open>Witnesses\<close>

definition whole_text :: "pyfloat \<Rightarrow> string" where
  "whole_text x = str_of_int \<lfloor>fval x\<rfloor>"

definition whole_of_text :: "string \<Rightarrow> pyfloat option" where
  "whole_of_text s = Some (Fin (of_int (int_of_text s)))"

definition sample_experiment :: experiment_config where
  "sample_experiment = (default_config Failure 2 2 (Fin 30) (Fin 1))
     \<lparr>cf_liveness_check_interval_seconds := Fin 1, cf_metrics_interval_seconds := Fin 1,
      cf_failure_at_seconds := Some (Fin 10), cf_recovery_at_seconds := Some (Fin 20)\<rparr>"

lemma whole_reads_back: "whole_of_text (whole_text (Fin (of_int n))) = Some (Fin (of_int n))"
  by (simp add: whole_text_def whole_of_text_def int_of_text_str)

lemma whole_numeral:
  "whole_of_text (whole_text (Fin (numeral n))) = Some (Fin (numeral n))"
  "whole_of_text (whole_text (Fin 0)) = Some (Fin 0)" "whole_of_text (whole_text (Fin 1)) = Some (Fin 1)"
  using whole_reads_back [of "numeral n"] whole_reads_back [of 0] whole_reads_back [of 1] by simp_all

lemma sample_experiment_ok:
  "ExperimentConfig sample_experiment = Inr sample_experiment" "list_all is_finite (config_floats sample_experiment)"
  "texts_read_back whole_text whole_of_text sample_experiment"
  "fle (Fin 1) (cf_sampling_interval_ms sample_experiment)" "fle (cf_sampling_interval_ms sample_experiment) (Fin (2 ^ 53))"
proof -
  show "ExperimentConfig sample_experiment = Inr sample_experiment"
    by (simp add: ExperimentConfig_Inr config_bounds_def validate_relationships_def sample_experiment_def default_config_def
        gt0_def ge0_def le1_def feq_def failure_inside_def recovery_outside_def)
  have one: "whole_of_text ''1'' = Some (Fin 1)" by (simp add: whole_of_text_def int_of_text_def digits_value_def)
  show "texts_read_back whole_text whole_of_text sample_experiment"
    using one by (simp add: texts_read_back_def config_floats_def sample_experiment_def default_config_def seconds_of_ms_def whole_numeral)
qed (simp_all add: sample_experiment_def default_config_def config_floats_def)


definition calm_child :: child_outcome where
  "calm_child = \<lparr>spawn_error = None, port_result = Inr (), stop_result = On_interrupt 0\<rparr>"

definition sample_env :: runner_env where
  "sample_env = \<lparr>re_git_status = [], re_host = \<lparr>hc_created_at = [], hc_git_commit = ''abc'', hc_git_dirty = False,
     hc_git_status = [], hc_python_version = ''3.13'', hc_host_platform = ''linux''\<rparr>, re_run_id = ''r1'', re_ports = [9001, 9001, 9002],
     re_outcomes = \<lparr>for_collector = calm_child, for_gateway = calm_child, for_simulator = calm_child, simulator_exit = Inr 0,
       clock_start = 0, clock_end = 60000\<rparr>, re_evidence = []\<rparr>"


end
