(* ===== verification/Final_Matrix.thy ===== *)
theory Final_Matrix
  imports Runner
begin

text \<open>
  The frozen matrix of the final campaign (\<^verbatim>\<open>src/experiments/final_matrix.py\<close>): its nine conditions, the
  plan computed from them, and the execution that runs every condition three times and stops at the
  first run that is not admitted. What one run and its analysis return is the argument \<open>perform\<close>.
\<close>

section \<open>Conditions and plan\<close>

record matrix_condition =
  mc_condition_id :: string
  mc_experiment_type :: experiment_type
  mc_node_count :: nat
  mc_aggregation_mode :: aggregation_mode
  mc_window :: pyfloat
  mc_groups :: "string list"
  mc_failure_at :: "pyfloat option"
  mc_recovery_at :: "pyfloat option"

definition REPETITIONS :: nat where
  "REPETITIONS = 3"

definition FAILURE_AT_SECONDS :: pyfloat where
  "FAILURE_AT_SECONDS = Fin 90"

definition RECOVERY_AT_SECONDS :: pyfloat where
  "RECOVERY_AT_SECONDS = Fin 180"

definition scaling_pair :: "nat \<Rightarrow> matrix_condition list" where
  "scaling_pair n =
     (let groups = (if n = 25 then [''scaling'', ''aggregation_window''] else [''scaling''])
      in [\<lparr>mc_condition_id = ''scale-n'' @ pad3 n @ ''-raw'', mc_experiment_type = Scaling, mc_node_count = n,
           mc_aggregation_mode = Raw_mode, mc_window = Fin 0, mc_groups = groups, mc_failure_at = None, mc_recovery_at = None\<rparr>,
          \<lparr>mc_condition_id = ''scale-n'' @ pad3 n @ ''-agg05'', mc_experiment_type = Scaling, mc_node_count = n,
           mc_aggregation_mode = Aggregated_mode, mc_window = Fin 5, mc_groups = groups, mc_failure_at = None, mc_recovery_at = None\<rparr>])"

definition tradeoff_condition :: "string \<Rightarrow> pyfloat \<Rightarrow> matrix_condition" where
  "tradeoff_condition cid w = \<lparr>mc_condition_id = cid, mc_experiment_type = Aggregation, mc_node_count = 25,
     mc_aggregation_mode = Aggregated_mode, mc_window = w, mc_groups = [''aggregation_window''], mc_failure_at = None,
     mc_recovery_at = None\<rparr>"

definition failure_condition :: matrix_condition where
  "failure_condition = \<lparr>mc_condition_id = ''failure-n025-raw'', mc_experiment_type = Failure, mc_node_count = 25,
     mc_aggregation_mode = Raw_mode, mc_window = Fin 0, mc_groups = [''failure_recovery''],
     mc_failure_at = Some FAILURE_AT_SECONDS, mc_recovery_at = Some RECOVERY_AT_SECONDS\<rparr>"

definition final_conditions :: "matrix_condition list" where
  "final_conditions = concat (map scaling_pair [5, 25, 100]) @
     [tradeoff_condition ''tradeoff-n025-agg01'' (Fin 1), tradeoff_condition ''tradeoff-n025-agg10'' (Fin 10)] @
     [failure_condition]"

record campaign_plan =
  pl_campaign_id :: string
  pl_git_dirty :: bool
  pl_warmup_seconds :: pyfloat
  pl_measurement_seconds :: pyfloat
  pl_base_seed :: int
  pl_repetition_seeds :: "int list"
  pl_unique_conditions :: nat
  pl_unique_executed_runs :: nat
  pl_nominal_seconds :: pyfloat
  pl_nominal_minutes :: pyfloat
  pl_analytical_run_counts :: "(string \<times> nat) list"
  pl_conditions :: "matrix_condition list"

definition build_campaign_plan :: "bool \<Rightarrow> string \<Rightarrow> pyfloat \<Rightarrow> pyfloat \<Rightarrow> int \<Rightarrow> campaign_plan result" where
  "build_campaign_plan dirty campaign_id warmup measurement base_seed =
     (if flt warmup (Fin 30) then Inl (FinalMatrixError ''final warm-up must be at least 30 seconds'')
      else if flt measurement (Fin 120) then Inl (FinalMatrixError ''final measurement must be at least 120 seconds'')
      else let conditions = final_conditions;
               runs = length conditions * REPETITIONS;
               nominal = fmul (fl (of_nat runs)) (fadd warmup measurement)
        in rbind (fdiv nominal (Fin 60)) (\<lambda>minutes.
          Inr \<lparr>pl_campaign_id = campaign_id, pl_git_dirty = dirty, pl_warmup_seconds = warmup,
            pl_measurement_seconds = measurement, pl_base_seed = base_seed,
            pl_repetition_seeds = map (\<lambda>i. base_seed + int i) [0..<REPETITIONS], pl_unique_conditions = length conditions,
            pl_unique_executed_runs = runs, pl_nominal_seconds = nominal, pl_nominal_minutes = minutes,
            pl_analytical_run_counts = [(''scaling_and_aggregation'', 18), (''aggregation_window'', 12), (''failure_recovery'', 3)],
            pl_conditions = conditions\<rparr>))"

section \<open>Execution\<close>

definition campaign_config ::
  "string \<Rightarrow> pyfloat \<Rightarrow> pyfloat \<Rightarrow> int \<Rightarrow> matrix_condition \<Rightarrow> nat \<Rightarrow> experiment_config result" where
  "campaign_config campaign_id warmup measurement base_seed m i =
     ExperimentConfig ((default_config (mc_experiment_type m) (int (mc_node_count m)) (int (mc_node_count m)) measurement (Fin 1))
       \<lparr>cf_warmup_seconds := warmup, cf_aggregation_mode := mc_aggregation_mode m,
        cf_aggregation_window_seconds := mc_window m, cf_random_seed := base_seed + int i, cf_base_seed := base_seed,
        cf_repetition_index := int i, cf_campaign_id := Some campaign_id, cf_condition_id := Some (mc_condition_id m),
        cf_run_classification := Controlled_final, cf_failure_at_seconds := mc_failure_at m,
        cf_recovery_at_seconds := mc_recovery_at m\<rparr>)"

record admission =
  ad_condition_id :: string
  ad_repetition_index :: nat
  ad_random_seed :: int
  ad_run_id :: string
  ad_passed :: bool

text \<open>The two nested loops with their breaks: the pairs of condition and repetition in order, until a run
  raises or is not admitted. The result is the id of the failed run, if there is one.\<close>

fun run_matrix ::
  "(matrix_condition \<Rightarrow> nat \<Rightarrow> experiment_config result) \<Rightarrow> (matrix_condition \<Rightarrow> nat \<Rightarrow> experiment_config \<Rightarrow> run_error + (string \<times> bool)) \<Rightarrow>
   int \<Rightarrow> (matrix_condition \<times> nat) list \<Rightarrow> (run_error + string option) \<times> admission list" where
  "run_matrix config perform base_seed [] = (Inr None, [])"
| "run_matrix config perform base_seed ((m, i) # rest) =
     (case config m i of
        Inl e \<Rightarrow> (Inl (Raised e), [])
      | Inr c \<Rightarrow> (case perform m i c of
          Inl e \<Rightarrow> (Inl e, [])
        | Inr (run_id, passed) \<Rightarrow>
            (let a = \<lparr>ad_condition_id = mc_condition_id m, ad_repetition_index = i, ad_random_seed = base_seed + int i,
                      ad_run_id = run_id, ad_passed = passed\<rparr>
             in if \<not> passed then (Inr (Some run_id), [a])
                else let (r, as) = run_matrix config perform base_seed rest in (r, a # as))))"

definition matrix_runs :: "(matrix_condition \<times> nat) list" where
  "matrix_runs = List.product final_conditions [0..<REPETITIONS]"

record campaign_summary =
  cs_status :: string
  cs_failed_run_id :: "string option"
  cs_admissions :: "admission list"

text \<open>\<open>execute_campaign\<close>: the result and the summary it wrote, if it got so far.\<close>

definition execute_campaign ::
  "(matrix_condition \<Rightarrow> nat \<Rightarrow> experiment_config \<Rightarrow> run_error + (string \<times> bool)) \<Rightarrow> bool \<Rightarrow> string list \<Rightarrow> string \<Rightarrow> string \<Rightarrow>
   pyfloat \<Rightarrow> pyfloat \<Rightarrow> int \<Rightarrow> (run_error + string) \<times> campaign_summary option" where
  "execute_campaign perform dirty dirs raw_root campaign_id warmup measurement base_seed =
     (case build_campaign_plan dirty campaign_id warmup measurement base_seed of
        Inl e \<Rightarrow> (Inl (Raised e), None)
      | Inr plan \<Rightarrow>
        if pl_git_dirty plan then (Inl (Raised (FinalMatrixError ''final campaign requires a clean tracked worktree'')), None)
        else if slash raw_root campaign_id \<in> set dirs then (Inl (Raised (FileExistsError (slash raw_root campaign_id))), None)
        else case run_matrix (campaign_config campaign_id warmup measurement base_seed) perform base_seed matrix_runs of
          (Inl e, _) \<Rightarrow> (Inl e, None)
        | (Inr failed, admissions) \<Rightarrow>
            (let summary = \<lparr>cs_status = (if failed = None then ''success'' else ''admission_failed''),
                            cs_failed_run_id = failed, cs_admissions = admissions\<rparr>
             in (if failed = None then Inr (slash raw_root campaign_id)
                 else Inl (Raised (FinalMatrixError ''scientific admission failed'')), Some summary)))"

section \<open>The matrix\<close>

lemma final_conditions_ids: "distinct (map mc_condition_id final_conditions)" "length final_conditions = 9"
  by code_simp+

definition condition_ok :: "matrix_condition \<Rightarrow> bool" where
  "condition_ok m \<longleftrightarrow> 1 \<le> mc_node_count m \<and> mc_node_count m \<le> 100 \<and>
    ((mc_aggregation_mode m = Raw_mode \<and> mc_window m = Fin 0) \<or> (mc_aggregation_mode m = Aggregated_mode \<and> mc_window m \<in> {Fin 1, Fin 5, Fin 10})) \<and>
    ((mc_failure_at m = None \<and> mc_recovery_at m = None) \<or> m = failure_condition)"

lemma final_conditions_cases:
  assumes "m \<in> set final_conditions"
  shows "condition_ok m"
proof -
  have "list_all condition_ok final_conditions"
    by (simp add: final_conditions_def scaling_pair_def tradeoff_condition_def Let_def condition_ok_def)
      (simp add: failure_condition_def)
  then show ?thesis using assms by (simp add: list_all_iff)
qed

text \<open>A configuration of the campaign is accepted exactly when the measurement is longer than the
  recovery time of its condition, if it has one.\<close>

lemma campaign_config_iff:
  assumes "m \<in> set final_conditions" "30 \<le> w" "120 \<le> d"
  shows "is_ok (campaign_config cid (Fin w) (Fin d) seed m i) \<longleftrightarrow> m \<noteq> failure_condition \<or> 180 < d"
    "\<not> is_ok (campaign_config cid (Fin w) (Fin d) seed m i) \<Longrightarrow> campaign_config cid (Fin w) (Fin d) seed m i = Inl ValidationError"
proof -
  let ?c = "(default_config (mc_experiment_type m) (int (mc_node_count m)) (int (mc_node_count m)) (Fin d) (Fin 1))
       \<lparr>cf_warmup_seconds := Fin w, cf_aggregation_mode := mc_aggregation_mode m,
        cf_aggregation_window_seconds := mc_window m, cf_random_seed := seed + int i, cf_base_seed := seed,
        cf_repetition_index := int i, cf_campaign_id := Some cid, cf_condition_id := Some (mc_condition_id m),
        cf_run_classification := Controlled_final, cf_failure_at_seconds := mc_failure_at m,
        cf_recovery_at_seconds := mc_recovery_at m\<rparr>"
  have c: "campaign_config cid (Fin w) (Fin d) seed m i = ExperimentConfig ?c" by (simp add: campaign_config_def)
  note m = final_conditions_cases [OF assms(1), unfolded condition_ok_def]
  have b: "config_bounds ?c"
    using m assms by (auto simp: config_bounds_def default_config_def gt0_def ge0_def le1_def)
  have t: "failure_inside (mc_failure_at m) (Fin d)"
    using m assms(3) by (auto simp: failure_inside_def failure_condition_def FAILURE_AT_SECONDS_def)
  have r: "recovery_outside (mc_failure_at m) (mc_recovery_at m) (Fin d) \<longleftrightarrow> m = failure_condition \<and> d \<le> 180"
    using m by (auto simp: recovery_outside_def failure_condition_def FAILURE_AT_SECONDS_def RECOVERY_AT_SECONDS_def)
  show "is_ok (campaign_config cid (Fin w) (Fin d) seed m i) \<longleftrightarrow> m \<noteq> failure_condition \<or> 180 < d"
    using m b t r unfolding c
    by (auto simp: is_ok_iff ExperimentConfig_Inr validate_relationships_def default_config_def feq_def)
  show "campaign_config cid (Fin w) (Fin d) seed m i = Inl ValidationError"
    if "\<not> is_ok (campaign_config cid (Fin w) (Fin d) seed m i)"
    using that unfolding c by (auto simp: ExperimentConfig_def split: sum.splits if_splits)
qed

definition admitted :: "int \<Rightarrow> (matrix_condition \<Rightarrow> nat \<Rightarrow> experiment_config \<Rightarrow> run_error + (string \<times> bool)) \<Rightarrow>
    (matrix_condition \<Rightarrow> nat \<Rightarrow> experiment_config result) \<Rightarrow> matrix_condition \<times> nat \<Rightarrow> admission \<Rightarrow> bool" where
  "admitted seed perform config p a \<longleftrightarrow> ad_condition_id a = mc_condition_id (fst p) \<and> ad_repetition_index a = snd p \<and>
     ad_random_seed a = seed + int (snd p) \<and>
     (\<exists>c. config (fst p) (snd p) = Inr c \<and> perform (fst p) (snd p) c = Inr (ad_run_id a, ad_passed a))"

text \<open>What the loop returns: the admissions of a prefix of the runs, all but the last of them passed.\<close>

lemma run_matrix_gate:
  assumes "run_matrix config perform seed xs = (r, as)"
  shows "list_all2 (admitted seed perform config) (take (length as) xs) as \<and> list_all ad_passed (butlast as) \<and>
    (r = Inr None \<longrightarrow> length as = length xs \<and> list_all ad_passed as) \<and>
    (\<forall>f. r = Inr (Some f) \<longrightarrow> as \<noteq> [] \<and> \<not> ad_passed (List.last as) \<and> ad_run_id (List.last as) = f)"
  using assms
proof (induction xs arbitrary: r as)
  case (Cons p xs)
  obtain m i where p: "p = (m, i)" by force
  show ?case
  proof (cases "config m i")
    case (Inr c)
    show ?thesis
    proof (cases "perform m i c")
      case (Inr q)
      obtain run_id passed where q: "q = (run_id, passed)" by force
      obtain r' as' where rest: "run_matrix config perform seed xs = (r', as')" by force
      let ?a = "\<lparr>ad_condition_id = mc_condition_id m, ad_repetition_index = i, ad_random_seed = seed + int i,
                  ad_run_id = run_id, ad_passed = passed\<rparr>"
      have a: "admitted seed perform config p ?a"
        using p q \<open>config m i = Inr c\<close> Inr by (simp add: admitted_def)
      show ?thesis
      proof (cases passed)
        case True
        then have "r = r'" "as = ?a # as'"
          using Cons.prems p q rest \<open>config m i = Inr c\<close> Inr by (simp_all add: Let_def)
        then show ?thesis using Cons.IH [OF rest] a True by (cases as') simp_all
      next
        case False
        then have "r = Inr (Some run_id)" "as = [?a]"
          using Cons.prems p q \<open>config m i = Inr c\<close> Inr by (simp_all add: Let_def)
        then show ?thesis using a False by simp
      qed
    qed (use Cons.prems p \<open>config m i = Inr c\<close> in auto)
  qed (use Cons.prems p in auto)
qed simp

lemma run_matrix_passes:
  assumes "\<forall>p \<in> set xs. is_ok (config (fst p) (snd p))" "\<forall>m i c. \<exists>rid. perform m i c = Inr (rid, True)"
  shows "\<exists>as. run_matrix config perform seed (xs @ ys) =
    (fst (run_matrix config perform seed ys), as @ snd (run_matrix config perform seed ys)) \<and> length as = length xs"
  using assms(1)
proof (induction xs)
  case (Cons p xs)
  obtain m i where p: "p = (m, i)" by force
  obtain c where c: "config m i = Inr c" using Cons.prems p by (auto simp: is_ok_iff)
  obtain rid where r: "perform m i c = Inr (rid, True)" using assms(2) by blast
  obtain as where as: "run_matrix config perform seed (xs @ ys) =
    (fst (run_matrix config perform seed ys), as @ snd (run_matrix config perform seed ys))" "length as = length xs"
    using Cons by auto
  then show ?case using p c r by (simp add: Let_def)
qed simp

section \<open>The campaign\<close>

lemma matrix_runs_length: "length matrix_runs = 27"
  by (simp add: matrix_runs_def length_product final_conditions_ids REPETITIONS_def)

lemma matrix_runs_distinct: "distinct (map (\<lambda>p. (mc_condition_id (fst p), snd p)) matrix_runs)"
proof -
  have "distinct matrix_runs"
    using final_conditions_ids(1) by (simp add: matrix_runs_def distinct_product distinct_map)
  moreover have "inj_on (\<lambda>p. (mc_condition_id (fst p), snd p)) (set matrix_runs)"
    using final_conditions_ids(1) by (auto simp: inj_on_def matrix_runs_def distinct_map)
  ultimately show ?thesis by (simp add: distinct_map)
qed

lemma matrix_runs_conditions: "p \<in> set matrix_runs \<Longrightarrow> fst p \<in> set final_conditions"
  by (auto simp: matrix_runs_def)

lemma plan_built:
  assumes "30 \<le> w" "120 \<le> d"
  shows "\<exists>plan. build_campaign_plan dirty cid (Fin w) (Fin d) seed = Inr plan \<and> pl_git_dirty plan = dirty \<and>
    pl_unique_executed_runs plan = 27"
proof -
  have "\<exists>q. fdiv x (Fin 60) = Inr q" for x by (cases x) auto
  then obtain q where q: "fdiv (fmul (fl (of_nat (length final_conditions * REPETITIONS))) (fadd (Fin w) (Fin d))) (Fin 60) = Inr q"
    by blast
  have g: "\<not> flt (Fin w) (Fin 30)" "\<not> flt (Fin d) (Fin 120)" using assms by simp_all
  have n: "length final_conditions * REPETITIONS = 27" by (simp add: final_conditions_ids REPETITIONS_def)
  show ?thesis
    unfolding build_campaign_plan_def Let_def if_not_P [OF g(1)] if_not_P [OF g(2)] q rbind_Inr
    by (intro exI conjI) (rule refl, simp_all add: n)
qed

text \<open>C26: A campaign on a clean worktree into a fresh directory, with a warm-up of at least 30 and a
  measurement of more than 180 seconds, whose runs are all admitted, completes: it returns the campaign
  directory and its summary lists exactly the 27 planned runs, each condition with repetitions 0 to 2
  once, in order, with the seeds of the plan.\<close>

theorem campaign_completes:
  assumes "30 \<le> w" "180 < d" "slash raw cid \<notin> set dirs" "\<forall>m i c. \<exists>rid. perform m i c = Inr (rid, True)"
  shows "\<exists>summary. execute_campaign perform False dirs raw cid (Fin w) (Fin d) seed = (Inr (slash raw cid), Some summary) \<and>
    cs_status summary = ''success'' \<and> length (cs_admissions summary) = 27 \<and> list_all ad_passed (cs_admissions summary) \<and>
    map (\<lambda>a. (ad_condition_id a, ad_repetition_index a)) (cs_admissions summary) =
      [(mc_condition_id m, i). m \<leftarrow> final_conditions, i \<leftarrow> [0..<3]] \<and>
    distinct (map (\<lambda>a. (ad_condition_id a, ad_repetition_index a)) (cs_admissions summary)) \<and>
    list_all (\<lambda>a. ad_random_seed a = seed + int (ad_repetition_index a)) (cs_admissions summary)"
proof -
  let ?config = "campaign_config cid (Fin w) (Fin d) seed"
  obtain plan where plan: "build_campaign_plan False cid (Fin w) (Fin d) seed = Inr plan" "\<not> pl_git_dirty plan"
    using plan_built [of w d False cid seed] assms(1,2) by auto
  have "\<forall>p \<in> set matrix_runs. is_ok (?config (fst p) (snd p))"
    using assms(1,2) matrix_runs_conditions by (auto simp: campaign_config_iff(1))
  from run_matrix_passes [OF this assms(4), of seed "[]"]
  obtain as where run: "run_matrix ?config perform seed matrix_runs = (Inr None, as)" by auto
  note gate = run_matrix_gate [OF run]
  then have len: "length as = length matrix_runs" by blast
  then have "take (length as) matrix_runs = matrix_runs" by simp
  then have two: "list_all2 (admitted seed perform ?config) matrix_runs as" using gate by argo
  have ids: "map (\<lambda>a. (ad_condition_id a, ad_repetition_index a)) as = map (\<lambda>p. (mc_condition_id (fst p), snd p)) matrix_runs"
    using two by (induction rule: list_all2_induct) (auto simp: admitted_def)
  have seeds: "list_all (\<lambda>a. ad_random_seed a = seed + int (ad_repetition_index a)) as"
    using two by (induction rule: list_all2_induct) (auto simp: admitted_def)
  have "[(mc_condition_id m, i). m \<leftarrow> final_conditions, i \<leftarrow> [0..<3]] = map (\<lambda>p. (mc_condition_id (fst p), snd p)) matrix_runs"
    by (simp add: matrix_runs_def REPETITIONS_def product_concat_map map_concat comp_def)
  then show ?thesis
    using plan run gate seeds ids assms(3) matrix_runs_length matrix_runs_distinct
    by (simp add: execute_campaign_def)
qed


text \<open>The counts the plan states are those of its conditions: three runs for every condition of
  the scaling, aggregation-window and failure groups, and 27 distinct runs in all.\<close>

theorem plan_counts_match:
  assumes "build_campaign_plan dirty cid w d seed = Inr plan"
  shows "pl_unique_executed_runs plan = 27 \<and> pl_unique_conditions plan = card (set (map mc_condition_id (pl_conditions plan))) \<and>
    pl_analytical_run_counts plan =
      map (\<lambda>(name, group). (name, 3 * length (filter (\<lambda>m. group \<in> set (mc_groups m)) (pl_conditions plan))))
        [(''scaling_and_aggregation'', ''scaling''), (''aggregation_window'', ''aggregation_window''), (''failure_recovery'', ''failure_recovery'')] \<and>
    pl_repetition_seeds plan = [seed, seed + 1, seed + 2]"
proof -
  have groups: "length (filter (\<lambda>m. ''scaling'' \<in> set (mc_groups m)) final_conditions) = 6"
    "length (filter (\<lambda>m. ''aggregation_window'' \<in> set (mc_groups m)) final_conditions) = 4"
    "length (filter (\<lambda>m. ''failure_recovery'' \<in> set (mc_groups m)) final_conditions) = 1"
    by (simp_all add: final_conditions_def scaling_pair_def tradeoff_condition_def failure_condition_def Let_def)
  have plan: "pl_unique_executed_runs plan = length final_conditions * REPETITIONS" "pl_conditions plan = final_conditions"
    "pl_unique_conditions plan = length final_conditions"
    "pl_analytical_run_counts plan = [(''scaling_and_aggregation'', 18), (''aggregation_window'', 12), (''failure_recovery'', 3)]"
    "pl_repetition_seeds plan = map (\<lambda>i. seed + int i) [0..<REPETITIONS]"
    using assms by (auto simp: build_campaign_plan_def Let_def rbind_eq_Inr_iff split: if_splits)
  have "card (set (map mc_condition_id final_conditions)) = length final_conditions"
    using final_conditions_ids(1) distinct_card by fastforce
  then show ?thesis using groups by (simp add: plan final_conditions_ids(2) REPETITIONS_def upt_rec)
qed

theorem plan_counts_match_witness:
  "\<exists>plan. build_campaign_plan False ''final'' (Fin 60) (Fin 300) 662 = Inr plan \<and>
    (pl_unique_executed_runs plan = 27 \<and> pl_unique_conditions plan = card (set (map mc_condition_id (pl_conditions plan))) \<and>
    pl_analytical_run_counts plan =
      map (\<lambda>(name, group). (name, 3 * length (filter (\<lambda>m. group \<in> set (mc_groups m)) (pl_conditions plan))))
        [(''scaling_and_aggregation'', ''scaling''), (''aggregation_window'', ''aggregation_window''), (''failure_recovery'', ''failure_recovery'')] \<and>
    pl_repetition_seeds plan = [662, 662 + 1, 662 + 2])"
proof -
  obtain plan where p: "build_campaign_plan False ''final'' (Fin 60) (Fin 300) 662 = Inr plan"
    using plan_built [of 60 300 False "''final''" 662] by auto
  then show ?thesis using plan_counts_match [OF p] by blast
qed

definition passing :: "matrix_condition \<Rightarrow> nat \<Rightarrow> experiment_config \<Rightarrow> run_error + (string \<times> bool)" where
  "passing m i c = Inr (mc_condition_id m @ str_of_nat i, True)"

theorem campaign_completes_witness:
  "\<exists>summary. execute_campaign passing False [] ''raw'' ''final'' (Fin 60) (Fin 300) 662 = (Inr (slash ''raw'' ''final''), Some summary) \<and>
    cs_status summary = ''success'' \<and> length (cs_admissions summary) = 27 \<and> list_all ad_passed (cs_admissions summary) \<and>
    map (\<lambda>a. (ad_condition_id a, ad_repetition_index a)) (cs_admissions summary) =
      [(mc_condition_id m, i). m \<leftarrow> final_conditions, i \<leftarrow> [0..<3]] \<and>
    distinct (map (\<lambda>a. (ad_condition_id a, ad_repetition_index a)) (cs_admissions summary)) \<and>
    list_all (\<lambda>a. ad_random_seed a = 662 + int (ad_repetition_index a)) (cs_admissions summary)"
  by (rule campaign_completes) (simp_all add: passing_def)


end
