(* ===== verification/Analyze.thy ===== *)
theory Analyze
  imports Measures Final_Matrix
begin

text \<open>
  The analysis of one run and its admission (\<^verbatim>\<open>src/analysis/analyze.py\<close>): loading the immutable
  evidence with every consistency check, the measures of the measurement interval, the resilience
  measures, the scientific admission and the outputs of \<open>analyze_run\<close>. Parsing JSON, the
  typed reading of the CSV files and the mean of a column (pandas), and Python's \<open>str\<close> of a JSON value
  are the parameters in \<open>readers\<close>.
\<close>

section \<open>Loading a run\<close>

record node_stat =
  ns_node_id :: string
  ns_node_kind :: string
  ns_scheduled_readings :: int
  ns_samples_generated :: int
  ns_send_attempts :: int
  ns_successful_writes :: int
  ns_application_drops :: int

record readers =
  rd_loads :: "string \<Rightarrow> json option"
  rd_node_stats :: "string \<Rightarrow> node_stat list"
  rd_metrics :: "string \<Rightarrow> metrics_sample list"
  rd_health :: "string \<Rightarrow> health_event list"
  rd_mean :: "pyfloat list \<Rightarrow> pyfloat"
  rd_str :: "json \<Rightarrow> string"

record loaded_run =
  lr_manifest :: evidence
  lr_simulator :: evidence
  lr_readings :: "evidence list"
  lr_upstream :: "evidence list"
  lr_node_stats :: "node_stat list"
  lr_system_metrics :: "metrics_sample list"
  lr_health_events :: "health_event list"
  lr_gateway_summary :: evidence
  lr_run_summary :: evidence

definition loads_object :: "readers \<Rightarrow> string \<Rightarrow> evidence result" where
  "loads_object rd text =
     (case rd_loads rd text of
        None \<Rightarrow> Inl (ValueError ''JSONDecodeError'')
      | Some (JObj d) \<Rightarrow> Inr d
      | Some _ \<Rightarrow> Inl (TypeError ''not an object''))"

definition read_object :: "readers \<Rightarrow> files \<Rightarrow> string \<Rightarrow> string \<Rightarrow> evidence result" where
  "read_object rd fs dir name =
     (case fs (slash dir name) of None \<Rightarrow> Inl (AnalysisError (''missing '' @ name)) | Some t \<Rightarrow> loads_object rd t)"

text \<open>\<open>_read_ndjson\<close>; a line that is JSON but not an object fails when it is read, not at its first use.\<close>

definition read_ndjson :: "readers \<Rightarrow> string \<Rightarrow> evidence list result" where
  "read_ndjson rd text =
     map_result (\<lambda>line. case rd_loads rd line of
         None \<Rightarrow> Inl (AnalysisError ''invalid NDJSON'')
       | Some (JObj d) \<Rightarrow> Inr d
       | Some _ \<Rightarrow> Inl (TypeError ''not an object'')) (splitlines [] text)"

definition read_json_optional :: "readers \<Rightarrow> files \<Rightarrow> string \<Rightarrow> evidence result" where
  "read_json_optional rd fs p = (case fs p of None \<Rightarrow> Inr [] | Some t \<Rightarrow> loads_object rd t)"

definition required_manifest_fields :: "string list" where
  "required_manifest_fields = [''run_id'', ''experiment_type'', ''node_count'', ''aggregation_mode'',
     ''aggregation_window_seconds'', ''drop_probability'', ''artificial_delay_ms'']"

definition json_is :: "json option \<Rightarrow> json \<Rightarrow> bool" where
  "json_is v j = (case v of None \<Rightarrow> False | Some x \<Rightarrow> py_eq x j)"

text \<open>Membership in a set of strings: a value that cannot be hashed raises.\<close>

definition in_strings :: "json option \<Rightarrow> string list \<Rightarrow> bool result" where
  "in_strings v names =
     (case v of Some (JStr s) \<Rightarrow> Inr (s \<in> set names) | Some (JArr _) \<Rightarrow> Inl (TypeError ''unhashable type'')
      | Some (JObj _) \<Rightarrow> Inl (TypeError ''unhashable type'') | _ \<Rightarrow> Inr False)"

definition check_manifest :: "evidence \<Rightarrow> unit result" where
  "check_manifest manifest =
     (if \<not> json_is (map_of manifest ''manifest_schema_version'') (JInt 1) then Inl (AnalysisError ''unsupported manifest schema'')
      else if list_ex (\<lambda>k. map_of manifest k = None) required_manifest_fields
      then Inl (AnalysisError ''manifest lacks required fields'')
      else rbind (in_strings (map_of manifest ''aggregation_mode'') [''raw'', ''aggregated'']) (\<lambda>known.
        if known then Inr () else Inl (AnalysisError ''manifest contains unsupported aggregation mode'')))"

definition required_children :: "string list" where
  "required_children = [''collector'', ''gateway'', ''simulator'']"

definition same_value :: "json option \<Rightarrow> json option \<Rightarrow> bool" where
  "same_value a b = (case (a, b) of (Some x, Some y) \<Rightarrow> py_eq x y | (None, None) \<Rightarrow> True
     | (Some x, None) \<Rightarrow> x = JNull | (None, Some y) \<Rightarrow> y = JNull)"

definition check_children :: "json option \<Rightarrow> unit result" where
  "check_children v =
     (case v of
        Some (JObj cs) \<Rightarrow>
          if set (map fst cs) \<noteq> set required_children then Inl (AnalysisError ''run summary lacks required child statuses'')
          else if list_ex (\<lambda>p. \<not> py_eq (snd p) (JInt 0)) cs then Inl (AnalysisError ''run summary contains unsuccessful child status'')
          else Inr ()
      | _ \<Rightarrow> Inl (AnalysisError ''run summary lacks required child statuses''))"

definition check_config :: "evidence \<Rightarrow> json option \<Rightarrow> unit result" where
  "check_config manifest v =
     (case v of
        Some (JObj config) \<Rightarrow>
          if list_ex (\<lambda>p. \<not> json_is (map_of manifest (fst p)) (snd p)) config
          then Inl (AnalysisError ''run summary config conflicts with manifest'') else Inr ()
      | _ \<Rightarrow> Inr ())"

definition check_summary :: "evidence \<Rightarrow> evidence \<Rightarrow> unit result" where
  "check_summary manifest summary =
     (if \<not> json_is (map_of summary ''run_summary_schema_version'') (JInt 1) then Inl (AnalysisError ''unsupported run summary schema'')
      else if \<not> same_value (map_of summary ''run_id'') (map_of manifest ''run_id'')
      then Inl (AnalysisError ''run summary does not match manifest run_id'')
      else rbind (in_strings (map_of summary ''status'') [''complete'', ''success'']) (\<lambda>finished.
        if \<not> finished then Inl (AnalysisError ''run is not successful'')
        else rbind (check_children (map_of summary ''children'')) (\<lambda>_. check_config manifest (map_of summary ''config''))))"

definition required_files :: "string list" where
  "required_files = [''readings.ndjson'', ''upstream.ndjson'', ''node_stats.csv'', ''system_metrics.csv'', ''health_events.csv'']"

definition file_text :: "files \<Rightarrow> string \<Rightarrow> string \<Rightarrow> string" where
  "file_text fs dir name = (case fs (slash dir name) of None \<Rightarrow> [] | Some t \<Rightarrow> t)"

definition load_run :: "readers \<Rightarrow> files \<Rightarrow> string \<Rightarrow> loaded_run result" where
  "load_run rd fs dir =
     rbind (read_object rd fs dir ''manifest.json'') (\<lambda>manifest.
     rbind (check_manifest manifest) (\<lambda>_.
     rbind (read_object rd fs dir ''simulator_summary.json'') (\<lambda>simulator.
     if map_of simulator ''measurement_start_ms'' = None \<or> map_of simulator ''measurement_end_ms'' = None
     then Inl (AnalysisError ''simulator summary lacks measurement boundaries'')
     else rbind (read_object rd fs dir ''run_summary.json'') (\<lambda>summary.
     rbind (check_summary manifest summary) (\<lambda>_.
     if list_ex (\<lambda>n. fs (slash dir n) = None) required_files then Inl (AnalysisError ''missing run evidence'')
     else rbind (read_ndjson rd (file_text fs dir ''readings.ndjson'')) (\<lambda>readings.
       rbind (read_ndjson rd (file_text fs dir ''upstream.ndjson'')) (\<lambda>upstream.
       rbind (read_json_optional rd fs (slash dir ''gateway_summary.json'')) (\<lambda>gateway.
         Inr \<lparr>lr_manifest = manifest, lr_simulator = simulator, lr_readings = readings, lr_upstream = upstream,
           lr_node_stats = rd_node_stats rd (file_text fs dir ''node_stats.csv''),
           lr_system_metrics = rd_metrics rd (file_text fs dir ''system_metrics.csv''),
           lr_health_events = rd_health rd (file_text fs dir ''health_events.csv''),
           lr_gateway_summary = gateway, lr_run_summary = summary\<rparr>))))))))"

section \<open>Resilience\<close>

definition first_event_after :: "health_event list \<Rightarrow> string \<Rightarrow> string \<Rightarrow> int \<Rightarrow> int option" where
  "first_event_after rows node state since =
     map_option he_timestamp_ms (find (\<lambda>e. he_node_id e = node \<and> he_new_state e = state \<and> since \<le> he_timestamp_ms e) rows)"

definition detection :: "health_event list \<Rightarrow> string \<Rightarrow> string \<Rightarrow> int option \<Rightarrow> pyfloat option" where
  "detection rows node state since =
     (case since of None \<Rightarrow> None | Some t \<Rightarrow> map_option (\<lambda>u. fl (of_int (u - t))) (first_event_after rows node state t))"

text \<open>The times of the simulator's summary and the receive time are used here without a conversion; a value
  that is not an integer is an error of the model.\<close>

definition plain_int :: "json \<Rightarrow> int result" where
  "plain_int j = (case j of JInt i \<Rightarrow> Inr i | _ \<Rightarrow> Inl (TypeError ''not an integer''))"

definition healthy_peer :: "string \<Rightarrow> int \<Rightarrow> int \<Rightarrow> evidence \<Rightarrow> bool result" where
  "healthy_peer node from_ms until_ms item =
     rbind (field item ''node_id'') (\<lambda>n.
       if n = JStr node \<or> map_of item ''node_kind'' \<noteq> Some (JStr ''virtual'') \<or>
          map_of item ''sequence_status'' = Some (JStr ''DUPLICATE'') then Inr False
       else rbind (rbind (field item ''gateway_received_at_ms'') plain_int) (\<lambda>t. Inr (from_ms \<le> t \<and> t < until_ms)))"

record resilience =
  rs_suspect_detection :: "pyfloat option"
  rs_offline_detection :: "pyfloat option"
  rs_recovery_detection :: "pyfloat option"
  rs_healthy_throughput :: "pyfloat option"

definition optional_int :: "evidence \<Rightarrow> string \<Rightarrow> int option result" where
  "optional_int d k = (case map_of d k of None \<Rightarrow> Inr None | Some JNull \<Rightarrow> Inr None | Some j \<Rightarrow> rbind (plain_int j) (\<lambda>i. Inr (Some i)))"

definition failed_node :: "(json \<Rightarrow> string) \<Rightarrow> evidence \<Rightarrow> string" where
  "failed_node py_str simulator =
     (case map_of simulator ''failure_node_id'' of None \<Rightarrow> ''virtual-000'' | Some j \<Rightarrow> if truthy j then py_str j else ''virtual-000'')"

definition resilience_metrics :: "(json \<Rightarrow> string) \<Rightarrow> loaded_run \<Rightarrow> evidence list \<Rightarrow> resilience result" where
  "resilience_metrics py_str L readings =
     rbind (optional_int (lr_simulator L) ''failure_timestamp_ms'') (\<lambda>failure.
     rbind (optional_int (lr_simulator L) ''recovery_timestamp_ms'') (\<lambda>recovery.
     rbind (rbind (field (lr_simulator L) ''measurement_end_ms'') plain_int) (\<lambda>measurement_end.
     let node = failed_node py_str (lr_simulator L);
         until = (case recovery of None \<Rightarrow> measurement_end | Some r \<Rightarrow> if r = 0 then measurement_end else r)
     in rbind (case failure of None \<Rightarrow> Inr None
          | Some f \<Rightarrow> if until - f \<le> 0 then Inr None
              else rbind (filter_result (healthy_peer node f until) readings) (\<lambda>hs.
                rbind (fdiv (fl (of_nat (length hs))) (fl (of_int (until - f) / 1000))) (\<lambda>x. Inr (Some x)))) (\<lambda>healthy.
       Inr \<lparr>rs_suspect_detection = detection (lr_health_events L) node ''SUSPECT'' failure,
            rs_offline_detection = detection (lr_health_events L) node ''OFFLINE'' failure,
            rs_recovery_detection = detection (lr_health_events L) node ''ONLINE'' recovery,
            rs_healthy_throughput = healthy\<rparr>))))"

section \<open>The measures of a run\<close>

definition virtual_stats :: "node_stat list \<Rightarrow> node_stat list" where
  "virtual_stats rows = filter (\<lambda>r. ns_node_kind r = ''virtual'') rows"

definition sum_column :: "(node_stat \<Rightarrow> int) \<Rightarrow> node_stat list \<Rightarrow> int" where
  "sum_column column rows = sum_list (map column rows)"

definition is_virtual :: "evidence \<Rightarrow> bool" where
  "is_virtual item \<longleftrightarrow> map_of item ''node_kind'' = Some (JStr ''virtual'')"

definition has_status :: "sequence_status \<Rightarrow> evidence \<Rightarrow> bool" where
  "has_status st item \<longleftrightarrow> map_of item ''sequence_status'' = Some (JStr (sequence_value st))"

definition latency :: "evidence \<Rightarrow> int result" where
  "latency item = rbind (int_field item ''gateway_received_at_ms'') (\<lambda>a. rbind (int_field item ''timestamp_ms'') (\<lambda>b. Inr (a - b)))"

text \<open>The reasons that make a delivery ratio invalid, in the order of the code.\<close>

definition delivery_invalid_reasons :: "nat \<Rightarrow> int \<Rightarrow> int \<Rightarrow> int \<Rightarrow> string list" where
  "delivery_invalid_reasons premeasurement received scheduled generated =
     (if premeasurement \<noteq> 0 then [''premeasurement_virtual_arrivals''] else []) @
     (if received > scheduled then [''received_exceeds_scheduled''] else []) @
     (if generated > scheduled then [''generated_exceeds_scheduled''] else []) @
     (if scheduled = 0 then [''zero_scheduled_readings''] else [])"

record analysis =
  an_duration_seconds :: pyfloat
  an_scheduled :: int
  an_generated :: int
  an_attempted :: int
  an_successful_writes :: int
  an_application_drops :: int
  an_gateway_received :: int
  an_virtual_received :: int
  an_virtual_unique :: int
  an_physical_received :: int
  an_delivery_ratio :: "pyfloat option"
  an_delivery_invalid_reasons :: "string list"
  an_generation_availability :: pyfloat
  an_send_success_ratio :: pyfloat
  an_throughput :: pyfloat
  an_virtual_throughput :: pyfloat
  an_sequence_counts :: "(sequence_status \<times> int) list"
  an_latency_mean :: "pyfloat option"
  an_latency_median :: "pyfloat option"
  an_latency_p95 :: "pyfloat option"
  an_process_cpu_mean :: "pyfloat option"
  an_process_rss_mean :: "pyfloat option"
  an_process_rss_max :: "pyfloat option"
  an_process_vms_mean :: "pyfloat option"
  an_messages_actual :: int
  an_bytes_actual :: int
  an_messages_unique :: int
  an_bytes_unique :: int
  an_duplicates :: int
  an_baseline_messages :: int
  an_baseline_bytes :: int
  an_message_reduction_actual :: "pyfloat option"
  an_message_reduction_unique :: "pyfloat option"
  an_byte_reduction_actual :: "pyfloat option"
  an_byte_reduction_unique :: "pyfloat option"
  an_information_delay_mean :: "pyfloat option"
  an_information_delay_p95 :: "pyfloat option"
  an_queue_drops :: int
  an_resilience :: resilience
  an_warnings :: "string list"
  an_measurement_readings :: "evidence list"
  an_unique_upstream :: "evidence list"

definition filter_frame :: "metrics_sample list \<Rightarrow> int \<Rightarrow> int \<Rightarrow> metrics_sample list" where
  "filter_frame rows from_ms until_ms = filter (\<lambda>m. from_ms \<le> ms_timestamp_ms m \<and> ms_timestamp_ms m < until_ms) rows"

definition frame_mean :: "readers \<Rightarrow> (metrics_sample \<Rightarrow> pyfloat) \<Rightarrow> metrics_sample list \<Rightarrow> pyfloat option" where
  "frame_mean rd column rows = (if rows = [] then None else Some (rd_mean rd (map column rows)))"

definition frame_max :: "(metrics_sample \<Rightarrow> int) \<Rightarrow> metrics_sample list \<Rightarrow> pyfloat option" where
  "frame_max column rows =
     (case map column rows of [] \<Rightarrow> None | x # xs \<Rightarrow> Some (fl (of_int (foldl max x xs))))"

text \<open>The warnings that \<open>analyze_run\<close> collects on its way, in their order.\<close>

definition analysis_warnings ::
  "bool \<Rightarrow> bool \<Rightarrow> int \<Rightarrow> bool \<Rightarrow> string list \<Rightarrow> bool \<Rightarrow> bool \<Rightarrow> string list" where
  "analysis_warnings run_dirty analysis_dirty queue_drops no_window reasons retransmitted no_metrics =
     (if run_dirty then [''run was created from a dirty Git worktree''] else []) @
     (if analysis_dirty then [''analysis was executed from a dirty Git worktree''] else []) @
     (if queue_drops \<noteq> 0 then [''upstream queue drops occurred; reduction includes forwarding loss''] else []) @
     (if no_window then [''no complete aggregation window fell wholly inside measurement interval''] else []) @
     map (\<lambda>r. if r = ''premeasurement_virtual_arrivals''
                then ''virtual readings generated before measurement_start arrived in the measurement receive window''
              else if r = ''received_exceeds_scheduled''
                then ''delivery ratio is invalid because unique virtual readings exceed scheduled''
              else if r = ''generated_exceeds_scheduled'' then ''generated readings exceed independent scheduled denominator''
              else ''delivery ratio is undefined because no readings were scheduled'') reasons @
     (if retransmitted then [''collector retransmissions occurred; actual and unique upstream metrics differ''] else []) @
     (if no_metrics then [''no system-metric samples fell inside the measurement interval''] else [])"

definition truthy_field :: "evidence \<Rightarrow> string \<Rightarrow> bool" where
  "truthy_field d k = (case map_of d k of None \<Rightarrow> False | Some j \<Rightarrow> truthy j)"

definition all_statuses :: "sequence_status list" where
  "all_statuses = [FIRST, IN_ORDER, GAP, DUPLICATE, OUT_OF_ORDER, RESET]"

definition sub_object :: "evidence \<Rightarrow> string \<Rightarrow> evidence result" where
  "sub_object d k = (case map_of d k of None \<Rightarrow> Inr [] | Some (JObj e) \<Rightarrow> Inr e | Some _ \<Rightarrow> Inl (TypeError ''no attribute get''))"

definition counter :: "evidence \<Rightarrow> string \<Rightarrow> int \<Rightarrow> int result" where
  "counter d k v = (case map_of d k of None \<Rightarrow> Inr v | Some j \<Rightarrow> py_int_json j)"

definition queue_drops_of :: "evidence \<Rightarrow> int result" where
  "queue_drops_of gateway =
     (case map_of gateway ''upstream'' of None \<Rightarrow> Inr 0
      | Some j \<Rightarrow> if truthy j then rbind (sub_object gateway ''upstream'') (\<lambda>u. counter u ''queue_full_drops'' 0) else Inr 0)"

definition expected_record_type :: "evidence \<Rightarrow> string" where
  "expected_record_type manifest =
     (if map_of manifest ''aggregation_mode'' = Some (JStr ''raw'') then ''raw'' else ''aggregate'')"

definition unexpected_type :: "string \<Rightarrow> evidence \<Rightarrow> bool result" where
  "unexpected_type t w = rbind (record_of w) (\<lambda>r. Inr (\<not> has_type t r))"

definition upstream_wire_bytes :: "evidence list \<Rightarrow> int result" where
  "upstream_wire_bytes ws = rbind (map_result (\<lambda>w. int_field w ''upstream_wire_bytes'') ws) (\<lambda>xs. Inr (sum_list xs))"

definition mode_of :: "evidence \<Rightarrow> string" where
  "mode_of manifest = (case map_of manifest ''aggregation_mode'' of Some (JStr m) \<Rightarrow> m | _ \<Rightarrow> [])"

text \<open>What \<open>analyze_run\<close> computes of the loaded run, with the two lists that it also writes as tables; \<open>analysis_dirty\<close> is the state of the analysis worktree.\<close>

definition analyze :: "readers \<Rightarrow> json_printer \<Rightarrow> bool \<Rightarrow> loaded_run \<Rightarrow> analysis result" where
  "analyze rd dump_json analysis_dirty L =
     rbind (int_field (lr_simulator L) ''measurement_start_ms'') (\<lambda>from_ms.
     rbind (int_field (lr_simulator L) ''measurement_end_ms'') (\<lambda>until_ms.
     if until_ms \<le> from_ms then Inl (AnalysisError ''invalid measurement interval'')
     else rbind (measurement_readings from_ms until_ms (lr_readings L)) (\<lambda>readings.
     rbind (filter_upstream (lr_upstream L) from_ms until_ms) (\<lambda>filtered.
     rbind (filter_result (unexpected_type (expected_record_type (lr_manifest L))) (lr_upstream L)) (\<lambda>unexpected.
     if unexpected \<noteq> [] then Inl (AnalysisError ''manifest mode conflicts with collector record types'')
     else rbind (deduplicate_upstream (rd_str rd) filtered) (\<lambda>(unique, duplicates).
     let stats = virtual_stats (lr_node_stats L);
         scheduled = sum_column ns_scheduled_readings stats;
         generated = sum_column ns_samples_generated stats;
         attempted = sum_column ns_send_attempts stats;
         writes = sum_column ns_successful_writes stats;
         drops = sum_column ns_application_drops stats;
         virtual = filter is_virtual readings;
         fresh = filter (\<lambda>r. \<not> has_status DUPLICATE r) virtual;
         received = int (length fresh)
     in rbind (map_result latency fresh) (\<lambda>all_latencies.
     rbind (baseline_readings readings unique (mode_of (lr_manifest L))) (\<lambda>baseline.
     rbind (map_result (hypothetical_raw_bytes dump_json) baseline) (\<lambda>baseline_sizes.
     rbind (upstream_wire_bytes unique) (\<lambda>bytes_unique.
     rbind (upstream_wire_bytes filtered) (\<lambda>bytes_actual.
     rbind (map_result information_delay unique) (\<lambda>all_delays.
     rbind (queue_drops_of (lr_gateway_summary L)) (\<lambda>queue_drops.
     rbind (map_result (\<lambda>r. int_field r ''timestamp_ms'') virtual) (\<lambda>stamps.
     let latencies = filter (\<lambda>x. 0 \<le> x) all_latencies;
         delays = filter (\<lambda>x. 0 \<le> x) all_delays;
         early = length (filter (\<lambda>t. t < from_ms) stamps);
         reasons = delivery_invalid_reasons early received scheduled generated;
         n_actual = int (length filtered); n_unique = int (length unique); n_base = int (length baseline);
         base_bytes = sum_list baseline_sizes;
         metrics = filter_frame (lr_system_metrics L) from_ms until_ms;
         duration = fl (of_int (until_ms - from_ms) / 1000)
     in rbind (fdiv (fl (of_nat (length readings))) duration) (\<lambda>throughput.
     rbind (fdiv (fl (of_int received)) duration) (\<lambda>virtual_throughput.
     rbind (percentile latencies (fl (95 / 100))) (\<lambda>latency_p95.
     rbind (percentile delays (fl (95 / 100))) (\<lambda>delay_p95.
     rbind (resilience_metrics (rd_str rd) L readings) (\<lambda>res.
       Inr \<lparr>an_duration_seconds = duration, an_scheduled = scheduled, an_generated = generated,
         an_attempted = attempted, an_successful_writes = writes, an_application_drops = drops,
         an_gateway_received = int (length readings), an_virtual_received = int (length virtual), an_virtual_unique = received,
         an_physical_received = int (length (filter (\<lambda>r. map_of r ''node_kind'' = Some (JStr ''physical'')) readings)),
         an_delivery_ratio = (if reasons = [] then Some (safe_ratio received scheduled) else None),
         an_delivery_invalid_reasons = reasons, an_generation_availability = safe_ratio generated scheduled,
         an_send_success_ratio = safe_ratio writes attempted,
         an_throughput = throughput, an_virtual_throughput = virtual_throughput,
         an_sequence_counts = map (\<lambda>st. (st, int (length (filter (has_status st) readings)))) all_statuses,
         an_latency_mean = mean latencies, an_latency_median = median latencies, an_latency_p95 = latency_p95,
         an_process_cpu_mean = frame_mean rd ms_process_cpu_percent metrics,
         an_process_rss_mean = frame_mean rd (\<lambda>m. fl (of_int (ms_process_rss_bytes m))) metrics,
         an_process_rss_max = frame_max ms_process_rss_bytes metrics,
         an_process_vms_mean = frame_mean rd (\<lambda>m. fl (of_int (ms_process_vms_bytes m))) metrics,
         an_messages_actual = n_actual, an_bytes_actual = bytes_actual, an_messages_unique = n_unique,
         an_bytes_unique = bytes_unique, an_duplicates = duplicates, an_baseline_messages = n_base,
         an_baseline_bytes = base_bytes, an_message_reduction_actual = reduction n_actual n_base,
         an_message_reduction_unique = reduction n_unique n_base, an_byte_reduction_actual = reduction bytes_actual base_bytes,
         an_byte_reduction_unique = reduction bytes_unique base_bytes, an_information_delay_mean = mean delays,
         an_information_delay_p95 = delay_p95, an_queue_drops = queue_drops, an_resilience = res,
         an_warnings = analysis_warnings (truthy_field (lr_manifest L) ''git_dirty'') analysis_dirty queue_drops
           (mode_of (lr_manifest L) = ''aggregated'' \<and> unique = []) reasons (bytes_actual \<noteq> bytes_unique) (metrics = []),
         an_measurement_readings = readings, an_unique_upstream = unique\<rparr>)))))))))))))))))))"

section \<open>Admission\<close>

record admission_result =
  am_checks :: "(string \<times> bool) list"
  am_counters :: "(string \<times> int) list"

definition am_failed :: "admission_result \<Rightarrow> string list" where
  "am_failed a = map fst (filter (\<lambda>p. \<not> snd p) (am_checks a))"

definition am_passed :: "admission_result \<Rightarrow> bool" where
  "am_passed a \<longleftrightarrow> am_failed a = []"

definition collector_of :: "evidence \<Rightarrow> evidence result" where
  "collector_of run_summary =
     (case map_of run_summary ''collector'' of None \<Rightarrow> Inr []
      | Some j \<Rightarrow> if truthy j then (case j of JObj d \<Rightarrow> Inr d | _ \<Rightarrow> Inl (TypeError ''no attribute get'')) else Inr [])"

definition invalid_counters :: "evidence \<Rightarrow> evidence \<Rightarrow> evidence \<Rightarrow> (string \<times> int) list result" where
  "invalid_counters protocol collector events =
     rbind (sub_object events ''gateway'') (\<lambda>eg. rbind (sub_object events ''health'') (\<lambda>eh.
       map_result (\<lambda>(name, d, k). rbind (counter d k 0) (\<lambda>v. Inr (name, v)))
         [(''gateway_invalid_messages'', protocol, ''invalid_messages''), (''gateway_malformed_json'', protocol, ''malformed_json''),
          (''gateway_rejected_readings'', protocol, ''rejected_readings''), (''gateway_schema_rejections'', protocol, ''schema_rejections''),
          (''gateway_overlong_messages'', protocol, ''overlong_messages''), (''gateway_truncated_messages'', protocol, ''truncated_messages''),
          (''collector_invalid_messages'', collector, ''invalid_messages''), (''collector_overlong_messages'', collector, ''overlong_messages''),
          (''collector_truncated_messages'', collector, ''truncated_messages''), (''gateway_event_queue_drops'', eg, ''queue_full_drops''),
          (''health_event_queue_drops'', eh, ''queue_full_drops'')]))"

definition scientific_admission :: "bool \<Rightarrow> loaded_run \<Rightarrow> analysis \<Rightarrow> admission_result result" where
  "scientific_admission analysis_dirty L m =
     (let gateway = lr_gateway_summary L
      in rbind (sub_object gateway ''gateway'') (\<lambda>protocol.
         rbind (sub_object gateway ''upstream'') (\<lambda>upstream.
         rbind (sub_object gateway ''storage'') (\<lambda>storage.
         rbind (sub_object gateway ''events'') (\<lambda>events.
         rbind (collector_of (lr_run_summary L)) (\<lambda>collector.
         rbind (invalid_counters protocol collector events) (\<lambda>counters.
         rbind (counter upstream ''queue_full_drops'' 0) (\<lambda>drops.
         rbind (counter upstream ''records_abandoned_on_shutdown'' 0) (\<lambda>abandoned.
         rbind (counter storage ''records_enqueued'' (- 1)) (\<lambda>stored_in.
         rbind (counter storage ''records_written'' (- 2)) (\<lambda>stored_out.
         rbind (counter upstream ''upstream_messages'' (- 1)) (\<lambda>sent.
         rbind (counter collector ''messages_received'' (- 2)) (\<lambda>got.
         rbind (counter upstream ''upstream_bytes'' (- 1)) (\<lambda>sent_bytes.
         rbind (counter collector ''bytes_received'' (- 2)) (\<lambda>got_bytes.
           Inr \<lparr>am_checks =
               [(''run_summary_status_success'', map_of (lr_run_summary L) ''status'' = Some (JStr ''success'')),
                (''run_manifest_clean'', \<not> truthy_field (lr_manifest L) ''git_dirty''),
                (''analysis_worktree_clean'', \<not> analysis_dirty),
                (''component_summaries_present'', gateway \<noteq> [] \<and> collector \<noteq> []),
                (''no_upstream_queue_full_drops'', drops = 0), (''no_records_abandoned_on_shutdown'', abandoned = 0),
                (''no_invalid_evidence_counters'', list_all (\<lambda>p. snd p = 0) counters),
                (''storage_records_complete'', stored_in = stored_out), (''collector_message_parity'', sent = got),
                (''collector_byte_parity'', sent_bytes = got_bytes),
                (''delivery_ratio_valid'', an_delivery_invalid_reasons m = [])],
             am_counters = counters\<rparr>)))))))))))))))"

section \<open>Analysing a run\<close>

text \<open>The texts of the outputs (JSON and pandas tables) are the functions in \<open>printers\<close>; directories are a
  list of paths beside the files.\<close>

record printers =
  pr_metrics :: "analysis \<times> admission_result \<Rightarrow> string"
  pr_table :: "evidence list \<Rightarrow> string"
  pr_comparison :: "(analysis \<times> admission_result) list \<Rightarrow> string"

type_synonym disk = "files \<times> string list"

definition mkdir :: "string \<Rightarrow> disk \<Rightarrow> disk result" where
  "mkdir d w = (if d \<in> set (snd w) then Inl (FileExistsError d) else Inr (fst w, snd w @ [d]))"

definition write_file :: "string \<Rightarrow> string \<Rightarrow> disk \<Rightarrow> disk" where
  "write_file p text w = ((fst w)(p \<mapsto> text), snd w)"

definition analyze_run :: "readers \<Rightarrow> printers \<Rightarrow> json_printer \<Rightarrow> bool \<Rightarrow> string \<Rightarrow> string \<Rightarrow> disk \<Rightarrow>
    ((analysis \<times> admission_result) \<times> string \<times> disk) result" where
  "analyze_run rd pr dump_json analysis_dirty processed_root run_dir w =
     rbind (load_run rd (fst w) run_dir) (\<lambda>L.
     rbind (analyze rd dump_json analysis_dirty L) (\<lambda>m.
     rbind (scientific_admission analysis_dirty L m) (\<lambda>a.
     rbind (field (lr_manifest L) ''run_id'') (\<lambda>rid.
     let out = slash processed_root (rd_str rd rid)
     in rbind (mkdir out w) (\<lambda>w1.
        rbind (write_json_exclusive (slash out ''metrics.json'') (pr_metrics pr (m, a)) (fst w1)) (\<lambda>fs.
          Inr ((m, a), out,
            write_file (slash out ''measurement_upstream_unique.csv'') (pr_table pr (an_unique_upstream m))
              (write_file (slash out ''measurement_readings.csv'') (pr_table pr (an_measurement_readings m)) (fs, snd w1)))))))))"

section \<open>What the measures promise\<close>

lemma safe_ratio_unit:
  assumes "0 \<le> n" "n \<le> d" "d \<noteq> 0"
  shows "\<exists>r. safe_ratio n d = Fin r \<and> 0 \<le> r \<and> r \<le> 1"
proof -
  let ?x = "of_int n / of_int d :: rat"
  have x: "0 \<le> ?x" "?x \<le> 1" using assms by simp_all
  then have "\<bar>?x\<bar> \<le> of_int 1" by simp
  then have "fl ?x = Fin (rnd_double ?x)" by (rule fl_bounded(1)) simp
  moreover have "0 \<le> rnd_double ?x" using x(1) by (rule binary64.rnd_nonneg)
  moreover have "rnd_double ?x \<le> 1" using fl_bounded(2) [OF \<open>\<bar>?x\<bar> \<le> of_int 1\<close>] by simp
  ultimately show ?thesis using assms(3) by (simp add: safe_ratio_def)
qed

lemma filter_disjoint_length:
  "(\<And>x. \<not> (P x \<and> Q x)) \<Longrightarrow> length (filter P xs) + length (filter Q xs) \<le> length xs"
  by (induction xs) (auto simp: Suc_le_eq less_Suc_eq_le)

lemma filter_result_shorter: "filter_result p xs = Inr ys \<Longrightarrow> length ys \<le> length xs"
  by (drule filter_result_Inr) simp

lemma baseline_shorter: "baseline_readings rs us mode = Inr bs \<Longrightarrow> length bs \<le> length rs"
  by (auto simp: baseline_readings_def rbind_eq_Inr_iff dest: filter_result_shorter split: if_splits)

definition fresh_readings :: "evidence list \<Rightarrow> evidence list" where
  "fresh_readings readings = filter (\<lambda>r. \<not> has_status DUPLICATE r) (filter is_virtual readings)"

lemma status_counts_le:
  "sum_list (map (\<lambda>st. int (length (filter (has_status st) rs))) all_statuses) \<le> int (length rs)"
proof (induction rs)
  case (Cons r rs)
  have "sum_list (map (\<lambda>st. if has_status st r then 1 else 0 :: int) all_statuses) \<le> 1"
    by (auto simp: all_statuses_def has_status_def)
  moreover have "sum_list (map (\<lambda>st. int (length (filter (has_status st) (r # rs)))) all_statuses) =
    sum_list (map (\<lambda>st. if has_status st r then 1 else 0) all_statuses) +
    sum_list (map (\<lambda>st. int (length (filter (has_status st) rs))) all_statuses)"
    by (simp flip: sum_list_addf add: if_distrib cong: if_cong) (simp add: all_statuses_def)
  ultimately show ?case using Cons by simp
qed (simp add: all_statuses_def)

lemma guard_Inr: "(if b then Inl e else x) = Inr y \<longleftrightarrow> \<not> b \<and> x = Inr y"
  by simp

text \<open>The intermediate results of a successful analysis.\<close>

lemma analyze_parts:
  assumes "analyze rd dump_json dirty L = Inr m"
  shows "\<exists>from_ms until_ms filtered baseline early. from_ms < until_ms \<and>
    measurement_readings from_ms until_ms (lr_readings L) = Inr (an_measurement_readings m) \<and>
    filter_upstream (lr_upstream L) from_ms until_ms = Inr filtered \<and>
    deduplicate_upstream (rd_str rd) filtered = Inr (an_unique_upstream m, an_duplicates m) \<and>
    baseline_readings (an_measurement_readings m) (an_unique_upstream m) (mode_of (lr_manifest L)) = Inr baseline \<and>
    an_messages_actual m = int (length filtered) \<and> an_messages_unique m = int (length (an_unique_upstream m)) \<and>
    an_baseline_messages m = int (length baseline) \<and>
    an_delivery_invalid_reasons m = delivery_invalid_reasons early (an_virtual_unique m) (an_scheduled m) (an_generated m)"
  using assms
  by (clarsimp simp: analyze_def rbind_eq_Inr_iff Let_def guard_Inr not_le simp del: fdiv.simps)
    (intro exI conjI; (assumption | rule refl))

lemma analyze_counts:
  assumes "analyze rd dump_json dirty L = Inr m"
  shows "an_gateway_received m = int (length (an_measurement_readings m)) \<and>
    an_virtual_received m = int (length (filter is_virtual (an_measurement_readings m))) \<and>
    an_virtual_unique m = int (length (fresh_readings (an_measurement_readings m))) \<and>
    an_physical_received m = int (length (filter (\<lambda>r. map_of r ''node_kind'' = Some (JStr ''physical'')) (an_measurement_readings m))) \<and>
    an_sequence_counts m = map (\<lambda>st. (st, int (length (filter (has_status st) (an_measurement_readings m))))) all_statuses \<and>
    an_delivery_ratio m = (if an_delivery_invalid_reasons m = [] then Some (safe_ratio (an_virtual_unique m) (an_scheduled m)) else None)"
  using assms
  by (clarsimp simp: analyze_def rbind_eq_Inr_iff Let_def guard_Inr fresh_readings_def simp del: fdiv.simps)

text \<open>C31: The analysis of a run is consistent. A delivery ratio is reported exactly when there is no reason
  against it, and then it lies between zero and one over a positive number of scheduled readings; the
  fresh virtual readings are among the virtual ones, virtual and physical readings are disjoint parts of
  the readings received, no sequence status is counted twice, actual messages are the unique ones and
  the retransmissions, and the baseline does not exceed the readings received.\<close>

theorem analysis_is_consistent:
  assumes "analyze rd dump_json dirty L = Inr m"
  shows "(an_delivery_invalid_reasons m = [] \<longrightarrow> (\<exists>r. an_delivery_ratio m = Some (Fin r) \<and> 0 \<le> r \<and> r \<le> 1) \<and>
      0 < an_scheduled m \<and> an_virtual_unique m \<le> an_scheduled m \<and> an_generated m \<le> an_scheduled m) \<and>
    (an_delivery_invalid_reasons m \<noteq> [] \<longrightarrow> an_delivery_ratio m = None) \<and>
    0 \<le> an_virtual_unique m \<and> an_virtual_unique m \<le> an_virtual_received m \<and>
    an_virtual_received m + an_physical_received m \<le> an_gateway_received m \<and>
    sum_list (map snd (an_sequence_counts m)) \<le> an_gateway_received m \<and>
    an_messages_actual m = an_messages_unique m + an_duplicates m \<and> 0 \<le> an_duplicates m \<and>
    an_baseline_messages m \<le> an_gateway_received m"
proof -
  obtain from_ms until_ms filtered baseline early where p:
    "deduplicate_upstream (rd_str rd) filtered = Inr (an_unique_upstream m, an_duplicates m)"
    "baseline_readings (an_measurement_readings m) (an_unique_upstream m) (mode_of (lr_manifest L)) = Inr baseline"
    "an_messages_actual m = int (length filtered)" "an_messages_unique m = int (length (an_unique_upstream m))"
    "an_baseline_messages m = int (length baseline)"
    "an_delivery_invalid_reasons m = delivery_invalid_reasons early (an_virtual_unique m) (an_scheduled m) (an_generated m)"
    using analyze_parts [OF assms] by blast
  note c = analyze_counts [OF assms]
  let ?rs = "an_measurement_readings m"
  have u: "0 \<le> an_virtual_unique m" "an_virtual_unique m \<le> an_virtual_received m"
    using c by (simp_all add: fresh_readings_def length_filter_le del: filter_filter)
  have "length (filter is_virtual ?rs) + length (filter (\<lambda>r. map_of r ''node_kind'' = Some (JStr ''physical'')) ?rs) \<le> length ?rs"
    by (rule filter_disjoint_length) (auto simp: is_virtual_def)
  then have k: "an_virtual_received m + an_physical_received m \<le> an_gateway_received m" using c by linarith
  have s: "sum_list (map snd (an_sequence_counts m)) \<le> an_gateway_received m"
    using c status_counts_le [of ?rs] by (simp add: comp_def)
  have d: "an_messages_actual m = an_messages_unique m + an_duplicates m" "0 \<le> an_duplicates m"
    using dedup_from_spec [OF p(1) [unfolded deduplicate_upstream_def]] p(3,4) by (auto dest: list_emb_length)
  have b: "an_baseline_messages m \<le> an_gateway_received m" using baseline_shorter [OF p(2)] p(5) c by simp
  have v: "0 < an_scheduled m \<and> an_virtual_unique m \<le> an_scheduled m \<and> an_generated m \<le> an_scheduled m"
    if "an_delivery_invalid_reasons m = []"
    using that p(6) u(1) by (auto simp: delivery_invalid_reasons_def split: if_splits)
  then have "\<exists>r. an_delivery_ratio m = Some (Fin r) \<and> 0 \<le> r \<and> r \<le> 1" if "an_delivery_invalid_reasons m = []"
    using that c safe_ratio_unit [OF u(1), of "an_scheduled m"] by auto
  then show ?thesis using v u k s d b c by auto
qed

text \<open>A run with two scheduled readings of one virtual node, one of them received and forwarded twice.\<close>

definition sample_reading_line :: evidence where
  "sample_reading_line = [(''type'', JStr ''reading''), (''version'', JInt 1), (''node_id'', JStr ''virtual-000''), (''node_kind'', JStr ''virtual''),
     (''sequence'', JInt 0), (''timestamp_ms'', JInt 1200), (''temperature_c'', JFloat (Fin 20)), (''humidity_pct'', JFloat (Fin 50)),
     (''pressure_hpa'', JFloat (Fin 1000)), (''gateway_received_at_ms'', JInt 1250), (''gateway_received_monotonic_ns'', JInt 77),
     (''sensor_wire_bytes'', JInt 150), (''sequence_status'', JStr ''FIRST'')]"

definition sample_upstream_line :: "int \<Rightarrow> evidence" where
  "sample_upstream_line t = [(''collector_received_at_ms'', JInt t), (''upstream_wire_bytes'', JInt 300),
     (''record'', JObj [(''type'', JStr ''raw''), (''record_id'', JStr ''raw:virtual-000:0:77''), (''gateway_received_at_ms'', JInt 1250)])]"

definition sample_manifest :: evidence where
  "sample_manifest = [(''manifest_schema_version'', JInt 1), (''run_id'', JStr ''run-1''), (''experiment_type'', JStr ''scaling''),
     (''node_count'', JInt 1), (''aggregation_mode'', JStr ''raw''), (''aggregation_window_seconds'', JFloat (Fin 0)),
     (''drop_probability'', JFloat (Fin 0)), (''artificial_delay_ms'', JFloat (Fin 0)), (''git_dirty'', JBool False)]"

definition sample_run_summary :: evidence where
  "sample_run_summary = [(''run_summary_schema_version'', JInt 1), (''run_id'', JStr ''run-1''), (''status'', JStr ''success''),
     (''children'', JObj [(''collector'', JInt 0), (''gateway'', JInt 0), (''simulator'', JInt 0)]), (''config'', JObj [(''node_count'', JInt 1)])]"

definition sample_loaded :: loaded_run where
  "sample_loaded = \<lparr>lr_manifest = sample_manifest,
     lr_simulator = [(''measurement_start_ms'', JInt 1000), (''measurement_end_ms'', JInt 3000)],
     lr_readings = [sample_reading_line], lr_upstream = [sample_upstream_line 1260, sample_upstream_line 1300],
     lr_node_stats = [\<lparr>ns_node_id = ''virtual-000'', ns_node_kind = ''virtual'', ns_scheduled_readings = 2, ns_samples_generated = 2,
       ns_send_attempts = 2, ns_successful_writes = 1, ns_application_drops = 0\<rparr>],
     lr_system_metrics = [], lr_health_events = [], lr_gateway_summary = [], lr_run_summary = sample_run_summary\<rparr>"

definition sample_texts :: "(string \<times> evidence) list" where
  "sample_texts = [(''M'', sample_manifest), (''S'', lr_simulator sample_loaded), (''R'', sample_run_summary), (''L'', sample_reading_line),
     (''U'', sample_upstream_line 1260), (''V'', sample_upstream_line 1300)]"

definition sample_files :: "(string \<times> string) list" where
  "sample_files = [(''manifest.json'', ''M''), (''simulator_summary.json'', ''S''), (''run_summary.json'', ''R''), (''readings.ndjson'', ''L''),
     (''upstream.ndjson'', ''U'' @ [newline] @ ''V''), (''node_stats.csv'', []), (''system_metrics.csv'', []), (''health_events.csv'', [])]"

definition sample_readers :: readers where
  "sample_readers = \<lparr>rd_loads = (\<lambda>t. map_option JObj (map_of sample_texts t)), rd_node_stats = (\<lambda>_. lr_node_stats sample_loaded),
     rd_metrics = (\<lambda>_. []), rd_health = (\<lambda>_. []), rd_mean = (\<lambda>_. Fin 0), rd_str = plain_text\<rparr>"

lemma sample_loads: "load_run sample_readers (map_of (map (\<lambda>p. (slash ''raw/run-1'' (fst p), snd p)) sample_files)) ''raw/run-1'' = Inr sample_loaded"
  by code_simp

lemma sample_admission: "is_ok (scientific_admission dirty sample_loaded m)"
  by (simp add: scientific_admission_def sample_loaded_def sample_run_summary_def sub_object_def collector_of_def invalid_counters_def
      counter_def Let_def)

lemma sample_raw_bytes: "hypothetical_raw_bytes (\<lambda>_. ''x'') sample_reading_line = Inr 2"
  by code_simp

lemma sample_dedup: "deduplicate_upstream plain_text [sample_upstream_line 1260, sample_upstream_line 1300] = Inr ([sample_upstream_line 1260], 1)"
  by code_simp

lemma sample_analysis: "\<exists>m. analyze sample_readers (\<lambda>_. ''x'') False sample_loaded = Inr m"
proof -
  have p: "percentile [x] (fl (95 / 100)) = Inr (Some (fl (of_int x)))" for x
    using percentile_index_exact [of 1] by (simp add: percentile_def)
  have r: "measurement_readings 1000 3000 [sample_reading_line] = Inr [sample_reading_line]" by code_simp
  have f: "filter_upstream [sample_upstream_line 1260, sample_upstream_line 1300] 1000 3000 =
      Inr [sample_upstream_line 1260, sample_upstream_line 1300]" by code_simp
  have t: "filter_result (unexpected_type ''raw'') [sample_upstream_line 1260, sample_upstream_line 1300] = Inr []" by code_simp
  have v: "is_virtual sample_reading_line" "\<not> has_status DUPLICATE sample_reading_line" "latency sample_reading_line = Inr 50"
    "int_field sample_reading_line ''timestamp_ms'' = Inr 1200" "information_delay (sample_upstream_line 1260) = Inr 10"
    "int_field (sample_upstream_line x) ''upstream_wire_bytes'' = Inr 300" for x
    by (code_simp | simp add: int_field_def field_def sample_upstream_line_def)+
  show ?thesis
    using sample_raw_bytes sample_dedup r f t v p
    by (simp add: analyze_def sample_loaded_def sample_manifest_def sample_readers_def int_field_def field_def expected_record_type_def mode_of_def
        baseline_readings_def upstream_wire_bytes_def queue_drops_of_def resilience_metrics_def optional_int_def plain_int_def Let_def)
qed

theorem analysis_is_consistent_witness:
  "\<exists>m. analyze sample_readers (\<lambda>_. ''x'') False sample_loaded = Inr m \<and> an_virtual_unique m \<le> an_virtual_received m \<and>
     an_virtual_received m + an_physical_received m \<le> an_gateway_received m \<and>
     an_messages_actual m = an_messages_unique m + an_duplicates m \<and> an_baseline_messages m \<le> an_gateway_received m"
proof -
  obtain m where m: "analyze sample_readers (\<lambda>_. ''x'') False sample_loaded = Inr m" using sample_analysis by blast
  then show ?thesis using analysis_is_consistent [OF m] by blast
qed

end
