(* ===== verification/Comparison.thy ===== *)
theory Comparison
  imports Analyze
begin

text \<open>
  Comparisons of runs (\<^verbatim>\<open>_validate_comparison\<close> and \<^verbatim>\<open>analyze_experiment\<close> in \<^verbatim>\<open>src/analysis/analyze.py\<close>):
  which manifests may be compared for a type of experiment, and the analysis of every run of that type
  into fresh outputs. \<open>Figures\<close> models its plots.
\<close>

section \<open>Which runs can be compared\<close>

definition common_dimensions :: "string list" where
  "common_dimensions = [''duration_seconds'', ''warmup_seconds'', ''physical_node_count'', ''expected_interval_seconds'',
     ''suspect_after_intervals'', ''offline_after_intervals'', ''forwarder_queue_size'', ''storage_queue_size'',
     ''event_queue_size'', ''liveness_check_interval_seconds'', ''metrics_interval_seconds'']"

definition comparison_dimensions :: "(string \<times> string list) list" where
  "comparison_dimensions =
     [(''scaling'', [''aggregation_mode'', ''aggregation_window_seconds'', ''impairment_mode'', ''drop_probability'',
        ''artificial_delay_ms'', ''sampling_interval_ms'']),
      (''aggregation'', [''node_count'', ''impairment_mode'', ''drop_probability'', ''artificial_delay_ms'', ''sampling_interval_ms'']),
      (''impairment'', [''node_count'', ''aggregation_mode'', ''aggregation_window_seconds'', ''sampling_interval_ms'']),
      (''failure'', [''node_count'', ''sampling_interval_ms'', ''aggregation_mode'', ''aggregation_window_seconds'', ''impairment_mode'',
        ''drop_probability'', ''artificial_delay_ms'', ''failure_at_seconds'', ''recovery_at_seconds''])]"

text \<open>The set \<open>{manifest.get(dimension) ...}\<close>: values by Python's equality, in the order they come.\<close>

fun hashable :: "json \<Rightarrow> bool" where
  "hashable (JArr _) = False"
| "hashable (JObj _) = False"
| "hashable _ = True"

definition add_value :: "json list \<Rightarrow> json \<Rightarrow> json list" where
  "add_value seen x = (if list_ex (\<lambda>y. py_eq y x) seen then seen else seen @ [x])"

definition get_value :: "evidence \<Rightarrow> string \<Rightarrow> json" where
  "get_value d k = (case map_of d k of None \<Rightarrow> JNull | Some j \<Rightarrow> j)"

definition value_set :: "string \<Rightarrow> evidence list \<Rightarrow> json list result" where
  "value_set k manifests =
     (let vs = map (\<lambda>m. get_value m k) manifests
      in if list_all hashable vs then Inr (foldl add_value [] vs) else Inl (TypeError ''unhashable type''))"

fun check_dimensions :: "string list \<Rightarrow> evidence list \<Rightarrow> unit result" where
  "check_dimensions [] manifests = Inr ()"
| "check_dimensions (k # ks) manifests =
     rbind (value_set k manifests) (\<lambda>vs.
       if 1 < length vs then Inl (AnalysisError (''incompatible runs differ in '' @ k)) else check_dimensions ks manifests)"

definition validate_comparison :: "evidence list \<Rightarrow> string \<Rightarrow> bool \<Rightarrow> unit result" where
  "validate_comparison manifests experiment_type allow_dirty =
     (if list_ex (\<lambda>m. truthy_field m ''git_dirty'') manifests \<and> \<not> allow_dirty
      then Inl (AnalysisError ''dirty Git runs cannot enter a comparison without --allow-dirty'')
      else case map_of comparison_dimensions experiment_type of
        None \<Rightarrow> Inl (AnalysisError (''unsupported experiment type: '' @ experiment_type))
      | Some ds \<Rightarrow> rbind (check_dimensions (common_dimensions @ ds) manifests) (\<lambda>_.
          if experiment_type = ''impairment''
          then rbind (value_set ''drop_probability'' manifests) (\<lambda>drops.
            rbind (value_set ''artificial_delay_ms'' manifests) (\<lambda>delays.
              if 1 < length drops \<and> 1 < length delays
              then Inl (AnalysisError ''impairment comparison varies both drop_probability and artificial_delay_ms'')
              else Inr ()))
          else Inr ()))"

text \<open>\<open>analyze_experiment\<close> up to the plots. \<open>names\<close> are the directories of the raw root that hold a manifest,
  in the order of the glob.\<close>

definition of_type :: "readers \<Rightarrow> files \<Rightarrow> string \<Rightarrow> string \<Rightarrow> string \<Rightarrow> bool result" where
  "of_type rd fs raw_root experiment_type name =
     rbind (read_object rd fs (slash raw_root name) ''manifest.json'') (\<lambda>m.
       Inr (map_of m ''experiment_type'' = Some (JStr experiment_type)))"

fun analyze_runs :: "readers \<Rightarrow> printers \<Rightarrow> json_printer \<Rightarrow> bool \<Rightarrow> string \<Rightarrow> string list \<Rightarrow> disk \<Rightarrow>
    ((analysis \<times> admission_result) list \<times> disk) result" where
  "analyze_runs rd pr dump_json dirty processed_root [] w = Inr ([], w)"
| "analyze_runs rd pr dump_json dirty processed_root (d # ds) w =
     rbind (analyze_run rd pr dump_json dirty processed_root d w) (\<lambda>(ma, _, w1).
       rbind (analyze_runs rd pr dump_json dirty processed_root ds w1) (\<lambda>(rest, w2). Inr (ma # rest, w2)))"

definition analyze_experiment :: "readers \<Rightarrow> printers \<Rightarrow> json_printer \<Rightarrow> bool \<Rightarrow> bool \<Rightarrow> string list \<Rightarrow> string \<Rightarrow>
    string \<Rightarrow> string \<Rightarrow> disk \<Rightarrow> (string \<times> disk) result" where
  "analyze_experiment rd pr dump_json dirty allow_dirty names experiment_type raw_root processed_root w =
     (if dirty \<and> \<not> allow_dirty
      then Inl (AnalysisError ''dirty analysis worktree cannot produce a comparison without --allow-dirty'')
      else rbind (filter_result (of_type rd (fst w) raw_root experiment_type) names) (\<lambda>runs.
        if runs = [] then Inl (AnalysisError (''no '' @ experiment_type @ '' runs found''))
        else rbind (map_result (\<lambda>n. load_run rd (fst w) (slash raw_root n)) runs) (\<lambda>loaded.
          rbind (validate_comparison (map lr_manifest loaded) experiment_type allow_dirty) (\<lambda>_.
          if list_ex (\<lambda>n. slash processed_root n \<in> set (snd w)) runs
          then Inl (AnalysisError ''refusing to reuse possibly stale processed output'')
          else rbind (analyze_runs rd pr dump_json dirty processed_root (map (slash raw_root) runs) w) (\<lambda>(metrics, w1).
            let out = slash processed_root (''comparison-'' @ experiment_type)
            in rbind (mkdir out w1) (\<lambda>w2.
                 Inr (out, write_file (slash out ''comparison.csv'') (pr_comparison pr metrics) w2)))))))"

section \<open>The comparison check as a specification\<close>

text \<open>The runs agree in a dimension when every later value equals the first.\<close>

definition agree :: "evidence list \<Rightarrow> string \<Rightarrow> bool" where
  "agree manifests k \<longleftrightarrow> list_all (\<lambda>m. py_eq (get_value (hd manifests) k) (get_value m k)) (tl manifests)"

definition all_hashable :: "evidence list \<Rightarrow> string \<Rightarrow> bool" where
  "all_hashable manifests k \<longleftrightarrow> list_all (\<lambda>m. hashable (get_value m k)) manifests"

lemma fold_add_value_length: "length seen \<le> length (foldl add_value seen vs)"
proof (induction vs arbitrary: seen)
  case (Cons v vs)
  have "length seen \<le> length (add_value seen v)" by (simp add: add_value_def)
  then show ?case using Cons [of "add_value seen v"] by simp
qed simp

lemma fold_add_value_single: "length (foldl add_value [x] vs) \<le> 1 \<longleftrightarrow> list_all (py_eq x) vs"
proof (induction vs)
  case (Cons v vs)
  show ?case
  proof (cases "py_eq x v")
    case False
    then have "add_value [x] v = [x, v]" by (simp add: add_value_def)
    then show ?thesis using False fold_add_value_length [of "[x, v]" vs] by auto
  next
    case True
    then have "add_value [x] v = [x]" by (simp add: add_value_def)
    then show ?thesis using Cons True by simp
  qed
qed simp

lemma value_set_agree:
  "value_set k ms = (if all_hashable ms k then Inr (foldl add_value [] (map (\<lambda>m. get_value m k) ms)) else Inl (TypeError ''unhashable type''))"
  "Suc 0 < length (foldl add_value [] (map (\<lambda>m. get_value m k) ms)) \<longleftrightarrow> \<not> agree ms k"
proof -
  show "value_set k ms = (if all_hashable ms k then Inr (foldl add_value [] (map (\<lambda>m. get_value m k) ms)) else Inl (TypeError ''unhashable type''))"
    by (simp add: value_set_def all_hashable_def list_all_iff Let_def)
  show "Suc 0 < length (foldl add_value [] (map (\<lambda>m. get_value m k) ms)) \<longleftrightarrow> \<not> agree ms k"
  proof (cases ms)
    case (Cons m ns)
    have "add_value [] (get_value m k) = [get_value m k]" by (simp add: add_value_def)
    then show ?thesis using Cons fold_add_value_single [of "get_value m k" "map (\<lambda>m. get_value m k) ns"]
      by (simp add: agree_def list_all_iff flip: not_le)
  qed (simp add: agree_def)
qed

lemma check_dimensions_iff:
  "check_dimensions ks ms = Inr () \<longleftrightarrow> (\<forall>k \<in> set ks. all_hashable ms k \<and> agree ms k)"
  by (induction ks) (auto simp: value_set_agree)

lemma validate_comparison_iff:
  "validate_comparison ms et allow_dirty = Inr () \<longleftrightarrow>
     (allow_dirty \<or> (\<forall>m \<in> set ms. \<not> truthy_field m ''git_dirty'')) \<and>
     (\<exists>ds. map_of comparison_dimensions et = Some ds \<and> (\<forall>k \<in> set (common_dimensions @ ds). all_hashable ms k \<and> agree ms k)) \<and>
     (et = ''impairment'' \<longrightarrow> all_hashable ms ''drop_probability'' \<and> all_hashable ms ''artificial_delay_ms'' \<and>
        (agree ms ''drop_probability'' \<or> agree ms ''artificial_delay_ms''))"
proof (cases "list_ex (\<lambda>m. truthy_field m ''git_dirty'') ms \<and> \<not> allow_dirty")
  case True
  then show ?thesis by (auto simp: validate_comparison_def list_ex_iff)
next
  case False
  then have clean: "allow_dirty \<or> (\<forall>m \<in> set ms. \<not> truthy_field m ''git_dirty'')" by (auto simp: list_ex_iff)
  show ?thesis
  proof (cases "map_of comparison_dimensions et")
    case (Some ds)
    then show ?thesis
      using False clean check_dimensions_iff [of "common_dimensions @ ds" ms] value_set_agree
      by (auto simp: validate_comparison_def rbind_eq_Inr_iff simp del: set_append check_dimensions.simps)
  qed (use False in \<open>simp add: validate_comparison_def\<close>)
qed

text \<open>C32: A comparison is accepted exactly when no run comes from a dirty worktree (unless that is
  allowed), the type of experiment is known, all runs agree in every dimension that this type holds
  fixed, and an impairment comparison varies at most one of loss and delay.\<close>

theorem comparison_accepted_iff:
  "validate_comparison ms et allow_dirty = Inr () \<longleftrightarrow>
     (allow_dirty \<or> (\<forall>m \<in> set ms. \<not> truthy_field m ''git_dirty'')) \<and>
     (\<exists>ds. map_of comparison_dimensions et = Some ds \<and> (\<forall>k \<in> set (common_dimensions @ ds). all_hashable ms k \<and> agree ms k)) \<and>
     (et = ''impairment'' \<longrightarrow> all_hashable ms ''drop_probability'' \<and> all_hashable ms ''artificial_delay_ms'' \<and>
        (agree ms ''drop_probability'' \<or> agree ms ''artificial_delay_ms''))"
  by (rule validate_comparison_iff)

text \<open>Two manifests of impairment runs that differ in the loss only, by a pair of values that Python calls
  different, and one that differs in an integer and a float it calls equal.\<close>

definition sample_dimensions :: "json \<Rightarrow> json \<Rightarrow> evidence" where
  "sample_dimensions drop_p nodes_n = [(''git_dirty'', JBool False), (''node_count'', nodes_n), (''drop_probability'', drop_p)]"

theorem comparison_accepted_iff_witness:
  "validate_comparison [sample_dimensions (JInt 0) (JInt 5), sample_dimensions (JInt 1) (JFloat (Fin 5))] ''impairment'' False = Inr () \<and>
   agree [sample_dimensions (JInt 0) (JInt 5), sample_dimensions (JInt 1) (JFloat (Fin 5))] ''node_count''"
proof -
  have v: "validate_comparison [sample_dimensions (JInt 0) (JInt 5), sample_dimensions (JInt 1) (JFloat (Fin 5))] ''impairment'' False = Inr ()"
    by code_simp
  have d: "map_of comparison_dimensions ''impairment'' =
      Some [''node_count'', ''aggregation_mode'', ''aggregation_window_seconds'', ''sampling_interval_ms'']"
    by (simp add: comparison_dimensions_def)
  show ?thesis using v comparison_accepted_iff
      [of "[sample_dimensions (JInt 0) (JInt 5), sample_dimensions (JInt 1) (JFloat (Fin 5))]" "''impairment''" False]
    unfolding d by simp
qed

section \<open>The evidence is immutable\<close>

text \<open>Files lie in directories that exist: a path below a directory that does not exist is free.\<close>

definition disk_ok :: "disk \<Rightarrow> bool" where
  "disk_ok w \<longleftrightarrow> (\<forall>d x. CHR ''/'' \<notin> set x \<longrightarrow> d \<notin> set (snd w) \<longrightarrow> fst w (slash d x) = None)"

definition keeps :: "disk \<Rightarrow> disk \<Rightarrow> bool" where
  "keeps w w' \<longleftrightarrow> disk_ok w' \<and> (\<forall>q t. fst w q = Some t \<longrightarrow> fst w' q = Some t) \<and> set (snd w) \<subseteq> set (snd w')"

lemma keeps_trans: "keeps w w1 \<Longrightarrow> keeps w1 w2 \<Longrightarrow> keeps w w2"
  by (auto simp: keeps_def)

lemma slash_unique:
  assumes "slash d x = slash e y" "CHR ''/'' \<notin> set x" "CHR ''/'' \<notin> set y"
  shows "d = e \<and> x = y"
proof -
  have *: "dropWhile (\<lambda>c. c \<noteq> CHR ''/'') (rev (slash a z)) = CHR ''/'' # rev a \<and> takeWhile (\<lambda>c. c \<noteq> CHR ''/'') (rev (slash a z)) = rev z"
    if "CHR ''/'' \<notin> set z" for a z
  proof -
    have "\<forall>c \<in> set (rev z). c \<noteq> CHR ''/''" using that by auto
    then show ?thesis
      using dropWhile_append2 [of "rev z" "\<lambda>c. c \<noteq> CHR ''/''"] takeWhile_append2 [of "rev z" "\<lambda>c. c \<noteq> CHR ''/''"]
      by (simp add: slash_def)
  qed
  have "CHR ''/'' # rev d = CHR ''/'' # rev e" "rev x = rev y"
    using * [OF assms(2), of d] * [OF assms(3), of e] unfolding assms(1) by (metis, metis)
  then show ?thesis by simp
qed

text \<open>Writing below a new directory changes no file that exists.\<close>

definition below :: "string \<Rightarrow> (string \<times> string) list \<Rightarrow> (string \<times> string) list" where
  "below d ns = map (\<lambda>p. (slash d (fst p), snd p)) ns"

lemma fresh_directory_keeps:
  assumes "disk_ok w" "d \<notin> set (snd w)" "list_all (\<lambda>p. CHR ''/'' \<notin> set (fst p)) ns"
  shows "keeps w (fst w ++ map_of (below d ns), snd w @ [d])"
proof -
  have free: "map_of (below d ns) q = None" if "\<And>x. CHR ''/'' \<notin> set x \<Longrightarrow> q \<noteq> slash d x" for q
    using that assms(3) by (fastforce simp: map_of_eq_None_iff below_def list_all_iff)
  have "map_of (below d ns) q = None" if "fst w q = Some t" for q t
    using that assms(1,2) by (intro free) (auto simp: disk_ok_def)
  moreover have "map_of (below d ns) (slash e x) = None" if "e \<noteq> d" "CHR ''/'' \<notin> set x" for e x
    using that by (intro free) (auto dest: slash_unique)
  ultimately show ?thesis using assms(1) by (auto simp: keeps_def disk_ok_def map_add_def)
qed

lemma analyze_run_keeps:
  assumes "analyze_run rd pr dump_json dirty base d w = Inr (r, out, w')" "disk_ok w"
  shows "keeps w w'"
proof -
  let ?ns = "[(''measurement_upstream_unique.csv'', pr_table pr (an_unique_upstream (fst r))),
    (''measurement_readings.csv'', pr_table pr (an_measurement_readings (fst r))), (''metrics.json'', pr_metrics pr r @ [newline])]"
  have new: "out \<notin> set (snd w)" and w': "w' = (fst w ++ map_of (below out ?ns), snd w @ [out])"
    using assms(1)
    by (auto simp: analyze_run_def mkdir_def write_json_exclusive_def create_exclusive_Inr write_file_def rbind_eq_Inr_iff Let_def
        below_def split: if_splits)
  show ?thesis unfolding w' by (rule fresh_directory_keeps [OF assms(2) new]) simp
qed

lemma analyze_runs_keep:
  "analyze_runs rd pr dump_json dirty base ds w = Inr (rs, w') \<Longrightarrow> disk_ok w \<Longrightarrow> keeps w w' \<and> length rs = length ds"
proof (induction ds arbitrary: w rs)
  case Nil
  then show ?case by (simp add: keeps_def)
next
  case (Cons d ds)
  then obtain r out w1 rs' where 1: "analyze_run rd pr dump_json dirty base d w = Inr (r, out, w1)"
    "analyze_runs rd pr dump_json dirty base ds w1 = Inr (rs', w')" "rs = r # rs'"
    by (auto simp: rbind_eq_Inr_iff)
  have k: "keeps w w1" by (rule analyze_run_keeps [OF 1(1) Cons.prems(2)])
  then have "keeps w1 w' \<and> length rs' = length ds" using Cons.IH [OF 1(2)] by (simp add: keeps_def)
  then show ?case using keeps_trans [OF k] 1(3) by simp
qed

text \<open>Analysing an experiment never changes a file that exists: the raw evidence of the runs and the
  outputs of earlier analyses stay as they are, every new file lies below a directory that did not
  exist, and the comparison directory is new.\<close>

theorem analysis_keeps_evidence:
  assumes "analyze_experiment rd pr dump_json dirty allow names et raw base w = Inr (out, w')" "disk_ok w"
  shows "(\<forall>q t. fst w q = Some t \<longrightarrow> fst w' q = Some t) \<and> disk_ok w' \<and> out \<notin> set (snd w) \<and> out \<in> set (snd w')"
proof -
  obtain ds rs w1 where 1: "analyze_runs rd pr dump_json dirty base ds w = Inr (rs, w1)" "out \<notin> set (snd w1)"
    "w' = (fst w1 ++ map_of (below out [(''comparison.csv'', pr_comparison pr rs)]), snd w1 @ [out])"
    using assms(1)
    by (auto simp: analyze_experiment_def mkdir_def write_file_def rbind_eq_Inr_iff Let_def below_def split: if_splits prod.splits)
  have k: "keeps w w1" using analyze_runs_keep [OF 1(1) assms(2)] by simp
  moreover have "keeps w1 w'"
    unfolding 1(3) using k 1(2) by (intro fresh_directory_keeps) (simp_all add: keeps_def)
  ultimately have "keeps w w'" by (rule keeps_trans)
  then show ?thesis using k 1(2,3) by (auto simp: keeps_def)
qed

definition sample_disk :: disk where
  "sample_disk = (map_of (below ''raw/run-1'' sample_files), [''raw/run-1''])"

definition sample_printers :: printers where
  "sample_printers = \<lparr>pr_metrics = (\<lambda>_. ''{}''), pr_table = (\<lambda>_. ''x''), pr_comparison = (\<lambda>_. ''y'')\<rparr>"

lemma sample_disk_ok: "disk_ok sample_disk"
proof -
  have "keeps (\<lambda>_. None, []) sample_disk"
    using fresh_directory_keeps [of "(\<lambda>_. None, [])" "''raw/run-1''" sample_files]
    by (simp add: disk_ok_def sample_disk_def sample_files_def)
  then show ?thesis by (simp add: keeps_def)
qed

lemma sample_experiment:
  "\<exists>w'. analyze_experiment sample_readers sample_printers (\<lambda>_. ''x'') False False [''run-1''] ''scaling'' ''raw'' ''out'' sample_disk =
     Inr (''out/comparison-scaling'', w')"
proof -
  obtain m where m: "analyze sample_readers (\<lambda>_. ''x'') False sample_loaded = Inr m" using sample_analysis by blast
  obtain a where a: "scientific_admission False sample_loaded m = Inr a" using sample_admission by (auto simp: is_ok_iff)
  have d: "slash ''raw'' ''run-1'' = ''raw/run-1''" "slash ''out'' ''run-1'' = ''out/run-1''"
    "slash ''out'' ''comparison-scaling'' = ''out/comparison-scaling''" by (simp_all add: slash_def)
  have l: "load_run sample_readers (fst sample_disk) ''raw/run-1'' = Inr sample_loaded"
    using sample_loads by (simp add: sample_disk_def below_def)
  have t: "of_type sample_readers (fst sample_disk) ''raw'' ''scaling'' ''run-1'' = Inr True" by code_simp
  have v: "validate_comparison [lr_manifest sample_loaded] ''scaling'' False = Inr ()" by code_simp
  have i: "field (lr_manifest sample_loaded) ''run_id'' = Inr (JStr ''run-1'')" "rd_str sample_readers (JStr ''run-1'') = ''run-1''"
    by code_simp+
  have f: "fst sample_disk (slash ''out/run-1'' ''metrics.json'') = None" by code_simp
  show ?thesis
    using m a l t v i f d
    by (simp add: analyze_experiment_def analyze_run_def mkdir_def write_json_exclusive_def create_exclusive_def Let_def sample_disk_def
        write_file_def)
qed

theorem analysis_keeps_evidence_witness:
  "\<exists>w'. analyze_experiment sample_readers sample_printers (\<lambda>_. ''x'') False False [''run-1''] ''scaling'' ''raw'' ''out'' sample_disk =
     Inr (''out/comparison-scaling'', w') \<and> disk_ok sample_disk \<and> disk_ok w' \<and>
     fst w' (slash ''raw/run-1'' ''manifest.json'') = Some ''M'' \<and> ''out/comparison-scaling'' \<in> set (snd w')"
proof -
  obtain w' where w': "analyze_experiment sample_readers sample_printers (\<lambda>_. ''x'') False False [''run-1''] ''scaling'' ''raw'' ''out''
      sample_disk = Inr (''out/comparison-scaling'', w')" using sample_experiment by blast
  have "fst sample_disk (slash ''raw/run-1'' ''manifest.json'') = Some ''M''" by code_simp
  then show ?thesis using w' sample_disk_ok analysis_keeps_evidence [OF w' sample_disk_ok] by blast
qed

section \<open>The runs of the final matrix\<close>

text \<open>A manifest of a run of the campaign: the ports are chosen by the runner, the worktree is clean.\<close>

definition campaign_manifest ::
  "string \<Rightarrow> pyfloat \<Rightarrow> pyfloat \<Rightarrow> int \<Rightarrow> matrix_condition \<Rightarrow> evidence \<Rightarrow> bool" where
  "campaign_manifest cid warmup measurement seed m M \<longleftrightarrow>
     (\<exists>i c g k h run_name. campaign_config cid warmup measurement seed m i = Inr c \<and> \<not> hc_git_dirty h \<and>
        M = build_manifest h (c\<lparr>cf_gateway_port := g, cf_collector_port := k\<rparr>) run_name)"

lemma build_manifest_get: "get_value (build_manifest h c run_name) ''git_dirty'' = JBool (hc_git_dirty h)"
  "k \<in> set (map fst (config_dump c)) \<Longrightarrow> get_value (build_manifest h c run_name) k = get_value (config_dump c) k"
proof -
  show "get_value (build_manifest h c run_name) ''git_dirty'' = JBool (hc_git_dirty h)" by (simp add: get_value_def build_manifest_def)
  assume "k \<in> set (map fst (config_dump c))"
  then obtain v where "map_of (config_dump c) k = Some v" by (metis list.set_map map_of_eq_None_iff not_None_eq)
  then show "get_value (build_manifest h c run_name) k = get_value (config_dump c) k"
    using build_manifest_config [OF map_of_SomeD] by (simp add: get_value_def)
qed

text \<open>The values of a run of the campaign in the dimensions of a comparison.\<close>

definition campaign_values :: "pyfloat \<Rightarrow> pyfloat \<Rightarrow> matrix_condition \<Rightarrow> evidence" where
  "campaign_values warmup measurement m =
     [(''duration_seconds'', JFloat measurement), (''warmup_seconds'', JFloat warmup), (''physical_node_count'', JInt 0),
      (''expected_interval_seconds'', JFloat (Fin 1)), (''suspect_after_intervals'', JFloat (Fin 3)), (''offline_after_intervals'', JFloat (Fin 5)),
      (''forwarder_queue_size'', JInt 10000), (''storage_queue_size'', JInt 10000), (''event_queue_size'', JInt 10000),
      (''liveness_check_interval_seconds'', JFloat (Fin (1 / 2))), (''metrics_interval_seconds'', JFloat (Fin (1 / 2))),
      (''node_count'', JInt (int (mc_node_count m))), (''aggregation_mode'', JStr (aggregation_mode_str (mc_aggregation_mode m))),
      (''aggregation_window_seconds'', JFloat (mc_window m)), (''impairment_mode'', JStr ''none''), (''drop_probability'', JFloat (Fin 0)),
      (''artificial_delay_ms'', JFloat (Fin 0)), (''sampling_interval_ms'', JFloat (Fin 1000)),
      (''failure_at_seconds'', optional JFloat (mc_failure_at m)), (''recovery_at_seconds'', optional JFloat (mc_recovery_at m))]"

lemma campaign_manifest_values:
  assumes "campaign_manifest cid w d seed m M" "k \<in> set (map fst (campaign_values w d m))"
  shows "get_value M k = get_value (campaign_values w d m) k" "\<not> truthy_field M ''git_dirty''"
proof -
  obtain i c g p h run_name where c: "campaign_config cid w d seed m i = Inr c" "\<not> hc_git_dirty h"
    "M = build_manifest h (c\<lparr>cf_gateway_port := g, cf_collector_port := p\<rparr>) run_name"
    using assms(1) by (auto simp: campaign_manifest_def)
  let ?c = "c\<lparr>cf_gateway_port := g, cf_collector_port := p\<rparr>"
  have keys: "list_all (\<lambda>k. k \<in> set (map fst (config_dump ?c))) (map fst (campaign_values w d m))"
    by (simp add: campaign_values_def config_dump_def)
  then have k: "k \<in> set (map fst (config_dump ?c))" using assms(2) by (simp only: list_all_iff)
  have e: "c = (default_config (mc_experiment_type m) (int (mc_node_count m)) (int (mc_node_count m)) d (Fin 1))
       \<lparr>cf_warmup_seconds := w, cf_aggregation_mode := mc_aggregation_mode m,
        cf_aggregation_window_seconds := mc_window m, cf_random_seed := seed + int i, cf_base_seed := seed,
        cf_repetition_index := int i, cf_campaign_id := Some cid, cf_condition_id := Some (mc_condition_id m),
        cf_run_classification := Controlled_final, cf_failure_at_seconds := mc_failure_at m,
        cf_recovery_at_seconds := mc_recovery_at m\<rparr>"
    using c(1) by (simp only: campaign_config_def ExperimentConfig_Inr)
  have "list_all (\<lambda>k. get_value (config_dump ?c) k = get_value (campaign_values w d m) k) (map fst (campaign_values w d m))"
    unfolding e by (simp add: campaign_values_def config_dump_def get_value_def default_config_def)
  then have "get_value (config_dump ?c) k = get_value (campaign_values w d m) k" using assms(2) by (simp only: list_all_iff)
  then show "get_value M k = get_value (campaign_values w d m) k" using build_manifest_get(2) [OF k] c(3) by simp
  show "\<not> truthy_field M ''git_dirty''" using c(2,3) by (simp add: truthy_field_def build_manifest_def)
qed

lemma agreeI:
  assumes "\<And>M. M \<in> set Ms \<Longrightarrow> get_value M k = v" "hashable v" "comparable v"
  shows "all_hashable Ms k \<and> agree Ms k"
proof (cases Ms)
  case (Cons M Ns)
  then show ?thesis using assms py_eq_refl [of v] by (simp add: all_hashable_def agree_def list_all_iff)
qed (simp add: all_hashable_def agree_def)

text \<open>What the conditions of one type have in common: the six conditions of the scaling type come in both
  modes, the others differ at most in the window.\<close>

definition same_group :: "matrix_condition \<Rightarrow> matrix_condition \<Rightarrow> bool" where
  "same_group m n \<longleftrightarrow> mc_node_count m = mc_node_count n \<and> mc_failure_at m = mc_failure_at n \<and> mc_recovery_at m = mc_recovery_at n \<and>
     mc_aggregation_mode m = mc_aggregation_mode n \<and> (mc_experiment_type n = Failure \<longrightarrow> mc_window m = mc_window n)"

definition representative :: "experiment_type \<Rightarrow> matrix_condition" where
  "representative et = (if et = Failure then failure_condition else tradeoff_condition ''tradeoff-n025-agg01'' (Fin 1))"

lemma conditions_grouped:
  assumes "m \<in> set final_conditions" "mc_experiment_type m = et" "et = Aggregation \<or> et = Failure"
  shows "same_group m (representative et)"
proof -
  have "list_all (\<lambda>m. mc_experiment_type m = Scaling \<or> same_group m (representative (mc_experiment_type m))) final_conditions"
    by (simp add: final_conditions_def scaling_pair_def tradeoff_condition_def failure_condition_def representative_def same_group_def Let_def)
  then have "mc_experiment_type m = Scaling \<or> same_group m (representative (mc_experiment_type m))"
    using assms(1) by (simp only: list_all_iff)
  then show ?thesis using assms(2,3) by auto
qed

definition fixed_dimensions :: "experiment_type \<Rightarrow> string list" where
  "fixed_dimensions et = common_dimensions @ the (map_of comparison_dimensions (experiment_type_str et))"

lemma fixed_values:
  assumes "same_group m (representative et)" "et = Aggregation \<or> et = Failure" "w \<noteq> NaN" "d \<noteq> NaN" "k \<in> set (fixed_dimensions et)"
  shows "k \<in> set (map fst (campaign_values w d m)) \<and>
    get_value (campaign_values w d m) k = get_value (campaign_values w d (representative et)) k \<and>
    hashable (get_value (campaign_values w d m) k) \<and> comparable (get_value (campaign_values w d m) k)"
proof -
  have "list_all (\<lambda>k. k \<in> set (map fst (campaign_values w d m)) \<and>
      get_value (campaign_values w d m) k = get_value (campaign_values w d (representative et)) k \<and>
      hashable (get_value (campaign_values w d m) k) \<and> comparable (get_value (campaign_values w d m) k)) (fixed_dimensions et)"
    using assms(2)
  proof
    assume et: "et = Aggregation"
    then have m: "mc_node_count m = 25" using assms(1) by (simp add: same_group_def representative_def tradeoff_condition_def)
    show ?thesis unfolding et using m assms(3,4)
      by (simp add: fixed_dimensions_def common_dimensions_def comparison_dimensions_def campaign_values_def get_value_def
          representative_def tradeoff_condition_def)
  next
    assume et: "et = Failure"
    then have m: "mc_node_count m = 25" "mc_aggregation_mode m = Raw_mode" "mc_window m = Fin 0"
      "mc_failure_at m = Some FAILURE_AT_SECONDS" "mc_recovery_at m = Some RECOVERY_AT_SECONDS"
      using assms(1) by (simp_all add: same_group_def representative_def failure_condition_def)
    show ?thesis unfolding et using m assms(3,4)
      by (simp add: fixed_dimensions_def common_dimensions_def comparison_dimensions_def campaign_values_def get_value_def
          representative_def failure_condition_def optional_def FAILURE_AT_SECONDS_def RECOVERY_AT_SECONDS_def)
  qed
  then show ?thesis using assms(5) unfolding list_all_iff by blast
qed

lemma dimensions_known:
  "map_of comparison_dimensions (experiment_type_str et) = Some (the (map_of comparison_dimensions (experiment_type_str et)))"
  by (cases et) (simp_all add: comparison_dimensions_def)

lemma comparison_spec:
  "validate_comparison ms (experiment_type_str et) allow_dirty = Inr () \<longleftrightarrow>
     (allow_dirty \<or> (\<forall>m \<in> set ms. \<not> truthy_field m ''git_dirty'')) \<and>
     (\<forall>k \<in> set (fixed_dimensions et). all_hashable ms k \<and> agree ms k) \<and>
     (et = Impairment \<longrightarrow> all_hashable ms ''drop_probability'' \<and> all_hashable ms ''artificial_delay_ms'' \<and>
        (agree ms ''drop_probability'' \<or> agree ms ''artificial_delay_ms''))"
proof -
  have i: "experiment_type_str et = ''impairment'' \<longleftrightarrow> et = Impairment" by (cases et) simp_all
  obtain ds where ds: "map_of comparison_dimensions (experiment_type_str et) = Some ds" using dimensions_known by blast
  show ?thesis
    using validate_comparison_iff [of ms "experiment_type_str et" allow_dirty] unfolding i fixed_dimensions_def ds by simp
qed

text \<open>Of the runs of the final matrix, those of the aggregation type and those of the failure type can
  be compared with each other, whatever repetitions, seeds and ports they had; those of the scaling type
  cannot once both modes are among them, so the scaling figures need the campaign's own analysis.\<close>

theorem campaign_comparisons:
  assumes "list_all2 (campaign_manifest cid w d seed) ms Ms" "set ms \<subseteq> set final_conditions" "\<forall>m \<in> set ms. mc_experiment_type m = et"
    "w \<noteq> NaN" "d \<noteq> NaN"
  shows "(et = Aggregation \<or> et = Failure \<longrightarrow> validate_comparison Ms (experiment_type_str et) False = Inr ()) \<and>
    (et = Scaling \<and> (\<exists>m \<in> set ms. mc_aggregation_mode m \<noteq> mc_aggregation_mode (hd ms)) \<longrightarrow>
       validate_comparison Ms (experiment_type_str et) allow \<noteq> Inr ())"
proof (intro conjI impI)
  have M: "\<exists>m \<in> set ms. campaign_manifest cid w d seed m M" if "M \<in> set Ms" for M
    using that assms(1) by (metis in_set_conv_nth list_all2_conv_all_nth)
  assume et: "et = Aggregation \<or> et = Failure"
  have "all_hashable Ms k \<and> agree Ms k" if k: "k \<in> set (fixed_dimensions et)" for k
  proof -
    have v: "get_value N k = get_value (campaign_values w d (representative et)) k" if N: "N \<in> set Ms" for N
    proof -
      obtain m where m: "m \<in> set ms" "campaign_manifest cid w d seed m N" using M [OF N] by blast
      have "same_group m (representative et)" using m(1) assms(2,3) et by (intro conditions_grouped) auto
      then show ?thesis using fixed_values [OF _ et assms(4,5) k, of m] campaign_manifest_values(1) [OF m(2)] by metis
    qed
    have "same_group (representative et) (representative et)" by (simp add: same_group_def)
    then show ?thesis using fixed_values [OF _ et assms(4,5) k] v by (intro agreeI [of Ms k]) blast+
  qed
  moreover have "\<not> truthy_field N ''git_dirty''" if N: "N \<in> set Ms" for N
  proof -
    obtain m where "campaign_manifest cid w d seed m N" using M [OF N] by blast
    then show ?thesis by (rule campaign_manifest_values(2) [where k = "''warmup_seconds''"]) (simp add: campaign_values_def)
  qed
  ultimately show "validate_comparison Ms (experiment_type_str et) False = Inr ()"
    unfolding comparison_spec using et by auto
next
  assume s: "et = Scaling \<and> (\<exists>m \<in> set ms. mc_aggregation_mode m \<noteq> mc_aggregation_mode (hd ms))"
  then obtain m where m: "m \<in> set ms" "mc_aggregation_mode m \<noteq> mc_aggregation_mode (hd ms)" by blast
  have mode: "get_value N ''aggregation_mode'' = JStr (aggregation_mode_str (mc_aggregation_mode x))"
    if "campaign_manifest cid w d seed x N" for x N
    using campaign_manifest_values(1) [OF that, of "''aggregation_mode''"] by (simp add: campaign_values_def get_value_def)
  obtain x xs N Ns where x: "ms = x # xs" "Ms = N # Ns" "campaign_manifest cid w d seed x N" "list_all2 (campaign_manifest cid w d seed) xs Ns"
    using m(1) assms(1) by (cases ms; cases Ms) auto
  then have "m \<in> set xs" using m by auto
  then obtain K where K: "K \<in> set Ns" "campaign_manifest cid w d seed m K"
    using x(4) by (metis in_set_conv_nth list_all2_conv_all_nth)
  have "\<not> agree Ms ''aggregation_mode''"
    using m(2) x(1,2) K(1) mode [OF x(3)] mode [OF K(2)]
    by (cases "mc_aggregation_mode m"; cases "mc_aggregation_mode x") (auto simp: agree_def list_all_iff intro!: bexI [of _ K])
  moreover have "''aggregation_mode'' \<in> set (fixed_dimensions Scaling)"
    by (simp add: fixed_dimensions_def comparison_dimensions_def)
  ultimately show "validate_comparison Ms (experiment_type_str et) allow \<noteq> Inr ()"
    unfolding comparison_spec using s by blast
qed

lemma campaign_manifest_exists:
  assumes "m \<in> set final_conditions" "30 \<le> w" "180 < d"
  shows "\<exists>M. campaign_manifest cid (Fin w) (Fin d) seed m M"
proof -
  obtain c where "campaign_config cid (Fin w) (Fin d) seed m 0 = Inr c"
    using campaign_config_iff(1) [OF assms(1,2), of d cid seed 0] assms(3) by (auto simp: is_ok_iff)
  moreover have "\<not> hc_git_dirty \<lparr>hc_created_at = [], hc_git_commit = [], hc_git_dirty = False, hc_git_status = [],
      hc_python_version = [], hc_host_platform = []\<rparr>" by simp
  ultimately show ?thesis unfolding campaign_manifest_def by blast
qed

theorem campaign_comparisons_witness:
  "\<exists>M N. campaign_manifest ''c'' (Fin 30) (Fin 240) 662 (tradeoff_condition ''tradeoff-n025-agg01'' (Fin 1)) M \<and>
     campaign_manifest ''c'' (Fin 30) (Fin 240) 662 (tradeoff_condition ''tradeoff-n025-agg10'' (Fin 10)) N \<and>
     validate_comparison [M, N] (experiment_type_str Aggregation) False = Inr ()"
proof -
  let ?a = "tradeoff_condition ''tradeoff-n025-agg01'' (Fin 1)" and ?b = "tradeoff_condition ''tradeoff-n025-agg10'' (Fin 10)"
  have s: "?a \<in> set final_conditions" "?b \<in> set final_conditions" by (simp_all add: final_conditions_def)
  obtain M N where M: "campaign_manifest ''c'' (Fin 30) (Fin 240) 662 ?a M" "campaign_manifest ''c'' (Fin 30) (Fin 240) 662 ?b N"
    using campaign_manifest_exists [OF s(1), of 30 240 "''c''" 662] campaign_manifest_exists [OF s(2), of 30 240 "''c''" 662] by auto
  have "\<forall>m \<in> set [?a, ?b]. mc_experiment_type m = Aggregation" by (simp add: tradeoff_condition_def)
  then show ?thesis
    using campaign_comparisons [of "''c''" "Fin 30" "Fin 240" 662 "[?a, ?b]" "[M, N]" Aggregation] M s by auto
qed

end
