(* ===== verification/Campaign_Evidence.thy ===== *)
theory Campaign_Evidence
  imports Comparison "HOL-Library.Char_ord" "HOL-Library.List_Lexorder"
begin

text \<open>
  The evidence of the final campaign as its analysis reads it (first half of
  \<^verbatim>\<open>src/analysis/final_campaign.py\<close>): reading the campaign's JSON files, the checks of its headers, the
  consistency checks of every admitted run, the membership of the runs in the planned matrix, the digest
  over the input files and the integrity totals. JSON parsing, \<open>str\<close>, the typed reading of the pandas
  tables, path resolution and SHA-256 are parameters.
\<close>

section \<open>Reading\<close>

record campaign_reading =
  cr_node_id :: string
  cr_gateway_received_at_ms :: int
  cr_sequence_status :: string

record campaign_readers =
  cg_loads :: "string \<Rightarrow> json option"
  cg_str :: "json \<Rightarrow> string"
  cg_readings :: "string \<Rightarrow> campaign_reading list"
  cg_health :: "string \<Rightarrow> health_event list"
  cg_resolve :: "string \<Rightarrow> string"

abbreviation campaign_error :: "string \<Rightarrow> 'a result" where
  "campaign_error text \<equiv> Inl (FinalCampaignAnalysisError text)"

definition read_campaign_json :: "campaign_readers \<Rightarrow> files \<Rightarrow> string \<Rightarrow> evidence result" where
  "read_campaign_json rd fs p =
     (case Option.bind (fs p) (cg_loads rd) of
        None \<Rightarrow> campaign_error (''cannot read JSON evidence '' @ p)
      | Some (JObj d) \<Rightarrow> Inr d
      | Some _ \<Rightarrow> Inl (TypeError ''not an object''))"

text \<open>Typed access: a string, an object, a list of objects.\<close>

definition str_field :: "evidence \<Rightarrow> string \<Rightarrow> string result" where
  "str_field d k = rbind (field d k) (\<lambda>j. case j of JStr s \<Rightarrow> Inr s | _ \<Rightarrow> Inl (TypeError ''expected str''))"

definition obj_field :: "evidence \<Rightarrow> string \<Rightarrow> evidence result" where
  "obj_field d k = rbind (field d k) (\<lambda>j. case j of JObj e \<Rightarrow> Inr e | _ \<Rightarrow> Inl (TypeError ''not subscriptable''))"

definition objects :: "json list \<Rightarrow> evidence list result" where
  "objects js = map_result (\<lambda>j. case j of JObj e \<Rightarrow> Inr e | _ \<Rightarrow> Inl (TypeError ''not an object'')) js"

definition list_field :: "evidence \<Rightarrow> string \<Rightarrow> json list result" where
  "list_field d k = rbind (field d k) (\<lambda>j. case j of JArr xs \<Rightarrow> Inr xs | _ \<Rightarrow> Inl (TypeError ''not a list''))"

definition same_field :: "evidence \<Rightarrow> evidence \<Rightarrow> string \<Rightarrow> bool" where
  "same_field a b k \<longleftrightarrow> py_eq (get_value a k) (get_value b k)"

section \<open>Headers\<close>

definition EXPECTED_COMMIT :: string where
  "EXPECTED_COMMIT = ''4ef6a919fef08956ff5623f233de17e2e1a9d064''"

definition validate_campaign_headers :: "evidence \<Rightarrow> evidence \<Rightarrow> unit result" where
  "validate_campaign_headers manifest summary =
     (if \<not> same_field manifest summary ''campaign_id'' then campaign_error ''campaign manifest/summary ID mismatch''
      else if get_value summary ''status'' \<noteq> JStr ''success'' then campaign_error ''campaign summary is not successful''
      else if get_value summary ''failed_run_id'' \<noteq> JNull then campaign_error ''campaign summary identifies a failed run''
      else if get_value manifest ''git_commit'' \<noteq> JStr EXPECTED_COMMIT \<or> truthy_field manifest ''git_dirty''
      then campaign_error ''campaign is not the frozen clean commit''
      else rbind (int_field manifest ''unique_executed_runs'') (\<lambda>expected.
        rbind (counter summary ''completed_run_count'' (- 1)) (\<lambda>completed.
        if completed \<noteq> expected then campaign_error ''campaign completed-run count mismatch''
        else rbind (if map_of summary ''admissions'' = None then Inr [] else list_field summary ''admissions'') (\<lambda>as.
          if int (length as) \<noteq> expected then campaign_error ''campaign admission count mismatch'' else Inr ()))))"

section \<open>One admitted run\<close>

record campaign_run =
  cp_condition_id :: string
  cp_repetition_index :: int
  cp_random_seed :: int
  cp_run_id :: string
  cp_run_dir :: string
  cp_processed_dir :: string
  cp_manifest :: evidence
  cp_run_summary :: evidence
  cp_metrics :: evidence
  cp_readings :: "campaign_reading list"
  cp_health_events :: "health_event list"

definition is_relative_to :: "string \<Rightarrow> string \<Rightarrow> bool" where
  "is_relative_to p base \<longleftrightarrow> p = base \<or> prefix (base @ ''/'') p"

text \<open>\<open>csv.DictReader\<close>: the rows below the header, as dictionaries.\<close>

definition dict_rows :: "string \<Rightarrow> string list \<times> (string \<times> string) list list" where
  "dict_rows text = (case csv_read StartRecord [] [] text of [] \<Rightarrow> ([], []) | header # rows \<Rightarrow> (header, map (zip header) rows))"

definition csv_int :: "string list \<Rightarrow> string \<Rightarrow> (string \<times> string) list \<Rightarrow> int result" where
  "csv_int header k row =
     (case map_of row k of
        Some s \<Rightarrow> py_int_json (JStr s)
      | None \<Rightarrow> if k \<in> set header then Inl (TypeError ''int() argument'') else Inl (KeyError k))"

definition open_text :: "files \<Rightarrow> string \<Rightarrow> string result" where
  "open_text fs p = (case fs p of None \<Rightarrow> Inl (FileNotFoundError p) | Some t \<Rightarrow> Inr t)"

text \<open>The counters of the processed outputs against the tables they were written with.\<close>

definition check_counts :: "campaign_readers \<Rightarrow> files \<Rightarrow> string \<Rightarrow> evidence \<Rightarrow> campaign_reading list result" where
  "check_counts rd fs dir metrics =
     rbind (open_text fs (slash dir ''measurement_readings.csv'')) (\<lambda>t.
     let readings = cg_readings rd t
     in rbind (int_field metrics ''virtual_unique_received_readings'') (\<lambda>expected.
     if int (length readings) \<noteq> expected then campaign_error ''measurement reading count mismatch''
     else rbind (open_text fs (slash dir ''measurement_upstream_unique.csv'')) (\<lambda>u.
     let (header, rows) = dict_rows u
     in rbind (map_result (csv_int header ''upstream_wire_bytes'') rows) (\<lambda>sizes.
     rbind (int_field metrics ''collector_messages_unique'') (\<lambda>messages.
     if int (length rows) \<noteq> messages then campaign_error ''unique collector message mismatch''
     else rbind (int_field metrics ''collector_bytes_unique'') (\<lambda>bytes_n.
     if sum_list sizes \<noteq> bytes_n then campaign_error ''unique collector byte mismatch''
     else rbind (int_field metrics ''collector_messages_actual'') (\<lambda>actual.
     if actual < int (length rows) then campaign_error ''actual messages below unique messages''
     else rbind (int_field metrics ''collector_bytes_actual'') (\<lambda>actual_bytes.
     if actual_bytes < sum_list sizes then campaign_error ''actual bytes below unique bytes''
     else Inr readings))))))))"

text \<open>The identity, provenance and admission of a run.\<close>

definition check_identity ::
  "campaign_readers \<Rightarrow> evidence \<Rightarrow> evidence \<Rightarrow> evidence \<Rightarrow> evidence \<Rightarrow> evidence \<Rightarrow> string result" where
  "check_identity rd admission manifest run_summary metrics frozen =
     rbind (field admission ''run_id'') (\<lambda>aid.
     let ids = [cg_str rd aid, cg_str rd (get_value manifest ''run_id''), cg_str rd (get_value run_summary ''run_id''),
                cg_str rd (get_value metrics ''run_id'')]
     in if length (remdups ids) \<noteq> 1 then campaign_error ''run identifier mismatch''
     else if \<not> same_field manifest frozen ''git_commit'' then campaign_error ''commit mismatch''
     else if truthy_field manifest ''git_dirty'' \<or> truthy_field metrics ''analysis_git_dirty'' then campaign_error ''dirty evidence or analysis''
     else if get_value run_summary ''status'' \<noteq> JStr ''success'' then campaign_error ''unsuccessful run summary''
     else rbind (sub_object admission ''admission'') (\<lambda>ca.
     if \<not> truthy_field ca ''passed'' then campaign_error ''failed campaign admission''
     else rbind (sub_object metrics ''scientific_admission'') (\<lambda>sa.
     if \<not> truthy_field sa ''passed'' then campaign_error ''failed metrics admission''
     else Inr (hd ids))))"

definition load_campaign_run ::
  "campaign_readers \<Rightarrow> files \<Rightarrow> string \<Rightarrow> evidence \<Rightarrow> evidence \<Rightarrow> campaign_run result" where
  "load_campaign_run rd fs raw_campaign frozen admission =
     rbind (str_field admission ''run_directory'') (\<lambda>d.
     rbind (str_field admission ''processed_directory'') (\<lambda>q.
     let run_dir = cg_resolve rd d; processed_dir = cg_resolve rd q
     in if \<not> is_relative_to run_dir raw_campaign then campaign_error (''run outside campaign root: '' @ run_dir)
     else rbind (read_campaign_json rd fs (slash run_dir ''manifest.json'')) (\<lambda>manifest.
     rbind (read_campaign_json rd fs (slash run_dir ''run_summary.json'')) (\<lambda>run_summary.
     rbind (read_campaign_json rd fs (slash processed_dir ''metrics.json'')) (\<lambda>metrics.
     rbind (check_identity rd admission manifest run_summary metrics frozen) (\<lambda>run_id.
     rbind (check_counts rd fs processed_dir metrics) (\<lambda>readings.
     rbind (field admission ''condition_id'') (\<lambda>cid.
     rbind (int_field admission ''repetition_index'') (\<lambda>rep.
     rbind (int_field admission ''random_seed'') (\<lambda>seed.
       Inr \<lparr>cp_condition_id = cg_str rd cid, cp_repetition_index = rep, cp_random_seed = seed, cp_run_id = run_id,
         cp_run_dir = run_dir, cp_processed_dir = processed_dir, cp_manifest = manifest, cp_run_summary = run_summary,
         cp_metrics = metrics, cp_readings = readings,
         cp_health_events = (case fs (slash run_dir ''health_events.csv'') of None \<Rightarrow> [] | Some t \<Rightarrow> cg_health rd t)\<rparr>))))))))))"

section \<open>Membership in the matrix\<close>

definition condition_ids :: "evidence \<Rightarrow> json list result" where
  "condition_ids frozen =
     rbind (list_field frozen ''conditions'') (\<lambda>js. rbind (objects js) (\<lambda>cs. map_result (\<lambda>c. field c ''condition_id'') cs))"

definition selected_runs :: "campaign_run list \<Rightarrow> json \<Rightarrow> campaign_run list" where
  "selected_runs runs cid = filter (\<lambda>r. JStr (cp_condition_id r) = cid) runs"

definition same_seeds :: "campaign_run list \<Rightarrow> json list \<Rightarrow> bool" where
  "same_seeds runs seeds \<longleftrightarrow> list_all (\<lambda>r. list_ex (py_eq (JInt (cp_random_seed r))) seeds) runs \<and>
     list_all (\<lambda>s. list_ex (\<lambda>r. py_eq (JInt (cp_random_seed r)) s) runs) seeds"

fun check_conditions :: "campaign_run list \<Rightarrow> json list \<Rightarrow> int \<Rightarrow> json list \<Rightarrow> unit result" where
  "check_conditions runs seeds repetitions [] = Inr ()"
| "check_conditions runs seeds repetitions (cid # cids) =
     (let selected = selected_runs runs cid
      in if int (length selected) \<noteq> repetitions then campaign_error ''repetition count mismatch''
         else if \<not> same_seeds selected seeds then campaign_error ''seed mismatch''
         else check_conditions runs seeds repetitions cids)"

definition validate_campaign_membership :: "campaign_run list \<Rightarrow> evidence \<Rightarrow> unit result" where
  "validate_campaign_membership runs frozen =
     rbind (condition_ids frozen) (\<lambda>ids.
     if \<not> list_all hashable ids then Inl (TypeError ''unhashable type'')
     else if set (map (\<lambda>r. JStr (cp_condition_id r)) runs) \<noteq> set ids then campaign_error ''campaign condition membership mismatch''
     else rbind (list_field frozen ''repetition_seeds'') (\<lambda>seeds.
       if \<not> list_all hashable seeds then Inl (TypeError ''unhashable type'')
       else rbind (int_field frozen ''repetitions_per_condition'') (\<lambda>repetitions.
         check_conditions runs seeds repetitions (remdups ids))))"

section \<open>Integrity totals\<close>

definition total :: "string \<Rightarrow> evidence list \<Rightarrow> int result" where
  "total k metrics = rbind (map_result (\<lambda>m. int_field m k) metrics) (\<lambda>xs. Inr (sum_list xs))"

definition admission_of :: "evidence \<Rightarrow> evidence result" where
  "admission_of m = obj_field m ''scientific_admission''"

definition counter_total :: "evidence \<Rightarrow> int result" where
  "counter_total m = rbind (admission_of m) (\<lambda>a. rbind (obj_field a ''invalid_evidence_counters'') (\<lambda>d.
     rbind (map_result plain_int (map snd d)) (\<lambda>xs. Inr (sum_list xs))))"

definition abandoned_of :: "campaign_run \<Rightarrow> int result" where
  "abandoned_of r = rbind (obj_field (cp_run_summary r) ''gateway'') (\<lambda>g. rbind (obj_field g ''upstream'') (\<lambda>u.
     int_field u ''records_abandoned_on_shutdown''))"

definition failed_checks_of :: "campaign_run \<Rightarrow> (string \<times> json) result" where
  "failed_checks_of r = rbind (admission_of (cp_metrics r)) (\<lambda>a. rbind (field a ''failed_checks'') (\<lambda>j. Inr (cp_run_id r, j)))"

definition check_of :: "string \<Rightarrow> evidence \<Rightarrow> bool result" where
  "check_of k m = rbind (admission_of m) (\<lambda>a. rbind (obj_field a ''checks'') (\<lambda>c. rbind (field c k) (\<lambda>j. Inr (truthy j))))"

fun all_result :: "('a \<Rightarrow> bool result) \<Rightarrow> 'a list \<Rightarrow> bool result" where
  "all_result p [] = Inr True"
| "all_result p (x # xs) = rbind (p x) (\<lambda>b. if b then all_result p xs else Inr False)"

definition equal_fields :: "string \<Rightarrow> string \<Rightarrow> evidence \<Rightarrow> bool result" where
  "equal_fields j k m = rbind (int_field m j) (\<lambda>a. rbind (int_field m k) (\<lambda>b. Inr (a = b)))"

record campaign_totals =
  ct_run_count :: int
  ct_admitted_run_count :: int
  ct_scheduled :: int
  ct_generated :: int
  ct_received :: int
  ct_messages_actual :: int
  ct_messages_unique :: int
  ct_bytes_actual :: int
  ct_bytes_unique :: int
  ct_duplicate_ids :: int
  ct_application_drops :: int
  ct_queue_full_drops :: int
  ct_abandoned :: int
  ct_invalid_counters :: int
  ct_failed_checks :: "(string \<times> json) list"
  ct_warning_count :: int
  ct_message_parity :: bool
  ct_byte_parity :: bool
  ct_equal_messages :: bool
  ct_equal_bytes :: bool

definition campaign_integrity :: "campaign_run list \<Rightarrow> campaign_totals result" where
  "campaign_integrity runs =
     (let metrics = map cp_metrics runs
      in rbind (map_result counter_total metrics) (\<lambda>invalid.
      rbind (map_result abandoned_of runs) (\<lambda>abandoned_n.
      rbind (map_result failed_checks_of runs) (\<lambda>failed.
      rbind (map_result (\<lambda>m. rbind (admission_of m) (\<lambda>a. rbind (field a ''passed'') (\<lambda>j. Inr (truthy j)))) metrics) (\<lambda>passed.
      rbind (total ''scheduled_readings'' metrics) (\<lambda>scheduled.
      rbind (total ''generated_readings'' metrics) (\<lambda>generated.
      rbind (total ''virtual_unique_received_readings'' metrics) (\<lambda>received.
      rbind (total ''collector_messages_actual'' metrics) (\<lambda>messages_actual.
      rbind (total ''collector_messages_unique'' metrics) (\<lambda>messages_unique.
      rbind (total ''collector_bytes_actual'' metrics) (\<lambda>bytes_actual.
      rbind (total ''collector_bytes_unique'' metrics) (\<lambda>bytes_unique.
      rbind (total ''collector_duplicate_record_ids'' metrics) (\<lambda>duplicate_ids.
      rbind (total ''application_drops'' metrics) (\<lambda>drops.
      rbind (total ''upstream_queue_full_drops'' metrics) (\<lambda>queue_drops.
      rbind (map_result (\<lambda>m. list_field m ''warnings'') metrics) (\<lambda>warnings.
      rbind (all_result (check_of ''collector_message_parity'') metrics) (\<lambda>message_parity.
      rbind (all_result (check_of ''collector_byte_parity'') metrics) (\<lambda>byte_parity.
      rbind (all_result (equal_fields ''collector_messages_actual'' ''collector_messages_unique'') metrics) (\<lambda>equal_messages.
      rbind (all_result (equal_fields ''collector_bytes_actual'' ''collector_bytes_unique'') metrics) (\<lambda>equal_bytes.
        Inr \<lparr>ct_run_count = int (length runs), ct_admitted_run_count = int (length (filter id passed)), ct_scheduled = scheduled,
          ct_generated = generated, ct_received = received, ct_messages_actual = messages_actual, ct_messages_unique = messages_unique,
          ct_bytes_actual = bytes_actual, ct_bytes_unique = bytes_unique, ct_duplicate_ids = duplicate_ids,
          ct_application_drops = drops, ct_queue_full_drops = queue_drops, ct_abandoned = sum_list abandoned_n,
          ct_invalid_counters = sum_list invalid, ct_failed_checks = filter (\<lambda>p. truthy (snd p)) failed,
          ct_warning_count = int (sum_list (map length warnings)), ct_message_parity = message_parity, ct_byte_parity = byte_parity,
          ct_equal_messages = equal_messages, ct_equal_bytes = equal_bytes\<rparr>))))))))))))))))))))"

section \<open>The digest of the inputs\<close>

text \<open>Paths are sorted by their components; \<open>sha\<close> is the hexadecimal SHA-256 of a text.\<close>

fun path_parts :: "string \<Rightarrow> string \<Rightarrow> string list" where
  "path_parts cur [] = [cur]"
| "path_parts cur (c # cs) = (if c = CHR ''/'' then cur # path_parts [] cs else path_parts (cur @ [c]) cs)"

definition relative_name :: "string \<Rightarrow> string \<Rightarrow> string" where
  "relative_name base p = (if prefix (base @ ''/'') p then drop (length base + 1) p else p)"

definition digest_entry :: "(string \<Rightarrow> string) \<Rightarrow> string \<Rightarrow> string \<times> string \<Rightarrow> string" where
  "digest_entry sha base e = relative_name base (fst e) @ CHR 0x00 # sha (snd e) @ [newline]"

record tree_digest_result =
  td_file_count :: nat
  td_total_bytes :: nat
  td_tree_sha256 :: string

definition tree_digest :: "(string \<Rightarrow> string) \<Rightarrow> files \<Rightarrow> string list \<Rightarrow> string \<Rightarrow> tree_digest_result result" where
  "tree_digest sha fs paths base =
     (let ps = sort_key (path_parts []) paths
      in rbind (map_result (\<lambda>p. case fs p of None \<Rightarrow> campaign_error (''missing source input: '' @ p) | Some t \<Rightarrow> Inr (p, t)) ps) (\<lambda>es.
        Inr \<lparr>td_file_count = length paths, td_total_bytes = sum_list (map (\<lambda>e. length (snd e)) es),
          td_tree_sha256 = sha (concat (map (digest_entry sha base) es))\<rparr>))"

section \<open>Membership is the planned matrix\<close>

definition run_key :: "campaign_run \<Rightarrow> string \<times> int" where
  "run_key r = (cp_condition_id r, cp_random_seed r)"

lemma same_seeds_ints: "same_seeds runs (map JInt ss) \<longleftrightarrow> cp_random_seed ` set runs = set ss"
  by (auto simp: same_seeds_def list_all_iff list_ex_iff) (metis imageE)

lemma check_conditions_iff:
  "check_conditions runs seeds n cids = Inr () \<longleftrightarrow>
     (\<forall>c \<in> set cids. int (length (selected_runs runs c)) = n \<and> same_seeds (selected_runs runs c) seeds)"
  by (induction cids) (auto simp: Let_def)

lemma distinct_keys:
  assumes "\<And>c. distinct (map cp_random_seed (selected_runs runs (JStr c)))"
  shows "distinct (map run_key runs)"
  using assms
proof (induction runs)
  case (Cons r runs)
  have "distinct (map cp_random_seed (selected_runs runs (JStr c)))" for c
    using Cons.prems [of c] by (auto simp: selected_runs_def split: if_splits)
  moreover have "run_key r \<notin> run_key ` set runs"
    using Cons.prems [of "cp_condition_id r"] by (auto simp: selected_runs_def run_key_def)
  ultimately show ?case using Cons.IH by simp
qed simp

lemma selected_keys: "map cp_random_seed (selected_runs runs (JStr c)) = map snd (filter (\<lambda>k. fst k = c) (map run_key runs))"
  by (induction runs) (auto simp: selected_runs_def run_key_def)

lemma product_row: "mset (map snd (filter (\<lambda>k. fst k = c) (List.product cs ss))) = (if c \<in> set cs then mset ss else {#})"
  if "distinct cs"
  using that by (induction cs) (auto simp: filter_map comp_def)

lemma keys_from_rows:
  assumes "set (map cp_condition_id runs) = set cs" "distinct ss"
    "\<And>c. c \<in> set cs \<Longrightarrow> length (selected_runs runs (JStr c)) = length ss \<and> cp_random_seed ` set (selected_runs runs (JStr c)) = set ss"
    "distinct cs"
  shows "mset (map run_key runs) = mset (List.product cs ss)"
proof -
  have row: "distinct (map cp_random_seed (selected_runs runs (JStr c)))" for c
  proof (cases "c \<in> set cs")
    case True
    then have "card (set (map cp_random_seed (selected_runs runs (JStr c)))) = length (map cp_random_seed (selected_runs runs (JStr c)))"
      using assms(3) [OF True] distinct_card [OF assms(2)] by simp
    then show ?thesis by (rule card_distinct)
  next
    case False
    then have "selected_runs runs (JStr c) = []" using assms(1) by (auto simp: selected_runs_def filter_empty_conv)
    then show ?thesis by simp
  qed
  have "(c, x) \<in> set (map run_key runs) \<longleftrightarrow> c \<in> set cs \<and> x \<in> set ss" for c x
  proof -
    have "(c, x) \<in> set (map run_key runs) \<longleftrightarrow> x \<in> cp_random_seed ` set (selected_runs runs (JStr c))"
      by (auto simp: run_key_def selected_runs_def)
    moreover have "cp_random_seed ` set (selected_runs runs (JStr c)) = (if c \<in> set cs then set ss else {})"
    proof (cases "c \<in> set cs")
      case False
      then have "selected_runs runs (JStr c) = []" using assms(1) by (auto simp: selected_runs_def filter_empty_conv)
      then show ?thesis using False by simp
    qed (use assms(3) in simp)
    ultimately show ?thesis by simp
  qed
  then have "set (map run_key runs) = set (List.product cs ss)" by auto
  then show ?thesis
    using distinct_keys [OF row] assms(2,4) by (metis distinct_product set_eq_iff_mset_eq_distinct)
qed

text \<open>C33: The runs of a campaign are accepted as its members exactly when they are the planned matrix: every
  condition with every seed, once. (The manifest names its conditions and seeds without repetition, and as
  many repetitions as seeds.)\<close>

theorem membership_iff_matrix:
  assumes "condition_ids frozen = Inr (map JStr cs)" "list_field frozen ''repetition_seeds'' = Inr (map JInt ss)"
    "int_field frozen ''repetitions_per_condition'' = Inr (int (length ss))" "distinct cs" "distinct ss" "ss \<noteq> []"
  shows "validate_campaign_membership runs frozen = Inr () \<longleftrightarrow> mset (map run_key runs) = mset (List.product cs ss)"
proof -
  have h: "list_all hashable (map JStr cs)" "list_all hashable (map JInt ss)" by (simp_all add: list_all_iff)
  have r: "remdups (map JStr cs) = map JStr cs" using assms(4) by (simp add: distinct_map inj_on_def)
  have ids: "set (map (\<lambda>r. JStr (cp_condition_id r)) runs) = set (map JStr cs) \<longleftrightarrow> set (map cp_condition_id runs) = set cs"
    by (simp flip: image_image add: inj_image_eq_iff inj_def)
  have v: "validate_campaign_membership runs frozen = Inr () \<longleftrightarrow> set (map cp_condition_id runs) = set cs \<and>
      (\<forall>c \<in> set cs. length (selected_runs runs (JStr c)) = length ss \<and> cp_random_seed ` set (selected_runs runs (JStr c)) = set ss)"
    using assms(1-3) h r ids
    by (simp add: validate_campaign_membership_def check_conditions_iff same_seeds_ints del: set_map) (simp add: ball_simps)
  show ?thesis
  proof
    assume "validate_campaign_membership runs frozen = Inr ()"
    then show "mset (map run_key runs) = mset (List.product cs ss)"
      unfolding v using assms(4,5) by (intro keys_from_rows) auto
  next
    assume m: "mset (map run_key runs) = mset (List.product cs ss)"
    then have "set (map run_key runs) = set (List.product cs ss)" by (rule mset_eq_setD)
    then have "fst ` set (map run_key runs) = set cs" using assms(6) by (auto simp: fst_image_times)
    then have c: "set (map cp_condition_id runs) = set cs" by (simp add: image_image run_key_def)
    have "mset (map cp_random_seed (selected_runs runs (JStr x))) = mset ss" if "x \<in> set cs" for x
    proof -
      have "mset (map cp_random_seed (selected_runs runs (JStr x))) = image_mset snd (filter_mset (\<lambda>k. fst k = x) (mset (map run_key runs)))"
        unfolding selected_keys by (simp only: mset_map mset_filter)
      then show ?thesis using product_row [OF assms(4), of x ss] that unfolding m by simp
    qed
    then have "length (selected_runs runs (JStr x)) = length ss \<and> cp_random_seed ` set (selected_runs runs (JStr x)) = set ss"
      if "x \<in> set cs" for x
      using that by (metis length_map mset_eq_length mset_eq_setD set_map)
    then show "validate_campaign_membership runs frozen = Inr ()" unfolding v using c by blast
  qed
qed

text \<open>Two conditions with two seeds each, in another order than the plan.\<close>

definition sample_member :: "string \<Rightarrow> int \<Rightarrow> campaign_run" where
  "sample_member c x = \<lparr>cp_condition_id = c, cp_repetition_index = 0, cp_random_seed = x, cp_run_id = c, cp_run_dir = c, cp_processed_dir = c,
     cp_manifest = [], cp_run_summary = [], cp_metrics = [], cp_readings = [], cp_health_events = []\<rparr>"

definition sample_frozen :: evidence where
  "sample_frozen = [(''conditions'', JArr [JObj [(''condition_id'', JStr ''a'')], JObj [(''condition_id'', JStr ''b'')]]),
     (''repetition_seeds'', JArr [JInt 662, JInt 663]), (''repetitions_per_condition'', JInt 2)]"

theorem membership_iff_matrix_witness:
  "validate_campaign_membership [sample_member ''b'' 663, sample_member ''a'' 662, sample_member ''b'' 662, sample_member ''a'' 663] sample_frozen = Inr ()"
proof -
  have "condition_ids sample_frozen = Inr (map JStr [''a'', ''b''])" by code_simp
  moreover have "list_field sample_frozen ''repetition_seeds'' = Inr (map JInt [662, 663])" by code_simp
  moreover have "int_field sample_frozen ''repetitions_per_condition'' = Inr (int (length [662 :: int, 663]))" by code_simp
  ultimately show ?thesis
    using membership_iff_matrix [of sample_frozen "[''a'', ''b'']" "[662, 663]"
        "[sample_member ''b'' 663, sample_member ''a'' 662, sample_member ''b'' 662, sample_member ''a'' 663]"]
    by (simp add: run_key_def sample_member_def)
qed

section \<open>The digest detects changes\<close>

lemma newline_split: "newline \<notin> set a \<Longrightarrow> newline \<notin> set b \<Longrightarrow> a @ newline # x = b @ newline # y \<Longrightarrow> a = b \<and> x = y"
proof (induction a arbitrary: b)
  case Nil
  then show ?case by (cases b) auto
next
  case (Cons c a)
  then show ?case by (cases b) auto
qed

lemma digest_entries_inject:
  assumes "map fst es = map fst es'" "\<And>t. newline \<notin> set (sha t)"
    "concat (map (digest_entry sha base) es) = concat (map (digest_entry sha base) es')"
  shows "map (\<lambda>e. sha (snd e)) es = map (\<lambda>e. sha (snd e)) es'"
  using assms(1,3)
proof (induction es arbitrary: es')
  case (Cons e es)
  then obtain f fs where es': "es' = f # fs" "fst f = fst e" "map fst es = map fst fs" by (cases es') auto
  then have "sha (snd e) @ newline # concat (map (digest_entry sha base) es) = sha (snd f) @ newline # concat (map (digest_entry sha base) fs)"
    using Cons.prems(2) by (simp add: digest_entry_def [of sha base e] digest_entry_def [of sha base f])
  then show ?case using newline_split [OF assms(2) assms(2)] Cons.IH [OF es'(3)] es'(1) by auto
qed simp

lemma tree_digest_Inr:
  assumes "tree_digest sha fs paths base = Inr d"
  shows "\<exists>es. map fst es = sort_key (path_parts []) paths \<and> (\<forall>e \<in> set es. fs (fst e) = Some (snd e)) \<and>
    td_tree_sha256 d = sha (concat (map (digest_entry sha base) es))"
proof -
  have r: "map_result (\<lambda>p. case fs p of None \<Rightarrow> campaign_error (m p) | Some t \<Rightarrow> Inr (p, t)) ps = Inr es \<Longrightarrow>
      map fst es = ps \<and> (\<forall>e \<in> set es. fs (fst e) = Some (snd e))" for ps es m
    by (induction ps arbitrary: es) (force simp: rbind_eq_Inr_iff split: option.splits)+
  obtain es where es: "map_result (\<lambda>p. case fs p of None \<Rightarrow> campaign_error (''missing source input: '' @ p) | Some t \<Rightarrow> Inr (p, t))
      (sort_key (path_parts []) paths) = Inr es" "td_tree_sha256 d = sha (concat (map (digest_entry sha base) es))"
    using assms by (auto simp: tree_digest_def Let_def rbind_eq_Inr_iff)
  show ?thesis using r [OF es(1)] es(2) by blast
qed

definition digest_inputs :: "(string \<Rightarrow> string) \<Rightarrow> files \<Rightarrow> string list \<Rightarrow> string \<Rightarrow> string set" where
  "digest_inputs sha fs paths base = {t. \<exists>p \<in> set paths. fs p = Some t} \<union>
     {concat (map (digest_entry sha base) (map (\<lambda>p. (p, the (fs p))) (sort_key (path_parts []) paths)))}"

text \<open>The digest detects every change of the evidence: if the digest of the same paths is the same before and
  after, and SHA-256 has no collision among the texts involved (its hexadecimal output has no line break), then
  every file is what it was.\<close>

theorem digest_detects_change:
  assumes "tree_digest sha fs paths base = Inr d" "tree_digest sha fs' paths base = Inr d'" "td_tree_sha256 d = td_tree_sha256 d'"
    "inj_on sha (digest_inputs sha fs paths base \<union> digest_inputs sha fs' paths base)" "\<forall>t. newline \<notin> set (sha t)" "p \<in> set paths"
  shows "fs p = fs' p"
proof -
  obtain es where es: "map fst es = sort_key (path_parts []) paths" "\<forall>e \<in> set es. fs (fst e) = Some (snd e)"
    "td_tree_sha256 d = sha (concat (map (digest_entry sha base) es))"
    using tree_digest_Inr [OF assms(1)] by blast
  obtain es' where es': "map fst es' = sort_key (path_parts []) paths" "\<forall>e \<in> set es'. fs' (fst e) = Some (snd e)"
    "td_tree_sha256 d' = sha (concat (map (digest_entry sha base) es'))"
    using tree_digest_Inr [OF assms(2)] by blast
  have rebuild: "xs = map (\<lambda>p. (p, the (g p))) (map fst xs)" if "\<forall>e \<in> set xs. g (fst e) = Some (snd e)"
    for xs :: "(string \<times> string) list" and g :: files
    using that by (induction xs) auto
  have mem: "concat (map (digest_entry sha base) es) \<in> digest_inputs sha fs paths base"
    "concat (map (digest_entry sha base) es') \<in> digest_inputs sha fs' paths base"
    unfolding digest_inputs_def rebuild [OF es(2), unfolded es(1), symmetric] rebuild [OF es'(2), unfolded es'(1), symmetric]
    by (rule UnI2, rule singletonI)+
  have "sha (concat (map (digest_entry sha base) es)) = sha (concat (map (digest_entry sha base) es'))"
    using trans [OF trans [OF es(3) [symmetric] assms(3)] es'(3)] .
  then have "concat (map (digest_entry sha base) es) = concat (map (digest_entry sha base) es')"
    by (rule inj_onD [OF assms(4) _ UnI1 [OF mem(1)] UnI2 [OF mem(2)]])
  then have h: "map (\<lambda>e. sha (snd e)) es = map (\<lambda>e. sha (snd e)) es'"
    using es(1) es'(1) assms(5) by (intro digest_entries_inject) auto
  have "p \<in> set (map fst es)" using assms(6) es(1) by simp
  then obtain i where i: "i < length es" "fst (es ! i) = p" by (auto simp: in_set_conv_nth)
  have names: "map fst es' = map fst es" using es(1) es'(1) by simp
  have len: "length es' = length es" using arg_cong [OF names, of length] by simp
  have f: "fst (es' ! i) = p" using arg_cong [OF names, of "\<lambda>xs. xs ! i"] i len by simp
  have eq: "sha (snd (es ! i)) = sha (snd (es' ! i))" using arg_cong [OF h, of "\<lambda>xs. xs ! i"] i(1) len by simp
  have "es ! i \<in> set es" "es' ! i \<in> set es'" using i(1) len by simp_all
  then have v: "fs p = Some (snd (es ! i))" "fs' p = Some (snd (es' ! i))"
    using bspec [OF es(2), of "es ! i"] bspec [OF es'(2), of "es' ! i"] i(2) f by simp_all
  have mem': "snd (es ! i) \<in> digest_inputs sha fs paths base" "snd (es' ! i) \<in> digest_inputs sha fs' paths base"
    using assms(6) v by (auto simp: digest_inputs_def)
  have "snd (es ! i) = snd (es' ! i)" by (rule inj_onD [OF assms(4) eq UnI1 [OF mem'(1)] UnI2 [OF mem'(2)]])
  then show ?thesis using v by simp
qed

definition sample_sha :: "string \<Rightarrow> string" where
  "sample_sha t = map (\<lambda>c. if c = newline then CHR ''N'' else c) t"

theorem digest_detects_change_witness:
  "\<exists>d. tree_digest sample_sha [''r/a'' \<mapsto> ''x''] [''r/a''] ''r'' = Inr d \<and>
     tree_digest sample_sha [''r/a'' \<mapsto> ''x'', ''r/b'' \<mapsto> ''y''] [''r/a''] ''r'' = Inr d \<and>
     [''r/a'' \<mapsto> ''x''] ''r/a'' = [''r/a'' \<mapsto> ''x'', ''r/b'' \<mapsto> ''y''] ''r/a''"
proof -
  let ?f = "[''r/a'' \<mapsto> ''x'']" and ?g = "[''r/a'' \<mapsto> ''x'', ''r/b'' \<mapsto> ''y'']"
  obtain d where d: "tree_digest sample_sha ?f [''r/a''] ''r'' = Inr d" "tree_digest sample_sha ?g [''r/a''] ''r'' = Inr d"
    by (simp add: tree_digest_def)
  have i: "digest_inputs sample_sha ?f [''r/a''] ''r'' \<union> digest_inputs sample_sha ?g [''r/a''] ''r'' =
      {''x'', digest_entry sample_sha ''r'' (''r/a'', ''x'')}"
    by (auto simp: digest_inputs_def)
  have "inj_on sample_sha {''x'', digest_entry sample_sha ''r'' (''r/a'', ''x'')}"
    by (simp add: inj_on_def digest_entry_def sample_sha_def relative_name_def)
  moreover have "\<forall>t. newline \<notin> set (sample_sha t)" by (auto simp: sample_sha_def newline_def)
  ultimately show ?thesis using d digest_detects_change [OF d refl, unfolded i] by auto
qed

end
