(* ===== verification/Campaign_Statistics.thy ===== *)
theory Campaign_Statistics
  imports Campaign_Evidence
begin

text \<open>
  The statistics of the final campaign (second half of \<^verbatim>\<open>src/analysis/final_campaign.py\<close>): one row per run,
  the description of a sample, the statistics per condition, and the analysis of the failure condition with
  its throughput bins. The mean and the sample standard deviation of a pandas series are the parameters in
  \<open>series\<close>. Fixed descriptive sentences among the results are left out, and a run without a file of health
  events counts as one without events (the code rejects both, with different exceptions).
\<close>

section \<open>Numbers and samples\<close>

record series =
  se_mean :: "pyfloat list \<Rightarrow> pyfloat"
  se_std :: "pyfloat list \<Rightarrow> pyfloat"

record statistic =
  sv_n :: nat
  sv_mean :: pyfloat
  sv_stddev :: pyfloat
  sv_min :: pyfloat
  sv_max :: pyfloat

text \<open>\<open>math.isfinite\<close> of an integer converts it first.\<close>

fun is_number :: "json \<Rightarrow> bool result" where
  "is_number (JInt i) = rbind (float_of_int i) (\<lambda>f. Inr (is_finite f))"
| "is_number (JFloat f) = Inr (is_finite f)"
| "is_number _ = Inr False"

text \<open>\<open>float(...)\<close> of a JSON value; a string is not a number here.\<close>

fun py_float :: "json \<Rightarrow> pyfloat result" where
  "py_float (JInt i) = float_of_int i"
| "py_float (JBool b) = Inr (if b then Fin 1 else Fin 0)"
| "py_float (JFloat f) = Inr f"
| "py_float (JStr _) = Inl (ValueError ''could not convert string to float'')"
| "py_float _ = Inl (TypeError ''float() argument'')"

text \<open>\<open>series.min()\<close> and \<open>series.max()\<close> skip NaN and are NaN when nothing is left.\<close>

definition extremum :: "(pyfloat \<Rightarrow> pyfloat \<Rightarrow> pyfloat) \<Rightarrow> pyfloat list \<Rightarrow> pyfloat" where
  "extremum pick xs = (case filter (\<lambda>x. x \<noteq> NaN) xs of [] \<Rightarrow> NaN | y # ys \<Rightarrow> foldl pick y ys)"

definition describe_values :: "series \<Rightarrow> json list \<Rightarrow> statistic result" where
  "describe_values se values =
     rbind (map_result py_float values) (\<lambda>xs.
       if xs = [] then campaign_error ''cannot describe an empty sample''
       else Inr \<lparr>sv_n = length xs, sv_mean = se_mean se xs, sv_stddev = (if length xs > 1 then se_std se xs else Fin 0),
         sv_min = extremum py_min xs, sv_max = extremum py_max xs\<rparr>)"

section \<open>One row per run\<close>

definition STATISTIC_FIELDS :: "string list" where
  "STATISTIC_FIELDS =
     [''scheduled_readings'', ''generated_readings'', ''virtual_unique_received_readings'', ''delivery_ratio'',
      ''generated_reading_delivery_ratio'', ''generation_availability'', ''attempted_sends'', ''successful_application_writes'',
      ''gateway_received_readings'', ''collector_messages_actual'', ''collector_messages_unique'', ''collector_bytes_actual'',
      ''collector_bytes_unique'', ''collector_extra_messages'', ''collector_extra_bytes'', ''upstream_message_reduction_actual'',
      ''upstream_message_reduction_unique'', ''upstream_byte_reduction_actual'', ''upstream_byte_reduction_unique'',
      ''information_delay_mean_ms'', ''information_delay_p95_ms'', ''latency_median_ms'', ''latency_p95_ms'',
      ''virtual_unique_throughput_readings_per_second'', ''process_cpu_mean_percent'', ''process_rss_mean_bytes'',
      ''process_rss_max_bytes'', ''process_vms_mean_bytes'', ''application_drops'', ''upstream_queue_full_drops'',
      ''collector_duplicate_record_ids'', ''deliberately_absent_readings'', ''failure_suspect_detection_time_ms'',
      ''failure_offline_detection_time_ms'', ''failure_detection_time_ms'', ''recovery_detection_time_ms'',
      ''healthy_peer_throughput_during_failure'']"

definition divide_ints :: "int \<Rightarrow> int \<Rightarrow> pyfloat result" where
  "divide_ints n d = (if d = 0 then Inl ZeroDivisionError
     else case fl (of_int n / of_int d) of Fin r \<Rightarrow> Inr (Fin r) | _ \<Rightarrow> Inl OverflowError)"

definition conditions_by_id :: "evidence \<Rightarrow> (string \<times> evidence) list result" where
  "conditions_by_id frozen =
     rbind (list_field frozen ''conditions'') (\<lambda>js. rbind (objects js) (\<lambda>cs.
       rbind (map_result (\<lambda>c. rbind (str_field c ''condition_id'') (\<lambda>i. Inr (i, c))) cs) (\<lambda>ps.
         Inr (foldl (\<lambda>d p. dict_set (fst p) (snd p) d) [] ps))))"

definition in_group :: "string \<Rightarrow> evidence \<Rightarrow> bool result" where
  "in_group g condition = rbind (list_field condition ''comparison_groups'') (\<lambda>gs. Inr (JStr g \<in> set gs))"

definition copy_field :: "evidence \<Rightarrow> evidence \<Rightarrow> string \<Rightarrow> evidence" where
  "copy_field metrics row k = (case map_of metrics k of None \<Rightarrow> row | Some v \<Rightarrow> dict_set k v row)"

definition run_row :: "(string \<times> evidence) list \<Rightarrow> campaign_run \<Rightarrow> evidence result" where
  "run_row conditions r =
     (case map_of conditions (cp_condition_id r) of
        None \<Rightarrow> Inl (KeyError (cp_condition_id r))
      | Some condition \<Rightarrow>
        let metrics = cp_metrics r
        in rbind (int_field metrics ''generated_readings'') (\<lambda>generated.
        rbind (int_field metrics ''virtual_unique_received_readings'') (\<lambda>received.
        rbind (int_field metrics ''node_count'') (\<lambda>count_n.
        rbind (field metrics ''aggregation_mode'') (\<lambda>mode.
        rbind (rbind (field metrics ''aggregation_window_seconds'') py_float) (\<lambda>window.
        rbind (in_group ''scaling'' condition) (\<lambda>scaling.
        rbind (in_group ''aggregation_window'' condition) (\<lambda>tradeoff.
        rbind (int_field metrics ''collector_messages_actual'') (\<lambda>ma.
        rbind (int_field metrics ''collector_messages_unique'') (\<lambda>mu.
        rbind (int_field metrics ''collector_bytes_actual'') (\<lambda>ba.
        rbind (int_field metrics ''collector_bytes_unique'') (\<lambda>bu.
        rbind (int_field metrics ''scheduled_readings'') (\<lambda>scheduled.
          Inr (foldl (copy_field metrics)
            [(''condition_id'', JStr (cp_condition_id r)), (''run_id'', JStr (cp_run_id r)),
             (''repetition_index'', JInt (cp_repetition_index r)), (''random_seed'', JInt (cp_random_seed r)),
             (''node_count'', JInt count_n), (''aggregation_mode'', mode), (''aggregation_window_seconds'', JFloat window),
             (''comparison_group_scaling'', JBool scaling), (''comparison_group_aggregation_window'', JBool tradeoff),
             (''generated_reading_delivery_ratio'',
                if generated = 0 then JNull else JFloat (fl (of_int received / of_int generated))),
             (''collector_extra_messages'', JInt (ma - mu)), (''collector_extra_bytes'', JInt (ba - bu)),
             (''deliberately_absent_readings'', JInt (scheduled - generated))] STATISTIC_FIELDS))))))))))))))"

definition run_frame :: "campaign_run list \<Rightarrow> evidence \<Rightarrow> evidence list result" where
  "run_frame runs frozen = rbind (conditions_by_id frozen) (\<lambda>cs. map_result (run_row cs) runs)"

section \<open>Statistics per condition\<close>

record condition_result =
  cd_n :: nat
  cd_configuration :: evidence
  cd_run_ids :: "string list"
  cd_seeds :: "int list"
  cd_statistics :: "(string \<times> statistic) list"

text \<open>The numbers of a column; a row without the field has NaN there, which is not one.\<close>

fun column_numbers :: "evidence list \<Rightarrow> string \<Rightarrow> json list result" where
  "column_numbers [] k = Inr []"
| "column_numbers (row # rows) k =
     rbind (is_number (get_value row k)) (\<lambda>b. rbind (column_numbers rows k) (\<lambda>vs.
       Inr (if b then get_value row k # vs else vs)))"

fun describe_fields :: "series \<Rightarrow> evidence list \<Rightarrow> string list \<Rightarrow> (string \<times> statistic) list result" where
  "describe_fields se rows [] = Inr []"
| "describe_fields se rows (k # ks) =
     rbind (column_numbers rows k) (\<lambda>values.
       if values = [] then describe_fields se rows ks
       else rbind (describe_values se values) (\<lambda>v. rbind (describe_fields se rows ks) (\<lambda>rest. Inr ((k, v) # rest))))"

definition sequence_fields :: "string list" where
  "sequence_fields = [''in_order'', ''reset'', ''duplicate'', ''gap'', ''out_of_order'']"

definition describe_sequence :: "series \<Rightarrow> campaign_run list \<Rightarrow> string \<Rightarrow> (string \<times> statistic) result" where
  "describe_sequence se runs k =
     rbind (map_result (\<lambda>r. rbind (obj_field (cp_metrics r) ''sequence_counts'') (\<lambda>d. int_field d k)) runs) (\<lambda>xs.
       rbind (describe_values se (map JInt xs)) (\<lambda>v. Inr (''sequence_'' @ k, v)))"

definition describe_condition :: "series \<Rightarrow> campaign_run list \<Rightarrow> evidence \<Rightarrow> string \<times> evidence \<Rightarrow> (string \<times> condition_result) result" where
  "describe_condition se runs frozen p =
     (let selected = filter (\<lambda>r. cp_condition_id r = fst p) runs
      in rbind (run_frame selected frozen) (\<lambda>rows.
         rbind (describe_fields se rows STATISTIC_FIELDS) (\<lambda>stats.
         rbind (map_result (describe_sequence se selected) sequence_fields) (\<lambda>seqs.
           Inr (fst p, \<lparr>cd_n = length selected, cd_configuration = snd p, cd_run_ids = map cp_run_id selected,
             cd_seeds = map cp_random_seed selected, cd_statistics = stats @ seqs\<rparr>)))))"

definition condition_statistics :: "series \<Rightarrow> campaign_run list \<Rightarrow> evidence \<Rightarrow> (string \<times> condition_result) list result" where
  "condition_statistics se runs frozen = rbind (conditions_by_id frozen) (\<lambda>cs. map_result (describe_condition se runs frozen) cs)"

definition statistic_columns :: "string \<times> statistic \<Rightarrow> evidence" where
  "statistic_columns p =
     (let (metric, v) = p
      in [(metric @ ''_n'', JInt (int (sv_n v))), (metric @ ''_mean'', JFloat (sv_mean v)), (metric @ ''_stddev'', JFloat (sv_stddev v)),
          (metric @ ''_min'', JFloat (sv_min v)), (metric @ ''_max'', JFloat (sv_max v))])"

definition condition_frame :: "(string \<times> condition_result) list \<Rightarrow> evidence list" where
  "condition_frame cs =
     map (\<lambda>(cid, c). foldl (\<lambda>row kv. dict_set (fst kv) (snd kv) row) []
       ([(''condition_id'', JStr cid), (''n'', JInt (int (cd_n c)))] @ cd_configuration c @
        concat (map statistic_columns (cd_statistics c)))) cs"

section \<open>The failure condition\<close>

definition FAILED_NODE_ID :: string where
  "FAILED_NODE_ID = ''virtual-000''"

text \<open>\<open>(gateway_received_at_ms - start_ms) / 1000.0\<close> and \<open>elapsed // 5 * 5\<close> on float columns.\<close>

definition elapsed_seconds :: "int \<Rightarrow> int \<Rightarrow> pyfloat" where
  "elapsed_seconds from_ms t = (case fdiv (fl (of_int (t - from_ms))) (Fin 1000) of Inr x \<Rightarrow> x | Inl _ \<Rightarrow> NaN)"

definition bin_start :: "pyfloat \<Rightarrow> int" where
  "bin_start x = (case x of Fin r \<Rightarrow> \<lfloor>r / 5\<rfloor> * 5 | _ \<Rightarrow> 0)"

definition in_measurement :: "int \<Rightarrow> campaign_reading \<Rightarrow> bool" where
  "in_measurement from_ms r = (let e = elapsed_seconds from_ms (cr_gateway_received_at_ms r) in fle (Fin 0) e \<and> flt e (Fin 300))"

definition reading_bin :: "int \<Rightarrow> campaign_reading \<Rightarrow> int" where
  "reading_bin from_ms r = bin_start (elapsed_seconds from_ms (cr_gateway_received_at_ms r))"

definition bin_starts :: "int list" where
  "bin_starts = map (\<lambda>i. 5 * int i) [0..<60]"

record throughput_row =
  tr_run_id :: string
  tr_repetition_index :: int
  tr_bin_start_seconds :: int
  tr_total_throughput :: pyfloat
  tr_healthy_throughput :: pyfloat

definition fifth :: "nat \<Rightarrow> pyfloat" where
  "fifth n = fl (of_nat n / 5)"

definition throughput_rows :: "campaign_run \<Rightarrow> int \<Rightarrow> campaign_reading list \<Rightarrow> throughput_row list" where
  "throughput_rows run from_ms readings =
     map (\<lambda>b. let rows = filter (\<lambda>r. reading_bin from_ms r = b) readings;
                    healthy = filter (\<lambda>r. cr_node_id r \<noteq> FAILED_NODE_ID) rows
                in \<lparr>tr_run_id = cp_run_id run, tr_repetition_index = cp_repetition_index run, tr_bin_start_seconds = b,
                   tr_total_throughput = fifth (length rows), tr_healthy_throughput = fifth (length healthy)\<rparr>) bin_starts"

definition status_count :: "string \<Rightarrow> campaign_reading list \<Rightarrow> nat" where
  "status_count s rows = length (filter (\<lambda>r. cr_sequence_status r = s) rows)"

text \<open>The peers: 24 of them, each with 300 readings, all in order; the failed node has 210 with one reset.\<close>

definition check_peers :: "campaign_reading list \<Rightarrow> unit result" where
  "check_peers readings =
     (let failed = filter (\<lambda>r. cr_node_id r = FAILED_NODE_ID) readings;
          healthy = filter (\<lambda>r. cr_node_id r \<noteq> FAILED_NODE_ID) readings;
          peers = remdups (map cr_node_id healthy)
      in if \<not> (length peers = 24 \<and> list_all (\<lambda>n. length (filter (\<lambda>r. cr_node_id r = n) healthy) = 300) peers)
         then campaign_error ''healthy-peer count mismatch''
         else if list_ex (\<lambda>r. cr_sequence_status r \<noteq> ''IN_ORDER'') healthy then campaign_error ''healthy-peer sequence anomaly''
         else if length failed \<noteq> 210 \<or> status_count ''RESET'' failed \<noteq> 1 then campaign_error ''failed-node reset mismatch''
         else Inr ())"

definition float_field :: "evidence \<Rightarrow> string \<Rightarrow> pyfloat result" where
  "float_field d k = rbind (field d k) py_float"

definition detected_at :: "evidence \<Rightarrow> pyfloat \<Rightarrow> string \<Rightarrow> pyfloat result" where
  "detected_at metrics configured k =
     rbind (float_field metrics k) (\<lambda>x. rbind (fdiv x (Fin 1000)) (\<lambda>y. Inr (fadd configured y)))"

definition last_three :: "'a list \<Rightarrow> 'a list" where
  "last_three xs = drop (length xs - 3) xs"

definition failure_row :: "campaign_run \<Rightarrow> campaign_reading list \<Rightarrow> evidence result" where
  "failure_row run readings =
     (let metrics = cp_metrics run; failed = filter (\<lambda>r. cr_node_id r = FAILED_NODE_ID) readings
      in rbind (int_field metrics ''scheduled_readings'') (\<lambda>scheduled.
      rbind (int_field metrics ''generated_readings'') (\<lambda>generated.
      rbind (int_field metrics ''virtual_unique_received_readings'') (\<lambda>received.
      rbind (divide_ints received scheduled) (\<lambda>by_scheduled.
      rbind (divide_ints received generated) (\<lambda>by_generated.
      rbind (field metrics ''failure_suspect_detection_time_ms'') (\<lambda>suspect.
      rbind (field metrics ''failure_offline_detection_time_ms'') (\<lambda>offline.
      rbind (field metrics ''recovery_detection_time_ms'') (\<lambda>recovery.
      rbind (field metrics ''healthy_peer_throughput_during_failure'') (\<lambda>peer.
        Inr [(''run_id'', JStr (cp_run_id run)), (''seed'', JInt (cp_random_seed run)), (''scheduled'', JInt scheduled),
          (''generated'', JInt generated), (''received'', JInt received), (''absent'', JInt (scheduled - generated)),
          (''scheduled_delivery_ratio'', JFloat by_scheduled), (''generated_delivery_ratio'', JFloat by_generated),
          (''suspect_detection_ms'', suspect), (''offline_detection_ms'', offline), (''recovery_detection_ms'', recovery),
          (''healthy_peer_throughput'', peer),
          (''healthy_peer_non_in_order'', JInt (int (length (filter (\<lambda>r. cr_node_id r \<noteq> FAILED_NODE_ID \<and> cr_sequence_status r \<noteq> ''IN_ORDER'') readings)))),
          (''failed_node_in_order'', JInt (int (status_count ''IN_ORDER'' failed))),
          (''failed_node_resets'', JInt (int (status_count ''RESET'' failed)))]))))))))))"

record failure_run =
  fr_throughput :: "throughput_row list"
  fr_events :: "(string \<times> pyfloat) list"
  fr_row :: evidence

definition analyze_failure_run :: "campaign_run \<Rightarrow> failure_run result" where
  "analyze_failure_run run =
     rbind (int_field (cp_metrics run) ''measurement_start_ms'') (\<lambda>from_ms.
     let readings = filter (in_measurement from_ms) (cp_readings run)
     in rbind (check_peers readings) (\<lambda>_.
     rbind (float_field (cp_manifest run) ''failure_at_seconds'') (\<lambda>failure.
     rbind (float_field (cp_manifest run) ''recovery_at_seconds'') (\<lambda>recovery.
     rbind (detected_at (cp_metrics run) failure ''failure_suspect_detection_time_ms'') (\<lambda>suspect.
     rbind (detected_at (cp_metrics run) failure ''failure_offline_detection_time_ms'') (\<lambda>offline.
     rbind (detected_at (cp_metrics run) recovery ''recovery_detection_time_ms'') (\<lambda>recovered.
     let states = map he_new_state (filter (\<lambda>e. he_node_id e = FAILED_NODE_ID) (cp_health_events run))
     in if last_three states \<noteq> [''SUSPECT'', ''OFFLINE'', ''ONLINE''] then campaign_error ''liveness transition mismatch''
     else rbind (failure_row run readings) (\<lambda>row.
       Inr \<lparr>fr_throughput = throughput_rows run from_ms readings,
         fr_events = [(''SUSPECT'', suspect), (''OFFLINE'', offline), (''RECOVERED'', recovered)], fr_row = row\<rparr>))))))))"

definition failure_statistics_fields :: "string list" where
  "failure_statistics_fields = [''scheduled'', ''generated'', ''received'', ''absent'', ''scheduled_delivery_ratio'',
     ''generated_delivery_ratio'', ''suspect_detection_ms'', ''offline_detection_ms'', ''recovery_detection_ms'',
     ''healthy_peer_throughput'', ''healthy_peer_non_in_order'', ''failed_node_in_order'', ''failed_node_resets'']"

record failure_summary =
  fs_per_run :: "evidence list"
  fs_statistics :: "(string \<times> statistic) list"
  fs_absent_total :: int
  fs_throughput :: "throughput_row list"
  fs_events :: "(string \<times> int \<times> string \<times> pyfloat) list"

definition failure_analysis :: "series \<Rightarrow> campaign_run list \<Rightarrow> failure_summary result" where
  "failure_analysis se runs =
     (let selected = filter (\<lambda>r. cp_condition_id r = ''failure-n025-raw'') runs
      in if length selected \<noteq> 3 then campaign_error ''failure condition must contain three runs''
         else rbind (map_result analyze_failure_run selected) (\<lambda>rs.
           let rows = map fr_row rs
           in rbind (map_result (\<lambda>k. rbind (map_result (\<lambda>row. field row k) rows) (\<lambda>vs. rbind (describe_values se vs) (\<lambda>v. Inr (k, v))))
                failure_statistics_fields) (\<lambda>stats.
              rbind (map_result (\<lambda>row. int_field row ''absent'') rows) (\<lambda>absent.
                Inr \<lparr>fs_per_run = rows, fs_statistics = stats, fs_absent_total = sum_list absent,
                  fs_throughput = concat (map fr_throughput rs),
                  fs_events = concat (map2 (\<lambda>run r. map (\<lambda>e. (cp_run_id run, cp_repetition_index run, e)) (fr_events r)) selected rs)\<rparr>))))"

section \<open>The timeline of a failure run\<close>

text \<open>What the bins are meant to hold: the readings of the \<open>i\<close>-th five seconds, in whole milliseconds.\<close>

definition slot_readings :: "int \<Rightarrow> campaign_reading list \<Rightarrow> nat \<Rightarrow> campaign_reading list" where
  "slot_readings from_ms rs i =
     filter (\<lambda>r. 5000 * int i \<le> cr_gateway_received_at_ms r - from_ms \<and> cr_gateway_received_at_ms r - from_ms < 5000 * (int i + 1)) rs"

lemma elapsed_seconds_exact:
  assumes "\<bar>t - from_ms\<bar> \<le> 2 ^ 53"
  shows "elapsed_seconds from_ms t = Fin (rnd_double (of_int (t - from_ms) / 1000))"
proof -
  have "\<bar>of_int (t - from_ms) / 1000 :: rat\<bar> \<le> of_int (2 ^ 53)"
  proof -
    have "(of_int \<bar>t - from_ms\<bar> :: rat) \<le> of_int (2 ^ 53)" using assms by (simp only: of_int_le_iff)
    moreover have "\<bar>of_int (t - from_ms) / 1000 :: rat\<bar> \<le> of_int \<bar>t - from_ms\<bar>" by simp
    ultimately show ?thesis by linarith
  qed
  then have "fl (of_int (t - from_ms) / 1000) = Fin (rnd_double (of_int (t - from_ms) / 1000))" by (rule fl_bounded(1)) simp
  then show ?thesis using fl_int [OF assms] by (simp add: elapsed_seconds_def)
qed

text \<open>A thousandth is coarser than the grid of the doubles below 300, so rounding never crosses a multiple of five
  seconds.\<close>

lemma below_boundary:
  assumes "d < 5000 * k" "\<bar>k\<bar> \<le> 60"
  shows "rnd_double (of_int d / 1000) < of_int (5 * k)"
proof -
  have "(of_int d :: rat) \<le> of_int (5000 * k - 1)" using assms(1) by (simp only: of_int_le_iff)
  then have "of_int d / 1000 \<le> (of_int (5242880 * k - 1024) / 1048576 :: rat)" by (simp add: field_simps)
  then have "rnd_double (of_int d / 1000) \<le> of_int (5242880 * k - 1024) / 1048576"
    using assms(2) by (intro rnd_le_grid) auto
  then show ?thesis by (simp add: field_simps)
qed

lemma above_boundary:
  assumes "5000 * k \<le> d" "\<bar>k\<bar> \<le> 60"
  shows "of_int (5 * k) \<le> rnd_double (of_int d / 1000)"
proof -
  have "(of_int (5000 * k) :: rat) \<le> of_int d" using assms(1) by (simp only: of_int_le_iff)
  then have "of_int (5242880 * k) / 1048576 \<le> (of_int d / 1000 :: rat)" by (simp add: field_simps)
  then have "of_int (5242880 * k) / 1048576 \<le> rnd_double (of_int d / 1000)"
    using assms(2) by (intro rnd_ge_grid) auto
  then show ?thesis by (simp add: field_simps)
qed

lemma boundary_iff: "\<bar>k\<bar> \<le> 60 \<Longrightarrow> of_int (5 * k) \<le> rnd_double (of_int d / 1000) \<longleftrightarrow> 5000 * k \<le> d"
  using below_boundary [of d k] above_boundary [of k d] by (metis not_le)

lemma in_measurement_iff:
  assumes "\<bar>cr_gateway_received_at_ms r - from_ms\<bar> \<le> 2 ^ 53"
  shows "in_measurement from_ms r \<longleftrightarrow>
    0 \<le> cr_gateway_received_at_ms r - from_ms \<and> cr_gateway_received_at_ms r - from_ms < 300000"
  using boundary_iff [of 0 "cr_gateway_received_at_ms r - from_ms"] boundary_iff [of 60 "cr_gateway_received_at_ms r - from_ms"]
  by (auto simp: in_measurement_def elapsed_seconds_exact [OF assms] not_le)

lemma reading_bin_eq:
  assumes "\<bar>cr_gateway_received_at_ms r - from_ms\<bar> \<le> 2 ^ 53"
    "0 \<le> cr_gateway_received_at_ms r - from_ms" "cr_gateway_received_at_ms r - from_ms < 300000"
  shows "reading_bin from_ms r = 5 * ((cr_gateway_received_at_ms r - from_ms) div 5000)"
proof -
  define d where "d = cr_gateway_received_at_ms r - from_ms"
  define k where "k = d div 5000"
  have k: "5000 * k \<le> d" "d < 5000 * (k + 1)" "0 \<le> k" "k < 60" using assms(2,3) by (auto simp: k_def d_def [symmetric])
  have "of_int (5 * k) \<le> rnd_double (of_int d / 1000)" "rnd_double (of_int d / 1000) < of_int (5 * (k + 1))"
    using above_boundary [of k d] below_boundary [of d "k + 1"] k by auto
  then have "\<lfloor>rnd_double (of_int d / 1000) / 5\<rfloor> = k" by (simp add: floor_eq_iff field_simps)
  then show ?thesis
    by (simp add: reading_bin_def bin_start_def elapsed_seconds_exact [OF assms(1)] d_def [symmetric] k_def)
qed

lemma bin_is_slot:
  assumes "\<bar>cr_gateway_received_at_ms r - from_ms\<bar> \<le> 2 ^ 53" "i < 60"
  shows "in_measurement from_ms r \<and> reading_bin from_ms r = 5 * int i \<longleftrightarrow>
    5000 * int i \<le> cr_gateway_received_at_ms r - from_ms \<and> cr_gateway_received_at_ms r - from_ms < 5000 * (int i + 1)"
proof (cases "in_measurement from_ms r")
  case True
  then have b: "0 \<le> cr_gateway_received_at_ms r - from_ms" "cr_gateway_received_at_ms r - from_ms < 300000"
    using in_measurement_iff [OF assms(1)] by auto
  show ?thesis using True reading_bin_eq [OF assms(1) b] by auto
next
  case False
  then show ?thesis using in_measurement_iff [OF assms(1)] assms(2) by auto
qed

lemma slot_hits:
  "(\<Sum>i\<leftarrow>[0..<60]. if 5000 * int i \<le> d \<and> d < 5000 * (int i + 1) then 1 else 0) = (if 0 \<le> d \<and> d < 300000 then 1 else (0::nat))"
proof (cases "0 \<le> d \<and> d < 300000")
  case True
  then have e: "5000 * int i \<le> d \<and> d < 5000 * (int i + 1) \<longleftrightarrow> i = nat (d div 5000)" for i by auto
  have "nat (d div 5000) < 60" using True by auto
  then show ?thesis using True unfolding e by (simp add: sum_list_distinct_conv_sum_set)
next
  case False
  then have "\<not> (5000 * int i \<le> d \<and> d < 5000 * (int i + 1))" if "i < 60" for i using that by auto
  then have "(\<Sum>i = 0..<60. if 5000 * int i \<le> d \<and> d < 5000 * (int i + 1) then 1 else (0::nat)) = 0" by (intro sum.neutral) auto
  then show ?thesis unfolding if_not_P [OF False] by (simp add: sum_list_distinct_conv_sum_set del: sum_eq_0_iff)
qed

lemma slots_partition:
  assumes "\<And>r. r \<in> set rs \<Longrightarrow> \<bar>cr_gateway_received_at_ms r - from_ms\<bar> \<le> 2 ^ 53"
  shows "(\<Sum>i\<leftarrow>[0..<60]. length (filter P (slot_readings from_ms rs i))) = length (filter P (filter (in_measurement from_ms) rs))"
  using assms
proof (induction rs)
  case (Cons r rs)
  define d where "d = cr_gateway_received_at_ms r - from_ms"
  define hit where "hit i = (if 5000 * int i \<le> d \<and> d < 5000 * (int i + 1) then 1 else (0::nat))" for i
  have m: "in_measurement from_ms r \<longleftrightarrow> 0 \<le> d \<and> d < 300000" using in_measurement_iff Cons.prems by (simp add: d_def)
  have h: "(\<Sum>i\<leftarrow>[0..<60]. hit i) = (if in_measurement from_ms r then 1 else 0)" unfolding hit_def m by (rule slot_hits)
  have step: "length (filter P (slot_readings from_ms (r # rs) i)) =
      (if P r then hit i else 0) + length (filter P (slot_readings from_ms rs i))" for i
    by (simp add: slot_readings_def d_def hit_def)
  have IH: "(\<Sum>i\<leftarrow>[0..<60]. length (filter P (slot_readings from_ms rs i))) = length (filter P (filter (in_measurement from_ms) rs))"
    using Cons by simp
  show ?case unfolding step sum_list_addf IH using h by (cases "P r") simp_all
qed (simp add: slot_readings_def)

lemma check_peers_counts:
  assumes "check_peers readings = Inr ()"
  shows "length (filter (\<lambda>r. cr_node_id r \<noteq> FAILED_NODE_ID) readings) = 7200" "length readings = 7410"
proof -
  define healthy where "healthy = filter (\<lambda>r. cr_node_id r \<noteq> FAILED_NODE_ID) readings"
  define ids where "ids = map cr_node_id healthy"
  have c: "length (remdups ids) = 24" "\<forall>n \<in> set ids. length (filter (\<lambda>r. cr_node_id r = n) healthy) = 300"
    "length (filter (\<lambda>r. cr_node_id r = FAILED_NODE_ID) readings) = 210"
    using assms by (auto simp: check_peers_def Let_def list_all_iff healthy_def ids_def split: if_splits)
  have "count_list ids n = 300" if "n \<in> set ids" for n
    using bspec [OF c(2) that] by (simp add: ids_def count_list_eq_length_filter filter_map comp_def eq_commute)
  then have "(\<Sum>n \<in> set ids. count_list ids n) = (\<Sum>n \<in> set ids. 300)" by (rule sum.cong [OF refl])
  also have "\<dots> = 7200" using c(1) by (simp add: length_remdups_card_conv)
  finally have h: "length ids = 7200" by (simp only: sum_count_set [OF subset_refl finite_set])
  then show "length (filter (\<lambda>r. cr_node_id r \<noteq> FAILED_NODE_ID) readings) = 7200" by (simp add: ids_def healthy_def)
  then show "length readings = 7410"
    using sum_length_filter_compl [of "\<lambda>r. cr_node_id r = FAILED_NODE_ID" readings] c(3) by simp
qed

text \<open>C34: The throughput timeline of an accepted failure run is exact although it is binned in binary floating point:
  its 60 rows are the readings of 60 consecutive slots of 5000 ms divided by five, in total and for the healthy peers,
  and the slots hold the 7410 readings of the measurement, 7200 of them from healthy peers.\<close>

theorem failure_timeline_exact:
  assumes "analyze_failure_run run = Inr f" "int_field (cp_metrics run) ''measurement_start_ms'' = Inr from_ms"
    "\<forall>r \<in> set (cp_readings run). \<bar>cr_gateway_received_at_ms r - from_ms\<bar> \<le> 2 ^ 53"
  shows "map (\<lambda>w. (tr_bin_start_seconds w, tr_total_throughput w, tr_healthy_throughput w)) (fr_throughput f) =
      map (\<lambda>i. (5 * int i, fifth (length (slot_readings from_ms (cp_readings run) i)),
        fifth (length (filter (\<lambda>r. cr_node_id r \<noteq> FAILED_NODE_ID) (slot_readings from_ms (cp_readings run) i))))) [0..<60] \<and>
    (\<Sum>i\<leftarrow>[0..<60]. length (slot_readings from_ms (cp_readings run) i)) = 7410 \<and>
    (\<Sum>i\<leftarrow>[0..<60]. length (filter (\<lambda>r. cr_node_id r \<noteq> FAILED_NODE_ID) (slot_readings from_ms (cp_readings run) i))) = 7200"
proof (intro conjI)
  let ?rs = "filter (in_measurement from_ms) (cp_readings run)"
  have f: "fr_throughput f = throughput_rows run from_ms ?rs" "check_peers ?rs = Inr ()"
    using assms(1,2) by (auto simp: analyze_failure_run_def Let_def rbind_eq_Inr_iff split: if_splits)
  have bin: "filter (\<lambda>r. reading_bin from_ms r = 5 * int i) ?rs = slot_readings from_ms (cp_readings run) i" if "i < 60" for i
    unfolding slot_readings_def filter_filter using bin_is_slot [OF _ that] assms(3) by (intro filter_cong) auto
  show "map (\<lambda>w. (tr_bin_start_seconds w, tr_total_throughput w, tr_healthy_throughput w)) (fr_throughput f) =
      map (\<lambda>i. (5 * int i, fifth (length (slot_readings from_ms (cp_readings run) i)),
        fifth (length (filter (\<lambda>r. cr_node_id r \<noteq> FAILED_NODE_ID) (slot_readings from_ms (cp_readings run) i))))) [0..<60]"
    unfolding f(1) throughput_rows_def bin_starts_def map_map
    by (rule map_cong [OF refl]) (use bin in \<open>simp add: Let_def comp_def del: filter_filter\<close>)
  show "(\<Sum>i\<leftarrow>[0..<60]. length (slot_readings from_ms (cp_readings run) i)) = 7410"
    using slots_partition [of "cp_readings run" from_ms "\<lambda>_. True"] assms(3) check_peers_counts(2) [OF f(2)] by simp
  show "(\<Sum>i\<leftarrow>[0..<60]. length (filter (\<lambda>r. cr_node_id r \<noteq> FAILED_NODE_ID) (slot_readings from_ms (cp_readings run) i))) = 7200"
    using slots_partition [of "cp_readings run" from_ms "\<lambda>r. cr_node_id r \<noteq> FAILED_NODE_ID"] assms(3)
      check_peers_counts(1) [OF f(2)] by simp
qed

text \<open>A run with 24 peers, and a failed node that came back once.\<close>

definition sample_peers :: "string list" where
  "sample_peers = map (\<lambda>c. [c]) ''ABCDEFGHIJKLMNOPQRSTUVWX''"

definition at_start :: "string \<Rightarrow> string \<Rightarrow> campaign_reading" where
  "at_start st n = \<lparr>cr_node_id = n, cr_gateway_received_at_ms = 1000, cr_sequence_status = st\<rparr>"

definition sample_transition :: "string \<Rightarrow> health_event" where
  "sample_transition st = \<lparr>he_timestamp_ms = 1, he_node_id = FAILED_NODE_ID, he_node_kind = ''virtual'', he_old_state = '''',
     he_new_state = st, he_reason = '''', he_last_seen_ms = 1, he_last_sequence = 1\<rparr>"

definition sample_failure_run :: campaign_run where
  "sample_failure_run = \<lparr>cp_condition_id = ''failure-n025-raw'', cp_repetition_index = 0, cp_random_seed = 662, cp_run_id = ''r'',
     cp_run_dir = ''d'', cp_processed_dir = ''p'',
     cp_manifest = [(''failure_at_seconds'', JInt 90), (''recovery_at_seconds'', JInt 180)], cp_run_summary = [],
     cp_metrics = [(''measurement_start_ms'', JInt 1000), (''scheduled_readings'', JInt 1), (''generated_readings'', JInt 1),
       (''virtual_unique_received_readings'', JInt 1), (''failure_suspect_detection_time_ms'', JInt 3000),
       (''failure_offline_detection_time_ms'', JInt 5000), (''recovery_detection_time_ms'', JInt 1000),
       (''healthy_peer_throughput_during_failure'', JInt 24)],
     cp_readings = concat (map (\<lambda>n. replicate 300 (at_start ''IN_ORDER'' n)) sample_peers) @
       replicate 209 (at_start ''IN_ORDER'' FAILED_NODE_ID) @ [at_start ''RESET'' FAILED_NODE_ID],
     cp_health_events = map sample_transition [''SUSPECT'', ''OFFLINE'', ''ONLINE'']\<rparr>"

lemma sample_peers_facts:
  "distinct sample_peers" "length sample_peers = 24" "FAILED_NODE_ID \<notin> set sample_peers"
  by (simp_all add: sample_peers_def FAILED_NODE_ID_def)

lemma at_start_fields [simp]:
  "cr_node_id (at_start st n) = n" "cr_sequence_status (at_start st n) = st" "cr_gateway_received_at_ms (at_start st n) = 1000"
  by (simp_all add: at_start_def)

lemma filter_eq_singleton: "distinct xs \<Longrightarrow> x \<in> set xs \<Longrightarrow> filter (\<lambda>y. y = x) xs = [x]"
  by (induction xs) (auto simp: filter_empty_conv)

lemma filter_replicates:
  "filter P (concat (map (\<lambda>n. replicate k (g n)) ns)) = concat (map (\<lambda>n. replicate k (g n)) (filter (\<lambda>n. P (g n)) ns))"
  by (induction ns) auto

lemma sample_peers_accepted: "check_peers (cp_readings sample_failure_run) = Inr ()"
proof -
  let ?hs = "concat (map (\<lambda>n. replicate 300 (at_start ''IN_ORDER'' n)) sample_peers)"
  let ?fs = "replicate 209 (at_start ''IN_ORDER'' FAILED_NODE_ID) @ [at_start ''RESET'' FAILED_NODE_ID]"
  have r: "cp_readings sample_failure_run = ?hs @ ?fs" by (simp add: sample_failure_run_def)
  have peers: "n \<noteq> FAILED_NODE_ID" if "n \<in> set sample_peers" for n using that sample_peers_facts(3) by blast
  have h: "filter (\<lambda>r. cr_node_id r \<noteq> FAILED_NODE_ID) (?hs @ ?fs) = ?hs" using peers by (simp add: filter_replicates cong: filter_cong)
  have f: "filter (\<lambda>r. cr_node_id r = FAILED_NODE_ID) (?hs @ ?fs) = ?fs"
    using peers by (simp add: filter_replicates filter_False)
  have s: "set (map cr_node_id ?hs) = set sample_peers" by (simp add: image_UN)
  have n: "length (remdups (map cr_node_id ?hs)) = 24"
    unfolding length_remdups_card_conv s using sample_peers_facts(1,2) by (simp add: distinct_card)
  have "length (filter (\<lambda>r. cr_node_id r = n) ?hs) = 300" if "n \<in> set sample_peers" for n
  proof -
    show ?thesis using filter_eq_singleton [OF sample_peers_facts(1) that] by (simp add: filter_replicates)
  qed
  then have "list_all (\<lambda>n. length (filter (\<lambda>r. cr_node_id r = n) ?hs) = 300) (remdups (map cr_node_id ?hs))"
    unfolding list_all_iff set_remdups s by blast
  moreover have "\<not> list_ex (\<lambda>r. cr_sequence_status r \<noteq> ''IN_ORDER'') ?hs" by (auto simp: list_ex_iff)
  moreover have "length ?fs = 210" "status_count ''RESET'' ?fs = 1" by (simp_all add: status_count_def)
  ultimately show ?thesis unfolding r check_peers_def Let_def h f using n by simp
qed

lemma in_measurement_at_start [simp]: "in_measurement 1000 (at_start st n)"
  by (simp add: in_measurement_def elapsed_seconds_def)

lemma sample_failure_run_accepted: "\<exists>f. analyze_failure_run sample_failure_run = Inr f"
proof -
  have r: "filter (in_measurement 1000) (cp_readings sample_failure_run) = cp_readings sample_failure_run"
    by (rule filter_True) (auto simp: sample_failure_run_def)
  have m: "cp_metrics sample_failure_run = [(''measurement_start_ms'', JInt 1000), (''scheduled_readings'', JInt 1), (''generated_readings'', JInt 1),
       (''virtual_unique_received_readings'', JInt 1), (''failure_suspect_detection_time_ms'', JInt 3000),
       (''failure_offline_detection_time_ms'', JInt 5000), (''recovery_detection_time_ms'', JInt 1000),
       (''healthy_peer_throughput_during_failure'', JInt 24)]"
    "cp_manifest sample_failure_run = [(''failure_at_seconds'', JInt 90), (''recovery_at_seconds'', JInt 180)]"
    by (simp_all add: sample_failure_run_def)
  have i: "int_field (cp_metrics sample_failure_run) ''measurement_start_ms'' = Inr 1000" unfolding m by code_simp
  have fl: "float_field (cp_manifest sample_failure_run) ''failure_at_seconds'' = Inr (Fin 90)"
    "float_field (cp_manifest sample_failure_run) ''recovery_at_seconds'' = Inr (Fin 180)"
    "\<exists>x. detected_at (cp_metrics sample_failure_run) (Fin 90) ''failure_suspect_detection_time_ms'' = Inr x"
    "\<exists>x. detected_at (cp_metrics sample_failure_run) (Fin 90) ''failure_offline_detection_time_ms'' = Inr x"
    "\<exists>x. detected_at (cp_metrics sample_failure_run) (Fin 180) ''recovery_detection_time_ms'' = Inr x"
    unfolding m by (simp_all add: float_field_def detected_at_def field_def float_of_int_def)
  have ev: "last_three (map he_new_state (filter (\<lambda>e. he_node_id e = FAILED_NODE_ID) (cp_health_events sample_failure_run))) =
      [''SUSPECT'', ''OFFLINE'', ''ONLINE'']"
    by (simp add: sample_failure_run_def sample_transition_def last_three_def)
  have row: "\<exists>w. failure_row sample_failure_run (cp_readings sample_failure_run) = Inr w"
    unfolding failure_row_def m by (simp add: field_def int_field_def divide_ints_def Let_def)
  show ?thesis unfolding analyze_failure_run_def i using fl ev row by (auto simp: r sample_peers_accepted Let_def)
qed

theorem failure_timeline_exact_witness:
  "\<exists>f. analyze_failure_run sample_failure_run = Inr f \<and> length (fr_throughput f) = 60 \<and>
     (\<Sum>i\<leftarrow>[0..<60]. length (slot_readings 1000 (cp_readings sample_failure_run) i)) = 7410"
proof -
  obtain f where f: "analyze_failure_run sample_failure_run = Inr f" using sample_failure_run_accepted by blast
  have i: "int_field (cp_metrics sample_failure_run) ''measurement_start_ms'' = Inr 1000"
    by (simp add: sample_failure_run_def int_field_def field_def)
  have b: "\<forall>r \<in> set (cp_readings sample_failure_run). \<bar>cr_gateway_received_at_ms r - 1000\<bar> \<le> 2 ^ 53"
    by (auto simp: sample_failure_run_def)
  note t = failure_timeline_exact [OF f i b]
  have "length (fr_throughput f) = 60" using arg_cong [OF conjunct1 [OF t], of length] by simp
  then show ?thesis using f t by blast
qed

end
