(* ===== verification/Campaign_Tables.thy ===== *)
theory Campaign_Tables
  imports Campaign_Statistics
begin

text \<open>
  The tables of the final campaign (\<^verbatim>\<open>src/analysis/final_campaign.py\<close>, from \<^verbatim>\<open>_write_paper_tables\<close> to
  \<^verbatim>\<open>_latex_escape\<close>): the columns of a table row, the texts displayed in it, and the Markdown and LaTeX
  renderings. Python's fixed and general number formats are defined here; \<open>str\<close> and \<open>to_csv\<close> are parameters.
\<close>

section \<open>Number formats\<close>

text \<open>\<open>f"{x:.df}"\<close> rounds the exact value of the float half to even.\<close>

definition pad_zeros :: "nat \<Rightarrow> string \<Rightarrow> string" where
  "pad_zeros d s = replicate (d - length s) CHR ''0'' @ s"

definition point :: "nat \<Rightarrow> nat \<Rightarrow> string" where
  "point d n = str_of_nat (n div 10 ^ d) @ (if d = 0 then [] else CHR ''.'' # pad_zeros d (str_of_nat (n mod 10 ^ d)))"

fun fixed :: "nat \<Rightarrow> pyfloat \<Rightarrow> string" where
  "fixed d (Fin r) = (if r < 0 then ''-'' else '''') @ point d (nat (round_half_even (\<bar>r\<bar> * 10 ^ d)))"
| "fixed d NaN = ''nan''"
| "fixed d PInf = ''inf''"
| "fixed d NInf = ''-inf''"

text \<open>\<open>f"{x:g}"\<close>: six significant digits without trailing zeros, in scientific notation outside
  \<open>10\<^sup>-\<^sup>4 \<dots> 10\<^sup>6\<close>. The fuel of \<open>leading_zeros\<close> is enough for the smallest double.\<close>

fun leading_zeros :: "nat \<Rightarrow> rat \<Rightarrow> nat" where
  "leading_zeros 0 r = 0"
| "leading_zeros (Suc n) r = (if 1 \<le> r then 0 else Suc (leading_zeros n (10 * r)))"

definition decimal_exponent :: "rat \<Rightarrow> int" where
  "decimal_exponent r = (if 1 \<le> r then int (length (str_of_nat (nat \<lfloor>r\<rfloor>))) - 1 else - int (leading_zeros 400 r))"

definition strip_zeros :: "string \<Rightarrow> string" where
  "strip_zeros s = (if CHR ''.'' \<in> set s
     then let t = rev (dropWhile (\<lambda>c. c = CHR ''0'') (rev s)) in if last t = CHR ''.'' then butlast t else t
     else s)"

definition general_pos :: "rat \<Rightarrow> string" where
  "general_pos r =
     (let e0 = decimal_exponent r; m0 = nat (round_half_even (r * 10 powi (5 - e0)));
          (m, e) = (if 10 ^ 6 \<le> m0 then (m0 div 10, e0 + 1) else (m0, e0))
      in if - 4 \<le> e \<and> e < 6 then strip_zeros (point (nat (5 - e)) m)
         else strip_zeros (point 5 m) @ (if e < 0 then ''e-'' else ''e+'') @ pad_zeros 2 (str_of_nat (nat \<bar>e\<bar>)))"

fun general :: "pyfloat \<Rightarrow> string" where
  "general (Fin r) = (if r = 0 then ''0'' else if r < 0 then CHR ''-'' # general_pos (- r) else general_pos r)"
| "general NaN = ''nan''"
| "general PInf = ''inf''"
| "general NInf = ''-inf''"

section \<open>The columns of a row\<close>

definition statistic_of :: "(string \<times> statistic) list \<Rightarrow> string \<Rightarrow> statistic result" where
  "statistic_of stats metric = (case map_of stats metric of None \<Rightarrow> Inl (KeyError metric) | Some v \<Rightarrow> Inr v)"

definition pair_columns :: "string \<Rightarrow> pyfloat \<Rightarrow> pyfloat \<Rightarrow> evidence" where
  "pair_columns label m s = [(label @ ''_mean'', JFloat m), (label @ ''_sd'', JFloat s)]"

definition mean_sd_columns :: "(string \<times> statistic) list \<Rightarrow> string \<Rightarrow> string \<Rightarrow> evidence result" where
  "mean_sd_columns stats metric label = rbind (statistic_of stats metric) (\<lambda>v. Inr (pair_columns label (sv_mean v) (sv_stddev v)))"

definition percent_columns :: "(string \<times> statistic) list \<Rightarrow> string \<Rightarrow> string \<Rightarrow> evidence result" where
  "percent_columns stats metric label =
     rbind (statistic_of stats metric) (\<lambda>v. Inr (pair_columns label (fmul (Fin 100) (sv_mean v)) (fmul (Fin 100) (sv_stddev v))))"

definition scaled_columns :: "rat \<Rightarrow> (string \<times> statistic) list \<Rightarrow> string \<Rightarrow> string \<Rightarrow> evidence result" where
  "scaled_columns divisor stats metric label =
     rbind (statistic_of stats metric) (\<lambda>v. rbind (fdiv (sv_mean v) (Fin divisor)) (\<lambda>m.
       rbind (fdiv (sv_stddev v) (Fin divisor)) (\<lambda>s. Inr (pair_columns label m s))))"

text \<open>The groups of columns in order, the first missing statistic first.\<close>

definition column_groups ::
  "(string \<times> statistic) list \<Rightarrow> (((string \<times> statistic) list \<Rightarrow> string \<Rightarrow> string \<Rightarrow> evidence result) \<times> string \<times> string) list \<Rightarrow>
    evidence result" where
  "column_groups stats gs = rbind (map_result (\<lambda>(f, metric, label). f stats metric label) gs) (\<lambda>cs. Inr (concat cs))"

definition paper_condition_row :: "condition_result \<Rightarrow> evidence result" where
  "paper_condition_row condition =
     (let config = cd_configuration condition
      in rbind (int_field config ''node_count'') (\<lambda>nodes.
         rbind (field config ''aggregation_mode'') (\<lambda>mode.
         rbind (float_field config ''aggregation_window_seconds'') (\<lambda>window.
         rbind (column_groups (cd_statistics condition)
           [(mean_sd_columns, ''scheduled_readings'', ''scheduled''), (mean_sd_columns, ''generated_readings'', ''generated''),
            (mean_sd_columns, ''virtual_unique_received_readings'', ''received''), (percent_columns, ''delivery_ratio'', ''delivery_pct''),
            (mean_sd_columns, ''collector_messages_actual'', ''actual_messages''),
            (mean_sd_columns, ''collector_messages_unique'', ''unique_messages''),
            (scaled_columns 1024, ''collector_bytes_actual'', ''actual_bytes_kib''),
            (scaled_columns 1024, ''collector_bytes_unique'', ''unique_bytes_kib''),
            (percent_columns, ''upstream_message_reduction_actual'', ''message_reduction_pct''),
            (percent_columns, ''upstream_byte_reduction_actual'', ''byte_reduction_pct''),
            (scaled_columns 1000, ''information_delay_mean_ms'', ''information_delay_s''),
            (mean_sd_columns, ''process_cpu_mean_percent'', ''gateway_cpu_pct''),
            (scaled_columns (1024 ^ 2), ''process_rss_mean_bytes'', ''gateway_rss_mib'')]) (\<lambda>columns.
           Inr ([(''node_count'', JInt nodes), (''mode'', JStr (if mode = JStr ''raw'' then ''RAW'' else ''Aggregated'')),
             (''window_seconds'', JFloat window), (''n'', JInt (int (cd_n condition)))] @ columns))))))"

definition paper_failure_row :: "(string \<times> statistic) list \<Rightarrow> evidence result" where
  "paper_failure_row stats =
     rbind (column_groups stats
       [(mean_sd_columns, ''scheduled'', ''scheduled''), (mean_sd_columns, ''generated'', ''generated''),
        (mean_sd_columns, ''received'', ''received''), (mean_sd_columns, ''absent'', ''absent''),
        (percent_columns, ''scheduled_delivery_ratio'', ''scheduled_delivery_pct''),
        (percent_columns, ''generated_delivery_ratio'', ''generated_delivery_pct''),
        (scaled_columns 1000, ''suspect_detection_ms'', ''suspect_detection_s''),
        (scaled_columns 1000, ''offline_detection_ms'', ''offline_detection_s''),
        (scaled_columns 1000, ''recovery_detection_ms'', ''recovery_detection_s''),
        (mean_sd_columns, ''healthy_peer_throughput'', ''healthy_peer_throughput_rps''),
        (mean_sd_columns, ''failed_node_resets'', ''failed_node_resets''),
        (mean_sd_columns, ''healthy_peer_non_in_order'', ''healthy_peer_sequence_anomalies'')])
       (\<lambda>columns. Inr ((''n'', JInt 3) # columns))"

section \<open>Displayed columns\<close>

definition scaling_display_columns :: "(string \<times> string) list" where
  "scaling_display_columns = [(''node_count'', ''Nodes''), (''mode'', ''Mode''), (''window_seconds'', ''Window (s)''), (''n'', ''n''),
     (''sgr'', ''Scheduled/generated/received''), (''delivery'', ''Delivery (%)''), (''actual_messages'', ''Actual messages''),
     (''actual_bytes'', ''Actual bytes (KiB)''), (''reductions'', ''Message/byte reduction (%)''),
     (''delay'', ''Information delay (s)''), (''resources'', ''CPU (%)/RSS (MiB)'')]"

definition tradeoff_display_columns :: "(string \<times> string) list" where
  "tradeoff_display_columns = [(''window_label'', ''Window''), (''n'', ''n''), (''sgr'', ''Scheduled/generated/received''),
     (''delivery'', ''Delivery (%)''), (''actual_messages'', ''Actual messages''), (''actual_bytes'', ''Actual bytes (KiB)''),
     (''reductions'', ''Message/byte reduction (%)''), (''delay'', ''Information delay (s)''), (''resources'', ''CPU (%)/RSS (MiB)'')]"

definition failure_display_columns :: "(string \<times> string) list" where
  "failure_display_columns = [(''n'', ''n''), (''sgr'', ''Scheduled/generated/received''), (''absent'', ''Absent''),
     (''delivery'', ''Scheduled/generated delivery (%)''), (''detection'', ''SUSPECT/OFFLINE/recovery (s)''),
     (''healthy'', ''Healthy throughput (readings/s)''), (''integrity'', ''Failed resets/healthy anomalies'')]"

definition is_integer :: "pyfloat \<Rightarrow> bool" where
  "is_integer x = (case x of Fin r \<Rightarrow> of_int \<lfloor>r\<rfloor> = r | _ \<Rightarrow> False)"

definition mean_sd :: "evidence \<Rightarrow> string \<Rightarrow> (pyfloat \<Rightarrow> string) \<Rightarrow> string result" where
  "mean_sd row label show = rbind (float_field row (label @ ''_mean'')) (\<lambda>m. rbind (float_field row (label @ ''_sd'')) (\<lambda>s.
     Inr (show m @ '' +/- '' @ show s)))"

definition count_pair :: "string \<Rightarrow> evidence \<Rightarrow> string result" where
  "count_pair label row = mean_sd row label (\<lambda>x. if is_integer x then fixed 0 x else fixed 1 x)"

definition pair :: "nat \<Rightarrow> string \<Rightarrow> evidence \<Rightarrow> string result" where
  "pair d label row = mean_sd row label (fixed d)"

fun join :: "string \<Rightarrow> string list \<Rightarrow> string" where
  "join sep [] = []"
| "join sep [s] = s"
| "join sep (s # t # ss) = s @ sep @ join sep (t # ss)"

definition slashed :: "(evidence \<Rightarrow> string result) list \<Rightarrow> evidence \<Rightarrow> string result" where
  "slashed fs row = rbind (map_result (\<lambda>f. f row) fs) (\<lambda>ts. Inr (join ''/'' ts))"

definition window_label :: "evidence \<Rightarrow> string result" where
  "window_label row = rbind (float_field row ''window_seconds'') (\<lambda>x. Inr (if feq x (Fin 0) then ''RAW'' else general x @ '' s''))"

text \<open>Each new column is computed from the row as extended so far.\<close>

fun add_columns :: "(string \<times> (evidence \<Rightarrow> string result)) list \<Rightarrow> evidence \<Rightarrow> evidence result" where
  "add_columns [] row = Inr row"
| "add_columns ((k, f) # cs) row = rbind (f row) (\<lambda>t. add_columns cs (dict_set k (JStr t) row))"

definition add_display_columns :: "evidence \<Rightarrow> evidence result" where
  "add_display_columns = add_columns
     [(''window_label'', window_label),
      (''sgr'', slashed [count_pair ''scheduled'', count_pair ''generated'', count_pair ''received'']),
      (''delivery'', pair 2 ''delivery_pct''), (''actual_messages'', pair 1 ''actual_messages''),
      (''actual_bytes'', pair 1 ''actual_bytes_kib''),
      (''reductions'', slashed [pair 2 ''message_reduction_pct'', pair 2 ''byte_reduction_pct'']),
      (''delay'', pair 3 ''information_delay_s''), (''resources'', slashed [pair 3 ''gateway_cpu_pct'', pair 1 ''gateway_rss_mib''])]"

definition add_failure_display_columns :: "evidence \<Rightarrow> evidence result" where
  "add_failure_display_columns = add_columns
     [(''sgr'', slashed [count_pair ''scheduled'', count_pair ''generated'', count_pair ''received'']),
      (''absent'', count_pair ''absent''),
      (''delivery'', slashed [pair 2 ''scheduled_delivery_pct'', pair 2 ''generated_delivery_pct'']),
      (''detection'', slashed [pair 3 ''suspect_detection_s'', pair 3 ''offline_detection_s'', pair 3 ''recovery_detection_s'']),
      (''healthy'', pair 3 ''healthy_peer_throughput_rps''),
      (''integrity'', slashed [pair 0 ''failed_node_resets'', pair 0 ''healthy_peer_sequence_anomalies''])]"

definition prepare_display_frame :: "evidence list \<Rightarrow> evidence list result" where
  "prepare_display_frame frame =
     map_result (if list_ex (\<lambda>row. map_of row ''window_seconds'' \<noteq> None) frame then add_display_columns else add_failure_display_columns) frame"

section \<open>Renderings\<close>

text \<open>\<open>s.replace(old, new)\<close> for a nonempty \<open>old\<close>: the leftmost occurrence, then the rest behind it.\<close>

fun replace_all :: "string \<Rightarrow> string \<Rightarrow> string \<Rightarrow> string" where
  "replace_all old new [] = []"
| "replace_all old new (c # s) =
     (if old \<noteq> [] \<and> prefix old (c # s) then new @ replace_all old new (drop (length old - 1) s) else c # replace_all old new s)"

definition backslash :: char where
  "backslash = CHR 0x5C"

definition latex_escape :: "string \<Rightarrow> string" where
  "latex_escape text =
     replace_all ''&'' [backslash, CHR ''&''] (replace_all ''%'' [backslash, CHR ''%'']
       (replace_all ''_'' [backslash, CHR ''_''] (replace_all [backslash] (backslash # ''textbackslash{}'') text)))"

definition markdown_table :: "string list \<Rightarrow> string list list \<Rightarrow> string" where
  "markdown_table columns rows =
     (let line = \<lambda>cells. ''| '' @ join '' | '' cells @ '' |''
      in join [newline] ([line columns, line (map (\<lambda>_. ''---'') columns)] @ map line rows) @ [newline])"

definition latex_line :: "string list \<Rightarrow> string" where
  "latex_line cells = join '' & '' cells @ '' '' @ [backslash, backslash]"

definition latex_table :: "string list \<Rightarrow> string list list \<Rightarrow> string" where
  "latex_table columns rows =
     join [newline]
       ([(backslash # ''begin{tabular}{'') @ replicate (length columns) CHR ''l'' @ ''}'', backslash # ''toprule'',
         latex_line (map latex_escape columns), backslash # ''midrule''] @
        map (\<lambda>cells. latex_line (map (\<lambda>t. replace_all ''+/-'' (''$'' @ [backslash] @ ''pm$'') (latex_escape t)) cells)) rows @
        [backslash # ''bottomrule'', backslash # ''end{tabular}'', ''''])"

record paper_table =
  pt_table_id :: string
  pt_csv :: string
  pt_markdown :: string
  pt_latex :: string

text \<open>One table: its CSV has every column, the renderings the displayed ones under their labels. The texts to
  write come with their file names.\<close>

definition render_table :: "(json \<Rightarrow> string) \<Rightarrow> (evidence list \<Rightarrow> string) \<Rightarrow> string \<Rightarrow> evidence list \<Rightarrow> (string \<times> string) list \<Rightarrow>
    (string \<times> string) list result" where
  "render_table str to_csv name frame columns =
     rbind (prepare_display_frame frame) (\<lambda>display.
     rbind (map_result (\<lambda>row. map_result (\<lambda>c. rbind (field row (fst c)) (\<lambda>v. Inr (str v))) columns) display) (\<lambda>cells.
       Inr [(name @ ''.csv'', to_csv frame), (name @ ''.md'', markdown_table (map snd columns) cells),
            (name @ ''.tex'', latex_table (map snd columns) cells)]))"

definition scale_ids :: "string list" where
  "scale_ids = [''scale-n005-raw'', ''scale-n005-agg05'', ''scale-n025-raw'', ''scale-n025-agg05'', ''scale-n100-raw'', ''scale-n100-agg05'']"

definition tradeoff_ids :: "string list" where
  "tradeoff_ids = [''scale-n025-raw'', ''tradeoff-n025-agg01'', ''scale-n025-agg05'', ''tradeoff-n025-agg10'']"

definition condition_row :: "(string \<times> condition_result) list \<Rightarrow> string \<Rightarrow> evidence result" where
  "condition_row conditions k = (case map_of conditions k of None \<Rightarrow> Inl (KeyError k) | Some c \<Rightarrow> paper_condition_row c)"

definition table_entry :: "string \<Rightarrow> string \<Rightarrow> paper_table" where
  "table_entry dir name = \<lparr>pt_table_id = name, pt_csv = slash dir (name @ ''.csv''), pt_markdown = slash dir (name @ ''.md''),
     pt_latex = slash dir (name @ ''.tex'')\<rparr>"

definition write_paper_tables :: "(json \<Rightarrow> string) \<Rightarrow> (evidence list \<Rightarrow> string) \<Rightarrow> string \<Rightarrow> (string \<times> condition_result) list \<Rightarrow>
    failure_summary \<Rightarrow> (paper_table list \<times> (string \<times> string) list) result" where
  "write_paper_tables str to_csv dir conditions failure =
     rbind (map_result (condition_row conditions) scale_ids) (\<lambda>scale.
     rbind (map_result (condition_row conditions) tradeoff_ids) (\<lambda>tradeoff.
     rbind (paper_failure_row (fs_statistics failure)) (\<lambda>failure_row.
     rbind (map_result (\<lambda>(name, frame, columns). render_table str to_csv name frame columns)
       [(''table_a_scaling_aggregation'', scale, scaling_display_columns),
        (''table_b_aggregation_tradeoff'', tradeoff, tradeoff_display_columns),
        (''table_c_failure_recovery'', [failure_row], failure_display_columns)]) (\<lambda>texts.
       Inr (map (table_entry dir) [''table_a_scaling_aggregation'', ''table_b_aggregation_tradeoff'', ''table_c_failure_recovery''],
         concat texts)))))"

section \<open>Escaping is one pass\<close>

definition escape_char :: "char \<Rightarrow> string" where
  "escape_char c = (if c = backslash then backslash # ''textbackslash{}''
     else if c \<in> {CHR ''_'', CHR ''%'', CHR ''&''} then [backslash, c] else [c])"

lemma replace_all_char: "replace_all [a] new s = concat (map (\<lambda>c. if c = a then new else [c]) s)"
  by (induction s) auto

lemma concat_map_concat: "concat (map f (concat (map g s))) = concat (map (\<lambda>c. concat (map f (g c))) s)"
  by (induction s) auto

lemma latex_escape_chars: "latex_escape s = concat (map escape_char s)"
  unfolding latex_escape_def replace_all_char concat_map_concat
  by (rule arg_cong [of _ _ concat], rule map_cong [OF refl]) (simp add: escape_char_def backslash_def)

lemma escape_char_split:
  assumes "escape_char c @ u = escape_char d @ v"
  shows "c = d \<and> u = v"
  using assms by (auto simp: escape_char_def backslash_def split: if_splits)

text \<open>The four replacements of the LaTeX escape do not interfere: they are one pass that escapes each
  character on its own (none escapes a backslash that another put there), and no two texts have the same
  escaped form.\<close>

theorem latex_escape_faithful: "latex_escape s = concat (map escape_char s) \<and> inj latex_escape"
proof
  show "latex_escape s = concat (map escape_char s)" by (rule latex_escape_chars)
  have "concat (map escape_char a) = concat (map escape_char b) \<Longrightarrow> a = b" for a b
  proof (induction a arbitrary: b)
    case Nil
    then show ?case by (cases b) (auto simp: escape_char_def split: if_splits)
  next
    case (Cons c a)
    then show ?case
    proof (cases b)
      case Nil
      then show ?thesis using Cons.prems by (auto simp: escape_char_def split: if_splits)
    next
      case (Cons d b')
      then show ?thesis using Cons.prems Cons.IH escape_char_split by auto
    qed
  qed
  then show "inj latex_escape" unfolding inj_def latex_escape_chars by blast
qed

section \<open>Printed numbers\<close>

definition read_unsigned :: "string \<Rightarrow> rat" where
  "read_unsigned s =
     (let whole = takeWhile (\<lambda>c. c \<noteq> CHR ''.'') s; part = drop (Suc (length whole)) s
      in of_int (decimal (whole @ part)) / 10 ^ length part)"

definition read_number :: "string \<Rightarrow> rat" where
  "read_number s = (case s of CHR ''-'' # t \<Rightarrow> - read_unsigned t | _ \<Rightarrow> read_unsigned s)"

lemma decimal_append_aux:
  "foldl (\<lambda>a c. 10 * a + (int (of_char c) - 48)) x s = x * 10 ^ length s + foldl (\<lambda>a c. 10 * a + (int (of_char c) - 48)) 0 s"
proof (induction s rule: rev_induct)
  case (snoc c s)
  then show ?case by (simp add: algebra_simps)
qed simp

lemma decimal_append: "decimal (s @ t) = decimal s * 10 ^ length t + decimal t"
  unfolding decimal_def foldl_append by (subst decimal_append_aux) simp

lemma decimal_str_of_nat [simp]: "decimal (str_of_nat n) = int n"
proof (induction n rule: str_of_nat.induct)
  case (1 n)
  have d: "decimal [digit_char k] = int k" if "k < 10" for k using that by (simp add: decimal_def digit_char_code)
  show ?case
  proof (cases "n < 10")
    case True
    then show ?thesis by (simp add: str_of_nat.simps [of n] d)
  next
    case False
    have "int (n div 10) * 10 + int (n mod 10) = int n" by presburger
    then show ?thesis using False "1.IH" by (simp add: str_of_nat.simps [of n] decimal_append d)
  qed
qed

lemma decimal_zeros [simp]: "decimal (replicate k CHR ''0'' @ s) = decimal s"
  by (induction k) (simp_all add: decimal_def)

lemma str_of_nat_length: "n < 10 ^ d \<Longrightarrow> 0 < d \<Longrightarrow> length (str_of_nat n) \<le> d"
proof (induction n arbitrary: d rule: str_of_nat.induct)
  case (1 n)
  show ?case
  proof (cases "n < 10")
    case False
    have "d \<noteq> 1" using False "1.prems"(1) by auto
    then obtain k where k: "d = Suc k" "0 < k" using "1.prems"(2) by (cases d) auto
    then have "n div 10 < 10 ^ k" using "1.prems"(1) by (simp add: less_mult_imp_div_less mult.commute)
    then show ?thesis using "1.IH" [OF False _ k(2)] False k(1) by (simp add: str_of_nat.simps [of n])
  qed (use "1.prems" in \<open>simp add: str_of_nat.simps [of n]\<close>)
qed

lemma plain_digits: "c \<in> set (str_of_nat n) \<Longrightarrow> c \<noteq> CHR ''.'' \<and> c \<noteq> CHR ''-''"
  using str_of_nat_digits [of c n] by auto

lemma read_unsigned_point: "read_unsigned (point d n) = of_nat n / 10 ^ d"
proof (cases "d = 0")
  case True
  have "takeWhile (\<lambda>c. c \<noteq> CHR ''.'') (str_of_nat n) = str_of_nat n"
    using plain_digits takeWhile_eq_all_conv [of "\<lambda>c. c \<noteq> CHR ''.''" "str_of_nat n"] by blast
  then have "read_unsigned (str_of_nat n) = of_nat n" unfolding read_unsigned_def Let_def by (simp only:) simp
  then show ?thesis using True by (simp add: point_def)
next
  case False
  let ?w = "str_of_nat (n div 10 ^ d)" and ?p = "pad_zeros d (str_of_nat (n mod 10 ^ d))"
  have w: "takeWhile (\<lambda>c. c \<noteq> CHR ''.'') (?w @ CHR ''.'' # ?p) = ?w" using plain_digits by (simp add: takeWhile_append)
  have len: "length ?p = d" using str_of_nat_length [of "n mod 10 ^ d" d] False by (simp add: pad_zeros_def)
  have "decimal (?w @ ?p) = int n"
    unfolding decimal_append len
    using arg_cong [OF div_mult_mod_eq [of n "10 ^ d"], of int] by (simp add: pad_zeros_def)
  then show ?thesis using False len by (simp add: read_unsigned_def point_def w)
qed

lemma sign_distance: "\<bar>(if r < 0 then - q else q) - r\<bar> = \<bar>q - \<bar>r\<bar>\<bar>" for q r :: rat
  by (simp add: abs_if)

lemma round_half_even_error: "\<bar>of_int (round_half_even x) - x\<bar> \<le> 1 / 2"
  using floor_correct [of x] by (auto simp: round_half_even_def Let_def abs_le_iff)

lemma read_number_point: "read_number (point d n) = of_nat n / 10 ^ d" "read_number (CHR ''-'' # point d n) = - (of_nat n / 10 ^ d)"
proof -
  obtain c s where cs: "point d n = c # s" "c \<in> set (str_of_nat (n div 10 ^ d))"
    by (cases "str_of_nat (n div 10 ^ d)") (auto simp: point_def)
  then have "c \<noteq> CHR ''-''" using plain_digits by blast
  then have "read_number (point d n) = read_unsigned (point d n)" unfolding cs(1) by (simp add: read_number_def split: char.splits bool.splits)
  then show "read_number (point d n) = of_nat n / 10 ^ d" by (simp add: read_unsigned_point)
  show "read_number (CHR ''-'' # point d n) = - (of_nat n / 10 ^ d)" by (simp add: read_number_def read_unsigned_point)
qed

text \<open>A printed mean or deviation is the number rounded to the digits shown: read back, it differs from the
  float by at most half a unit of the last digit, and it is the float itself when that has no more digits.\<close>

theorem printed_number_accurate:
  "\<bar>read_number (fixed d (Fin r)) - r\<bar> \<le> 1 / (2 * 10 ^ d) \<and> read_number (fixed d (Fin (of_int k / 10 ^ d))) = of_int k / 10 ^ d"
proof
  define m where "m = round_half_even (\<bar>r\<bar> * 10 ^ d)"
  have m0: "0 \<le> m" unfolding m_def by (rule round_half_even_ge) simp
  have v: "read_number (fixed d (Fin r)) = (if r < 0 then - (of_int m / 10 ^ d) else of_int m / 10 ^ d)"
    unfolding fixed.simps m_def [symmetric] using m0 by (simp add: read_number_point)
  have "\<bar>of_int m / 10 ^ d - \<bar>r\<bar>\<bar> = \<bar>of_int m - \<bar>r\<bar> * 10 ^ d\<bar> / 10 ^ d" by (simp add: abs_div_pos diff_divide_distrib)
  also have "\<dots> \<le> 1 / 2 / 10 ^ d" using round_half_even_error [of "\<bar>r\<bar> * 10 ^ d"] by (unfold m_def, intro divide_right_mono) auto
  finally have "\<bar>of_int m / 10 ^ d - \<bar>r\<bar>\<bar> \<le> 1 / (2 * 10 ^ d)" by simp
  moreover have "\<bar>read_number (fixed d (Fin r)) - r\<bar> = \<bar>of_int m / 10 ^ d - \<bar>r\<bar>\<bar>"
    unfolding v by (rule sign_distance)
  ultimately show "\<bar>read_number (fixed d (Fin r)) - r\<bar> \<le> 1 / (2 * 10 ^ d)" by (simp only:)
  have "\<bar>of_int k / 10 ^ d :: rat\<bar> * 10 ^ d = of_int \<bar>k\<bar>" by simp
  then have "round_half_even (\<bar>of_int k / 10 ^ d\<bar> * 10 ^ d) = \<bar>k\<bar>" by (simp only: round_half_even_int)
  then show "read_number (fixed d (Fin (of_int k / 10 ^ d))) = of_int k / 10 ^ d"
    by (auto simp: read_number_point divide_less_0_iff abs_if)
qed

end
