(* ===== verification/Campaign_Analysis.thy ===== *)
theory Campaign_Analysis
  imports Campaign_Tables
begin

text \<open>
  The analysis of the whole final campaign (\<^verbatim>\<open>analyze_final_campaign\<close> of \<^verbatim>\<open>src/analysis/final_campaign.py\<close> and
  \<^verbatim>\<open>create_campaign_figures\<close> of \<^verbatim>\<open>src/analysis/final_campaign_plots.py\<close>): the physical validation it quotes, the
  figures it files, the written report and the order in which evidence is read, outputs are written and the
  evidence is read again. Fixed descriptive sentences among the results (reasons, purposes) are left out. Drawing (matplotlib), the CSV and JSON texts of its outputs, \<open>rglob\<close> and SHA-256 are
  parameters.
\<close>

section \<open>Physical validation\<close>

fun deep_field :: "evidence \<Rightarrow> string list \<Rightarrow> json result" where
  "deep_field d [] = Inr (JObj d)"
| "deep_field d [k] = field d k"
| "deep_field d (k # l # ks) = rbind (obj_field d k) (\<lambda>e. deep_field e (l # ks))"

definition path_exists :: "disk \<Rightarrow> string \<Rightarrow> bool" where
  "path_exists w p \<longleftrightarrow> p \<in> set (snd w) \<or> fst w p \<noteq> None"

record physical =
  pv_classification :: json
  pv_analysis_summary :: string
  pv_figures :: "string list"
  pv_key_values :: evidence

definition physical_validation :: "campaign_readers \<Rightarrow> disk \<Rightarrow> string \<Rightarrow> string \<Rightarrow> physical result" where
  "physical_validation rd w analysis_dir figures_dir =
     (let summary_path = slash analysis_dir ''analysis_summary.json'';
          recommended = [slash figures_dir ''relative_humidity_timeseries.pdf'', slash figures_dir ''door_opening_humidity_focus.pdf'']
      in rbind (read_campaign_json rd (fst w) summary_path) (\<lambda>summary.
         case filter (\<lambda>p. \<not> path_exists w p) recommended of
           p # _ \<Rightarrow> campaign_error (''missing physical-validation figure: '' @ p)
         | [] \<Rightarrow>
           rbind (obj_field summary ''bathroom_intervention'') (\<lambda>intervention.
           rbind (field summary ''classification'') (\<lambda>classification.
           rbind (map_result (\<lambda>(k, p). rbind (deep_field intervention p) (\<lambda>v. Inr (k, v)))
             [(''bathroom_baseline_rh_pct'', [''baseline'', ''humidity_pct'', ''mean'']),
              (''bathroom_peak_rh_pct'', [''peaks_during_reported_shower_interval'', ''humidity_pct'', ''value'']),
              (''bathroom_peak_delta_points'', [''peaks_during_reported_shower_interval'', ''humidity_pct'', ''delta_from_baseline_mean'']),
              (''bathroom_five_minute_post_door_change_points'', [''door_opening_response'', ''bathroom_rh_5_minute_change'']),
              (''room_five_minute_post_door_change_points'', [''door_opening_response'', ''room_rh_5_minute_change''])]) (\<lambda>values.
             Inr \<lparr>pv_classification = classification, pv_analysis_summary = summary_path, pv_figures = recommended,
               pv_key_values = values\<rparr>)))))"

section \<open>Figures\<close>

record campaign_figure =
  cf_figure_id :: string
  cf_pdf :: string
  cf_png :: string

definition figure_ids :: "string list" where
  "figure_ids = [''scaling_actual_upstream'', ''aggregation_window_tradeoff'', ''gateway_resources_scaling'', ''failure_recovery_timeline'']"

definition save_figure :: "string \<Rightarrow> string \<Rightarrow> campaign_figure" where
  "save_figure dir name = \<lparr>cf_figure_id = name, cf_pdf = slash dir (name @ ''.pdf''), cf_png = slash dir (name @ ''.png'')\<rparr>"

text \<open>Writing several named texts below a directory, in order.\<close>

definition write_below :: "string \<Rightarrow> (string \<times> string) list \<Rightarrow> disk \<Rightarrow> disk" where
  "write_below d ns w = foldl (\<lambda>u p. write_file (slash d (fst p)) (snd p) u) w ns"

definition create_campaign_figures ::
  "(string \<Rightarrow> evidence list \<Rightarrow> failure_summary \<Rightarrow> string) \<Rightarrow> evidence list \<Rightarrow> failure_summary \<Rightarrow> string \<Rightarrow> disk \<Rightarrow>
    (campaign_figure list \<times> disk) result" where
  "create_campaign_figures draw rows failure dir w =
     rbind (mkdir dir w) (\<lambda>w1.
       Inr (map (save_figure dir) figure_ids,
         write_below dir (concat (map (\<lambda>i. [(i @ ''.pdf'', draw (i @ ''.pdf'') rows failure), (i @ ''.png'', draw (i @ ''.png'') rows failure)])
           figure_ids)) w1))"

section \<open>The report\<close>

record source_state =
  ss_raw_campaign :: tree_digest_result
  ss_processed_run_outputs :: tree_digest_result
  ss_manifest_sha256 :: string
  ss_summary_sha256 :: string

record campaign_result =
  rs_campaign_id :: json
  rs_research_question :: json
  rs_git_commit :: json
  rs_source_directory :: string
  rs_methodology :: evidence
  rs_source_integrity :: source_state
  rs_campaign_integrity :: campaign_totals
  rs_condition_statistics :: "(string \<times> condition_result) list"
  rs_failure_recovery :: failure_summary
  rs_physical_validation :: physical
  rs_tables :: "paper_table list"
  rs_figures :: "campaign_figure list"

definition campaign_limitations :: "string list" where
  "campaign_limitations =
     [''Controlled performance runs used virtual nodes over localhost TCP on one macOS host; they do not measure Wi-Fi airtime, radio energy, or Internet behavior.'',
      ''The tested scale ends at 100 virtual nodes, so no claim is made beyond that load.'',
      ''Only three repetitions per condition were run; uncertainty is descriptive sample SD, not a population confidence interval.'',
      ''Configured aggregation holding is information delay and must not be interpreted as network latency.'',
      ''Application loss/delay experiments were explicitly deferred and are not part of this campaign.'',
      ''The physical shower-cycle dataset is exploratory, unrandomized, and not sensor-calibrated or environmentally controlled.'',
      ''Gateway CPU/RSS values characterize the campaign host and implementation under this workload, not Raspberry Pi resource use.'']"

definition supported_claims :: "string list" where
  "supported_claims =
     [''Across 5, 25, and 100 tested virtual nodes, RAW upstream traffic increased with the scheduled reading load.'',
      ''Five-second edge aggregation reduced actual collector messages and bytes substantially while preserving scheduled delivery in all non-failure runs.'',
      ''At 25 nodes, longer aggregation windows reduced traffic further while increasing information delay approximately with the configured window.'',
      ''During a predetermined single-node outage, all generated readings were delivered and 24 healthy peers maintained in-order throughput.'',
      ''The three-node physical system captured a localized environmental RH response end to end.'']"

definition unsupported_claims :: "string list" where
  "unsupported_claims =
     [''Scalability beyond 100 virtual nodes.'',
      ''Wi-Fi packet-loss tolerance, RF performance, energy savings, or battery lifetime.'',
      ''Physical one-way network latency from unsynchronized ESP32, Pi, and Mac clocks.'',
      ''Causal environmental conclusions from the exploratory shower-cycle measurement.'',
      ''Production behavior under Internet, multi-gateway, adversarial, or application-impairment conditions not included in the frozen matrix.'']"

text \<open>\<open>f"{n:,}"\<close> on an \<open>int\<close>.\<close>

fun group_digits :: "string \<Rightarrow> string" where
  "group_digits (a # b # c # d # s) = a # b # c # CHR '','' # group_digits (d # s)"
| "group_digits s = s"

definition thousands :: "int \<Rightarrow> string" where
  "thousands i = (if i < 0 then ''-'' else '''') @ rev (group_digits (rev (str_of_nat (nat \<bar>i\<bar>))))"

definition bullets :: "string list \<Rightarrow> string" where
  "bullets lines = join [newline] (map (\<lambda>t. ''- '' @ t) lines)"

definition condition_mean :: "(string \<times> condition_result) list \<Rightarrow> string \<Rightarrow> string \<Rightarrow> pyfloat result" where
  "condition_mean conditions c metric =
     (case map_of conditions c of None \<Rightarrow> Inl (KeyError c)
      | Some r \<Rightarrow> rbind (statistic_of (cd_statistics r) metric) (\<lambda>v. Inr (sv_mean v)))"

definition seconds_text :: "(string \<times> statistic) list \<Rightarrow> string \<Rightarrow> string result" where
  "seconds_text stats metric =
     rbind (statistic_of stats metric) (\<lambda>v. rbind (fdiv (sv_mean v) (Fin 1000)) (\<lambda>m. rbind (fdiv (sv_stddev v) (Fin 1000)) (\<lambda>s.
       Inr (fixed 3 m @ '' +/- '' @ fixed 3 s @ '' s''))))"

definition render_final_results :: "(json \<Rightarrow> string) \<Rightarrow> campaign_result \<Rightarrow> string result" where
  "render_final_results str r =
     (let t = rs_campaign_integrity r; cs = rs_condition_statistics r; stats = fs_statistics (rs_failure_recovery r);
          windows = [''tradeoff-n025-agg01'', ''scale-n025-agg05'', ''tradeoff-n025-agg10'']
      in rbind (condition_mean cs ''scale-n100-agg05'' ''upstream_message_reduction_actual'') (\<lambda>msg100.
         rbind (condition_mean cs ''scale-n100-agg05'' ''upstream_byte_reduction_actual'') (\<lambda>bytes100.
         rbind (seconds_text stats ''suspect_detection_ms'') (\<lambda>suspect.
         rbind (seconds_text stats ''offline_detection_ms'') (\<lambda>offline.
         rbind (seconds_text stats ''recovery_detection_ms'') (\<lambda>recovery.
         rbind (map_result (\<lambda>c. condition_mean cs c ''upstream_message_reduction_actual'') windows) (\<lambda>reductions.
         rbind (map_result (\<lambda>c. rbind (condition_mean cs c ''information_delay_mean_ms'') (\<lambda>x. fdiv x (Fin 1000))) windows) (\<lambda>delays.
         rbind (rbind (float_field (pv_key_values (rs_physical_validation r)) ''bathroom_baseline_rh_pct'') (\<lambda>x. Inr (fixed 2 x))) (\<lambda>baseline.
         rbind (rbind (float_field (pv_key_values (rs_physical_validation r)) ''bathroom_peak_rh_pct'') (\<lambda>x. Inr (fixed 2 x))) (\<lambda>peak.
           Inr (join [newline]
            [''# Final controlled campaign evidence'',
             '''',
             ''## Experimental question'',
             '''',
             str (rs_research_question r),
             '''',
             ''## Frozen methodology'',
             '''',
             ''The campaign is a controlled final virtual-node matrix frozen at Git commit'',
             ''`'' @ str (rs_git_commit r) @ ''`. It used nine conditions, three repetitions per condition,'',
             ''seeds 662/663/664, a 60 s warm-up, a 300 s measurement window, and 1 Hz sampling.'',
             ''Reported uncertainty is sample standard deviation across the three repetitions. Actual collector'',
             ''messages and bytes, including retransmissions, are the primary network-efficiency quantities;'',
             ''unique logical records and bytes are retained separately. Aggregation holding is reported as'',
             ''information delay, not network latency.'',
             '''',
             ''## Campaign integrity'',
             '''',
             ''All '' @ str_of_int (ct_run_count t) @ '' runs passed scientific admission. The campaign scheduled '' @ thousands (ct_scheduled t) @ '' readings, generated '' @ thousands (ct_generated t) @ '', and uniquely received '' @ thousands (ct_received t) @ ''. It recorded '' @ thousands (ct_messages_actual t) @ '' actual collector messages and '' @ thousands (ct_bytes_actual t) @ '' actual collector bytes. There were zero duplicate record'',
             ''IDs, invalid evidence counters, queue drops, abandoned records, failed admission checks, and'',
             ''warnings. Actual and unique collector counts were equal in this campaign, showing no observed'',
             ''retransmission duplicates while preserving the accounting distinction.'',
             '''',
             ''## Principal scaling result'',
             '''',
             ''RAW actual upstream messages increased from 1,500 at 5 nodes to 30,000 at 100 nodes, exactly'',
             ''tracking the 20x tested load increase. RAW actual bytes increased from approximately 676 kB to'',
             ''13.51 MB. Five-second aggregation kept mean actual messages near 56-58 per run across 5, 25, and'',
             ''100 nodes. At 100 nodes it reduced actual messages by '' @ fixed 2 (fmul (Fin 100) msg100) @ ''% and actual bytes by'',
             fixed 2 (fmul (Fin 100) bytes100) @ ''% while preserving 100% scheduled delivery. This supports performance only'',
             ''through the tested 100-node load.'',
             '''',
             ''## Principal aggregation result'',
             '''',
             ''At 25 nodes, mean actual-message reductions for 1 s, 5 s, and 10 s windows were '' @ fixed 2 (fmul (Fin 100) (reductions ! 0)) @ ''%, '' @ fixed 2 (fmul (Fin 100) (reductions ! 1)) @ ''%, and '' @ fixed 2 (fmul (Fin 100) (reductions ! 2)) @ ''%. Mean information delays were '' @ fixed 3 (delays ! 0) @ '' s, '' @ fixed 3 (delays ! 1) @ '' s, and '' @ fixed 3 (delays ! 2) @ '' s, respectively. Delivery'',
             ''was 100% in every non-failure condition. Longer windows therefore bought diminishing additional'',
             ''traffic reduction at approximately proportional information delay.'',
             '''',
             ''## Principal failure/recovery result'',
             '''',
             ''The predetermined 90 s outage removed exactly 90 scheduled readings per run; these were not'',
             ''packet loss. Each run scheduled 7,500, generated 7,410, and uniquely received all 7,410 generated'',
             ''readings. Scheduled delivery was 98.8%, while generated-reading delivery was 100%. Mean SUSPECT'',
             ''detection was '' @ suspect @ '', OFFLINE detection was '' @ offline @ '', and recovery detection was'',
             recovery @ ''. All 24 healthy peers remained'',
             ''in-order at approximately 24 readings/s. The recovered node produced one expected sequence RESET'',
             ''per run.'',
             '''',
             ''## Physical application validation'',
             '''',
             ''The separate exploratory three-node physical measurement demonstrates end-to-end environmental'',
             ''sensing but is not a controlled performance experiment. Bathroom RH rose from a baseline mean of'',
             baseline @ ''% to '' @ peak @ ''%. The recommended physical figure is'',
             ''`relative_humidity_timeseries.pdf`; `door_opening_humidity_focus.pdf` is optional if space permits.'',
             '''',
             ''## Limitations'',
             '''',
             bullets campaign_limitations,
             '''',
             ''## Claims directly supported by evidence'',
             '''',
             bullets supported_claims,
             '''',
             ''## Claims not supported by evidence'',
             '''',
             bullets unsupported_claims,
             '''',
             ''## Recommended paper figures'',
             '''',
             ''1. Actual upstream scaling: RAW versus 5 s aggregation.'',
             ''2. Aggregation-window traffic/information-delay tradeoff.'',
             ''3. Gateway process resource use across the tested node counts.'',
             ''4. Failure/recovery timeline with healthy-peer throughput.'',
             ''5. One physical-validation RH figure; use the door-opening close-up only if space permits.'',
             '''',
             ''## Recommended paper tables'',
             '''',
             ''1. Scaling plus 5 s aggregation summary.'',
             ''2. 25-node aggregation-window tradeoff.'',
             ''3. Failure/recovery summary.'',
             ''''])))))))))))"

section \<open>The analysis\<close>

record campaign_env =
  ce_readers :: campaign_readers
  ce_series :: series
  ce_sha :: "string \<Rightarrow> string"
  ce_rglob :: "files \<Rightarrow> string \<Rightarrow> string list"
  ce_to_csv :: "evidence list \<Rightarrow> string"
  ce_timeseries_csv :: "throughput_row list \<Rightarrow> string"
  ce_events_csv :: "(string \<times> int \<times> string \<times> pyfloat) list \<Rightarrow> string"
  ce_dumps :: "campaign_result \<Rightarrow> string"
  ce_draw :: "string \<Rightarrow> evidence list \<Rightarrow> failure_summary \<Rightarrow> string"

definition ANALYSIS_ID :: string where
  "ANALYSIS_ID = ''campaign-analysis-v1''"

definition processed_input_paths :: "evidence list \<Rightarrow> string list result" where
  "processed_input_paths admissions =
     rbind (map_result (\<lambda>a. str_field a ''processed_directory'') admissions) (\<lambda>ds.
       Inr (concat (map (\<lambda>d. map (slash d) [''metrics.json'', ''measurement_readings.csv'', ''measurement_upstream_unique.csv'']) ds)))"

definition sha256_file :: "(string \<Rightarrow> string) \<Rightarrow> files \<Rightarrow> string \<Rightarrow> string result" where
  "sha256_file sha fs p = rbind (open_text fs p) (\<lambda>t. Inr (sha t))"

definition source_digests :: "(string \<Rightarrow> string) \<Rightarrow> files \<Rightarrow> string list \<Rightarrow> string list \<Rightarrow> string \<Rightarrow> string \<Rightarrow> source_state result" where
  "source_digests sha fs raw_paths processed_paths raw_dir processed_root =
     rbind (tree_digest sha fs raw_paths raw_dir) (\<lambda>a.
     rbind (tree_digest sha fs processed_paths processed_root) (\<lambda>b.
     rbind (sha256_file sha fs (slash raw_dir ''campaign_manifest.json'')) (\<lambda>m.
     rbind (sha256_file sha fs (slash raw_dir ''campaign_summary.json'')) (\<lambda>s.
       Inr \<lparr>ss_raw_campaign = a, ss_processed_run_outputs = b, ss_manifest_sha256 = m, ss_summary_sha256 = s\<rparr>))))"

definition methodology_fields :: "string list" where
  "methodology_fields = [''repetitions_per_condition'', ''repetition_seeds'', ''warmup_seconds'', ''measurement_seconds'', ''sampling_interval_ms'']"

record campaign_inputs =
  ci_manifest :: evidence
  ci_raw_paths :: "string list"
  ci_processed_paths :: "string list"
  ci_before :: source_state
  ci_rows :: "evidence list"
  ci_conditions :: "(string \<times> condition_result) list"
  ci_integrity :: campaign_totals
  ci_failure :: failure_summary
  ci_physical :: physical

text \<open>Everything up to the first write.\<close>

definition campaign_inputs_of :: "campaign_env \<Rightarrow> string \<Rightarrow> string \<Rightarrow> string \<Rightarrow> string \<Rightarrow> disk \<Rightarrow> campaign_inputs result" where
  "campaign_inputs_of env raw_dir processed_root exploratory_analysis exploratory_figures w =
     (let rd = ce_readers env; fs = fst w
      in rbind (read_campaign_json rd fs (slash raw_dir ''campaign_manifest.json'')) (\<lambda>manifest.
         rbind (read_campaign_json rd fs (slash raw_dir ''campaign_summary.json'')) (\<lambda>summary.
         rbind (validate_campaign_headers manifest summary) (\<lambda>_.
         rbind (rbind (list_field summary ''admissions'') objects) (\<lambda>admissions.
         rbind (processed_input_paths admissions) (\<lambda>processed_paths.
         let raw_paths = ce_rglob env fs raw_dir
         in rbind (source_digests (ce_sha env) fs raw_paths processed_paths raw_dir processed_root) (\<lambda>before.
         rbind (map_result (load_campaign_run rd fs raw_dir manifest) admissions) (\<lambda>runs.
         rbind (validate_campaign_membership runs manifest) (\<lambda>_.
         rbind (run_frame runs manifest) (\<lambda>rows.
         rbind (condition_statistics (ce_series env) runs manifest) (\<lambda>conditions.
         rbind (campaign_integrity runs) (\<lambda>integrity.
         rbind (failure_analysis (ce_series env) runs) (\<lambda>failure.
         rbind (physical_validation rd w exploratory_analysis exploratory_figures) (\<lambda>physical.
           Inr \<lparr>ci_manifest = manifest, ci_raw_paths = raw_paths, ci_processed_paths = processed_paths, ci_before = before, ci_rows = rows,
             ci_conditions = conditions, ci_integrity = integrity, ci_failure = failure, ci_physical = physical\<rparr>))))))))))))))"

definition campaign_result_of :: "campaign_inputs \<Rightarrow> string \<Rightarrow> paper_table list \<Rightarrow> campaign_figure list \<Rightarrow> campaign_result result" where
  "campaign_result_of c raw_dir tables figures =
     (let m = ci_manifest c
      in rbind (field m ''campaign_id'') (\<lambda>cid. rbind (field m ''research_question'') (\<lambda>q. rbind (field m ''git_commit'') (\<lambda>commit.
         rbind (map_result (\<lambda>k. rbind (field m k) (\<lambda>v. Inr (k, v))) methodology_fields) (\<lambda>methodology.
           Inr \<lparr>rs_campaign_id = cid, rs_research_question = q, rs_git_commit = commit, rs_source_directory = raw_dir,
             rs_methodology = methodology, rs_source_integrity = ci_before c, rs_campaign_integrity = ci_integrity c,
             rs_condition_statistics = ci_conditions c, rs_failure_recovery = ci_failure c, rs_physical_validation = ci_physical c,
             rs_tables = tables, rs_figures = figures\<rparr>)))))"

text \<open>Everything from the first directory on, and the second look at the evidence.\<close>

definition write_campaign_outputs ::
  "campaign_env \<Rightarrow> string \<Rightarrow> string \<Rightarrow> string \<Rightarrow> string \<Rightarrow> campaign_inputs \<Rightarrow> disk \<Rightarrow> (campaign_result \<times> string \<times> string \<times> disk) result" where
  "write_campaign_outputs env raw_dir processed_root output_dir figures_dir c w =
     rbind (mkdir output_dir w) (\<lambda>w1.
     let str = cg_str (ce_readers env);
         w2 = write_below output_dir
           [(''run_metrics.csv'', ce_to_csv env (ci_rows c)), (''condition_statistics.csv'', ce_to_csv env (condition_frame (ci_conditions c))),
            (''failure_throughput_timeseries.csv'', ce_timeseries_csv env (fs_throughput (ci_failure c))),
            (''failure_liveness_events.csv'', ce_events_csv env (fs_events (ci_failure c)))] w1
     in rbind (write_paper_tables str (ce_to_csv env) output_dir (ci_conditions c) (ci_failure c)) (\<lambda>(tables, texts).
        rbind (create_campaign_figures (ce_draw env) (ci_rows c) (ci_failure c) figures_dir (write_below output_dir texts w2)) (\<lambda>(figures, w3).
        rbind (campaign_result_of c raw_dir tables figures) (\<lambda>result.
        rbind (render_final_results str result) (\<lambda>report.
        let w4 = write_below output_dir [(''campaign_level_summary.json'', ce_dumps env result @ [newline]), (''FINAL_RESULTS.md'', report)] w3
        in rbind (source_digests (ce_sha env) (fst w4) (ci_raw_paths c) (ci_processed_paths c) raw_dir processed_root) (\<lambda>after.
           if after \<noteq> ci_before c then campaign_error ''campaign evidence changed during analysis''
           else Inr (result, output_dir, figures_dir, w4)))))))"

definition analyze_final_campaign ::
  "campaign_env \<Rightarrow> string \<Rightarrow> string \<Rightarrow> string \<Rightarrow> string \<Rightarrow> string \<Rightarrow> disk \<Rightarrow> (campaign_result \<times> string \<times> string \<times> disk) result" where
  "analyze_final_campaign env raw_campaign processed_campaign figures_root exploratory_analysis exploratory_figures w =
     (let rd = ce_readers env; raw_dir = cg_resolve rd raw_campaign; processed_root = cg_resolve rd processed_campaign;
          output_dir = slash processed_root ANALYSIS_ID; figures_dir = slash (cg_resolve rd figures_root) (''final-controlled-v1-'' @ ANALYSIS_ID)
      in if path_exists w output_dir \<or> path_exists w figures_dir
         then campaign_error (''refusing to overwrite existing analysis: '' @ (if path_exists w output_dir then output_dir else figures_dir))
         else rbind (campaign_inputs_of env raw_dir processed_root exploratory_analysis exploratory_figures w) (\<lambda>c.
           write_campaign_outputs env raw_dir processed_root output_dir figures_dir c w))"

section \<open>Writing the outputs keeps the evidence\<close>

lemma keeps_write_below:
  assumes "disk_ok w0" "keeps w0 w" "d \<notin> set (snd w0)" "d \<in> set (snd w)" "list_all (\<lambda>p. CHR ''/'' \<notin> set (fst p)) ns"
  shows "keeps w0 (write_below d ns w) \<and> snd (write_below d ns w) = snd w"
  using assms(2-)
proof (induction ns arbitrary: w)
  case Nil
  then show ?case by (simp add: write_below_def)
next
  case (Cons p ns)
  let ?w = "write_file (slash d (fst p)) (snd p) w"
  have x: "CHR ''/'' \<notin> set (fst p)" using Cons.prems(4) by simp
  then have "fst w0 (slash d (fst p)) = None" using assms(1) Cons.prems(2) by (simp add: disk_ok_def)
  moreover have "fst ?w (slash e y) = None" if "CHR ''/'' \<notin> set y" "e \<notin> set (snd ?w)" for e y
  proof -
    have "e \<noteq> d" using that(2) Cons.prems(3) by (auto simp: write_file_def)
    then have "slash e y \<noteq> slash d (fst p)" using slash_unique [OF _ that(1) x, of e d] by blast
    then show ?thesis using Cons.prems(1) that by (simp add: keeps_def disk_ok_def write_file_def)
  qed
  then have "disk_ok ?w" unfolding disk_ok_def by blast
  ultimately have "keeps w0 ?w" using Cons.prems(1) by (auto simp: keeps_def write_file_def)
  then show ?case using Cons.IH [of ?w] Cons.prems by (simp add: write_below_def write_file_def)
qed

lemma mkdir_keeps: "mkdir d w = Inr w' \<Longrightarrow> keeps w0 w \<Longrightarrow> keeps w0 w' \<and> snd w' = snd w @ [d]"
  by (auto simp: mkdir_def keeps_def disk_ok_def split: if_splits)

lemma digests_kept:
  assumes "source_digests sha fs rp pp rd pd = Inr s" "\<And>q t. fs q = Some t \<Longrightarrow> fs' q = Some t"
  shows "source_digests sha fs' rp pp rd pd = Inr s"
proof -
  have "tree_digest sha fs ps b = Inr d \<Longrightarrow> tree_digest sha fs' ps b = Inr d" for ps b d
  proof -
    have "map_result (\<lambda>p. case fs p of None \<Rightarrow> campaign_error (m p) | Some t \<Rightarrow> Inr (p, t)) xs = Inr es \<Longrightarrow>
        map_result (\<lambda>p. case fs' p of None \<Rightarrow> campaign_error (m p) | Some t \<Rightarrow> Inr (p, t)) xs = Inr es" for xs es m
      by (induction xs arbitrary: es) (auto simp: rbind_eq_Inr_iff assms(2) split: option.splits)
    then show "tree_digest sha fs ps b = Inr d \<Longrightarrow> tree_digest sha fs' ps b = Inr d" by (auto simp: tree_digest_def Let_def rbind_eq_Inr_iff)
  qed
  moreover have "sha256_file sha fs q = Inr x \<Longrightarrow> sha256_file sha fs' q = Inr x" for q x
    using assms(2) by (auto simp: sha256_file_def open_text_def rbind_eq_Inr_iff split: option.splits)
  ultimately show ?thesis using assms(1) by (auto simp: source_digests_def rbind_eq_Inr_iff)
qed

lemma render_table_names: "render_table str to_csv name frame columns = Inr ts \<Longrightarrow> map fst ts = [name @ ''.csv'', name @ ''.md'', name @ ''.tex'']"
  by (auto simp: render_table_def rbind_eq_Inr_iff)

lemma paper_table_names:
  assumes "write_paper_tables str to_csv dir conditions failure = Inr (tables, texts)"
  shows "list_all (\<lambda>p. CHR ''/'' \<notin> set (fst p)) texts"
proof -
  have "list_all (\<lambda>p. CHR ''/'' \<notin> set (fst p)) ts" if "render_table str to_csv name frame columns = Inr ts" "CHR ''/'' \<notin> set name"
    for name frame columns ts
  proof -
    have "list_all (\<lambda>x. CHR ''/'' \<notin> set x) (map fst ts)" unfolding render_table_names [OF that(1)] using that(2) by simp
    then show ?thesis by (simp add: list.pred_map comp_def)
  qed
  then show ?thesis using assms by (auto simp: write_paper_tables_def rbind_eq_Inr_iff)
qed

lemma keeps_refl: "disk_ok w \<Longrightarrow> keeps w w"
  by (simp add: keeps_def)

lemma write_below_pair: "fst (write_below d [p, q] w) (slash d (fst q)) = Some (snd q)"
  by (simp add: write_below_def write_file_def)

text \<open>C35: Writing the outputs of the campaign analysis never touches the evidence: when the output directories are
  new and the tables, the result and the report can be computed, the second look at the evidence finds the digests
  it had before, so the analysis completes, every file that existed is what it was, and the report is on disk.\<close>

theorem campaign_outputs_keep_evidence:
  assumes "disk_ok w" "output_dir \<notin> set (snd w)" "figures_dir \<notin> set (snd w)" "output_dir \<noteq> figures_dir"
    "source_digests (ce_sha env) (fst w) (ci_raw_paths c) (ci_processed_paths c) raw_dir processed_root = Inr (ci_before c)"
    "write_paper_tables (cg_str (ce_readers env)) (ce_to_csv env) output_dir (ci_conditions c) (ci_failure c) = Inr (tables, texts)"
    "campaign_result_of c raw_dir tables (map (save_figure figures_dir) figure_ids) = Inr r"
    "render_final_results (cg_str (ce_readers env)) r = Inr report"
  shows "\<exists>w'. write_campaign_outputs env raw_dir processed_root output_dir figures_dir c w = Inr (r, output_dir, figures_dir, w') \<and>
    (\<forall>q t. fst w q = Some t \<longrightarrow> fst w' q = Some t) \<and> set (snd w') = set (snd w) \<union> {output_dir, figures_dir} \<and>
    fst w' (slash output_dir ''FINAL_RESULTS.md'') = Some report"
proof -
  let ?ns = "[(''run_metrics.csv'', ce_to_csv env (ci_rows c)), (''condition_statistics.csv'', ce_to_csv env (condition_frame (ci_conditions c))),
    (''failure_throughput_timeseries.csv'', ce_timeseries_csv env (fs_throughput (ci_failure c))),
    (''failure_liveness_events.csv'', ce_events_csv env (fs_events (ci_failure c)))]"
  let ?fs = "concat (map (\<lambda>i. [(i @ ''.pdf'', ce_draw env (i @ ''.pdf'') (ci_rows c) (ci_failure c)),
    (i @ ''.png'', ce_draw env (i @ ''.png'') (ci_rows c) (ci_failure c))]) figure_ids)"
  let ?rs = "[(''campaign_level_summary.json'', ce_dumps env r @ [newline]), (''FINAL_RESULTS.md'', report)]"
  define w1 where "w1 = (fst w, snd w @ [output_dir])"
  define w2 where "w2 = write_below output_dir texts (write_below output_dir ?ns w1)"
  define w3 where "w3 = write_below figures_dir ?fs (fst w2, snd w2 @ [figures_dir])"
  define w4 where "w4 = write_below output_dir ?rs w3"
  note new = keeps_write_below [OF assms(1) _ assms(2)]
  have m1: "mkdir output_dir w = Inr w1" using assms(2) by (simp add: mkdir_def w1_def)
  have k1: "keeps w w1" "snd w1 = snd w @ [output_dir]" using mkdir_keeps [OF m1 keeps_refl [OF assms(1)]] by simp_all
  have ka: "keeps w (write_below output_dir ?ns w1) \<and> snd (write_below output_dir ?ns w1) = snd w1"
    using k1 by (intro new) simp_all
  have kb: "keeps w w2 \<and> snd w2 = snd w1"
    unfolding w2_def using new [OF conjunct1 [OF ka] _ paper_table_names [OF assms(6)]] ka k1(2) by simp
  have m2: "mkdir figures_dir w2 = Inr (fst w2, snd w2 @ [figures_dir])" using kb k1(2) assms(3,4) by (simp add: mkdir_def)
  have kc: "keeps w (fst w2, snd w2 @ [figures_dir])" using mkdir_keeps [OF m2 conjunct1 [OF kb]] by simp
  have kd: "keeps w w3 \<and> snd w3 = snd w2 @ [figures_dir]"
    unfolding w3_def using keeps_write_below [OF assms(1) kc assms(3)] by (simp add: figure_ids_def)
  have ke: "keeps w w4 \<and> snd w4 = snd w3"
    unfolding w4_def using kb kd k1(2) by (intro new) simp_all
  have d: "source_digests (ce_sha env) (fst w4) (ci_raw_paths c) (ci_processed_paths c) raw_dir processed_root = Inr (ci_before c)"
    using ke by (intro digests_kept [OF assms(5)]) (simp add: keeps_def)
  have "create_campaign_figures (ce_draw env) (ci_rows c) (ci_failure c) figures_dir w2 = Inr (map (save_figure figures_dir) figure_ids, w3)"
    by (simp add: create_campaign_figures_def m2 w3_def)
  then have "write_campaign_outputs env raw_dir processed_root output_dir figures_dir c w = Inr (r, output_dir, figures_dir, w4)"
    using d unfolding write_campaign_outputs_def m1 w2_def w4_def by (simp add: Let_def assms(6,7,8))
  moreover have "fst w4 (slash output_dir ''FINAL_RESULTS.md'') = Some report"
    unfolding w4_def using write_below_pair [of output_dir _ "(''FINAL_RESULTS.md'', report)"] by simp
  ultimately show ?thesis using ke kd kb k1(2) by (auto simp: keeps_def)
qed


text \<open>A small campaign: every statistic is zero.\<close>

definition zero_statistic :: statistic where
  "zero_statistic = \<lparr>sv_n = 3, sv_mean = Fin 0, sv_stddev = Fin 0, sv_min = Fin 0, sv_max = Fin 0\<rparr>"

definition zero_statistics :: "string list \<Rightarrow> (string \<times> statistic) list" where
  "zero_statistics ks = map (\<lambda>k. (k, zero_statistic)) ks"

definition sample_condition :: condition_result where
  "sample_condition = \<lparr>cd_n = 3, cd_configuration = [(''node_count'', JInt 5), (''aggregation_mode'', JStr ''raw''), (''aggregation_window_seconds'', JInt 0)],
     cd_run_ids = [], cd_seeds = [], cd_statistics = zero_statistics STATISTIC_FIELDS\<rparr>"

definition sample_failure :: failure_summary where
  "sample_failure = \<lparr>fs_per_run = [], fs_statistics = zero_statistics failure_statistics_fields, fs_absent_total = 0, fs_throughput = [], fs_events = []\<rparr>"

definition sample_totals :: campaign_totals where
  "sample_totals = \<lparr>ct_run_count = 27, ct_admitted_run_count = 27, ct_scheduled = 0, ct_generated = 0, ct_received = 0, ct_messages_actual = 0,
     ct_messages_unique = 0, ct_bytes_actual = 0, ct_bytes_unique = 0, ct_duplicate_ids = 0, ct_application_drops = 0, ct_queue_full_drops = 0,
     ct_abandoned = 0, ct_invalid_counters = 0, ct_failed_checks = [], ct_warning_count = 0, ct_message_parity = True, ct_byte_parity = True,
     ct_equal_messages = True, ct_equal_bytes = True\<rparr>"

definition sample_physical :: physical where
  "sample_physical = \<lparr>pv_classification = JNull, pv_analysis_summary = '''', pv_figures = [],
     pv_key_values = [(''bathroom_baseline_rh_pct'', JInt 50), (''bathroom_peak_rh_pct'', JInt 90)]\<rparr>"

definition sample_campaign :: evidence where
  "sample_campaign = map (\<lambda>k. (k, JNull)) ([''campaign_id'', ''research_question'', ''git_commit''] @ methodology_fields)"

definition sample_inputs :: "source_state \<Rightarrow> campaign_inputs" where
  "sample_inputs s = \<lparr>ci_manifest = sample_campaign, ci_raw_paths = [''raw/campaign_manifest.json'', ''raw/campaign_summary.json''], ci_processed_paths = [],
     ci_before = s, ci_rows = [], ci_conditions = map (\<lambda>k. (k, sample_condition)) (scale_ids @ tradeoff_ids), ci_integrity = sample_totals,
     ci_failure = sample_failure, ci_physical = sample_physical\<rparr>"

definition sample_campaign_env :: campaign_env where
  "sample_campaign_env = \<lparr>ce_readers = \<lparr>cg_loads = (\<lambda>_. None), cg_str = (\<lambda>_. ''s''), cg_readings = (\<lambda>_. []), cg_health = (\<lambda>_. []), cg_resolve = id\<rparr>,
     ce_series = \<lparr>se_mean = (\<lambda>_. Fin 0), se_std = (\<lambda>_. Fin 0)\<rparr>, ce_sha = sample_sha, ce_rglob = (\<lambda>_ _. []), ce_to_csv = (\<lambda>_. ''t''),
     ce_timeseries_csv = (\<lambda>_. ''t''), ce_events_csv = (\<lambda>_. ''t''), ce_dumps = (\<lambda>_. ''j''), ce_draw = (\<lambda>_ _ _. ''p'')\<rparr>"

definition sample_evidence :: disk where
  "sample_evidence = ([''raw/campaign_manifest.json'' \<mapsto> ''M'', ''raw/campaign_summary.json'' \<mapsto> ''S''], [''raw''])"

lemma zero_statistic_of: "k \<in> set ks \<Longrightarrow> statistic_of (zero_statistics ks) k = Inr zero_statistic"
  by (induction ks) (auto simp: statistic_of_def zero_statistics_def)

lemma zero_columns:
  assumes "k \<in> set ks"
  shows "mean_sd_columns (zero_statistics ks) k l = Inr (pair_columns l (Fin 0) (Fin 0))"
    "percent_columns (zero_statistics ks) k l = Inr (pair_columns l (Fin 0) (Fin 0))"
    "x \<noteq> 0 \<Longrightarrow> scaled_columns x (zero_statistics ks) k l = Inr (pair_columns l (Fin 0) (Fin 0))"
  using zero_statistic_of [OF assms]
  by (simp_all add: mean_sd_columns_def percent_columns_def scaled_columns_def zero_statistic_def)

definition zero_row :: "evidence" where
  "zero_row = [(''node_count'', JInt 5), (''mode'', JStr ''RAW''), (''window_seconds'', JFloat (Fin 0)), (''n'', JInt 3)] @
     concat (map (\<lambda>l. pair_columns l (Fin 0) (Fin 0))
       [''scheduled'', ''generated'', ''received'', ''delivery_pct'', ''actual_messages'', ''unique_messages'', ''actual_bytes_kib'',
        ''unique_bytes_kib'', ''message_reduction_pct'', ''byte_reduction_pct'', ''information_delay_s'', ''gateway_cpu_pct'', ''gateway_rss_mib''])"

lemma table_fields:
  "''scheduled_readings'' \<in> set STATISTIC_FIELDS"
  "''generated_readings'' \<in> set STATISTIC_FIELDS"
  "''virtual_unique_received_readings'' \<in> set STATISTIC_FIELDS"
  "''delivery_ratio'' \<in> set STATISTIC_FIELDS"
  "''collector_messages_actual'' \<in> set STATISTIC_FIELDS"
  "''collector_messages_unique'' \<in> set STATISTIC_FIELDS"
  "''collector_bytes_actual'' \<in> set STATISTIC_FIELDS"
  "''collector_bytes_unique'' \<in> set STATISTIC_FIELDS"
  "''upstream_message_reduction_actual'' \<in> set STATISTIC_FIELDS"
  "''upstream_byte_reduction_actual'' \<in> set STATISTIC_FIELDS"
  "''information_delay_mean_ms'' \<in> set STATISTIC_FIELDS"
  "''process_cpu_mean_percent'' \<in> set STATISTIC_FIELDS"
  "''process_rss_mean_bytes'' \<in> set STATISTIC_FIELDS"
  by (simp_all add: STATISTIC_FIELDS_def)

lemma failure_fields:
  "''scheduled'' \<in> set failure_statistics_fields"
  "''generated'' \<in> set failure_statistics_fields"
  "''received'' \<in> set failure_statistics_fields"
  "''absent'' \<in> set failure_statistics_fields"
  "''scheduled_delivery_ratio'' \<in> set failure_statistics_fields"
  "''generated_delivery_ratio'' \<in> set failure_statistics_fields"
  "''suspect_detection_ms'' \<in> set failure_statistics_fields"
  "''offline_detection_ms'' \<in> set failure_statistics_fields"
  "''recovery_detection_ms'' \<in> set failure_statistics_fields"
  "''healthy_peer_throughput'' \<in> set failure_statistics_fields"
  "''failed_node_resets'' \<in> set failure_statistics_fields"
  "''healthy_peer_non_in_order'' \<in> set failure_statistics_fields"
  by (simp_all add: failure_statistics_fields_def)

lemma zero_groups:
  "\<forall>(f, k, l) \<in> set gs. f (zero_statistics ks) k l = Inr (pair_columns l (Fin 0) (Fin 0)) \<Longrightarrow>
     column_groups (zero_statistics ks) gs = Inr (concat (map (\<lambda>(f, k, l). pair_columns l (Fin 0) (Fin 0)) gs))"
  by (induction gs) (auto simp: column_groups_def rbind_eq_Inr_iff)

lemma sample_condition_row: "paper_condition_row sample_condition = Inr zero_row"
  by (simp add: paper_condition_row_def sample_condition_def zero_groups zero_columns table_fields zero_row_def
      field_def int_field_def float_field_def float_of_int_def)

definition zero_failure_row :: "evidence" where
  "zero_failure_row = (''n'', JInt 3) # concat (map (\<lambda>l. pair_columns l (Fin 0) (Fin 0))
     [''scheduled'', ''generated'', ''received'', ''absent'', ''scheduled_delivery_pct'', ''generated_delivery_pct'', ''suspect_detection_s'',
      ''offline_detection_s'', ''recovery_detection_s'', ''healthy_peer_throughput_rps'', ''failed_node_resets'', ''healthy_peer_sequence_anomalies''])"

lemma sample_failure_row: "paper_failure_row (fs_statistics sample_failure) = Inr zero_failure_row"
  by (simp add: paper_failure_row_def sample_failure_def zero_groups zero_columns failure_fields zero_failure_row_def)

text \<open>A pair of zero columns can be displayed in every format.\<close>

lemma pair_displayed:
  assumes "map_of row (l @ ''_mean'') = Some (JFloat m)" "map_of row (l @ ''_sd'') = Some (JFloat s)"
  shows "pair d l row = Inr (fixed d m @ '' +/- '' @ fixed d s)"
    "count_pair l row = Inr ((if is_integer m then fixed 0 m else fixed 1 m) @ '' +/- '' @ (if is_integer s then fixed 0 s else fixed 1 s))"
  using assms by (simp_all add: pair_def count_pair_def mean_sd_def float_field_def field_def)

lemma sample_display: "\<exists>row. add_display_columns zero_row = Inr row \<and>
    list_all (\<lambda>k. map_of row k \<noteq> None) (map fst (scaling_display_columns @ tradeoff_display_columns))"
  unfolding add_display_columns_def zero_row_def pair_columns_def
  by (simp add: pair_displayed slashed_def window_label_def float_field_def field_def feq_def scaling_display_columns_def tradeoff_display_columns_def)

lemma sample_failure_display: "\<exists>row. add_failure_display_columns zero_failure_row = Inr row \<and>
    list_all (\<lambda>k. map_of row k \<noteq> None) (map fst failure_display_columns)"
  unfolding add_failure_display_columns_def zero_failure_row_def pair_columns_def
  by (simp add: pair_displayed slashed_def failure_display_columns_def)

lemma map_result_total: "(\<And>x. x \<in> set xs \<Longrightarrow> \<exists>y. f x = Inr y) \<Longrightarrow> \<exists>ys. map_result f xs = Inr ys"
proof (induction xs)
  case (Cons x xs)
  then obtain y ys where "f x = Inr y" "map_result f xs = Inr ys" by force
  then show ?case by simp
qed simp

lemma render_table_total:
  assumes "prepare_display_frame frame = Inr display" "\<And>row. row \<in> set display \<Longrightarrow> list_all (\<lambda>k. map_of row k \<noteq> None) (map fst columns)"
  shows "\<exists>ts. render_table str to_csv name frame columns = Inr ts"
proof -
  have "\<exists>ys. map_result (\<lambda>c. rbind (field row (fst c)) (\<lambda>v. Inr (str v))) columns = Inr ys" if "row \<in> set display" for row
    using assms(2) [OF that] by (intro map_result_total) (auto simp: field_def list_all_iff)
  then have "\<exists>cells. map_result (\<lambda>row. map_result (\<lambda>c. rbind (field row (fst c)) (\<lambda>v. Inr (str v))) columns) display = Inr cells"
    by (rule map_result_total)
  then show ?thesis unfolding render_table_def using assms(1) by auto
qed

lemma map_result_const: "(\<And>x. x \<in> set xs \<Longrightarrow> f x = Inr y) \<Longrightarrow> map_result f xs = Inr (map (\<lambda>_. y) xs)"
  by (induction xs) auto

lemma sample_render:
  assumes "ids \<noteq> []" "set (map fst columns) \<subseteq> set (map fst (scaling_display_columns @ tradeoff_display_columns))"
  shows "\<exists>ts. render_table str to_csv name (map (\<lambda>_. zero_row) ids) columns = Inr ts"
proof -
  obtain row where row: "add_display_columns zero_row = Inr row"
    "list_all (\<lambda>k. map_of row k \<noteq> None) (map fst (scaling_display_columns @ tradeoff_display_columns))"
    using sample_display by blast
  have "map_of zero_row ''window_seconds'' \<noteq> None" by (simp add: zero_row_def)
  then have "list_ex (\<lambda>row. map_of row ''window_seconds'' \<noteq> None) (map (\<lambda>_. zero_row) ids)" using assms(1) by (cases ids) simp_all
  then have "prepare_display_frame (map (\<lambda>_. zero_row) ids) = Inr (map (\<lambda>_. row) (map (\<lambda>_. zero_row) ids))"
    unfolding prepare_display_frame_def if_P using row(1) by (intro map_result_const) auto
  moreover have "list_all (\<lambda>k. map_of row k \<noteq> None) (map fst columns)"
    using row(2) assms(2) unfolding list_all_iff by blast
  ultimately show ?thesis by (intro render_table_total) auto
qed

lemma sample_failure_render: "\<exists>ts. render_table str to_csv name [zero_failure_row] failure_display_columns = Inr ts"
proof -
  obtain row where row: "add_failure_display_columns zero_failure_row = Inr row"
    "list_all (\<lambda>k. map_of row k \<noteq> None) (map fst failure_display_columns)"
    using sample_failure_display by blast
  have "map_of zero_failure_row ''window_seconds'' = None" by (simp add: zero_failure_row_def pair_columns_def)
  then have "prepare_display_frame [zero_failure_row] = Inr [row]" using row(1) by (simp add: prepare_display_frame_def)
  then show ?thesis using row(2) by (intro render_table_total) auto
qed

lemma map_of_same: "k \<in> set ks \<Longrightarrow> map_of (map (\<lambda>k. (k, v)) ks) k = Some v"
  by (induction ks) auto

lemma sample_tables:
  "\<exists>tables texts. write_paper_tables str to_csv dir (map (\<lambda>k. (k, sample_condition)) (scale_ids @ tradeoff_ids)) sample_failure = Inr (tables, texts)"
proof -
  let ?cs = "map (\<lambda>k. (k, sample_condition)) (scale_ids @ tradeoff_ids)"
  have c: "map_result (condition_row ?cs) ids = Inr (map (\<lambda>_. zero_row) ids)" if "set ids \<subseteq> set (scale_ids @ tradeoff_ids)" for ids
    using that sample_condition_row by (intro map_result_const) (auto simp: condition_row_def map_of_same simp del: set_append map_append)
  have n: "scale_ids \<noteq> []" "tradeoff_ids \<noteq> []" by (simp_all add: scale_ids_def tradeoff_ids_def)
  have sub: "set (map fst scaling_display_columns) \<subseteq> set (map fst (scaling_display_columns @ tradeoff_display_columns))"
    "set (map fst tradeoff_display_columns) \<subseteq> set (map fst (scaling_display_columns @ tradeoff_display_columns))"
    by simp_all
  obtain a where a: "render_table str to_csv ''table_a_scaling_aggregation'' (map (\<lambda>_. zero_row) scale_ids) scaling_display_columns = Inr a"
    using sample_render [OF n(1) sub(1)] by blast
  obtain b where b: "render_table str to_csv ''table_b_aggregation_tradeoff'' (map (\<lambda>_. zero_row) tradeoff_ids) tradeoff_display_columns = Inr b"
    using sample_render [OF n(2) sub(2)] by blast
  obtain d where d: "render_table str to_csv ''table_c_failure_recovery'' [zero_failure_row] failure_display_columns = Inr d"
    using sample_failure_render by blast
  have "map_result (condition_row ?cs) scale_ids = Inr (map (\<lambda>_. zero_row) scale_ids)"
    "map_result (condition_row ?cs) tradeoff_ids = Inr (map (\<lambda>_. zero_row) tradeoff_ids)"
    using c [of scale_ids] c [of tradeoff_ids] by auto
  then show ?thesis unfolding write_paper_tables_def by (simp add: sample_failure_row a b d del: map_append)
qed

lemma sample_report_total:
  assumes "rs_condition_statistics r = map (\<lambda>k. (k, sample_condition)) (scale_ids @ tradeoff_ids)"
    "rs_failure_recovery r = sample_failure" "rs_physical_validation r = sample_physical"
  shows "\<exists>report. render_final_results str r = Inr report"
proof -
  let ?cs = "map (\<lambda>k. (k, sample_condition)) (scale_ids @ tradeoff_ids)"
  have mean: "condition_mean ?cs c m = Inr (Fin 0)" if "c \<in> set (scale_ids @ tradeoff_ids)" "m \<in> set STATISTIC_FIELDS" for c m
    unfolding condition_mean_def map_of_same [OF that(1)]
    by (simp add: sample_condition_def zero_statistic_of [OF that(2)] zero_statistic_def)
  have ids: "''scale-n100-agg05'' \<in> set (scale_ids @ tradeoff_ids)" "''tradeoff-n025-agg01'' \<in> set (scale_ids @ tradeoff_ids)"
    "''scale-n025-agg05'' \<in> set (scale_ids @ tradeoff_ids)" "''tradeoff-n025-agg10'' \<in> set (scale_ids @ tradeoff_ids)"
    by (simp_all add: scale_ids_def tradeoff_ids_def)
  have sec: "\<exists>x. seconds_text (fs_statistics sample_failure) k = Inr x" if "k \<in> set failure_statistics_fields" for k
    by (simp add: seconds_text_def sample_failure_def zero_statistic_of [OF that] zero_statistic_def)
  obtain a b c where s: "seconds_text (fs_statistics sample_failure) ''suspect_detection_ms'' = Inr a"
    "seconds_text (fs_statistics sample_failure) ''offline_detection_ms'' = Inr b"
    "seconds_text (fs_statistics sample_failure) ''recovery_detection_ms'' = Inr c"
    using sec [OF failure_fields(7)] sec [OF failure_fields(8)] sec [OF failure_fields(9)] by blast
  have k: "float_field (pv_key_values sample_physical) ''bathroom_baseline_rh_pct'' = Inr (Fin 50)"
    "float_field (pv_key_values sample_physical) ''bathroom_peak_rh_pct'' = Inr (Fin 90)"
    by (simp_all add: sample_physical_def float_field_def field_def float_of_int_def)
  show ?thesis
    unfolding render_final_results_def assms Let_def
    by (simp add: mean [OF ids(1) table_fields(9)] mean [OF ids(1) table_fields(10)] mean [OF ids(2) table_fields(9)]
        mean [OF ids(3) table_fields(9)] mean [OF ids(4) table_fields(9)] mean [OF ids(2) table_fields(11)]
        mean [OF ids(3) table_fields(11)] mean [OF ids(4) table_fields(11)] s k del: map_append join.simps)
qed

lemma tree_digest_total:
  assumes "\<And>p. p \<in> set paths \<Longrightarrow> fs p \<noteq> None"
  shows "\<exists>d. tree_digest sha fs paths base = Inr d"
proof -
  have "\<exists>es. map_result (\<lambda>p. case fs p of None \<Rightarrow> campaign_error (''missing source input: '' @ p) | Some t \<Rightarrow> Inr (p, t)) (sort_key (path_parts []) paths) = Inr es"
    using assms by (intro map_result_total) (auto split: option.splits)
  then show ?thesis unfolding tree_digest_def Let_def by auto
qed

lemma sample_digests:
  "\<exists>s. source_digests sample_sha (fst sample_evidence) [''raw/campaign_manifest.json'', ''raw/campaign_summary.json''] [] ''raw'' ''out'' = Inr s"
proof -
  have e: "fst sample_evidence p \<noteq> None" if "p \<in> set [''raw/campaign_manifest.json'', ''raw/campaign_summary.json'']" for p
    using that by (auto simp: sample_evidence_def)
  obtain a where a: "tree_digest sample_sha (fst sample_evidence) [''raw/campaign_manifest.json'', ''raw/campaign_summary.json''] ''raw'' = Inr a"
    using tree_digest_total [where fs = "fst sample_evidence", OF e] by blast
  obtain b where b: "tree_digest sample_sha (fst sample_evidence) [] ''out'' = Inr b" by (simp add: tree_digest_def)
  show ?thesis unfolding source_digests_def a b by (simp add: sha256_file_def open_text_def sample_evidence_def slash_def)
qed

theorem campaign_outputs_keep_evidence_witness:
  "\<exists>s r report w'. write_campaign_outputs sample_campaign_env ''raw'' ''out'' ''out/analysis'' ''figures'' (sample_inputs s) sample_evidence =
       Inr (r, ''out/analysis'', ''figures'', w') \<and>
     fst w' ''raw/campaign_manifest.json'' = Some ''M'' \<and> fst w' ''raw/campaign_summary.json'' = Some ''S'' \<and>
     fst w' (slash ''out/analysis'' ''FINAL_RESULTS.md'') = Some report"
proof -
  have "disk_ok sample_evidence"
  proof -
    have "d = ''raw''" if "slash d x \<in> {''raw/campaign_manifest.json'', ''raw/campaign_summary.json''}" "CHR ''/'' \<notin> set x" for d x
      using that slash_unique [of d x "''raw''" "''campaign_manifest.json''"] slash_unique [of d x "''raw''" "''campaign_summary.json''"]
      by (auto simp: slash_def)
    then show ?thesis by (auto simp: disk_ok_def sample_evidence_def)
  qed
  moreover obtain s where "source_digests sample_sha (fst sample_evidence) [''raw/campaign_manifest.json'', ''raw/campaign_summary.json''] [] ''raw'' ''out'' = Inr s"
    using sample_digests by blast
  moreover obtain tables texts where "write_paper_tables (\<lambda>_. ''s'') (\<lambda>_. ''t'') ''out/analysis''
      (map (\<lambda>k. (k, sample_condition)) (scale_ids @ tradeoff_ids)) sample_failure = Inr (tables, texts)"
    using sample_tables by blast
  moreover obtain r where r: "campaign_result_of (sample_inputs s) ''raw'' tables (map (save_figure ''figures'') figure_ids) = Inr r"
    by (simp add: campaign_result_of_def sample_inputs_def sample_campaign_def methodology_fields_def field_def)
  moreover obtain report where "render_final_results (\<lambda>_. ''s'') r = Inr report"
    using sample_report_total [of r "\<lambda>_. ''s''"] r
    by (auto simp: campaign_result_of_def sample_inputs_def sample_campaign_def methodology_fields_def field_def)
  ultimately obtain w' where
    "write_campaign_outputs sample_campaign_env ''raw'' ''out'' ''out/analysis'' ''figures'' (sample_inputs s) sample_evidence =
       Inr (r, ''out/analysis'', ''figures'', w')"
    "\<forall>q t. fst sample_evidence q = Some t \<longrightarrow> fst w' q = Some t" "fst w' (slash ''out/analysis'' ''FINAL_RESULTS.md'') = Some report"
    using campaign_outputs_keep_evidence [of sample_evidence "''out/analysis''" "''figures''" sample_campaign_env "sample_inputs s" "''raw''" "''out''" tables texts r report]
    by (auto simp: sample_inputs_def sample_campaign_env_def sample_evidence_def)
  moreover have "fst sample_evidence ''raw/campaign_manifest.json'' = Some ''M''" "fst sample_evidence ''raw/campaign_summary.json'' = Some ''S''"
    by (simp_all add: sample_evidence_def)
  ultimately show ?thesis by blast
qed

end
