(* ===== verification/Exploratory_Evidence.thy ===== *)
theory Exploratory_Evidence
  imports Campaign_Analysis
begin

text \<open>
  The evidence of the exploratory physical run (\<^verbatim>\<open>src/analysis/exploratory_physical.py\<close>): the frozen files and
  their hashes, reading them, and the checks that the gateway's readings and the collector's records are the same
  readings. JSON parsing, \<open>str\<close> and SHA-256 are parameters.
\<close>

section \<open>Reading the frozen files\<close>

abbreviation exploratory_error :: "string \<Rightarrow> 'a result" where
  "exploratory_error text \<equiv> Inl (ExploratoryAnalysisError text)"

definition SOURCE_FILENAMES :: "string list" where
  "SOURCE_FILENAMES = [''operator-notes.json'', ''pi-readings.ndjson'', ''mac-upstream.ndjson'', ''pi-summary.json'', ''mac-summary.json'',
     ''pi-gateway-events.csv'', ''pi-health-events.csv'', ''pi-system-metrics.csv'']"

definition EXPECTED_NODE_IDS :: "string list" where
  "EXPECTED_NODE_IDS = [''physical-001'', ''physical-002'', ''physical-003'']"

definition source_hashes :: "(string \<Rightarrow> string) \<Rightarrow> files \<Rightarrow> string \<Rightarrow> (string \<times> string) list result" where
  "source_hashes sha fs source_dir =
     (let missing = filter (\<lambda>n. fs (slash source_dir n) = None) SOURCE_FILENAMES
      in if missing \<noteq> [] then exploratory_error (''missing frozen evidence: '' @ join '', '' missing)
         else map_result (\<lambda>n. rbind (sha256_file sha fs (slash source_dir n)) (\<lambda>h. Inr (n, h))) SOURCE_FILENAMES)"

definition read_notes_json :: "(string \<Rightarrow> json option) \<Rightarrow> files \<Rightarrow> string \<Rightarrow> evidence result" where
  "read_notes_json loads fs p =
     (case Option.bind (fs p) loads of
        None \<Rightarrow> exploratory_error (''cannot read JSON evidence: '' @ p)
      | Some (JObj d) \<Rightarrow> Inr d
      | Some _ \<Rightarrow> Inl (TypeError ''not an object''))"

text \<open>Iterating over a text file gives its lines, each with its line break.\<close>

fun text_lines :: "string \<Rightarrow> string \<Rightarrow> string list" where
  "text_lines cur [] = (if cur = [] then [] else [cur])"
| "text_lines cur (c # cs) = (if c = newline then (cur @ [c]) # text_lines [] cs else text_lines (cur @ [c]) cs)"

fun read_lines :: "(string \<Rightarrow> json option) \<Rightarrow> string \<Rightarrow> nat \<Rightarrow> string list \<Rightarrow> json list result" where
  "read_lines loads p n [] = Inr []"
| "read_lines loads p n (l # ls) =
     (case loads l of
        None \<Rightarrow> exploratory_error (''invalid NDJSON evidence at '' @ p @ '':'' @ str_of_nat n)
      | Some j \<Rightarrow> rbind (read_lines loads p (Suc n) ls) (\<lambda>js. Inr (j # js)))"

definition read_evidence_ndjson :: "(string \<Rightarrow> json option) \<Rightarrow> files \<Rightarrow> string \<Rightarrow> evidence list result" where
  "read_evidence_ndjson loads fs p = rbind (open_text fs p) (\<lambda>t. rbind (read_lines loads p 1 (text_lines [] t)) objects)"

section \<open>Validation\<close>

type_synonym reading_id = "string \<times> int \<times> int"

definition int_at :: "evidence \<Rightarrow> string list \<Rightarrow> int result" where
  "int_at d ks = rbind (deep_field d ks) py_int_json"

definition reading_key :: "(json \<Rightarrow> string) \<Rightarrow> evidence \<Rightarrow> reading_id result" where
  "reading_key str d =
     rbind (field d ''node_id'') (\<lambda>n. rbind (int_field d ''sequence'') (\<lambda>s. rbind (int_field d ''gateway_received_monotonic_ns'') (\<lambda>m.
       Inr (str n, s, m))))"

definition evidence_counts :: "evidence list \<Rightarrow> evidence list \<Rightarrow> evidence \<Rightarrow> evidence \<Rightarrow> int list result" where
  "evidence_counts pi_records mac_records pi_summary mac_summary =
     rbind (int_at pi_summary [''gateway'', ''valid_messages'']) (\<lambda>expected.
     rbind (int_at pi_summary [''storage'', ''records_written'']) (\<lambda>persisted.
     rbind (int_at pi_summary [''upstream'', ''upstream_messages'']) (\<lambda>forwarded.
     rbind (int_field mac_summary ''messages_received'') (\<lambda>collected.
       Inr [int (length pi_records), expected, persisted, forwarded, int (length mac_records), collected]))))"

fun index_readings :: "(json \<Rightarrow> string) \<Rightarrow> (reading_id \<times> evidence) list \<Rightarrow> evidence list \<Rightarrow> (reading_id \<times> evidence) list result" where
  "index_readings str seen [] = Inr seen"
| "index_readings str seen (r # rs) =
     rbind (reading_key str r) (\<lambda>k.
       if k \<in> fst ` set seen then exploratory_error ''duplicate Pi reading key'' else index_readings str (seen @ [(k, r)]) rs)"

text \<open>The reading of a collector record, with what the gateway had added to it.\<close>

definition enriched_reading :: "evidence \<Rightarrow> evidence result" where
  "enriched_reading rec =
     rbind (obj_field rec ''reading'') (\<lambda>r.
     rbind (map_result (\<lambda>k. rbind (field rec k) (\<lambda>v. Inr (k, v)))
       [''gateway_received_at_ms'', ''gateway_received_monotonic_ns'', ''sensor_wire_bytes'', ''sequence_status'']) (\<lambda>kvs.
       Inr (foldl (\<lambda>d kv. dict_set (fst kv) (snd kv) d) r kvs)))"

fun match_records :: "(json \<Rightarrow> string) \<Rightarrow> (reading_id \<times> evidence) list \<Rightarrow> string list \<Rightarrow> evidence list \<Rightarrow> reading_id list result" where
  "match_records str pis ids [] = Inr []"
| "match_records str pis ids (w # ws) =
     rbind (sub_object w ''record'') (\<lambda>rec.
     if get_value rec ''type'' \<noteq> JStr ''raw'' then exploratory_error ''non-RAW collector record in frozen RAW run''
     else rbind (field rec ''record_id'') (\<lambda>i.
     if str i \<in> set ids then exploratory_error (''duplicate collector record_id: '' @ str i)
     else rbind (enriched_reading rec) (\<lambda>e.
     rbind (reading_key str e) (\<lambda>k.
     case map_of pis k of
       None \<Rightarrow> exploratory_error ''Pi/Mac payload mismatch''
     | Some r \<Rightarrow>
         if \<not> py_eq (JObj e) (JObj r) then exploratory_error ''Pi/Mac payload mismatch''
         else rbind (match_records str pis (str i # ids) ws) (\<lambda>ks. Inr (k # ks))))))"

definition validate_evidence :: "(json \<Rightarrow> string) \<Rightarrow> evidence list \<Rightarrow> evidence list \<Rightarrow> evidence \<Rightarrow> evidence \<Rightarrow> unit result" where
  "validate_evidence str pi_records mac_records pi_summary mac_summary =
     rbind (evidence_counts pi_records mac_records pi_summary mac_summary) (\<lambda>counts.
     if length (remdups counts) \<noteq> 1 then exploratory_error ''record-count mismatch''
     else rbind (index_readings str [] pi_records) (\<lambda>pis.
     rbind (match_records str pis [] mac_records) (\<lambda>keys.
     if set keys \<noteq> fst ` set pis then exploratory_error ''Pi/Mac reading-key sets differ''
     else rbind (map_result (\<lambda>w. int_field w ''upstream_wire_bytes'') mac_records) (\<lambda>sizes.
     rbind (int_at pi_summary [''upstream'', ''upstream_bytes'']) (\<lambda>expected_bytes.
     if sum_list sizes \<noteq> expected_bytes then exploratory_error ''Pi/Mac upstream-byte parity failed''
     else rbind (int_field mac_summary ''bytes_received'') (\<lambda>received.
       if sum_list sizes \<noteq> received then exploratory_error ''Pi/Mac upstream-byte parity failed'' else Inr ()))))))"

section \<open>Accepted evidence is the same readings twice\<close>

lemma index_readings_Inr:
  assumes "index_readings str seen rs = Inr pis" "distinct (map fst seen)"
  shows "\<exists>ks. pis = seen @ zip ks rs \<and> length ks = length rs \<and> distinct (map fst pis) \<and> map_result (reading_key str) rs = Inr ks"
  using assms
proof (induction rs arbitrary: seen)
  case (Cons r rs)
  then obtain k where k: "reading_key str r = Inr k" "k \<notin> fst ` set seen" "index_readings str (seen @ [(k, r)]) rs = Inr pis"
    by (auto simp: rbind_eq_Inr_iff split: if_splits)
  have "distinct (map fst (seen @ [(k, r)]))" using Cons.prems(2) k(2) by simp
  then obtain ks where "pis = (seen @ [(k, r)]) @ zip ks rs" "length ks = length rs" "distinct (map fst pis)"
    "map_result (reading_key str) rs = Inr ks"
    using Cons.IH [OF k(3)] by blast
  then show ?case using k(1) by (intro exI [of _ "k # ks"]) simp
qed simp

text \<open>What a matched collector record says: it is RAW, its key is the key of its reading, and that reading is the
  gateway's under the same key.\<close>

definition record_matches :: "(json \<Rightarrow> string) \<Rightarrow> (reading_id \<times> evidence) list \<Rightarrow> evidence \<Rightarrow> reading_id \<Rightarrow> bool" where
  "record_matches str pis w k \<longleftrightarrow>
     (case sub_object w ''record'' of Inl _ \<Rightarrow> False
      | Inr rec \<Rightarrow> get_value rec ''type'' = JStr ''raw'' \<and>
        (case enriched_reading rec of Inl _ \<Rightarrow> False
         | Inr e \<Rightarrow> reading_key str e = Inr k \<and> (\<exists>r. map_of pis k = Some r \<and> py_eq (JObj e) (JObj r))))"

lemma match_records_Inr:
  "match_records str pis ids ws = Inr ks \<Longrightarrow> list_all2 (record_matches str pis) ws ks"
proof (induction ws arbitrary: ids ks)
  case (Cons w ws)
  from Cons.prems obtain rec i e k r ks' where "sub_object w ''record'' = Inr rec" "get_value rec ''type'' = JStr ''raw''"
    "enriched_reading rec = Inr e" "reading_key str e = Inr k" "map_of pis k = Some r" "py_eq (JObj e) (JObj r)"
    and rest: "match_records str pis (str i # ids) ws = Inr ks'" "ks = k # ks'"
    by (auto simp: rbind_eq_Inr_iff simp del: py_eq.simps split: if_splits option.splits)
  then have "record_matches str pis w k" by (simp add: record_matches_def del: py_eq.simps)
  then show ?case using Cons.IH [OF rest(1)] rest(2) by simp
qed simp

text \<open>C37: Accepted evidence of a physical run is the same readings on both hosts: the gateway's readings have
  distinct keys, every collector record is RAW and carries a reading equal to the gateway's reading of its key, and
  the keys of the collector's records are a permutation of the gateway's: nothing is missing, invented or doubled.\<close>

theorem accepted_evidence_matches:
  assumes "validate_evidence str pi_records mac_records pi_summary mac_summary = Inr ()"
  shows "\<exists>keys mac_keys. map_result (reading_key str) pi_records = Inr keys \<and> distinct keys \<and>
    list_all2 (record_matches str (zip keys pi_records)) mac_records mac_keys \<and> mset mac_keys = mset keys"
proof -
  obtain pis ks where v: "index_readings str [] pi_records = Inr pis" "match_records str pis [] mac_records = Inr ks"
    "set ks = fst ` set pis" and c: "length pi_records = length mac_records"
    using assms by (auto simp: validate_evidence_def evidence_counts_def rbind_eq_Inr_iff split: if_splits)
  obtain keys where keys: "pis = zip keys pi_records" "length keys = length pi_records" "distinct (map fst pis)"
    "map_result (reading_key str) pi_records = Inr keys"
    using index_readings_Inr [OF v(1)] by auto
  have k: "map fst pis = keys" using keys(1,2) by simp
  have m: "list_all2 (record_matches str pis) mac_records ks" by (rule match_records_Inr [OF v(2)])
  have s: "set ks = set keys" using v(3) k by (metis set_map)
  have "length ks = length keys" using list_all2_lengthD [OF m] c keys(2) by simp
  then have "distinct ks" using s keys(3) k by (metis card_distinct distinct_card)
  then have "mset ks = mset keys" using s keys(3) k by (simp add: set_eq_iff_mset_eq_distinct)
  then show ?thesis using m keys k by auto
qed

definition sample_pi_reading :: evidence where
  "sample_pi_reading = [(''node_id'', JStr ''physical-001''), (''sequence'', JInt 7), (''gateway_received_at_ms'', JInt 100),
     (''gateway_received_monotonic_ns'', JInt 5), (''sensor_wire_bytes'', JInt 80), (''sequence_status'', JStr ''IN_ORDER'')]"

definition sample_mac_record :: evidence where
  "sample_mac_record = [(''upstream_wire_bytes'', JInt 300), (''record'', JObj [(''type'', JStr ''raw''), (''record_id'', JStr ''a''),
     (''reading'', JObj [(''sequence'', JInt 7), (''node_id'', JStr ''physical-001'')]), (''gateway_received_at_ms'', JInt 100),
     (''gateway_received_monotonic_ns'', JInt 5), (''sensor_wire_bytes'', JInt 80), (''sequence_status'', JStr ''IN_ORDER'')])]"

definition sample_pi_summary :: evidence where
  "sample_pi_summary = [(''gateway'', JObj [(''valid_messages'', JInt 1)]), (''storage'', JObj [(''records_written'', JInt 1)]),
     (''upstream'', JObj [(''upstream_messages'', JInt 1), (''upstream_bytes'', JInt 300)])]"

definition plain_str :: "json \<Rightarrow> string" where
  "plain_str j = (case j of JStr s \<Rightarrow> s | _ \<Rightarrow> [])"

theorem accepted_evidence_matches_witness:
  "validate_evidence plain_str [sample_pi_reading] [sample_mac_record] sample_pi_summary
     [(''messages_received'', JInt 1), (''bytes_received'', JInt 300)] = Inr () \<and>
   (\<exists>keys mac_keys. map_result (reading_key plain_str) [sample_pi_reading] = Inr keys \<and> mset mac_keys = mset keys \<and>
     list_all2 (record_matches plain_str (zip keys [sample_pi_reading])) [sample_mac_record] mac_keys)"
proof -
  have v: "validate_evidence plain_str [sample_pi_reading] [sample_mac_record] sample_pi_summary
     [(''messages_received'', JInt 1), (''bytes_received'', JInt 300)] = Inr ()"
    by code_simp
  show ?thesis using v accepted_evidence_matches [OF v] by blast
qed

end
