(* ===== verification/Exploratory.thy ===== *)
theory Exploratory
  imports Exploratory_Evidence
begin

text \<open>
  The analysis of the exploratory physical run (\<^verbatim>\<open>src/analysis/exploratory_physical.py\<close>): cadence, statistics per node
  and phase, snapshots at the operator's events, the onset of the response, trends, pressure and the integrity
  counters. Times are nanoseconds since the epoch, as in a pandas timestamp; the pandas and numpy reductions (mean,
  deviation, median, quantile, sum, fit), the parsing and printing of timestamps and the float seconds of a timestamp or
  a time difference are parameters. A stable sort stands for \<open>sort_values\<close>, which fixes no order among equal arrival times.
\<close>

section \<open>Readings and reductions\<close>

record physical_reading =
  ph_node_id :: string
  ph_sequence :: int
  ph_received_ms :: int
  ph_temperature_c :: pyfloat
  ph_humidity_pct :: pyfloat
  ph_pressure_hpa :: pyfloat

record reductions =
  rx_mean :: "pyfloat list \<Rightarrow> pyfloat"
  rx_std :: "pyfloat list \<Rightarrow> pyfloat"
  rx_median :: "pyfloat list \<Rightarrow> pyfloat"
  rx_quantile :: "pyfloat \<Rightarrow> pyfloat list \<Rightarrow> pyfloat"
  rx_sum :: "pyfloat list \<Rightarrow> pyfloat"
  rx_polyfit :: "pyfloat list \<Rightarrow> pyfloat list \<Rightarrow> pyfloat \<times> pyfloat"
  rx_timestamp :: "string \<Rightarrow> int option"
  rx_seconds :: "int \<Rightarrow> pyfloat"
  rx_total_seconds :: "int \<Rightarrow> pyfloat"
  rx_iso :: "int \<Rightarrow> string"

definition SENSOR_COLUMNS :: "(string \<times> (physical_reading \<Rightarrow> pyfloat)) list" where
  "SENSOR_COLUMNS = [(''temperature_c'', ph_temperature_c), (''humidity_pct'', ph_humidity_pct), (''pressure_hpa'', ph_pressure_hpa)]"

definition physical_reading_of :: "evidence \<Rightarrow> physical_reading result" where
  "physical_reading_of d =
     rbind (str_field d ''node_id'') (\<lambda>n. rbind (int_field d ''sequence'') (\<lambda>s. rbind (int_field d ''gateway_received_at_ms'') (\<lambda>m.
     rbind (float_field d ''temperature_c'') (\<lambda>t. rbind (float_field d ''humidity_pct'') (\<lambda>h. rbind (float_field d ''pressure_hpa'') (\<lambda>p.
       Inr \<lparr>ph_node_id = n, ph_sequence = s, ph_received_ms = m, ph_temperature_c = t, ph_humidity_pct = h, ph_pressure_hpa = p\<rparr>))))))"

definition physical_readings :: "evidence list \<Rightarrow> physical_reading list result" where
  "physical_readings rs = rbind (map_result physical_reading_of rs) (\<lambda>xs.
     if xs = [] then Inl (KeyError ''gateway_received_at_ms'')
     else Inr (sort_key ph_received_ms (sort_key ph_node_id xs)))"

definition gateway_time :: "physical_reading \<Rightarrow> int" where
  "gateway_time r = ph_received_ms r * 1000000"

definition node_readings :: "string \<Rightarrow> physical_reading list \<Rightarrow> physical_reading list" where
  "node_readings n rs = filter (\<lambda>r. ph_node_id r = n) rs"

record series_summary =
  sm_count :: nat
  sm_mean :: pyfloat
  sm_stddev :: pyfloat
  sm_min :: pyfloat
  sm_median :: pyfloat
  sm_max :: pyfloat

definition series_statistics :: "reductions \<Rightarrow> pyfloat list \<Rightarrow> series_summary" where
  "series_statistics rx xs = \<lparr>sm_count = length (filter (\<lambda>x. x \<noteq> NaN) xs), sm_mean = rx_mean rx xs, sm_stddev = rx_std rx xs,
     sm_min = extremum py_min xs, sm_median = rx_median rx xs, sm_max = extremum py_max xs\<rparr>"

section \<open>Cadence\<close>

record cadence =
  cx_node_id :: string
  cx_sample_count :: nat
  cx_interval_count :: nat
  cx_first_sequence :: int
  cx_last_sequence :: int
  cx_mean :: pyfloat
  cx_median :: pyfloat
  cx_stddev :: pyfloat
  cx_min :: pyfloat
  cx_max :: pyfloat
  cx_p95 :: pyfloat
  cx_p99 :: pyfloat
  cx_gt_1500 :: nat
  cx_gt_2000 :: nat
  cx_step_not_one :: nat
  cx_inferred_missing :: int

text \<open>\<open>series.diff().dropna()\<close> of an integer column is a float column, and \<open>astype(int)\<close> truncates it.\<close>

fun column_diffs :: "int list \<Rightarrow> pyfloat list" where
  "column_diffs (a # b # xs) = fl (of_int (b - a)) # column_diffs (b # xs)"
| "column_diffs _ = []"

definition as_int :: "pyfloat \<Rightarrow> int" where
  "as_int x = (case x of Fin r \<Rightarrow> trunc r | _ \<Rightarrow> 0)"

definition node_cadence :: "reductions \<Rightarrow> physical_reading list \<Rightarrow> string \<Rightarrow> cadence result" where
  "node_cadence rx readings nid =
     (let node = sort_key ph_received_ms (node_readings nid readings);
          intervals = column_diffs (map ph_received_ms node); steps = map as_int (column_diffs (map ph_sequence node))
      in if node = [] then Inl IndexError
         else Inr \<lparr>cx_node_id = nid, cx_sample_count = length node, cx_interval_count = length intervals,
           cx_first_sequence = ph_sequence (hd node), cx_last_sequence = ph_sequence (last node), cx_mean = rx_mean rx intervals,
           cx_median = rx_median rx intervals, cx_stddev = rx_std rx intervals, cx_min = extremum py_min intervals,
           cx_max = extremum py_max intervals, cx_p95 = rx_quantile rx (fl (95 / 100)) intervals, cx_p99 = rx_quantile rx (fl (99 / 100)) intervals,
           cx_gt_1500 = length (filter (\<lambda>x. flt (Fin 1500) x) intervals), cx_gt_2000 = length (filter (\<lambda>x. flt (Fin 2000) x) intervals),
           cx_step_not_one = length (filter (\<lambda>x. x \<noteq> 1) steps), cx_inferred_missing = (\<Sum>x\<leftarrow>steps. max (x - 1) 0)\<rparr>)"

definition cadence_analysis :: "reductions \<Rightarrow> physical_reading list \<Rightarrow> cadence list result" where
  "cadence_analysis rx readings = map_result (node_cadence rx readings) EXPECTED_NODE_IDS"

section \<open>Statistics per node and phase\<close>

type_synonym measurements = "(string \<times> series_summary) list"

definition measure_columns :: "reductions \<Rightarrow> physical_reading list \<Rightarrow> measurements" where
  "measure_columns rx rs = map (\<lambda>(k, f). (k, series_statistics rx (map f rs))) SENSOR_COLUMNS"

record node_summary =
  no_sample_count :: nat
  no_first_local_time :: string
  no_last_local_time :: string
  no_measurements :: measurements

definition node_statistics :: "reductions \<Rightarrow> physical_reading list \<Rightarrow> (string \<times> node_summary) list result" where
  "node_statistics rx readings =
     map_result (\<lambda>n. let node = node_readings n readings
       in if node = [] then Inl IndexError
          else Inr (n, \<lparr>no_sample_count = length node, no_first_local_time = rx_iso rx (gateway_time (hd node)),
            no_last_local_time = rx_iso rx (gateway_time (last node)), no_measurements = measure_columns rx node\<rparr>)) EXPECTED_NODE_IDS"

definition between :: "int \<Rightarrow> int \<Rightarrow> physical_reading list \<Rightarrow> physical_reading list" where
  "between from_t until_t rs = filter (\<lambda>r. from_t \<le> gateway_time r \<and> gateway_time r < until_t) rs"

definition door_event :: string where
  "door_event = ''bathroom_door_opened_toward_physical-002''"

record event_times =
  ev_shower_on :: int
  ev_shower_off :: int
  ev_door :: int
  ev_order :: "(string \<times> int) list"

text \<open>The operator's notes: exactly the three expected events; a repeated event keeps its place and takes the
  later time.\<close>

definition operator_events :: "(json \<Rightarrow> string) \<Rightarrow> reductions \<Rightarrow> evidence \<Rightarrow> event_times result" where
  "operator_events str rx notes =
     rbind (rbind (list_field notes ''operator_events'') objects) (\<lambda>items_list.
     rbind (map_result (\<lambda>d. rbind (field d ''event'') (\<lambda>e. rbind (str_field d ''local_time'') (\<lambda>t.
         case rx_timestamp rx t of None \<Rightarrow> Inl (ValueError ''could not convert string to Timestamp'') | Some x \<Rightarrow> Inr (str e, x)))) items_list) (\<lambda>ps.
     let events = foldl (\<lambda>d p. dict_set (fst p) (snd p) d) [] ps
     in case (map_of events ''shower_on'', map_of events ''shower_off'', map_of events door_event) of
          (Some a, Some b, Some c) \<Rightarrow>
            if fst ` set events \<subseteq> {''shower_on'', ''shower_off'', door_event}
            then Inr \<lparr>ev_shower_on = a, ev_shower_off = b, ev_door = c, ev_order = events\<rparr>
            else exploratory_error ''operator events differ from expected set''
        | _ \<Rightarrow> exploratory_error ''operator events differ from expected set''))"

definition event_precision :: "(json \<Rightarrow> string) \<Rightarrow> evidence \<Rightarrow> string \<Rightarrow> string result" where
  "event_precision str notes name =
     rbind (rbind (list_field notes ''operator_events'') objects) (\<lambda>items_list.
       case filter (\<lambda>d. get_value d ''event'' = JStr name) items_list of
         [] \<Rightarrow> Inl (RuntimeError ''StopIteration'')
       | d # _ \<Rightarrow> rbind (field d ''precision'') (\<lambda>p. Inr (str p)))"

definition phase_windows :: "physical_reading list \<Rightarrow> event_times \<Rightarrow> (string \<times> int \<times> int) list" where
  "phase_windows readings ev =
     (let ts = map gateway_time readings
      in [(''baseline'', Min (set ts), ev_shower_on ev), (''shower'', ev_shower_on ev, ev_shower_off ev),
          (''closed_recovery'', ev_shower_off ev, ev_door ev), (''door_open_recovery'', ev_door ev, Max (set ts) + 1000000)])"

record phase_summary =
  px_start :: string
  px_end_exclusive :: string
  px_nodes :: "(string \<times> nat \<times> measurements) list"

definition phase_statistics :: "reductions \<Rightarrow> physical_reading list \<Rightarrow> (string \<times> int \<times> int) list \<Rightarrow> (string \<times> phase_summary) list" where
  "phase_statistics rx readings windows =
     map (\<lambda>(phase, s, e). (phase, \<lparr>px_start = rx_iso rx s, px_end_exclusive = rx_iso rx e,
       px_nodes = map (\<lambda>n. let node = between s e (node_readings n readings) in (n, length node, measure_columns rx node)) EXPECTED_NODE_IDS\<rparr>)) windows"

section \<open>Snapshots at the events\<close>

record snapshot =
  sn_sample_time :: string
  sn_offset_ms :: int
  sn_sequence :: int
  sn_values :: "(string \<times> pyfloat) list"

text \<open>\<open>abs().idxmin()\<close>: the first of the nearest readings.\<close>

fun nearest :: "int \<Rightarrow> physical_reading \<Rightarrow> physical_reading list \<Rightarrow> physical_reading" where
  "nearest t best [] = best"
| "nearest t best (r # rs) = nearest t (if \<bar>ph_received_ms r - t\<bar> < \<bar>ph_received_ms best - t\<bar> then r else best) rs"

definition snapshot_at :: "reductions \<Rightarrow> physical_reading list \<Rightarrow> int \<Rightarrow> string \<Rightarrow> (string \<times> snapshot) result" where
  "snapshot_at rx readings target_ms n =
     (case node_readings n readings of
        [] \<Rightarrow> Inl (ValueError ''attempt to get argmin of an empty sequence'')
      | r # rs \<Rightarrow> let x = nearest target_ms r rs
          in Inr (n, \<lparr>sn_sample_time = rx_iso rx (gateway_time x), sn_offset_ms = ph_received_ms x - target_ms, sn_sequence = ph_sequence x,
            sn_values = map (\<lambda>(k, f). (k, f x)) SENSOR_COLUMNS\<rparr>))"

definition event_snapshots :: "reductions \<Rightarrow> physical_reading list \<Rightarrow> event_times \<Rightarrow> (string \<times> (string \<times> snapshot) list) list result" where
  "event_snapshots rx readings ev =
     map_result (\<lambda>(name, t). rbind (py_int (fmul (rx_seconds rx t) (Fin 1000))) (\<lambda>target_ms.
       rbind (map_result (snapshot_at rx readings target_ms) EXPECTED_NODE_IDS) (\<lambda>ss. Inr (name, ss))))
       (ev_order ev @ [(''door_plus_5_minutes'', ev_door ev + 300000000000)])"

section \<open>Onset and trends\<close>

definition minute_ns :: int where
  "minute_ns = 60000000000"

definition minute_of :: "physical_reading \<Rightarrow> int" where
  "minute_of r = gateway_time r div minute_ns * minute_ns"

text \<open>\<open>resample("1min").mean()\<close>: every minute from the first to the last reading; an empty minute is NaN.\<close>

definition minute_labels :: "physical_reading list \<Rightarrow> int list" where
  "minute_labels rs = (if rs = [] then []
     else let a = Min (set (map minute_of rs)); b = Max (set (map minute_of rs))
          in map (\<lambda>i. a + int i * minute_ns) [0..<nat ((b - a) div minute_ns) + 1])"

definition minute_means :: "reductions \<Rightarrow> (physical_reading \<Rightarrow> pyfloat) \<Rightarrow> physical_reading list \<Rightarrow> (int \<times> pyfloat) list" where
  "minute_means rx f rs = map (\<lambda>m. let vs = map f (filter (\<lambda>r. minute_of r = m) rs) in (m, if vs = [] then NaN else rx_mean rx vs)) (minute_labels rs)"

definition minute_measurements :: "reductions \<Rightarrow> physical_reading list \<Rightarrow> (string \<times> string \<times> (int \<times> pyfloat) list) list" where
  "minute_measurements rx readings =
     concat (map (\<lambda>n. map (\<lambda>(k, f). (n, k, minute_means rx f (node_readings n readings))) SENSOR_COLUMNS) EXPECTED_NODE_IDS)"

record onset =
  on_time :: "int option"
  on_baseline_mean :: pyfloat
  on_baseline_stddev :: pyfloat
  on_threshold :: pyfloat

definition contiguous :: "int list \<Rightarrow> bool" where
  "contiguous ts = list_all (\<lambda>i. ts ! i - ts ! (i - 1) = minute_ns) [1..<length ts]"

fun first_window :: "nat \<Rightarrow> (int \<times> bool) list \<Rightarrow> int option" where
  "first_window n [] = None"
| "first_window n (q # qs) =
     (let w = take n (q # qs)
      in if length w < n then None
         else if list_all snd w \<and> contiguous (map fst w) then Some (fst q) else first_window n qs)"

definition detect_sustained_onset :: "(int \<times> pyfloat) list \<Rightarrow> pyfloat \<Rightarrow> pyfloat \<Rightarrow> onset" where
  "detect_sustained_onset means baseline_mean baseline_stddev =
     (let practical = fadd baseline_mean (Fin 5); statistical = fadd baseline_mean (fmul (Fin 3) baseline_stddev);
          threshold = py_max practical statistical; qualifying = map (\<lambda>(t, x). (t, fle threshold x)) means
      in \<lparr>on_time = first_window 3 qualifying, on_baseline_mean = baseline_mean, on_baseline_stddev = baseline_stddev, on_threshold = threshold\<rparr>)"

record trend =
  tn_sample_count :: nat
  tn_start :: string
  tn_end :: string
  tn_slope :: pyfloat
  tn_intercept :: pyfloat
  tn_r_squared :: "pyfloat option"

definition linear_trend :: "reductions \<Rightarrow> physical_reading list \<Rightarrow> (physical_reading \<Rightarrow> pyfloat) \<Rightarrow> int \<Rightarrow> int \<Rightarrow> trend result" where
  "linear_trend rx frame column s e =
     (let phase = between s e frame
      in if length phase < 2 then exploratory_error ''trend window has fewer than two samples''
         else rbind (map_result (\<lambda>r. fdiv (fl (of_int (ph_received_ms r - ph_received_ms (hd phase)))) (Fin 60000)) phase) (\<lambda>minutes.
         let values = map column phase; (slope, intercept) = rx_polyfit rx minutes values;
             square = \<lambda>x. fmul x x; predicted = map (\<lambda>m. fadd (fmul slope m) intercept) minutes;
             residual = rx_sum rx (map2 (\<lambda>v p. square (fsub v p)) values predicted);
             total = rx_sum rx (map (\<lambda>v. square (fsub v (rx_mean rx values))) values)
         in rbind (if feq total (Fin 0) then Inr None else rbind (fdiv residual total) (\<lambda>q. Inr (Some (fsub (Fin 1) q)))) (\<lambda>r2.
           Inr \<lparr>tn_sample_count = length phase, tn_start = rx_iso rx (gateway_time (hd phase)), tn_end = rx_iso rx (gateway_time (last phase)),
             tn_slope = slope, tn_intercept = intercept, tn_r_squared = r2\<rparr>)))"

section \<open>The onset is the first sustained response\<close>

definition sustained_at :: "pyfloat \<Rightarrow> (int \<times> pyfloat) list \<Rightarrow> nat \<Rightarrow> bool" where
  "sustained_at threshold means i \<longleftrightarrow> i + 3 \<le> length means \<and>
     (\<forall>k < 3. fle threshold (snd (means ! (i + k))) \<and> fst (means ! (i + k)) = fst (means ! i) + int k * minute_ns)"

lemma less_three: "(\<forall>k < 3. P k) \<longleftrightarrow> P 0 \<and> P 1 \<and> P (2 :: nat)"
  by (auto simp: numeral_eq_Suc less_Suc_eq)

lemma window_is_sustained:
  assumes "qs = map (\<lambda>(t, x). (t, fle threshold x)) means"
  shows "(let w = take 3 qs in length w = 3 \<and> list_all snd w \<and> contiguous (map fst w)) \<longleftrightarrow> sustained_at threshold means 0"
proof (cases "length means < 3")
  case False
  then obtain a b c ms where m: "means = a # b # c # ms"
    by (metis One_nat_def Suc_le_length_iff not_less numeral_3_eq_3)
  have "[1..<3] = [1, 2::nat]" by (simp add: upt_rec)
  then show ?thesis
    unfolding sustained_at_def less_three assms m
    by (auto simp: contiguous_def numeral_3_eq_3 split: prod.splits)
qed (simp add: sustained_at_def assms)

lemma sustained_Suc: "sustained_at threshold (m # means) (Suc i) \<longleftrightarrow> sustained_at threshold means i"
  by (simp add: sustained_at_def add.commute [of i 3])

lemma first_window_iff:
  "first_window 3 (map (\<lambda>(t, x). (t, fle threshold x)) means) = Some t \<longleftrightarrow>
     (\<exists>i. sustained_at threshold means i \<and> fst (means ! i) = t \<and> (\<forall>j < i. \<not> sustained_at threshold means j))"
proof (induction means)
  case Nil
  then show ?case by (simp add: sustained_at_def)
next
  case (Cons m means)
  let ?q = "\<lambda>(t, x). (t, fle threshold x)"
  define w where "w = take 3 (map ?q (m # means))"
  have w: "length w = 3 \<and> list_all snd w \<and> contiguous (map fst w) \<longleftrightarrow> sustained_at threshold (m # means) 0"
    using window_is_sustained [OF refl, of threshold "m # means"] by (simp add: w_def)
  have short: "\<not> sustained_at threshold (m # means) i" if "length w < 3" for i
    using that by (auto simp: w_def sustained_at_def)
  have step: "first_window 3 (map ?q (m # means)) = (if length w < 3 then None
      else if sustained_at threshold (m # means) 0 then Some (fst m) else first_window 3 (map ?q means))"
    using w unfolding w_def by (cases m) (auto simp: Let_def)
  show ?case
  proof (cases "sustained_at threshold (m # means) 0")
    case True
    then have "\<not> length w < 3" using short by blast
    then show ?thesis unfolding step using True by (auto intro: exI [of _ 0]) (metis gr0I nth_Cons_0)
  next
    case False
    have "(\<exists>i. sustained_at threshold (m # means) i \<and> fst ((m # means) ! i) = t \<and> (\<forall>j < i. \<not> sustained_at threshold (m # means) j)) \<longleftrightarrow>
        (\<exists>i. sustained_at threshold means i \<and> fst (means ! i) = t \<and> (\<forall>j < i. \<not> sustained_at threshold means j))"
    proof (intro iffI; elim exE conjE)
      fix i assume i: "sustained_at threshold (m # means) i" "fst ((m # means) ! i) = t" "\<forall>j < i. \<not> sustained_at threshold (m # means) j"
      then obtain k where "i = Suc k" using False by (cases i) auto
      then show "\<exists>i. sustained_at threshold means i \<and> fst (means ! i) = t \<and> (\<forall>j < i. \<not> sustained_at threshold means j)"
        using i by (intro exI [of _ k]) (auto simp: sustained_Suc)
    next
      fix i assume i: "sustained_at threshold means i" "fst (means ! i) = t" "\<forall>j < i. \<not> sustained_at threshold means j"
      have "\<not> sustained_at threshold (m # means) j" if "j < Suc i" for j
        using that i(3) False by (cases j) (auto simp: sustained_Suc)
      then show "\<exists>i. sustained_at threshold (m # means) i \<and> fst ((m # means) ! i) = t \<and> (\<forall>j < i. \<not> sustained_at threshold (m # means) j)"
        using i by (intro exI [of _ "Suc i"]) (simp add: sustained_Suc)
    qed
    then show ?thesis unfolding step using False short Cons.IH by auto
  qed
qed

lemma flt_asym: "flt a b \<Longrightarrow> \<not> flt b a"
  by (cases a; cases b) auto

text \<open>C39: The inferred onset is the first minute from which three consecutive minutes, one after the other without
  a missing one, have a mean at or above the threshold, and there is none exactly when there is no such minute; the
  threshold is never below the baseline mean plus five points.\<close>

theorem onset_is_first_sustained:
  "(on_time (detect_sustained_onset means b s) = Some t \<longleftrightarrow>
     (\<exists>i. sustained_at (on_threshold (detect_sustained_onset means b s)) means i \<and> fst (means ! i) = t \<and>
       (\<forall>j < i. \<not> sustained_at (on_threshold (detect_sustained_onset means b s)) means j))) \<and>
   \<not> flt (on_threshold (detect_sustained_onset means b s)) (fadd b (Fin 5))"
proof
  show "on_time (detect_sustained_onset means b s) = Some t \<longleftrightarrow>
     (\<exists>i. sustained_at (on_threshold (detect_sustained_onset means b s)) means i \<and> fst (means ! i) = t \<and>
       (\<forall>j < i. \<not> sustained_at (on_threshold (detect_sustained_onset means b s)) means j))"
    unfolding detect_sustained_onset_def Let_def by (simp only: onset.simps first_window_iff)
  show "\<not> flt (on_threshold (detect_sustained_onset means b s)) (fadd b (Fin 5))"
    by (auto simp: detect_sustained_onset_def Let_def py_max_def dest: flt_asym)
qed

definition sample_minutes :: "(int \<times> pyfloat) list" where
  "sample_minutes = [(0, Fin 50), (minute_ns, Fin 60), (2 * minute_ns, Fin 61), (3 * minute_ns, Fin 60)]"

theorem onset_is_first_sustained_witness: "on_time (detect_sustained_onset sample_minutes (Fin 50) (Fin 1)) = Some minute_ns"
proof -
  have th: "on_threshold (detect_sustained_onset sample_minutes (Fin 50) (Fin 1)) = Fin 55"
    by (simp add: detect_sustained_onset_def py_max_def Let_def)
  have "sustained_at (Fin 55) sample_minutes 1" "\<not> sustained_at (Fin 55) sample_minutes 0"
    unfolding sustained_at_def less_three by (simp_all add: sample_minutes_def fle_def feq_def)
  then have "\<exists>i. sustained_at (Fin 55) sample_minutes i \<and> fst (sample_minutes ! i) = minute_ns \<and> (\<forall>j < i. \<not> sustained_at (Fin 55) sample_minutes j)"
    by (intro exI [of _ 1]) (simp add: sample_minutes_def)
  then show ?thesis using onset_is_first_sustained [of sample_minutes "Fin 50" "Fin 1" minute_ns] unfolding th by blast
qed

section \<open>The phases are a partition\<close>

lemma between_chain:
  assumes "a \<le> b" "b \<le> c"
  shows "length (between a b rs) + length (between b c rs) = length (between a c rs)"
  using assms by (induction rs) (auto simp: between_def)

text \<open>When the operator's events lie in order within the run, the four phases are a partition of it: the
  samples of a node in the baseline, the shower, the closed and the open recovery add up to the samples of the
  node.\<close>

theorem phases_partition_readings:
  assumes "readings \<noteq> []" "Min (gateway_time ` set readings) \<le> ev_shower_on ev" "ev_shower_on ev \<le> ev_shower_off ev"
    "ev_shower_off ev \<le> ev_door ev" "ev_door ev \<le> Max (gateway_time ` set readings) + 1000000"
  shows "(\<Sum>(phase, s, e)\<leftarrow>phase_windows readings ev. length (between s e (node_readings n readings))) = length (node_readings n readings)"
proof -
  let ?a = "Min (gateway_time ` set readings)" and ?z = "Max (gateway_time ` set readings) + 1000000"
  let ?rs = "node_readings n readings"
  have "between ?a ?z ?rs = ?rs"
    unfolding between_def
  proof (rule filter_True, rule ballI)
    fix r assume "r \<in> set ?rs"
    then have r: "gateway_time r \<in> gateway_time ` set readings" by (auto simp: node_readings_def)
    have "?a \<le> gateway_time r" "gateway_time r \<le> Max (gateway_time ` set readings)" using r by (auto intro: Min_le Max_ge)
    then show "?a \<le> gateway_time r \<and> gateway_time r < ?z" by simp
  qed
  moreover have "length (between ?a (ev_shower_on ev) ?rs) + (length (between (ev_shower_on ev) (ev_shower_off ev) ?rs) +
      (length (between (ev_shower_off ev) (ev_door ev) ?rs) + length (between (ev_door ev) ?z ?rs))) = length (between ?a ?z ?rs)"
    using assms(2-5) by (simp add: between_chain)
  ultimately show ?thesis by (simp add: phase_windows_def Let_def)
qed

definition sample_physical_reading :: "string \<Rightarrow> int \<Rightarrow> int \<Rightarrow> physical_reading" where
  "sample_physical_reading n s t = \<lparr>ph_node_id = n, ph_sequence = s, ph_received_ms = t, ph_temperature_c = Fin 20, ph_humidity_pct = Fin 50,
     ph_pressure_hpa = Fin 1000\<rparr>"

definition sample_physical_readings :: "physical_reading list" where
  "sample_physical_readings = [sample_physical_reading ''physical-001'' 1 0, sample_physical_reading ''physical-003'' 4 500,
     sample_physical_reading ''physical-003'' 5 1500, sample_physical_reading ''physical-003'' 8 4500]"

theorem phases_partition_readings_witness:
  "(\<Sum>(phase, s, e)\<leftarrow>phase_windows sample_physical_readings
       \<lparr>ev_shower_on = 1000000000, ev_shower_off = 2000000000, ev_door = 3000000000, ev_order = []\<rparr>.
       length (between s e (node_readings ''physical-003'' sample_physical_readings))) = 3"
proof -
  have t: "gateway_time ` set sample_physical_readings = {0, 500000000, 1500000000, 4500000000}"
    by (simp add: sample_physical_readings_def sample_physical_reading_def gateway_time_def)
  have "length (node_readings ''physical-003'' sample_physical_readings) = 3"
    by (simp add: sample_physical_readings_def sample_physical_reading_def node_readings_def)
  then show ?thesis
    using phases_partition_readings [of sample_physical_readings
        "\<lparr>ev_shower_on = 1000000000, ev_shower_off = 2000000000, ev_door = 3000000000, ev_order = []\<rparr>" "''physical-003''"]
    unfolding t by (simp add: sample_physical_readings_def)
qed

section \<open>Inferred missing sequence numbers\<close>

lemma as_int_exact: "\<bar>d\<bar> \<le> 2 ^ 53 \<Longrightarrow> as_int (fl (of_int d)) = d"
  using fl_int [of d] by (simp add: as_int_def trunc_def)

lemma steps_exact:
  assumes "sorted_wrt (<) xs" "\<And>x. x \<in> set xs \<Longrightarrow> 0 \<le> x \<and> x \<le> 2 ^ 53" "xs \<noteq> []"
  shows "(\<Sum>x\<leftarrow>map as_int (column_diffs xs). max (x - 1) 0) = last xs - hd xs + 1 - int (length xs) \<and>
    list_all (\<lambda>x. 1 \<le> x) (map as_int (column_diffs xs))"
  using assms
proof (induction xs rule: column_diffs.induct)
  case (1 a b xs)
  have "0 < b - a" "\<bar>b - a\<bar> \<le> 2 ^ 53" using "1.prems"(1) "1.prems"(2) [of a] "1.prems"(2) [of b] by auto
  then have "as_int (fl (of_int (b - a))) = b - a" by (intro as_int_exact)
  then show ?case using "1.IH" "1.prems" \<open>0 < b - a\<close> by auto
qed auto

lemma steps_all_one: "list_all (\<lambda>x. 1 \<le> x) xs \<Longrightarrow> (\<Sum>x\<leftarrow>xs. max (x - 1) 0) = (0 :: int) \<longleftrightarrow> filter (\<lambda>x. x \<noteq> 1) xs = []"
proof (induction xs)
  case (Cons x xs)
  have "0 \<le> (\<Sum>x\<leftarrow>xs. max (x - 1) (0 :: int))" by (rule sum_list_nonneg) auto
  then show ?case using Cons by (auto simp: max_def)
qed simp

text \<open>When the sequence numbers of a node increase with arrival, the inferred missing readings are exactly the
  numbers skipped between the first and the last one, although the steps pass through floats; they are zero exactly
  when every step is one.\<close>

theorem inferred_missing_exact:
  assumes "node_cadence rx readings nid = Inr c"
    "sorted_wrt (<) (map ph_sequence (sort_key ph_received_ms (node_readings nid readings)))"
    "\<forall>r \<in> set readings. 0 \<le> ph_sequence r \<and> ph_sequence r \<le> 2 ^ 53"
  shows "cx_inferred_missing c = cx_last_sequence c - cx_first_sequence c + 1 - int (cx_sample_count c) \<and>
    (cx_inferred_missing c = 0 \<longleftrightarrow> cx_step_not_one c = 0)"
proof -
  define node where "node = sort_key ph_received_ms (node_readings nid readings)"
  have n: "node \<noteq> []" "cx_inferred_missing c = (\<Sum>x\<leftarrow>map as_int (column_diffs (map ph_sequence node)). max (x - 1) 0)"
    "cx_last_sequence c = last (map ph_sequence node)" "cx_first_sequence c = hd (map ph_sequence node)"
    "cx_sample_count c = length (map ph_sequence node)"
    "cx_step_not_one c = length (filter (\<lambda>x. x \<noteq> 1) (map as_int (column_diffs (map ph_sequence node))))"
    using assms(1) by (auto simp: node_cadence_def Let_def node_def last_map hd_map split: if_splits)
  have "0 \<le> x \<and> x \<le> 2 ^ 53" if "x \<in> set (map ph_sequence node)" for x
    using that assms(3) by (auto simp: node_def node_readings_def)
  then have e: "(\<Sum>x\<leftarrow>map as_int (column_diffs (map ph_sequence node)). max (x - 1) 0) =
      last (map ph_sequence node) - hd (map ph_sequence node) + 1 - int (length (map ph_sequence node))"
    "list_all (\<lambda>x. 1 \<le> x) (map as_int (column_diffs (map ph_sequence node)))"
    using steps_exact [of "map ph_sequence node"] assms(2) n(1) by (auto simp: node_def)
  show ?thesis unfolding n(2-6) using e(1) steps_all_one [OF e(2)] by (simp only: length_0_conv)
qed

definition sample_reductions :: reductions where
  "sample_reductions = \<lparr>rx_mean = (\<lambda>_. Fin 0), rx_std = (\<lambda>_. Fin 0), rx_median = (\<lambda>_. Fin 0), rx_quantile = (\<lambda>_ _. Fin 0), rx_sum = (\<lambda>_. Fin 0),
     rx_polyfit = (\<lambda>_ _. (Fin 0, Fin 0)), rx_timestamp = (\<lambda>_. None), rx_seconds = (\<lambda>_. Fin 0), rx_total_seconds = (\<lambda>_. Fin 0), rx_iso = (\<lambda>_. [])\<rparr>"

theorem inferred_missing_exact_witness:
  "\<exists>c. node_cadence sample_reductions sample_physical_readings ''physical-003'' = Inr c \<and> cx_inferred_missing c = 2"
proof -
  have n: "sort_key ph_received_ms (node_readings ''physical-003'' sample_physical_readings) = tl sample_physical_readings"
    by (simp add: sample_physical_readings_def sample_physical_reading_def node_readings_def)
  obtain c where c: "node_cadence sample_reductions sample_physical_readings ''physical-003'' = Inr c"
    by (simp add: node_cadence_def n Let_def) (simp add: sample_physical_readings_def)
  have "sorted_wrt (<) (map ph_sequence (sort_key ph_received_ms (node_readings ''physical-003'' sample_physical_readings)))"
    unfolding n by (simp add: sample_physical_readings_def sample_physical_reading_def)
  moreover have "\<forall>r \<in> set sample_physical_readings. 0 \<le> ph_sequence r \<and> ph_sequence r \<le> 2 ^ 53"
    by (simp add: sample_physical_readings_def sample_physical_reading_def)
  moreover have "cx_last_sequence c = 8" "cx_first_sequence c = 4" "cx_sample_count c = 3"
    using c by (auto simp: node_cadence_def n Let_def) (auto simp: sample_physical_readings_def sample_physical_reading_def)
  ultimately show ?thesis using c inferred_missing_exact [OF c] by auto
qed

end
