(* ===== verification/Exploratory_Results.thy ===== *)
theory Exploratory_Results
  imports Exploratory
begin

text \<open>
  The results of the exploratory analysis (\<^verbatim>\<open>src/analysis/exploratory_physical.py\<close>): the bathroom intervention, the
  pressure comparison, the engineering integrity counters, the figures (\<^verbatim>\<open>create_candidate_figures\<close> of
  \<^verbatim>\<open>src/analysis/exploratory_plots.py\<close>) and the analysis as a whole. The texts of the outputs, the report
  and the drawings are parameters here (\<open>Figures\<close> and \<open>Exploratory_Report\<close> model the last two); fixed
  descriptive sentences are left out.
\<close>

section \<open>The intervention\<close>

definition get_item :: "(string \<times> 'a) list \<Rightarrow> string \<Rightarrow> 'a result" where
  "get_item d k = (case map_of d k of None \<Rightarrow> Inl (KeyError k) | Some v \<Rightarrow> Inr v)"

text \<open>\<open>idxmax\<close>: the first of the largest values; NaN is skipped.\<close>

fun highest :: "(physical_reading \<Rightarrow> pyfloat) \<Rightarrow> physical_reading \<Rightarrow> physical_reading list \<Rightarrow> physical_reading" where
  "highest f best [] = best"
| "highest f best (r # rs) = highest f (if flt (f best) (f r) then r else best) rs"

definition peak_reading :: "(physical_reading \<Rightarrow> pyfloat) \<Rightarrow> physical_reading list \<Rightarrow> physical_reading result" where
  "peak_reading f rs = (case filter (\<lambda>r. f r \<noteq> NaN) rs of
     [] \<Rightarrow> Inl (ValueError ''attempt to get argmax of an empty sequence'') | x # xs \<Rightarrow> Inr (highest f x xs))"

record peak =
  pk_value :: pyfloat
  pk_time :: string
  pk_delta :: pyfloat
  pk_elapsed :: pyfloat

definition peak_of :: "reductions \<Rightarrow> event_times \<Rightarrow> (physical_reading \<Rightarrow> pyfloat) \<Rightarrow> physical_reading \<Rightarrow> series_summary \<Rightarrow> peak" where
  "peak_of rx ev f r baseline = \<lparr>pk_value = f r, pk_time = rx_iso rx (gateway_time r), pk_delta = fsub (f r) (sm_mean baseline),
     pk_elapsed = rx_total_seconds rx (gateway_time r - ev_shower_on ev)\<rparr>"

record intervention =
  iv_baseline_count :: nat
  iv_baseline_temperature :: series_summary
  iv_baseline_humidity :: series_summary
  iv_onset :: onset
  iv_rh_peak :: peak
  iv_temperature_peak :: peak
  iv_shower_stop :: snapshot
  iv_closed_seconds :: pyfloat
  iv_closed_rh :: "pyfloat \<times> pyfloat \<times> pyfloat"
  iv_closed_trend :: trend
  iv_door_bathroom_rh :: "pyfloat \<times> pyfloat \<times> pyfloat"
  iv_door_room_rh :: "pyfloat \<times> pyfloat \<times> pyfloat"
  iv_first_5_trend :: trend
  iv_door_trend :: trend
  iv_room_peak :: "pyfloat \<times> string"
  iv_humidity_ranges :: "(string \<times> series_summary) list"

text \<open>A value, the later value and the change.\<close>

definition change :: "snapshot \<Rightarrow> snapshot \<Rightarrow> (pyfloat \<times> pyfloat \<times> pyfloat) result" where
  "change a b = rbind (get_item (sn_values a) ''humidity_pct'') (\<lambda>x. rbind (get_item (sn_values b) ''humidity_pct'') (\<lambda>y. Inr (x, y, fsub y x)))"

definition phase_node :: "(string \<times> phase_summary) list \<Rightarrow> string \<Rightarrow> string \<Rightarrow> (nat \<times> measurements) result" where
  "phase_node phases phase n = rbind (get_item phases phase) (\<lambda>p. get_item (px_nodes p) n)"

definition intervention_analysis ::
  "reductions \<Rightarrow> physical_reading list \<Rightarrow> (string \<times> node_summary) list \<Rightarrow> (string \<times> phase_summary) list \<Rightarrow>
    (string \<times> (string \<times> snapshot) list) list \<Rightarrow> event_times \<Rightarrow> intervention result" where
  "intervention_analysis rx readings summaries phases snapshots ev =
     (let bathroom = node_readings ''physical-003'' readings
      in rbind (phase_node phases ''baseline'' ''physical-003'') (\<lambda>(n, baseline).
      rbind (get_item baseline ''humidity_pct'') (\<lambda>rh.
      let means = filter (\<lambda>(t, x). x \<noteq> NaN) (minute_means rx ph_humidity_pct bathroom);
          on = detect_sustained_onset (filter (\<lambda>(t, x). ev_shower_on ev \<le> t) means) (sm_mean rh) (sm_stddev rh);
          shower = between (ev_shower_on ev) (ev_shower_off ev) bathroom
      in rbind (peak_reading ph_humidity_pct shower) (\<lambda>rh_peak.
      rbind (peak_reading ph_temperature_c shower) (\<lambda>temp_peak.
      rbind (rbind (get_item snapshots ''shower_off'') (\<lambda>d. get_item d ''physical-003'')) (\<lambda>stop.
      rbind (get_item snapshots door_event) (\<lambda>door.
      rbind (get_item snapshots ''door_plus_5_minutes'') (\<lambda>door5.
      rbind (linear_trend rx bathroom ph_humidity_pct (ev_shower_off ev) (ev_door ev)) (\<lambda>closed.
      rbind (linear_trend rx bathroom ph_humidity_pct (ev_door ev) (Max (set (map gateway_time bathroom)) + 1000000)) (\<lambda>full.
      rbind (linear_trend rx bathroom ph_humidity_pct (ev_door ev) (ev_door ev + 300000000000)) (\<lambda>first5.
      rbind (peak_reading ph_humidity_pct (filter (\<lambda>r. ev_door ev \<le> gateway_time r) (node_readings ''physical-002'' readings))) (\<lambda>room_peak.
      rbind (get_item baseline ''temperature_c'') (\<lambda>temp.
      rbind (get_item door ''physical-003'') (\<lambda>door_bath. rbind (get_item door ''physical-002'') (\<lambda>door_room.
      rbind (get_item door5 ''physical-003'') (\<lambda>door5_bath. rbind (get_item door5 ''physical-002'') (\<lambda>door5_room.
      rbind (change stop door_bath) (\<lambda>closed_rh. rbind (change door_bath door5_bath) (\<lambda>bath_rh. rbind (change door_room door5_room) (\<lambda>room_rh.
      rbind (map_result (\<lambda>m. rbind (get_item summaries m) (\<lambda>s. rbind (get_item (no_measurements s) ''humidity_pct'') (\<lambda>v. Inr (m, v)))) EXPECTED_NODE_IDS)
        (\<lambda>ranges.
        Inr \<lparr>iv_baseline_count = n, iv_baseline_temperature = temp, iv_baseline_humidity = rh, iv_onset = on,
          iv_rh_peak = peak_of rx ev ph_humidity_pct rh_peak rh, iv_temperature_peak = peak_of rx ev ph_temperature_c temp_peak temp,
          iv_shower_stop = stop, iv_closed_seconds = rx_total_seconds rx (ev_door ev - ev_shower_off ev), iv_closed_rh = closed_rh,
          iv_closed_trend = closed, iv_door_bathroom_rh = bath_rh, iv_door_room_rh = room_rh, iv_first_5_trend = first5, iv_door_trend = full,
          iv_room_peak = (ph_humidity_pct room_peak, rx_iso rx (gateway_time room_peak)), iv_humidity_ranges = ranges\<rparr>)))))))))))))))))))))"

section \<open>Pressure and integrity\<close>

record pressure_summary =
  ps_overall :: series_summary
  ps_shower_minus_baseline :: pyfloat
  ps_peak_to_peak :: pyfloat

definition pressure_analysis :: "(string \<times> node_summary) list \<Rightarrow> (string \<times> phase_summary) list \<Rightarrow> (string \<times> pressure_summary) list result" where
  "pressure_analysis summaries phases =
     map_result (\<lambda>n.
       rbind (rbind (get_item summaries n) (\<lambda>s. get_item (no_measurements s) ''pressure_hpa'')) (\<lambda>overall.
       rbind (rbind (phase_node phases ''baseline'' n) (\<lambda>(_, m). get_item m ''pressure_hpa'')) (\<lambda>baseline.
       rbind (rbind (phase_node phases ''shower'' n) (\<lambda>(_, m). get_item m ''pressure_hpa'')) (\<lambda>shower.
         Inr (n, \<lparr>ps_overall = overall, ps_shower_minus_baseline = fsub (sm_mean shower) (sm_mean baseline),
           ps_peak_to_peak = fsub (sm_max overall) (sm_min overall)\<rparr>))))) EXPECTED_NODE_IDS"

record engineering =
  en_counters :: "(string \<times> int) list"
  en_sequence_integrity :: "(string \<times> (string \<times> int) list) list"
  en_gateway_event_rows :: nat
  en_health_event_rows :: nat
  en_metric_samples :: nat
  en_cpu_mean :: pyfloat
  en_cpu_max :: pyfloat
  en_rss_mean :: pyfloat
  en_rss_max :: int
  en_system_cpu_mean :: pyfloat

definition integrity_counters :: "(string \<times> bool \<times> string list) list" where
  "integrity_counters =
     [(''pi_valid_messages'', True, [''gateway'', ''valid_messages'']), (''pi_persisted_records'', True, [''storage'', ''records_written'']),
      (''pi_forwarded_records'', True, [''upstream'', ''upstream_messages'']), (''mac_collected_records'', False, [''messages_received'']),
      (''pi_upstream_bytes'', True, [''upstream'', ''upstream_bytes'']), (''mac_received_upstream_bytes'', False, [''bytes_received'']),
      (''gateway_invalid_messages'', True, [''gateway'', ''invalid_messages'']), (''gateway_malformed_json'', True, [''gateway'', ''malformed_json'']),
      (''gateway_schema_rejections'', True, [''gateway'', ''schema_rejections'']),
      (''gateway_overlong_messages'', True, [''gateway'', ''overlong_messages'']),
      (''gateway_truncated_messages'', True, [''gateway'', ''truncated_messages'']),
      (''upstream_queue_full_drops'', True, [''upstream'', ''queue_full_drops'']), (''upstream_send_failures'', True, [''upstream'', ''send_failures'']),
      (''upstream_abandoned_on_shutdown'', True, [''upstream'', ''records_abandoned_on_shutdown'']),
      (''collector_invalid_messages'', False, [''invalid_messages'']), (''collector_overlong_messages'', False, [''overlong_messages'']),
      (''collector_truncated_messages'', False, [''truncated_messages''])]"

definition sequence_counters :: "string list" where
  "sequence_counters = [''messages_received'', ''duplicates'', ''out_of_order'', ''estimated_messages_missing'', ''sequence_resets'']"

definition engineering_integrity ::
  "reductions \<Rightarrow> evidence list \<Rightarrow> evidence list \<Rightarrow> evidence \<Rightarrow> evidence \<Rightarrow> nat \<Rightarrow> nat \<Rightarrow> metrics_sample list \<Rightarrow> engineering result" where
  "engineering_integrity rx pi_records mac_records pi_summary mac_summary gateway_rows health_rows metrics =
     rbind (obj_field pi_summary ''registry'') (\<lambda>registry.
     rbind (map_result (\<lambda>(k, from_pi, p). rbind (int_at (if from_pi then pi_summary else mac_summary) p) (\<lambda>v. Inr (k, v))) integrity_counters) (\<lambda>cs.
     rbind (map_result (\<lambda>n. rbind (map_result (\<lambda>k. rbind (int_at registry [n, k]) (\<lambda>v. Inr (k, v))) sequence_counters) (\<lambda>d. Inr (n, d)))
       EXPECTED_NODE_IDS) (\<lambda>sequences.
     if metrics = [] then Inl (ValueError ''cannot convert float NaN to integer'')
     else Inr \<lparr>en_counters = cs @ [(''pi_reading_file_records'', int (length pi_records)), (''mac_upstream_file_records'', int (length mac_records))],
         en_sequence_integrity = sequences, en_gateway_event_rows = gateway_rows, en_health_event_rows = health_rows,
         en_metric_samples = length metrics, en_cpu_mean = rx_mean rx (map ms_process_cpu_percent metrics),
         en_cpu_max = extremum py_max (map ms_process_cpu_percent metrics),
         en_rss_mean = rx_mean rx (map (\<lambda>m. fl (of_int (ms_process_rss_bytes m))) metrics),
         en_rss_max = Max (set (map ms_process_rss_bytes metrics)), en_system_cpu_mean = rx_mean rx (map ms_system_cpu_percent metrics)\<rparr>)))"

section \<open>The analysis\<close>

record exploratory_summary =
  xs_analysis_id :: string
  xs_run_id :: string
  xs_source_directory :: string
  xs_source_sha256 :: "(string \<times> string) list"
  xs_first_ms :: int
  xs_last_ms :: int
  xs_elapsed_seconds :: pyfloat
  xs_total_readings :: nat
  xs_operator_events :: "(string \<times> string \<times> string) list"
  xs_nodes :: "(string \<times> node_summary) list"
  xs_phases :: "(string \<times> phase_summary) list"
  xs_cadence :: "cadence list"
  xs_snapshots :: "(string \<times> (string \<times> snapshot) list) list"
  xs_intervention :: intervention
  xs_pressure :: "(string \<times> pressure_summary) list"
  xs_engineering :: engineering
  xs_figures :: "string list"

record exploratory_env =
  xe_loads :: "string \<Rightarrow> json option"
  xe_str :: "json \<Rightarrow> string"
  xe_rx :: reductions
  xe_sha :: "string \<Rightarrow> string"
  xe_metrics :: "string \<Rightarrow> metrics_sample list"
  xe_dumps :: "exploratory_summary \<Rightarrow> string"
  xe_csv :: "string \<Rightarrow> exploratory_summary \<Rightarrow> string"
  xe_minutes_csv :: "(string \<times> string \<times> (int \<times> pyfloat) list) list \<Rightarrow> string"
  xe_report :: "exploratory_summary \<Rightarrow> string \<Rightarrow> string \<Rightarrow> string"
  xe_draw :: "string \<Rightarrow> physical_reading list \<Rightarrow> cadence list \<Rightarrow> event_times \<Rightarrow> string"

definition candidate_stems :: "string list" where
  "candidate_stems = [''relative_humidity_timeseries'', ''temperature_timeseries'', ''door_opening_humidity_focus'', ''pressure_timeseries'',
     ''sampling_cadence_tail'']"

definition create_candidate_figures ::
  "(string \<Rightarrow> physical_reading list \<Rightarrow> cadence list \<Rightarrow> event_times \<Rightarrow> string) \<Rightarrow> physical_reading list \<Rightarrow> cadence list \<Rightarrow> event_times \<Rightarrow> string \<Rightarrow> disk \<Rightarrow>
    (string list \<times> disk) result" where
  "create_candidate_figures draw readings cadences ev dir w =
     rbind (mkdir dir w) (\<lambda>w1.
       Inr (candidate_stems, write_below dir (concat (map (\<lambda>st. [(st @ ''.pdf'', draw (st @ ''.pdf'') readings cadences ev),
         (st @ ''.png'', draw (st @ ''.png'') readings cadences ev)]) candidate_stems)) w1))"

text \<open>What is read and checked before the first directory is made.\<close>

record exploratory_inputs =
  xi_notes :: evidence
  xi_pi_summary :: evidence
  xi_mac_summary :: evidence
  xi_pi_records :: "evidence list"
  xi_mac_records :: "evidence list"
  xi_metrics :: "metrics_sample list"
  xi_gateway_rows :: nat
  xi_health_rows :: nat
  xi_events :: event_times
  xi_readings :: "physical_reading list"
  xi_run_id :: string

definition exploratory_inputs_of :: "exploratory_env \<Rightarrow> files \<Rightarrow> string \<Rightarrow> exploratory_inputs result" where
  "exploratory_inputs_of env fs dir =
     rbind (read_notes_json (xe_loads env) fs (slash dir ''operator-notes.json'')) (\<lambda>notes.
     rbind (read_notes_json (xe_loads env) fs (slash dir ''pi-summary.json'')) (\<lambda>pi_summary.
     rbind (read_notes_json (xe_loads env) fs (slash dir ''mac-summary.json'')) (\<lambda>mac_summary.
     rbind (read_evidence_ndjson (xe_loads env) fs (slash dir ''pi-readings.ndjson'')) (\<lambda>pi_records.
     rbind (read_evidence_ndjson (xe_loads env) fs (slash dir ''mac-upstream.ndjson'')) (\<lambda>mac_records.
     rbind (open_text fs (slash dir ''pi-system-metrics.csv'')) (\<lambda>metrics_text.
     rbind (open_text fs (slash dir ''pi-gateway-events.csv'')) (\<lambda>gateway_text.
     rbind (open_text fs (slash dir ''pi-health-events.csv'')) (\<lambda>health_text.
     rbind (validate_evidence (xe_str env) pi_records mac_records pi_summary mac_summary) (\<lambda>_.
     rbind (field notes ''timezone'') (\<lambda>_.
     rbind (operator_events (xe_str env) (xe_rx env) notes) (\<lambda>events.
     rbind (physical_readings pi_records) (\<lambda>readings.
     rbind (field notes ''run_id'') (\<lambda>run.
       Inr \<lparr>xi_notes = notes, xi_pi_summary = pi_summary, xi_mac_summary = mac_summary, xi_pi_records = pi_records, xi_mac_records = mac_records,
         xi_metrics = xe_metrics env metrics_text, xi_gateway_rows = length (snd (dict_rows gateway_text)),
         xi_health_rows = length (snd (dict_rows health_text)), xi_events = events, xi_readings = readings, xi_run_id = xe_str env run\<rparr>)))))))))))))"

definition exploratory_summary_of :: "exploratory_env \<Rightarrow> string \<Rightarrow> (string \<times> string) list \<Rightarrow> exploratory_inputs \<Rightarrow> exploratory_summary result" where
  "exploratory_summary_of env dir hashes i =
     (let rx = xe_rx env; readings = xi_readings i; ev = xi_events i
      in rbind (cadence_analysis rx readings) (\<lambda>cadences.
      rbind (node_statistics rx readings) (\<lambda>summaries.
      let phases = phase_statistics rx readings (phase_windows readings ev)
      in rbind (event_snapshots rx readings ev) (\<lambda>snapshots.
      rbind (intervention_analysis rx readings summaries phases snapshots ev) (\<lambda>iv.
      rbind (pressure_analysis summaries phases) (\<lambda>pressure.
      rbind (engineering_integrity rx (xi_pi_records i) (xi_mac_records i) (xi_pi_summary i) (xi_mac_summary i) (xi_gateway_rows i)
        (xi_health_rows i) (xi_metrics i)) (\<lambda>eng.
      let first_ms = Min (set (map ph_received_ms readings)); last_ms = Max (set (map ph_received_ms readings))
      in rbind (fdiv (fl (of_int (last_ms - first_ms))) (Fin 1000)) (\<lambda>elapsed.
      rbind (map_result (\<lambda>(k, t). rbind (event_precision (xe_str env) (xi_notes i) k) (\<lambda>p. Inr (k, rx_iso rx t, p))) (ev_order ev)) (\<lambda>oe.
        Inr \<lparr>xs_analysis_id = xi_run_id i @ ''-analysis-v1'', xs_run_id = xi_run_id i, xs_source_directory = dir, xs_source_sha256 = hashes,
          xs_first_ms = first_ms, xs_last_ms = last_ms, xs_elapsed_seconds = elapsed, xs_total_readings = length readings,
          xs_operator_events = oe, xs_nodes = summaries, xs_phases = phases, xs_cadence = cadences, xs_snapshots = snapshots,
          xs_intervention = iv, xs_pressure = pressure, xs_engineering = eng, xs_figures = candidate_stems\<rparr>)))))))))"

definition exploratory_texts :: "exploratory_env \<Rightarrow> exploratory_inputs \<Rightarrow> exploratory_summary \<Rightarrow> string \<Rightarrow> string \<Rightarrow> (string \<times> string) list" where
  "exploratory_texts env i summary processed_dir figures_dir =
       [(''node_overall_statistics.csv'', xe_csv env ''node_overall_statistics.csv'' summary),
        (''phase_statistics.csv'', xe_csv env ''phase_statistics.csv'' summary), (''event_snapshots.csv'', xe_csv env ''event_snapshots.csv'' summary),
        (''cadence_statistics.csv'', xe_csv env ''cadence_statistics.csv'' summary),
        (''minute_measurements.csv'', xe_minutes_csv env (minute_measurements (xe_rx env) (xi_readings i))),
        (''REPORT_ANALYSIS.md'', xe_report env summary processed_dir figures_dir)]"

definition analyze_exploratory_run ::
  "exploratory_env \<Rightarrow> string \<Rightarrow> string \<Rightarrow> string \<Rightarrow> disk \<Rightarrow> (exploratory_summary \<times> string \<times> string \<times> disk) result" where
  "analyze_exploratory_run env dir processed_root figures_root w =
     rbind (source_hashes (xe_sha env) (fst w) dir) (\<lambda>before.
     rbind (exploratory_inputs_of env (fst w) dir) (\<lambda>i.
     let name = xi_run_id i @ ''-analysis-v1''; processed_dir = slash processed_root name; figures_dir = slash figures_root name
     in rbind (mkdir processed_dir w) (\<lambda>w1.
     rbind (exploratory_summary_of env dir before i) (\<lambda>summary.
     rbind (create_candidate_figures (xe_draw env) (xi_readings i) (xs_cadence summary) (xi_events i) figures_dir w1) (\<lambda>(_, w2).
     rbind (write_json_exclusive (slash processed_dir ''analysis_summary.json'') (xe_dumps env summary) (fst w2)) (\<lambda>fs.
     let w3 = write_below processed_dir (exploratory_texts env i summary processed_dir figures_dir) (fs, snd w2)
     in rbind (source_hashes (xe_sha env) (fst w3) dir) (\<lambda>after.
        if after \<noteq> before then exploratory_error ''source evidence changed during analysis''
        else Inr (summary, processed_dir, figures_dir, w3))))))))"

section \<open>The evidence is kept\<close>

lemma exclusive_is_write:
  assumes "write_json_exclusive (slash d n) t (fst w) = Inr fs"
  shows "(fs, snd w) = write_below d [(n, t @ [newline])] w"
  using assms by (auto simp: write_json_exclusive_def create_exclusive_Inr write_below_def write_file_def)

lemma exploratory_run_keeps_evidence:
  assumes "analyze_exploratory_run env dir processed_root figures_root w = Inr (summary, p, f, w')" "disk_ok w"
  shows "keeps w w' \<and> p \<notin> set (snd w) \<and> f \<notin> set (snd w)"
proof -
  obtain i w1 st w2 fs where 1: "mkdir p w = Inr w1"
    "create_candidate_figures (xe_draw env) (xi_readings i) (xs_cadence summary) (xi_events i) f w1 = Inr (st, w2)"
    "write_json_exclusive (slash p ''analysis_summary.json'') (xe_dumps env summary) (fst w2) = Inr fs"
    and w': "w' = write_below p (exploratory_texts env i summary p f) (fs, snd w2)"
    using assms(1)
    by (force simp: analyze_exploratory_run_def rbind_eq_Inr_iff Let_def split: if_splits prod.splits)
  have p: "p \<notin> set (snd w)" using 1(1) by (auto simp: mkdir_def split: if_splits)
  have k1: "keeps w w1 \<and> snd w1 = snd w @ [p]" using mkdir_keeps [OF 1(1) keeps_refl [OF assms(2)]] .
  obtain u where u: "mkdir f w1 = Inr u" "w2 = write_below f (concat (map (\<lambda>st'. [(st' @ ''.pdf'', xe_draw env (st' @ ''.pdf'') (xi_readings i) (xs_cadence summary) (xi_events i)),
         (st' @ ''.png'', xe_draw env (st' @ ''.png'') (xi_readings i) (xs_cadence summary) (xi_events i))]) candidate_stems)) u"
    using 1(2) by (auto simp: create_candidate_figures_def rbind_eq_Inr_iff)
  have f: "f \<notin> set (snd w)" using u(1) k1 by (auto simp: mkdir_def split: if_splits)
  have k2: "keeps w u \<and> snd u = snd w1 @ [f]" using mkdir_keeps [OF u(1) conjunct1 [OF k1]] .
  have k3: "keeps w w2 \<and> snd w2 = snd u"
    unfolding u(2) using keeps_write_below [OF assms(2) conjunct1 [OF k2] f] k2 by (simp add: candidate_stems_def)
  have k4: "keeps w (fs, snd w2) \<and> snd (fs, snd w2) = snd w2"
    unfolding exclusive_is_write [OF 1(3)] using k1 k2 k3 by (intro keeps_write_below [OF assms(2) _ p]) simp_all
  have "keeps w w'"
    unfolding w' using keeps_write_below [OF assms(2) conjunct1 [OF k4] p] k1 k2 k3 by (simp add: exploratory_texts_def)
  then show ?thesis using p f by blast
qed

end
