(* ===== verification/Figures.thy ===== *)
theory Figures
  imports Exploratory_Results
begin

text \<open>
  The data of the figures: \<^verbatim>\<open>src/analysis/plots.py\<close> (comparisons), \<^verbatim>\<open>src/analysis/final_campaign_plots.py\<close>
  (the campaign) and \<^verbatim>\<open>src/analysis/exploratory_plots.py\<close> (the physical run). A figure is modelled as what its
  axes are given: the points of every line with their error bars, and the file names and captions. Colours, fonts, ticks
  and the rendering itself are matplotlib's and left out.
\<close>

section \<open>Columns of a frame\<close>

text \<open>A number of a row; a missing field, a null and a text are NaN.\<close>

definition float_column :: "evidence \<Rightarrow> string \<Rightarrow> pyfloat" where
  "float_column row k = (case number (get_value row k) of Some x \<Rightarrow> x | None \<Rightarrow> NaN)"

definition flagged :: "string \<Rightarrow> evidence list \<Rightarrow> evidence list" where
  "flagged k rows = filter (\<lambda>r. get_value r k = JBool True) rows"

definition raw_rows :: "evidence list \<Rightarrow> evidence list" where
  "raw_rows rows = filter (\<lambda>r. get_value r ''aggregation_mode'' = JStr ''raw'') rows"

definition five_second_rows :: "evidence list \<Rightarrow> evidence list" where
  "five_second_rows rows = filter (\<lambda>r. feq (float_column r ''aggregation_window_seconds'') (Fin 5)) rows"

section \<open>Grouped means and standard deviations\<close>

text \<open>\<open>groupby(x)[y].agg(["mean", "std"])\<close> with \<open>fillna\<close> on the deviations: the groups in ascending order
  of their key; NaN values do not count, and a group of fewer than two has no deviation.\<close>

definition group_values :: "('k \<times> pyfloat) list \<Rightarrow> 'k \<Rightarrow> pyfloat list" where
  "group_values ps k = filter (\<lambda>y. y \<noteq> NaN) (map snd (filter (\<lambda>p. fst p = k) ps))"

definition column_mean :: "series \<Rightarrow> pyfloat list \<Rightarrow> pyfloat" where
  "column_mean se ys = (if ys = [] then NaN else se_mean se ys)"

definition deviation_of :: "series \<Rightarrow> pyfloat list \<Rightarrow> pyfloat" where
  "deviation_of se ys = (let s = (if length ys < 2 then NaN else se_std se ys) in if s = NaN then Fin 0 else s)"

definition group_keys :: "('k::linorder \<times> pyfloat) list \<Rightarrow> 'k list" where
  "group_keys ps = sort (remdups (map fst ps))"

definition grouped_mean_sd :: "series \<Rightarrow> ('k::linorder \<times> pyfloat) list \<Rightarrow> ('k \<times> pyfloat \<times> pyfloat) list" where
  "grouped_mean_sd se ps = map (\<lambda>k. (k, column_mean se (group_values ps k), deviation_of se (group_values ps k))) (group_keys ps)"

text \<open>The points of two columns; a row without a number for the key belongs to no group.\<close>

definition numeric_points :: "string \<Rightarrow> string \<Rightarrow> evidence list \<Rightarrow> (rat \<times> pyfloat) list" where
  "numeric_points x y rows =
     map (\<lambda>r. (fval (float_column r x), float_column r y)) (filter (\<lambda>r. is_finite (float_column r x)) rows)"

section \<open>Comparison plots\<close>

datatype plot_points = By_Number "(rat \<times> pyfloat \<times> pyfloat) list" | By_Name "(string \<times> pyfloat \<times> pyfloat) list"

text \<open>\<open>_plot\<close>: nothing is drawn without a complete row.\<close>

definition complete_points :: "string \<Rightarrow> string \<Rightarrow> evidence list \<Rightarrow> (rat \<times> pyfloat) list" where
  "complete_points x y rows = filter (\<lambda>p. snd p \<noteq> NaN) (numeric_points x y rows)"

definition named_points :: "string \<Rightarrow> string \<Rightarrow> evidence list \<Rightarrow> (string \<times> pyfloat) list" where
  "named_points x y rows =
     concat (map (\<lambda>r. case get_value r x of JStr s \<Rightarrow> if float_column r y = NaN then [] else [(s, float_column r y)] | _ \<Rightarrow> []) rows)"

text \<open>A column that no row has is missing from the frame.\<close>

definition require_column :: "evidence list \<Rightarrow> string \<Rightarrow> unit result" where
  "require_column rows k = (if list_all (\<lambda>r. map_of r k = None) rows then Inl (KeyError k) else Inr ())"

definition plot_pair :: "series \<Rightarrow> evidence list \<Rightarrow> string \<times> string \<times> string \<Rightarrow> (string \<times> plot_points) list result" where
  "plot_pair se rows xyf =
     (let (x, y, filename) = xyf
      in rbind (require_column rows x) (\<lambda>_. rbind (require_column rows y) (\<lambda>_.
         Inr (if x = ''run_id''
              then (if named_points x y rows = [] then [] else [(filename @ ''.png'', By_Name (grouped_mean_sd se (named_points x y rows)))])
              else (if complete_points x y rows = [] then [] else [(filename @ ''.png'', By_Number (grouped_mean_sd se (complete_points x y rows)))])))))"

definition number_of_values :: "evidence list \<Rightarrow> string \<Rightarrow> nat result" where
  "number_of_values rows k =
     rbind (require_column rows k) (\<lambda>_. Inr (length (remdups (filter (\<lambda>x. x \<noteq> NaN) (map (\<lambda>r. float_column r k) rows)))))"

definition comparison_pairs :: "evidence list \<Rightarrow> string \<Rightarrow> (string \<times> string \<times> string) list result" where
  "comparison_pairs rows experiment_type =
     (if experiment_type = ''scaling'' then Inr
        [(''node_count'', ''latency_median_ms'', ''latency_vs_nodes''),
         (''node_count'', ''virtual_unique_throughput_readings_per_second'', ''throughput_vs_nodes''),
         (''node_count'', ''process_cpu_mean_percent'', ''cpu_vs_nodes''),
         (''node_count'', ''process_rss_mean_bytes'', ''memory_vs_nodes'')]
      else if experiment_type = ''aggregation'' then Inr
        [(''aggregation_window_seconds'', ''collector_bytes_actual'', ''upstream_actual_bytes_vs_window''),
         (''aggregation_window_seconds'', ''upstream_message_reduction_actual'', ''upstream_actual_message_reduction_vs_window''),
         (''aggregation_window_seconds'', ''information_delay_mean_ms'', ''information_delay_vs_window'')]
      else if experiment_type = ''impairment'' then
        rbind (number_of_values rows ''drop_probability'') (\<lambda>drops.
          if 1 < drops then Inr [(''drop_probability'', ''delivery_ratio'', ''delivery_vs_application_drop'')]
          else rbind (number_of_values rows ''artificial_delay_ms'') (\<lambda>delays.
            Inr (if 1 < delays then [(''artificial_delay_ms'', ''delivery_ratio'', ''delivery_vs_application_delay'')] else [])))
      else Inr
        (if experiment_type = ''failure'' then [(''run_id'', ''failure_detection_time_ms'', ''failure_suspect_detection_by_run'')] else []))"

text \<open>The plots before a missing column are on disk already when its error is raised; the directory stays.\<close>

fun draw_pairs :: "(plot_points \<Rightarrow> string) \<Rightarrow> series \<Rightarrow> evidence list \<Rightarrow> string \<Rightarrow> (string \<times> string \<times> string) list \<Rightarrow> disk \<Rightarrow>
    py_error option \<times> disk" where
  "draw_pairs render se rows dir [] w = (None, w)"
| "draw_pairs render se rows dir (p # ps) w =
     (case plot_pair se rows p of
        Inl e \<Rightarrow> (Some e, w)
      | Inr plots \<Rightarrow> draw_pairs render se rows dir ps (write_below dir (map (\<lambda>(f, d). (f, render d)) plots) w))"

definition plot_comparison ::
  "(plot_points \<Rightarrow> string) \<Rightarrow> series \<Rightarrow> evidence list \<Rightarrow> string \<Rightarrow> string \<Rightarrow> disk \<Rightarrow> py_error option \<times> disk" where
  "plot_comparison render se rows experiment_type dir w =
     (case mkdir dir w of
        Inl e \<Rightarrow> (Some e, w)
      | Inr w1 \<Rightarrow>
          (case comparison_pairs rows experiment_type of
             Inl e \<Rightarrow> (Some e, w1)
           | Inr ps \<Rightarrow> draw_pairs render se rows dir ps w1))"

text \<open>Drawing the comparison keeps every file that was there.\<close>

lemma plot_pair_names:
  "plot_pair se rows (x, y, n) = Inr plots \<Longrightarrow> CHR ''/'' \<notin> set n \<Longrightarrow>
    list_all (\<lambda>p. CHR ''/'' \<notin> set (fst p)) (map (\<lambda>(f, d). (f, render d)) plots)"
  by (auto simp: plot_pair_def rbind_eq_Inr_iff split: if_splits)

lemma draw_pairs_keeps:
  assumes "disk_ok w0" "keeps w0 w" "dir \<notin> set (snd w0)" "dir \<in> set (snd w)" "list_all (\<lambda>(x, y, n). CHR ''/'' \<notin> set n) ps"
  shows "keeps w0 (snd (draw_pairs render se rows dir ps w))"
  using assms(2,4,5)
proof (induction ps arbitrary: w)
  case (Cons p ps)
  obtain x y n where p: "p = (x, y, n)" by (cases p) auto
  show ?case
  proof (cases "plot_pair se rows p")
    case (Inr plots)
    have "list_all (\<lambda>p. CHR ''/'' \<notin> set (fst p)) (map (\<lambda>(f, d). (f, render d)) plots)"
      using Inr Cons.prems(3) by (intro plot_pair_names [of se rows x y n]) (simp_all add: p)
    from keeps_write_below [OF assms(1) Cons.prems(1) assms(3) Cons.prems(2) this] Cons.IH Cons.prems(2,3) Inr
    show ?thesis by simp
  qed (use Cons.prems in simp)
qed simp

lemma plot_comparison_keeps:
  assumes "disk_ok w" "dir \<notin> set (snd w)"
  shows "keeps w (snd (plot_comparison render se rows experiment_type dir w))"
proof (cases "mkdir dir w")
  case (Inl e)
  then show ?thesis using keeps_refl [OF assms(1)] by (simp add: plot_comparison_def)
next
  case (Inr w1)
  note k = mkdir_keeps [OF Inr keeps_refl [OF assms(1)]]
  show ?thesis
  proof (cases "comparison_pairs rows experiment_type")
    case (Inr ps)
    then have "list_all (\<lambda>(x, y, n). CHR ''/'' \<notin> set n) ps"
      by (auto simp: comparison_pairs_def rbind_eq_Inr_iff split: if_splits)
    then show ?thesis
      using k Inr \<open>mkdir dir w = Inr w1\<close> draw_pairs_keeps [OF assms(1) _ assms(2), of w1 ps render se rows]
      by (simp add: plot_comparison_def)
  qed (use k Inr in \<open>simp add: plot_comparison_def\<close>)
qed

section \<open>Campaign figures\<close>

record panel =
  pn_metric :: string
  pn_lines :: "(string \<times> (rat \<times> pyfloat \<times> pyfloat) list) list"

definition error_line :: "series \<Rightarrow> evidence list \<Rightarrow> string \<Rightarrow> (rat \<times> pyfloat \<times> pyfloat) list" where
  "error_line se rows metric = grouped_mean_sd se (numeric_points ''node_count'' metric rows)"

definition scaling_panel :: "series \<Rightarrow> evidence list \<Rightarrow> string \<Rightarrow> panel" where
  "scaling_panel se eligible metric =
     \<lparr>pn_metric = metric, pn_lines = [(''RAW'', error_line se (raw_rows eligible) metric),
        (''5 s aggregation'', error_line se (five_second_rows eligible) metric)]\<rparr>"

definition plot_scaling :: "series \<Rightarrow> evidence list \<Rightarrow> panel list" where
  "plot_scaling se runs =
     map (scaling_panel se (flagged ''comparison_group_scaling'' runs)) [''collector_messages_actual'', ''collector_bytes_actual'']"

text \<open>Derived columns; the arithmetic is that of the floats.\<close>

definition quotient :: "pyfloat \<Rightarrow> rat \<Rightarrow> pyfloat" where
  "quotient x d = (case fdiv x (Fin d) of Inr q \<Rightarrow> q | Inl _ \<Rightarrow> NaN)"

definition with_column :: "string \<Rightarrow> (evidence \<Rightarrow> pyfloat) \<Rightarrow> evidence list \<Rightarrow> evidence list" where
  "with_column k f rows = map (\<lambda>r. dict_set k (JFloat (f r)) r) rows"

definition plot_resources :: "series \<Rightarrow> evidence list \<Rightarrow> panel list" where
  "plot_resources se runs =
     (let eligible = with_column ''process_rss_mean_mib'' (\<lambda>r. quotient (float_column r ''process_rss_mean_bytes'') (1024 ^ 2))
        (flagged ''comparison_group_scaling'' runs)
      in map (scaling_panel se eligible) [''process_cpu_mean_percent'', ''process_rss_mean_mib''])"

definition remaining_percent :: "string \<Rightarrow> evidence \<Rightarrow> pyfloat" where
  "remaining_percent k r = fmul (Fin 100) (fsub (Fin 1) (float_column r k))"

record tradeoff_point =
  tp_window :: rat
  tp_label :: string
  tp_delay :: "pyfloat \<times> pyfloat"
  tp_messages :: "pyfloat \<times> pyfloat"
  tp_bytes :: "pyfloat \<times> pyfloat"

definition window_text :: "rat \<Rightarrow> string" where
  "window_text w = (if w = 0 then ''RAW'' else general (Fin w) @ '' s'')"

definition plot_tradeoff :: "series \<Rightarrow> evidence list \<Rightarrow> tradeoff_point list" where
  "plot_tradeoff se runs =
     (let eligible = filter (\<lambda>r. is_finite (float_column r ''aggregation_window_seconds'')) (flagged ''comparison_group_aggregation_window'' runs);
          window = (\<lambda>r. fval (float_column r ''aggregation_window_seconds''));
          stat = (\<lambda>f w. let ys = group_values (map (\<lambda>r. (window r, f r)) eligible) w in (column_mean se ys, deviation_of se ys))
      in map (\<lambda>w. \<lparr>tp_window = w, tp_label = window_text w,
           tp_delay = stat (\<lambda>r. quotient (float_column r ''information_delay_mean_ms'') 1000) w,
           tp_messages = stat (remaining_percent ''upstream_message_reduction_actual'') w,
           tp_bytes = stat (remaining_percent ''upstream_byte_reduction_actual'') w\<rparr>)
         (sort (remdups (map window eligible))))"

text \<open>The failure figure: the mean throughput of each five seconds in the middle of its bin with a band of one
  deviation, the states of the failed node as spans between the mean transition times, and the transitions of the
  runs.\<close>

record failure_figure =
  ff_bands :: "(string \<times> (pyfloat \<times> pyfloat \<times> pyfloat \<times> pyfloat) list) list"
  ff_spans :: "(pyfloat \<times> pyfloat \<times> string) list"
  ff_texts :: "(pyfloat \<times> string) list"
  ff_arrow :: pyfloat
  ff_marks :: "(pyfloat \<times> pyfloat) list"

definition throughput_band :: "series \<Rightarrow> throughput_row list \<Rightarrow> (throughput_row \<Rightarrow> pyfloat) \<Rightarrow> (pyfloat \<times> pyfloat \<times> pyfloat \<times> pyfloat) list" where
  "throughput_band se rows f =
     map (\<lambda>(b, m, s). (fadd (fl (of_int b)) (Fin (5 / 2)), m, fsub m s, fadd m s)) (grouped_mean_sd se (map (\<lambda>r. (tr_bin_start_seconds r, f r)) rows))"

definition event_seconds :: "string \<Rightarrow> (string \<times> int \<times> string \<times> pyfloat) list \<Rightarrow> pyfloat list" where
  "event_seconds name events = map (\<lambda>(_, _, _, t). t) (filter (\<lambda>(_, _, e, _). e = name) events)"

definition state_spans :: "pyfloat \<Rightarrow> pyfloat \<Rightarrow> pyfloat \<Rightarrow> (pyfloat \<times> pyfloat \<times> string) list" where
  "state_spans suspect offline online =
     [(Fin 0, suspect, ''ONLINE''), (suspect, offline, ''SUSPECT''), (offline, online, ''OFFLINE''), (online, Fin 300, ''ONLINE'')]"

definition plot_failure :: "series \<Rightarrow> throughput_row list \<Rightarrow> (string \<times> int \<times> string \<times> pyfloat) list \<Rightarrow> failure_figure" where
  "plot_failure se timeseries events =
     (let suspect = event_seconds ''SUSPECT'' events; offline = event_seconds ''OFFLINE'' events;
          online = event_seconds ''RECOVERED'' events;
          spans = state_spans (column_mean se suspect) (column_mean se offline) (column_mean se online)
      in \<lparr>ff_bands = [(''All nodes'', throughput_band se timeseries tr_total_throughput),
            (''24 healthy peers'', throughput_band se timeseries tr_healthy_throughput)],
          ff_spans = spans,
          ff_texts = map (\<lambda>(a, b, l). (quotient (fadd a b) 2, l)) (filter (\<lambda>(a, b, _). flt (Fin 12) (fsub b a)) spans),
          ff_arrow = quotient (fadd (column_mean se suspect) (column_mean se offline)) 2,
          ff_marks = concat (map2 (\<lambda>i ts. map (\<lambda>t. (t, fadd (fl (18 / 100)) (fmul (fl (of_nat i)) (fl (12 / 100))))) ts) [0..<3]
            [suspect, offline, online])\<rparr>)"

definition figure_purpose :: "string \<Rightarrow> string" where
  "figure_purpose i =
     (if i = ''scaling_actual_upstream'' then
        ''Actual collector traffic including retransmissions versus tested node count; RAW compared with 5-second aggregation.''
      else if i = ''aggregation_window_tradeoff'' then
        ''Actual traffic remaining relative to RAW versus measured information delay at 25 nodes.''
      else if i = ''gateway_resources_scaling'' then
        ''Observed gateway process CPU and RSS on the campaign host; no extrapolation beyond 100 virtual nodes.''
      else
        ''Mean 5-second throughput across repetitions and observed target-node liveness transitions during the predetermined outage.'')"

section \<open>Figures of the physical run\<close>

text \<open>\<open>resample(rule).mean().dropna()\<close>: the means of the intervals of \<open>rule\<close> nanoseconds that have a
  reading, by their start. Midnight, where pandas lets the intervals begin, is a multiple of every rule used.\<close>

definition bin_of :: "int \<Rightarrow> physical_reading \<Rightarrow> int" where
  "bin_of rule r = gateway_time r div rule * rule"

definition resampled :: "reductions \<Rightarrow> int \<Rightarrow> (physical_reading \<Rightarrow> pyfloat) \<Rightarrow> physical_reading list \<Rightarrow> (int \<times> pyfloat) list" where
  "resampled rx rule f rs =
     filter (\<lambda>(t, m). m \<noteq> NaN) (map (\<lambda>b. (b, rx_mean rx (map f (filter (\<lambda>r. bin_of rule r = b) rs)))) (sort (remdups (map (bin_of rule) rs))))"

definition NODE_LABELS :: "(string \<times> string) list" where
  "NODE_LABELS = [(''physical-001'', ''Balcony (physical-001)''), (''physical-002'', ''Room (physical-002)''),
     (''physical-003'', ''Bathroom (physical-003)'')]"

record candidate_figure =
  kf_stem :: string
  kf_claim :: string
  kf_resolution :: string
  kf_lines :: "(string \<times> (int \<times> pyfloat) list) list"
  kf_curves :: "(string \<times> (pyfloat \<times> pyfloat) list) list"
  kf_span :: "(int \<times> int) option"
  kf_door :: "int option"

definition second_ns :: int where
  "second_ns = 1000000000"

definition plot_environment_series ::
  "reductions \<Rightarrow> physical_reading list \<Rightarrow> event_times \<Rightarrow> (physical_reading \<Rightarrow> pyfloat) \<Rightarrow> string \<Rightarrow> int \<Rightarrow> string \<Rightarrow> candidate_figure" where
  "plot_environment_series rx readings ev f stem seconds claim =
     \<lparr>kf_stem = stem, kf_claim = claim, kf_resolution = str_of_int seconds @ ''s'',
      kf_lines = map (\<lambda>(n, l). (l, resampled rx (seconds * second_ns) f (node_readings n readings))) NODE_LABELS, kf_curves = [],
      kf_span = Some (ev_shower_on ev, ev_shower_off ev), kf_door = Some (ev_door ev)\<rparr>"

definition door_window :: "physical_reading list \<Rightarrow> event_times \<Rightarrow> int \<times> int" where
  "door_window readings ev =
     (ev_door ev - 12 * 60 * second_ns, min (Max (set (map gateway_time readings))) (ev_door ev + 9 * 60 * second_ns))"

definition plot_door_focus :: "reductions \<Rightarrow> physical_reading list \<Rightarrow> event_times \<Rightarrow> candidate_figure" where
  "plot_door_focus rx readings ev =
     (let (a, b) = door_window readings ev
      in \<lparr>kf_stem = ''door_opening_humidity_focus'',
          kf_claim = ''Opposing bathroom and room humidity changes around the door-opening event.'', kf_resolution = ''15s'',
          kf_lines = map (\<lambda>(n, l). (l, resampled rx (15 * second_ns) ph_humidity_pct
             (filter (\<lambda>r. a \<le> gateway_time r \<and> gateway_time r \<le> b) (node_readings n readings)))) (tl NODE_LABELS),
          kf_curves = [], kf_span = None, kf_door = Some (ev_door ev)\<rparr>)"

text \<open>The cadence curve: the absolute errors of the intervals in ascending order, each against the fraction of
  intervals at or above it; errors below half a millisecond are drawn there, since the axis is logarithmic.\<close>

fun fabs :: "pyfloat \<Rightarrow> pyfloat" where
  "fabs (Fin r) = Fin \<bar>r\<bar>"
| "fabs NaN = NaN"
| "fabs _ = PInf"

definition np_maximum :: "pyfloat \<Rightarrow> pyfloat \<Rightarrow> pyfloat" where
  "np_maximum a b = (if a = NaN \<or> b = NaN then NaN else if flt a b then b else a)"

definition interval_error :: "pyfloat \<Rightarrow> pyfloat" where
  "interval_error x = np_maximum (fabs (fsub x (Fin 1000))) (Fin (1 / 2))"

definition np_sort :: "pyfloat list \<Rightarrow> pyfloat list" where
  "np_sort xs = filter (\<lambda>x. x = NInf) xs @ map Fin (sort (map fval (filter is_finite xs))) @ filter (\<lambda>x. x = PInf) xs @
     filter (\<lambda>x. x = NaN) xs"

definition exceedance_curve :: "pyfloat list \<Rightarrow> (pyfloat \<times> pyfloat) list" where
  "exceedance_curve intervals =
     (let errors = np_sort (map interval_error intervals); n = length errors
      in map (\<lambda>i. (errors ! i, fl (of_nat (n - i) / of_nat n))) [0..<n])"

definition plot_cadence :: "physical_reading list \<Rightarrow> candidate_figure" where
  "plot_cadence readings =
     \<lparr>kf_stem = ''sampling_cadence_tail'', kf_claim = ''Typical one-second cadence with a small receive-side timing tail.'',
      kf_resolution = ''raw inter-arrival intervals'', kf_lines = [],
      kf_curves = map (\<lambda>(n, l). (l, exceedance_curve (column_diffs (map ph_received_ms (sort_key ph_received_ms (node_readings n readings))))))
        NODE_LABELS,
      kf_span = None, kf_door = None\<rparr>"

definition candidate_figures :: "reductions \<Rightarrow> physical_reading list \<Rightarrow> event_times \<Rightarrow> candidate_figure list" where
  "candidate_figures rx readings ev =
     [plot_environment_series rx readings ev ph_humidity_pct ''relative_humidity_timeseries'' 30
        ''Localized bathroom humidity response and cross-node context.'',
      plot_environment_series rx readings ev ph_temperature_c ''temperature_timeseries'' 30
        ''Localized bathroom warming relative to the other placements.'',
      plot_door_focus rx readings ev,
      plot_environment_series rx readings ev ph_pressure_hpa ''pressure_timeseries'' 60
        ''Pressure as a control-like variable during the humidity event.'',
      plot_cadence readings]"

definition candidate_files :: "candidate_figure \<Rightarrow> string list" where
  "candidate_files k = [kf_stem k @ ''.pdf'', kf_stem k @ ''.png'']"

section \<open>What the figures show\<close>

lemma candidate_stems_match: "map kf_stem (candidate_figures rx readings ev) = candidate_stems"
  by (simp add: candidate_figures_def candidate_stems_def plot_environment_series_def plot_door_focus_def plot_cadence_def
      case_prod_beta Let_def)

lemma sorted_tail_count:
  fixes xs :: "'a::linorder list"
  assumes "sorted xs" "i < length xs" "\<forall>j < i. xs ! j \<noteq> xs ! i"
  shows "length (filter (\<lambda>x. xs ! i \<le> x) xs) = length xs - i"
proof -
  have "filter (\<lambda>x. xs ! i \<le> x) (take i xs) = []"
    using assms by (auto simp: filter_empty_conv in_set_conv_nth) (metis antisym less_imp_le_nat sorted_nth_mono)
  moreover have "filter (\<lambda>x. xs ! i \<le> x) (drop i xs) = drop i xs"
    using assms(1,2) by (auto simp: filter_id_conv in_set_conv_nth) (simp add: sorted_nth_mono)
  moreover have "xs = take i xs @ drop i xs" by simp
  ultimately show ?thesis by (metis append_Nil filter_append length_drop)
qed

lemma np_sort_finite: "list_all is_finite xs \<Longrightarrow> np_sort xs = map Fin (sort (map fval xs))"
proof -
  assume f: "list_all is_finite xs"
  then have "filter (\<lambda>x. x = NInf) xs = []" "filter (\<lambda>x. x = PInf) xs = []" "filter (\<lambda>x. x = NaN) xs = []" "filter is_finite xs = xs"
    by (auto simp: list_all_iff is_finite_iff filter_empty_conv filter_id_conv)
  then show ?thesis by (simp add: np_sort_def)
qed

text \<open>C40: The cadence figure shows what its axis says: there is one point per interval, the points are the errors
  of the intervals in ascending order, and the first point of each error carries the fraction of the intervals whose
  error is at least that error.\<close>

theorem exceedance_curve_exact:
  assumes "list_all (\<lambda>x. is_finite (interval_error x)) xs" "i < length xs"
    "\<forall>j < i. fst (exceedance_curve xs ! j) \<noteq> fst (exceedance_curve xs ! i)"
  shows "mset (map fst (exceedance_curve xs)) = mset (map interval_error xs) \<and> sorted (map (\<lambda>p. fval (fst p)) (exceedance_curve xs)) \<and>
    snd (exceedance_curve xs ! i) =
      fl (of_nat (length (filter (\<lambda>x. fle (fst (exceedance_curve xs ! i)) (interval_error x)) xs)) / of_nat (length xs))"
proof -
  let ?es = "sort (map (\<lambda>x. fval (interval_error x)) xs)" and ?c = "exceedance_curve xs"
  have fin: "Fin (fval (interval_error x)) = interval_error x" if "x \<in> set xs" for x
    using assms(1) that by (auto simp: list_all_iff is_finite_iff)
  have ns: "np_sort (map interval_error xs) = map Fin ?es"
    using np_sort_finite [of "map interval_error xs"] assms(1) by (simp add: list_all_iff comp_def)
  have c: "?c = map (\<lambda>i. (Fin (?es ! i), fl (of_nat (length xs - i) / of_nat (length xs)))) [0..<length xs]"
    by (simp add: exceedance_curve_def Let_def ns)
  have "map fst ?c = map Fin (map (\<lambda>i. ?es ! i) [0..<length ?es])" by (simp add: c comp_def)
  then have fst: "map fst ?c = map Fin ?es" by (simp only: map_nth)
  have "mset (map fst ?c) = image_mset Fin (mset ?es)" by (simp only: fst mset_map)
  also have "\<dots> = mset (map (\<lambda>x. Fin (fval (interval_error x))) xs)" by (simp add: image_mset.compositionality comp_def)
  also have "\<dots> = mset (map interval_error xs)" by (simp add: fin cong: map_cong)
  finally have m: "mset (map fst ?c) = mset (map interval_error xs)" .
  have "map (\<lambda>p. fval (fst p)) ?c = map fval (map fst ?c)" by simp
  then have so: "sorted (map (\<lambda>p. fval (fst p)) ?c)" unfolding fst by (simp add: comp_def)
  have nth: "?c ! j = (Fin (?es ! j), fl (of_nat (length xs - j) / of_nat (length xs)))" if "j < length xs" for j
    using that by (simp add: c)
  have "\<forall>j < i. ?es ! j \<noteq> ?es ! i" using assms(2,3) nth by (metis fst_conv order.strict_trans)
  then have "length (filter (\<lambda>e. ?es ! i \<le> e) ?es) = length xs - i"
    using sorted_tail_count [of ?es i] assms(2) by simp
  also have "length (filter (\<lambda>e. ?es ! i \<le> e) ?es) = length (filter (\<lambda>x. ?es ! i \<le> fval (interval_error x)) xs)"
    by (simp add: filter_sort length_sort filter_map comp_def)
  also have "\<dots> = length (filter (\<lambda>x. fle (Fin (?es ! i)) (interval_error x)) xs)"
  proof -
    have "?es ! i \<le> fval (interval_error x) \<longleftrightarrow> fle (Fin (?es ! i)) (interval_error x)" if "x \<in> set xs" for x
      using fin [OF that, symmetric] by (metis fle_Fin)
    then show ?thesis by (simp cong: filter_cong)
  qed
  finally show ?thesis using m so nth [OF assms(2)] by simp
qed

text \<open>Grouping loses nothing and counts nothing twice: the keys ascend strictly, they are those that occur, and
  the groups' sizes add up to the number of points.\<close>

lemma group_sizes_over:
  assumes "finite A" "f ` set xs \<subseteq> A"
  shows "(\<Sum>k\<in>A. length (filter (\<lambda>x. f x = k) xs)) = length xs"
  using assms(2)
proof (induction xs)
  case (Cons x xs)
  have "(\<Sum>k\<in>A. length (filter (\<lambda>y. f y = k) (x # xs))) = (\<Sum>k\<in>A. (if k = f x then 1 else 0) + length (filter (\<lambda>y. f y = k) xs))"
    by (rule sum.cong) auto
  then show ?case using Cons assms(1) by (simp add: sum.distrib)
qed simp

lemma group_sizes: "(\<Sum>k\<leftarrow>sort (remdups (map f xs)). length (filter (\<lambda>x. f x = k) xs)) = length xs"
  using group_sizes_over [of "f ` set xs" f xs] by (simp add: sum_list_distinct_conv_sum_set)

lemma group_keys_ascend: "sorted_wrt (<) (group_keys ps)" "set (group_keys ps) = fst ` set ps"
  by (simp_all add: group_keys_def strict_sorted_iff)

lemma resampled_bins:
  "(\<Sum>b\<leftarrow>sort (remdups (map (bin_of rule) rs)). length (filter (\<lambda>r. bin_of rule r = b) rs)) = length rs"
  by (rule group_sizes)

lemma bin_of_bounds:
  assumes "0 < rule"
  shows "bin_of rule r \<le> gateway_time r" "gateway_time r < bin_of rule r + rule"
  using pos_mod_sign [OF assms, of "gateway_time r"] pos_mod_bound [OF assms, of "gateway_time r"]
    div_mult_mod_eq [of "gateway_time r" rule]
  unfolding bin_of_def by linarith+

section \<open>The throughput bands of the failure figure\<close>

definition slot_values :: "(throughput_row \<Rightarrow> pyfloat) \<Rightarrow> throughput_row list \<Rightarrow> nat \<Rightarrow> pyfloat list" where
  "slot_values f rows i = map f (filter (\<lambda>r. tr_bin_start_seconds r = 5 * int i) rows)"

lemma throughput_rows_slot:
  assumes "i < 60"
  shows "\<exists>r. filter (\<lambda>r. tr_bin_start_seconds r = 5 * int i) (throughput_rows run from_ms readings) = [r]"
proof -
  let ?g = "\<lambda>b. let rows = filter (\<lambda>r. reading_bin from_ms r = b) readings; healthy = filter (\<lambda>r. cr_node_id r \<noteq> FAILED_NODE_ID) rows
    in \<lparr>tr_run_id = cp_run_id run, tr_repetition_index = cp_repetition_index run, tr_bin_start_seconds = b,
        tr_total_throughput = fifth (length rows), tr_healthy_throughput = fifth (length healthy)\<rparr>"
  have b: "tr_bin_start_seconds (?g b) = b" for b by (simp add: Let_def)
  have "filter (\<lambda>r. tr_bin_start_seconds r = 5 * int i) (map ?g bs) = map ?g (filter (\<lambda>b. b = 5 * int i) bs)" for bs
    by (induction bs) (simp_all add: b)
  moreover have "filter (\<lambda>b. b = 5 * int i) bin_starts = [5 * int i]"
  proof -
    have "filter (\<lambda>j. j = i) [0..<n] = (if i < n then [i] else [])" for n by (induction n) auto
    then show ?thesis using assms by (simp add: bin_starts_def filter_map comp_def)
  qed
  ultimately show ?thesis by (simp add: throughput_rows_def)
qed

lemma slots_of_runs:
  assumes "map_result analyze_failure_run runs = Inr rs" "i < 60"
  shows "length (filter (\<lambda>r. tr_bin_start_seconds r = 5 * int i) (concat (map fr_throughput rs))) = length runs"
  using assms(1)
proof (induction runs arbitrary: rs)
  case (Cons run runs)
  then obtain r rs' where r: "analyze_failure_run run = Inr r" "rs = r # rs'" "map_result analyze_failure_run runs = Inr rs'"
    by (auto simp: rbind_eq_Inr_iff)
  obtain from_ms readings where "fr_throughput r = throughput_rows run from_ms readings"
    using r(1) by (auto simp: analyze_failure_run_def rbind_eq_Inr_iff Let_def split: if_splits)
  then show ?case using Cons.IH [OF r(3)] r(2) throughput_rows_slot [OF assms(2), of run from_ms readings] by auto
qed simp

lemma run_rows:
  assumes "map_result analyze_failure_run runs = Inr rs" "r \<in> set rs"
  shows "\<exists>run from_ms readings. fr_throughput r = throughput_rows run from_ms readings"
proof -
  have "\<exists>run. analyze_failure_run run = Inr r"
    using assms by (induction runs arbitrary: rs) (auto simp: rbind_eq_Inr_iff)
  then show ?thesis by (auto simp: analyze_failure_run_def rbind_eq_Inr_iff Let_def split: if_splits) blast
qed

lemma throughput_bins:
  assumes "map_result analyze_failure_run runs = Inr rs" "rs \<noteq> []"
  shows "tr_bin_start_seconds ` set (concat (map fr_throughput rs)) = set bin_starts"
proof -
  have "tr_bin_start_seconds ` set (fr_throughput r) = set bin_starts" if "r \<in> set rs" for r
    using run_rows [OF assms(1) that] by (force simp: throughput_rows_def Let_def image_image)
  then show ?thesis using assms(2) by (auto simp: image_UN)
qed

lemma throughput_not_NaN:
  assumes "map_result analyze_failure_run runs = Inr rs" "t \<in> set (concat (map fr_throughput rs))"
  shows "tr_total_throughput t \<noteq> NaN" "tr_healthy_throughput t \<noteq> NaN"
proof -
  obtain r where r: "r \<in> set rs" "t \<in> set (fr_throughput r)" using assms(2) by auto
  then show "tr_total_throughput t \<noteq> NaN" "tr_healthy_throughput t \<noteq> NaN"
    using run_rows [OF assms(1) r(1)] by (auto simp: throughput_rows_def Let_def fifth_def)
qed

lemma group_keys_of:
  assumes "fst ` set ps = set ks" "sorted ks" "distinct ks"
  shows "group_keys ps = ks"
  using assms by (simp add: group_keys_def sorted_list_of_set_sort_remdups [symmetric] sorted_list_of_set.idem_if_sorted_distinct)

text \<open>The bands of the failure figure rest on every run: whatever runs the failure analysis accepted, there are
  sixty points, one in the middle of each five seconds of the measurement, and each is the mean of exactly one rate
  per run, with a band of one sample deviation on either side.\<close>

theorem failure_band_is_mean_of_runs:
  assumes "map_result analyze_failure_run runs = Inr rs" "runs \<noteq> []" "i < 60" "f = tr_total_throughput \<or> f = tr_healthy_throughput"
  shows "let rows = concat (map fr_throughput rs); vs = slot_values f rows i; m = se_mean se vs; d = deviation_of se vs in
    length (throughput_band se rows f) = 60 \<and> length vs = length runs \<and>
    throughput_band se rows f ! i = (fadd (fl (of_int (5 * int i))) (Fin (5 / 2)), m, fsub m d, fadd m d)"
proof -
  let ?rows = "concat (map fr_throughput rs)"
  let ?ps = "map (\<lambda>r. (tr_bin_start_seconds r, f r)) ?rows"
  have ne: "rs \<noteq> []" using assms(1,2) by (cases runs) (auto simp: rbind_eq_Inr_iff)
  have len: "length (slot_values f ?rows i) = length runs"
    using slots_of_runs [OF assms(1,3)] by (simp add: slot_values_def)
  have nan: "\<forall>r \<in> set ?rows. f r \<noteq> NaN" using throughput_not_NaN [OF assms(1)] assms(4) by blast
  have "sorted bin_starts" "distinct bin_starts" by (simp_all add: bin_starts_def sorted_iff_nth_mono distinct_map inj_on_def)
  then have keys: "group_keys ?ps = bin_starts"
    using throughput_bins [OF assms(1) ne] by (intro group_keys_of) (simp_all add: image_image)
  have vals: "group_values ?ps (5 * int i) = slot_values f ?rows i"
    using nan by (auto simp: group_values_def slot_values_def filter_map comp_def intro!: arg_cong [where f = "map f"] filter_cong)
  have n: "length bin_starts = 60" "bin_starts ! i = 5 * int i" using assms(3) by (simp_all add: bin_starts_def)
  have "slot_values f ?rows i \<noteq> []" using len assms(2) by auto
  then show ?thesis
    using assms(3) len n by (simp add: throughput_band_def grouped_mean_sd_def keys vals column_mean_def Let_def)
qed

lemma failure_analysis_rows:
  assumes "failure_analysis se runs = Inr s"
  shows "\<exists>selected rs. selected = filter (\<lambda>r. cp_condition_id r = ''failure-n025-raw'') runs \<and> length selected = 3 \<and>
    map_result analyze_failure_run selected = Inr rs \<and> fs_throughput s = concat (map fr_throughput rs)"
  using assms by (auto simp: failure_analysis_def rbind_eq_Inr_iff Let_def split: if_splits)

section \<open>Witnesses\<close>

theorem failure_band_is_mean_of_runs_witness:
  "\<exists>rs. map_result analyze_failure_run [sample_failure_run, sample_failure_run, sample_failure_run] = Inr rs \<and>
    length (slot_values tr_total_throughput (concat (map fr_throughput rs)) 7) = 3 \<and>
    length (throughput_band \<lparr>se_mean = hd, se_std = hd\<rparr> (concat (map fr_throughput rs)) tr_total_throughput) = 60"
proof -
  obtain f where "analyze_failure_run sample_failure_run = Inr f" using sample_failure_run_accepted ..
  then have "map_result analyze_failure_run [sample_failure_run, sample_failure_run, sample_failure_run] = Inr [f, f, f]" by simp
  from failure_band_is_mean_of_runs [OF this, of 7 tr_total_throughput "\<lparr>se_mean = hd, se_std = hd\<rparr>"] this
  show ?thesis by (auto simp: Let_def)
qed

theorem exceedance_curve_exact_witness:
  "snd (exceedance_curve [Fin 1000, Fin 1060, Fin 940, Fin 1003] ! 2) = fl (1 / 2)"
proof -
  have f: "fsub (Fin 1000) (Fin 1000) = Fin 0" "fsub (Fin 1060) (Fin 1000) = Fin 60" "fsub (Fin 940) (Fin 1000) = Fin (- 60)"
    "fsub (Fin 1003) (Fin 1000) = Fin 3"
    by (simp_all add: fsub_def)
  have e: "interval_error (Fin 1000) = Fin (1 / 2)" "interval_error (Fin 1060) = Fin 60" "interval_error (Fin 940) = Fin 60"
    "interval_error (Fin 1003) = Fin 3"
    by (simp_all add: interval_error_def f np_maximum_def)
  have c: "exceedance_curve [Fin 1000, Fin 1060, Fin 940, Fin 1003] = [(Fin (1 / 2), Fin 1), (Fin 3, fl (3 / 4)), (Fin 60, fl (1 / 2)), (Fin 60, fl (1 / 4))]"
    by (simp add: exceedance_curve_def e np_sort_def Let_def)
  have "\<forall>j < 2. fst (exceedance_curve [Fin 1000, Fin 1060, Fin 940, Fin 1003] ! j) \<noteq> fst (exceedance_curve [Fin 1000, Fin 1060, Fin 940, Fin 1003] ! 2)"
    by (auto simp: c less_2_cases_iff)
  from exceedance_curve_exact [OF _ _ this] show ?thesis by (simp add: e c)
qed

end
