(* ===== verification/Exploratory_Report.thy ===== *)
theory Exploratory_Report
  imports Figures
begin

text \<open>
  The report of the exploratory analysis (\<open>_render_report\<close>, \<open>_limitations\<close> and
  \<open>_timestamp_inventory\<close> of \<^verbatim>\<open>src/analysis/exploratory_physical.py\<close>), as the bytes of its UTF-8 text.
\<close>

section \<open>Fixed texts\<close>

definition plus_minus :: string where
  "plus_minus = [CHR 0xC2, CHR 0xB1]"

definition degree :: string where
  "degree = [CHR 0xC2, CHR 0xB0]"

definition onset_method :: string where
  "onset_method = ''first of three consecutive 60-second bathroom RH means at or above the larger of baseline mean + 5 percentage points and '' @
        ''baseline mean + 3 sample SD''"

definition generated_note :: string where
  "generated_note = ''No independent firmware generated/scheduled counter was captured. Sequence continuity supports no missing sequences inside '' @
        ''the observed gateway interval, but cannot count samples generated before connection or never delivered.''"

definition timestamp_inventory :: evidence where
  "timestamp_inventory =
     [(''reading.timestamp_ms'', JObj [(''clock'', JStr ''per-ESP32 uptime milliseconds''), (''available'', JBool True), (''cross_node_wall_time_valid'', JBool False)]),
      (''gateway_received_at_ms'', JObj [(''clock'', JStr ''Pi wall clock''), (''available'', JBool True), (''use'', JStr ''primary environmental timeline and operator-event alignment'')]),
      (''gateway_received_monotonic_ns'', JObj [(''clock'', JStr ''Pi monotonic clock''), (''available'', JBool True), (''use'', JStr ''ordering/identity; not calendar time'')]),
      (''forwarded_at_ms'', JObj [(''clock'', JStr ''Pi wall clock''), (''available'', JBool True), (''use'', JStr ''upstream record metadata'')]),
      (''collector_received_at_ms'', JObj [(''clock'', JStr ''Mac wall clock''), (''available'', JBool True), (''cross_host_latency_valid'', JBool False)]),
      (''collector_received_monotonic_ns'', JObj [(''clock'', JStr ''Mac monotonic clock''), (''available'', JBool True), (''cross_host_latency_valid'', JBool False)])]"

definition exploratory_limitations :: "string list" where
  "exploratory_limitations =
     [''The shower-on and shower-off times are approximate operator reports made after the events.'',
      ''The door-opening timestamp is the assistant receipt time, not an instrumented switch event.'',
      ''Placements differ and were not randomized, replicated, or environmentally controlled.'',
      ''The BME280 units were not co-located and cross-calibrated before this run.'',
      ''Balcony weather, laptop heat, ventilation, airflow, and sensor placement are confounders.'',
      ''The near-saturation bathroom exposure may involve sensor response lag or condensation risk.'',
      ''No independent firmware generated/scheduled count was captured.'',
      ''Unsynchronized device clocks prohibit a physical one-way latency claim.'',
      ''The run evaluates RAW forwarding only and says nothing causal about aggregation performance.'']"

section \<open>The report\<close>

definition node_line :: "(string \<times> node_summary) list \<Rightarrow> string \<times> string \<Rightarrow> string result" where
  "node_line nodes_table entry =
     (let (node_id, label) = entry
      in rbind (get_item nodes_table node_id) (\<lambda>node.
      rbind (get_item (no_measurements node) ''temperature_c'') (\<lambda>temp.
      rbind (get_item (no_measurements node) ''humidity_pct'') (\<lambda>rh.
      rbind (get_item (no_measurements node) ''pressure_hpa'') (\<lambda>press.
        Inr (''| '' @ label @ '' (`'' @ node_id @ ''`) | '' @ thousands (int (no_sample_count node)) @ '' | '' @ fixed 2 (sm_mean temp) @ '' '' @
        plus_minus @ '' '' @ fixed 2 (sm_stddev temp) @ '' | '' @ fixed 2 (sm_mean rh) @ '' '' @ plus_minus @ '' '' @
        fixed 2 (sm_stddev rh) @ '' | '' @ fixed 3 (sm_mean press) @ '' '' @ plus_minus @ '' '' @ fixed 3 (sm_stddev press) @ '' |''))))))"

definition figure_line :: "candidate_figure \<Rightarrow> string" where
  "figure_line k = ''- `'' @ kf_stem k @ ''.pdf`: '' @ kf_claim k @ '' Display uses '' @ kf_resolution k @ ''.''"

definition report_opening :: "(int \<Rightarrow> string) \<Rightarrow> exploratory_summary \<Rightarrow> string list" where
  "report_opening local_iso s =
     (let onset_text = (case on_time (iv_onset (xs_intervention s)) of None \<Rightarrow> ''None'' | Some t \<Rightarrow> local_iso t)
      in [''# Report-oriented analysis: three-node exploratory measurement'',
      '''',
      ''## Dataset and evidentiary status'',
      '''',
      ''This analysis covers `'' @ xs_run_id s @ ''` from '' @ local_iso (xs_first_ms s * 1000000) @ '' through '' @ local_iso (xs_last_ms s * 1000000) @
        '' ('' @ fixed 3 (xs_elapsed_seconds s) @
        '' s). The raw directory was read-only in practice and its SHA-256 values were checked before and after analysis. This remains '' @
        ''an exploratory environmental measurement and engineering validation, not a controlled network-performance experiment.'',
      '''',
      ''Available time fields include each ESP32's uptime timestamp, Pi wall/monotonic receive timestamps, Pi forwarding time, and '' @
        ''Mac wall/monotonic collector timestamps. Environmental plots use Pi `gateway_received_at_ms`. Cross-host one-way latency is '' @
        ''not calculated because clock synchronization was not explicitly established and verified.'',
      '''',
      ''## Methodology'',
      '''',
      ''The baseline is every sample before the approximate operator-reported shower-on time. Means and sample standard deviations '' @
        ''use raw readings. Extrema use raw readings, while overview plots use bounded time averages only for display. The inferred '' @
        ''bathroom response uses this rule: '' @ onset_method @
        ''. Recovery changes use nearest raw readings at operator events. OLS slopes are descriptive and are not treated as '' @
        ''mechanistic decay constants.'',
      '''',
      ''Operator-reported and inferred events are kept distinct:'',
      '''',
      ''- Shower on: approximately 01:27 PDT (operator reported).'',
      ''- Inferred sustained response: '' @ onset_text @ '' (analysis-derived 60 s bin, not an operator timestamp).'',
      ''- Shower off: approximately 02:22 PDT (operator reported).'',
      ''- Bathroom door opened: 02:50:42 PDT (assistant receipt timestamp).'',
      '''',
      ''## Quantitative findings'',
      '''',
      ''| Node/location | Samples | Temperature mean '' @ plus_minus @ '' SD ('' @ degree @ ''C) | RH mean '' @ plus_minus @
        '' SD (%) | Pressure mean '' @ plus_minus @ '' SD (hPa) |'',
      ''|---|---:|---:|---:|---:|''])"

definition report_findings :: "intervention \<Rightarrow> pyfloat \<Rightarrow> pyfloat list \<Rightarrow> int list \<Rightarrow> string list" where
  "report_findings b closed_minutes pressures counters =
     ['''',
      ''The bathroom baseline comprised '' @ thousands (int (iv_baseline_count b)) @ '' samples and averaged '' @
        fixed 2 (sm_mean (iv_baseline_temperature b)) @ '' '' @ degree @ ''C and '' @ fixed 2 (sm_mean (iv_baseline_humidity b)) @
        ''% RH. Peak bathroom RH was '' @ fixed 3 (pk_value (iv_rh_peak b)) @ ''% at '' @ pk_time (iv_rh_peak b) @ '', a '' @
        fixed 3 (pk_delta (iv_rh_peak b)) @ ''-point increase. Peak temperature was '' @ fixed 2 (pk_value (iv_temperature_peak b)) @
        '' '' @ degree @ ''C at '' @ pk_time (iv_temperature_peak b) @ '', a '' @ fixed 2 (pk_delta (iv_temperature_peak b)) @ '' '' @
        degree @ ''C increase from the baseline mean.'',
      '''',
      ''During the closed-bathroom recovery, RH changed from '' @ fixed 3 (fst (iv_closed_rh b)) @ ''% to '' @
        fixed 3 (fst (snd (iv_closed_rh b))) @ ''% over '' @ fixed 2 closed_minutes @
        '' minutes. Five minutes after the door event, bathroom RH changed by '' @ fixed 3 (snd (snd (iv_door_bathroom_rh b))) @
        '' points and room RH changed by '' @ fixed 3 (snd (snd (iv_door_room_rh b))) @
        '' points. The opposing changes are consistent with air exchange, but uncontrolled ventilation prevents a causal attribution.'',
      '''',
      ''Pressure was comparatively stable. Overall peak-to-peak pressure was '' @ fixed 3 (pressures ! 0) @ '', '' @
        fixed 3 (pressures ! 1) @ '', and '' @ fixed 3 (pressures ! 2) @
        '' hPa for balcony, room, and bathroom respectively. This supports a control-like interpretation only; it does not prove that '' @
        ''pressure was unaffected by every uncontrolled influence.'',
      '''',
      ''## Engineering integrity'',
      '''',
      ''The Pi validated, persisted, and forwarded '' @ thousands (counters ! 0) @ '' records, and the Mac collected '' @
        thousands (counters ! 1) @ ''. Both sides accounted for '' @ thousands (counters ! 2) @
        '' upstream application bytes. No invalid, malformed, schema-rejected, duplicate, out-of-order, estimated-missing, '' @
        ''queue-dropped, send-failed, truncated, overlong, or abandoned records were reported.'',
      '''',
      ''An independent generated/scheduled denominator is unavailable: '' @ generated_note,
      '''',
      ''Gateway receive cadence was approximately one second for every node. Rare long intervals were paired with short catch-up '' @
        ''intervals, while every observed sequence advanced by exactly one. These tails describe receive-side timing and are not '' @
        ''missing sensor records.'',
      '''',
      ''## Candidate figures'',
      '''']"

definition report_figure_notes :: "string list" where
  "report_figure_notes =
     ['''',
      ''The RH, temperature, and door-focus figures are suitable as an explicitly labeled exploratory physical-system demonstration. '' @
        ''The pressure plot can support the limited control-like observation. The cadence tail plot is more appropriate for a '' @
        ''systems-validation figure or appendix. None supports aggregation, scalability, impaired-network, or one-way-latency '' @
        ''conclusions.'',
      '''',
      ''## Limitations and confounders'',
      '''']"

definition report_plan :: "string \<Rightarrow> string \<Rightarrow> string list" where
  "report_plan processed_dir figures_dir =
     ['''',
      ''## Smallest rigorous controlled experiment set suggested by this run'',
      '''',
      ''1. **Sensor/placement qualification:** co-locate all three BME280s for at least 15 minutes, estimate fixed offsets, then '' @
        ''rotate physical positions across at least three repetitions. Keep this separate from network-performance claims.'',
      ''2. **RAW physical baseline:** three physical nodes at 1 Hz, 2-minute warm-up plus 10-minute measurement, three repetitions '' @
        ''in a stable environment. Preserve independent firmware generated/scheduled counters in the final evidence.'',
      ''3. **Scaling, one factor at a time:** fixed RAW mode at 5, 25, and 100 total nodes, three seeded repetitions per level. '' @
        ''Physical nodes may remain as three anchors while virtual nodes provide controlled scale.'',
      ''4. **Aggregation, one factor at a time:** fixed 25-node load with RAW and 1 s, 5 s, and 10 s windows, three repetitions '' @
        ''each. Use the same measurement duration and sampling schedule.'',
      ''5. **Degradation:** after selecting one aggregation setting, compare application-level drop probabilities 0, 0.05, and 0.10 '' @
        ''at fixed load, three repetitions. Label this accurately as application impairment rather than Wi-Fi packet loss. Add delay '' @
        ''as a separate matrix only if the report requires a second degradation mechanism.'',
      ''6. **Failure/recovery:** one predetermined node outage and recovery time under RAW and the selected aggregation mode, three '' @
        ''repetitions, using Pi event timestamps for detection metrics.'',
      '''',
      ''The exploratory shower cycle should remain a validation/example dataset. The controlled matrix above should supply the '' @
        ''report's causal network-performance comparisons.'',
      '''',
      ''## Derived artifacts'',
      '''',
      ''Processed tables and machine summary: `'' @ processed_dir @ ''`'',
      ''Candidate figures: `'' @ figures_dir @ ''`'',
      '''']"

definition report_labels :: "(string \<times> string) list" where
  "report_labels = [(''physical-001'', ''Balcony''), (''physical-002'', ''Room''), (''physical-003'', ''Bathroom'')]"

definition reported_counters :: "string list" where
  "reported_counters = [''pi_valid_messages'', ''mac_collected_records'', ''pi_upstream_bytes'']"

definition render_report ::
  "(int \<Rightarrow> string) \<Rightarrow> candidate_figure list \<Rightarrow> exploratory_summary \<Rightarrow> string \<Rightarrow> string \<Rightarrow> string result" where
  "render_report local_iso figures s processed_dir figures_dir =
     rbind (map_result (node_line (xs_nodes s)) report_labels) (\<lambda>table.
     rbind (fdiv (iv_closed_seconds (xs_intervention s)) (Fin 60)) (\<lambda>closed_minutes.
     rbind (map_result (\<lambda>n. rbind (get_item (xs_pressure s) n) (\<lambda>p. Inr (ps_peak_to_peak p))) EXPECTED_NODE_IDS) (\<lambda>pressures.
     rbind (map_result (get_item (en_counters (xs_engineering s))) reported_counters) (\<lambda>counters.
       Inr (join [newline] (report_opening local_iso s @ table @ report_findings (xs_intervention s) closed_minutes pressures counters @
         map figure_line figures @ report_figure_notes @ map (\<lambda>item. ''- '' @ item) exploratory_limitations @
         report_plan processed_dir figures_dir))))))"

section \<open>What the report needs and what it ignores\<close>

lemma rbind_assoc: "rbind (rbind m f) g = rbind m (\<lambda>x. rbind (f x) g)"
  by (cases m) simp_all

lemma get_item_rows:
  "map_result (\<lambda>n. rbind (g n) (\<lambda>v. Inr (n, h v))) ns = Inr rows \<Longrightarrow> n \<in> set ns \<Longrightarrow> \<exists>v. g n = Inr v \<and> get_item rows n = Inr (h v)"
proof (induction ns arbitrary: rows)
  case (Cons m ns)
  then obtain v rows' where v: "g m = Inr v" "rows = (m, h v) # rows'" "map_result (\<lambda>n. rbind (g n) (\<lambda>v. Inr (n, h v))) ns = Inr rows'"
    by (auto simp: rbind_eq_Inr_iff)
  show ?case using Cons.prems(2) Cons.IH [OF v(3)] v(1,2) by (cases "n = m") (auto simp: get_item_def)
qed simp

lemma node_statistics_complete:
  assumes "node_statistics rx readings = Inr table" "n \<in> set EXPECTED_NODE_IDS"
  shows "\<exists>x. get_item table n = Inr x \<and> (\<forall>k \<in> {''temperature_c'', ''humidity_pct'', ''pressure_hpa''}. \<exists>v. get_item (no_measurements x) k = Inr v)"
proof -
  let ?g = "\<lambda>n. if node_readings n readings = [] then Inl IndexError else Inr (node_readings n readings)"
  let ?h = "\<lambda>node. \<lparr>no_sample_count = length node, no_first_local_time = rx_iso rx (gateway_time (hd node)),
    no_last_local_time = rx_iso rx (gateway_time (last node)), no_measurements = measure_columns rx node\<rparr>"
  have "map_result (\<lambda>n. rbind (?g n) (\<lambda>v. Inr (n, ?h v))) EXPECTED_NODE_IDS = Inr table"
    using assms(1) by (simp add: node_statistics_def Let_def if_distrib [of "\<lambda>x. rbind x _"] cong: if_cong)
  from get_item_rows [OF this assms(2)] show ?thesis
    by (auto simp: measure_columns_def SENSOR_COLUMNS_def get_item_def)
qed

lemma pressure_complete:
  assumes "pressure_analysis table phases = Inr ps" "n \<in> set EXPECTED_NODE_IDS"
  shows "\<exists>x. get_item ps n = Inr x"
proof -
  let ?g = "\<lambda>n. rbind (rbind (get_item table n) (\<lambda>s. get_item (no_measurements s) ''pressure_hpa'')) (\<lambda>overall.
       rbind (rbind (phase_node phases ''baseline'' n) (\<lambda>(_, m). get_item m ''pressure_hpa'')) (\<lambda>baseline.
       rbind (rbind (phase_node phases ''shower'' n) (\<lambda>(_, m). get_item m ''pressure_hpa'')) (\<lambda>shower.
         Inr \<lparr>ps_overall = overall, ps_shower_minus_baseline = fsub (sm_mean shower) (sm_mean baseline),
           ps_peak_to_peak = fsub (sm_max overall) (sm_min overall)\<rparr>)))"
  have "map_result (\<lambda>n. rbind (?g n) (\<lambda>v. Inr (n, id v))) EXPECTED_NODE_IDS = Inr ps"
    using assms(1) by (simp add: pressure_analysis_def rbind_assoc case_prod_beta)
  from get_item_rows [OF this assms(2)] show ?thesis by auto
qed

lemma counters_complete:
  assumes "engineering_integrity rx pis macs ps ms gr hr metrics = Inr eng" "k \<in> set reported_counters"
  shows "\<exists>v. get_item (en_counters eng) k = Inr v"
proof -
  obtain cs where cs: "map_result (\<lambda>(k, from_pi, p). rbind (int_at (if from_pi then ps else ms) p) (\<lambda>v. Inr (k, v))) integrity_counters = Inr cs"
    "\<exists>rest. en_counters eng = cs @ rest"
    using assms(1) by (auto simp: engineering_integrity_def rbind_eq_Inr_iff split: if_splits)
  have "map fst cs = map fst entries" if "map_result (\<lambda>(k, from_pi, p). rbind (int_at (if from_pi then ps else ms) p) (\<lambda>v. Inr (k, v))) entries = Inr cs"
    for entries cs
    using that by (induction entries arbitrary: cs) (auto simp: rbind_eq_Inr_iff)
  from this [OF cs(1)] have "map fst cs = map fst integrity_counters" .
  then have "k \<in> fst ` set (en_counters eng)"
    using assms(2) cs(2) by (auto simp: reported_counters_def integrity_counters_def simp flip: set_map)
  then show ?thesis by (force simp: get_item_def map_of_eq_None_iff split: option.splits)
qed

lemma all_rows_found: "\<forall>x \<in> set xs. \<exists>y. f x = Inr y \<Longrightarrow> \<exists>ys. map_result f xs = Inr ys"
  by (induction xs) auto

text \<open>Every accepted analysis has a report; and the report takes three counters and nothing else from the integrity
  section: whatever it found of invalid, malformed, duplicate, missing, dropped or abandoned records, the sentence that
  none were reported stands.\<close>

lemma report_always_rendered:
  assumes "exploratory_summary_of env dir hashes i = Inr s"
  shows "\<exists>text. render_report local_iso figures s p f = Inr text"
proof -
  let ?rx = "xe_rx env" and ?rs = "xi_readings i" and ?ev = "xi_events i"
  let ?ph = "phase_statistics ?rx ?rs (phase_windows ?rs ?ev)"
  have n: "node_statistics ?rx ?rs = Inr (xs_nodes s)" and pr: "pressure_analysis (xs_nodes s) ?ph = Inr (xs_pressure s)"
    and e: "engineering_integrity ?rx (xi_pi_records i) (xi_mac_records i) (xi_pi_summary i) (xi_mac_summary i) (xi_gateway_rows i)
      (xi_health_rows i) (xi_metrics i) = Inr (xs_engineering s)"
    using assms by (auto simp: exploratory_summary_of_def rbind_eq_Inr_iff Let_def)
  have "\<exists>y. node_line (xs_nodes s) e = Inr y" if "e \<in> set report_labels" for e
    using that node_statistics_complete [OF n]
    by (fastforce simp: report_labels_def EXPECTED_NODE_IDS_def node_line_def)
  moreover have "\<exists>y. rbind (get_item (xs_pressure s) m) (\<lambda>p. Inr (ps_peak_to_peak p)) = Inr y" if "m \<in> set EXPECTED_NODE_IDS" for m
    using pressure_complete [OF pr that] by auto
  moreover have "\<exists>y. get_item (en_counters (xs_engineering s)) k = Inr y" if "k \<in> set reported_counters" for k
    using counters_complete [OF e that] .
  moreover have "\<exists>y. fdiv (iv_closed_seconds (xs_intervention s)) (Fin 60) = Inr y"
    by (cases "iv_closed_seconds (xs_intervention s)") auto
  ultimately show ?thesis
    using all_rows_found [of report_labels "node_line (xs_nodes s)"]
      all_rows_found [of EXPECTED_NODE_IDS "\<lambda>n. rbind (get_item (xs_pressure s) n) (\<lambda>p. Inr (ps_peak_to_peak p))"]
      all_rows_found [of reported_counters "get_item (en_counters (xs_engineering s))"]
    by (fastforce simp: render_report_def)
qed

lemma report_ignores_integrity:
  assumes "\<forall>k \<in> set reported_counters. map_of cs k = map_of (en_counters (xs_engineering s)) k"
  shows "render_report local_iso figures (s\<lparr>xs_engineering := (xs_engineering s)\<lparr>en_counters := cs, en_sequence_integrity := seqs\<rparr>\<rparr>) p f =
    render_report local_iso figures s p f"
  using assms by (simp add: render_report_def report_opening_def reported_counters_def get_item_def)

end
