(* ===== verification/Physical_Run.thy ===== *)
theory Physical_Run
  imports Exploratory_Results
begin

text \<open>
  From the pipeline to the analysis: the files a physical RAW run leaves behind when the gateway stored and
  forwarded its readings and the collector took each of them, and what \<open>validate_evidence\<close> says of them.
\<close>

section \<open>Reading what was written\<close>

lemma text_lines_line:
  "newline \<notin> set l \<Longrightarrow> text_lines cur (l @ newline # t) = (cur @ l @ [newline]) # text_lines [] t"
  by (induction l arbitrary: cur) auto

lemma text_lines_concat:
  "list_all (\<lambda>x. newline \<notin> set (f x)) xs \<Longrightarrow> text_lines [] (concat (map (\<lambda>x. f x @ [newline]) xs)) = map (\<lambda>x. f x @ [newline]) xs"
  by (induction xs) (simp_all add: text_lines_line)

lemma read_lines_map:
  "list_all (\<lambda>x. loads (g x) = Some (h x)) xs \<Longrightarrow> read_lines loads p n (map g xs) = Inr (map h xs)"
  by (induction xs arbitrary: n) simp_all

text \<open>What \<open>json.dumps\<close> and \<open>json.loads\<close> promise for the values of a file: no line break inside the
  text, and reading a line gives back the value.\<close>

definition round_trips :: "(json \<Rightarrow> string) \<Rightarrow> (string \<Rightarrow> json option) \<Rightarrow> json list \<Rightarrow> bool" where
  "round_trips dumps loads js \<longleftrightarrow> list_all (\<lambda>j. newline \<notin> set (dumps j) \<and> loads (dumps j @ [newline]) = Some j) js"

lemma read_written_lines:
  assumes "fs p = Some (concat (map (\<lambda>d. dumps (JObj d) @ [newline]) ds))" "round_trips dumps loads (map JObj ds)"
  shows "read_evidence_ndjson loads fs p = Inr ds"
proof -
  have n: "list_all (\<lambda>d. newline \<notin> set (dumps (JObj d))) ds" and
    l: "list_all (\<lambda>d. loads (dumps (JObj d) @ [newline]) = Some (JObj d)) ds"
    using assms(2) by (simp_all add: round_trips_def list_all_iff)
  have o: "objects (map JObj ds) = Inr ds" by (induction ds) (simp_all add: objects_def)
  show ?thesis
    by (simp add: read_evidence_ndjson_def open_text_def assms(1) text_lines_concat [OF n] read_lines_map [where g = "\<lambda>d. dumps (JObj d) @ [newline]" and h = JObj, OF l] o)
qed

section \<open>A reading on both hosts\<close>

definition stored_fields :: "received_message \<Rightarrow> evidence" where
  "stored_fields rc = (case record_json rc of JObj d \<Rightarrow> d | _ \<Rightarrow> [])"

definition wrapper_fields :: "collected_record \<Rightarrow> evidence" where
  "wrapper_fields x = (case collected_json x of JObj d \<Rightarrow> d | _ \<Rightarrow> [])"

definition identity_of :: "received_message \<Rightarrow> reading_id" where
  "identity_of rc = (msg_node_id (rm_message rc), msg_sequence (rm_message rc), received_monotonic_ns rc)"

lemma record_json_fields: "record_json rc = JObj (stored_fields rc)"
  by (cases "rm_message rc") (simp_all add: record_json_def stored_fields_def)

lemma collected_json_fields: "collected_json x = JObj (wrapper_fields x)"
  by (simp add: collected_json_def wrapper_fields_def)

lemma stored_key:
  assumes "rm_message rc = Reading r" "\<forall>s. str (JStr s) = s"
  shows "reading_key str (stored_fields rc) = Inr (identity_of rc)"
  using assms(2)
  by (simp add: stored_fields_def record_json_def assms(1) reading_fields_def base_fields_def reading_key_def field_def
      int_field_def identity_of_def base_sensor_message.defs)

lemma stored_comparable:
  assumes "rm_message rc = Reading r" "valid_reading r"
  shows "comparable (JObj (stored_fields rc))"
proof -
  have "f \<noteq> NaN" if "is_finite f" for f using that by (auto simp: is_finite_iff)
  then show ?thesis
    using assms(2)
    by (simp add: stored_fields_def record_json_def assms(1) reading_fields_def base_fields_def valid_reading_def
        temperature_ok_def humidity_ok_def pressure_ok_def)
qed

text \<open>What the collector's copy gains from the gateway is what the gateway itself had stored.\<close>

lemma enriched_is_stored:
  assumes "rm_message rc = Reading r" "raw_record rc now = Inr u"
  shows "enriched_reading (raw_fields u) = Inr (stored_fields rc)"
proof -
  have u: "u = \<lparr>ru_record_id = raw_record_id r (received_monotonic_ns rc), ru_forwarded_at_ms = now,
      gateway_received_at_ms = received_at_ms rc, gateway_received_monotonic_ns = received_monotonic_ns rc,
      sensor_wire_bytes = wire_bytes rc, ru_sequence_status = rm_sequence_status rc, ru_reading = r\<rparr>"
    using assms by (auto simp: raw_record_def RawUpstreamRecord_def split: if_splits)
  show ?thesis
    by (simp add: u enriched_reading_def obj_field_def field_def raw_fields_def stored_fields_def record_json_def assms(1)
        reading_fields_def base_fields_def)
qed

lemma index_stored:
  assumes "list_all forwardable rcs" "\<forall>s. str (JStr s) = s" "distinct (map fst seen @ map identity_of rcs)"
  shows "index_readings str seen (map stored_fields rcs) = Inr (seen @ map (\<lambda>rc. (identity_of rc, stored_fields rc)) rcs)"
  using assms(1,3)
proof (induction rcs arbitrary: seen)
  case (Cons rc rcs)
  obtain r where "rm_message rc = Reading r" using Cons.prems(1) by (auto simp: forwardable_def)
  note k = stored_key [OF this assms(2)]
  have "index_readings str (seen @ [(identity_of rc, stored_fields rc)]) (map stored_fields rcs) =
      Inr ((seen @ [(identity_of rc, stored_fields rc)]) @ map (\<lambda>rc. (identity_of rc, stored_fields rc)) rcs)"
    using Cons.prems by (intro Cons.IH) auto
  moreover have "identity_of rc \<notin> fst ` set seen" using Cons.prems(2) by auto
  ultimately show ?case by (simp add: k)
qed simp

lemma raw_record_injective:
  assumes "received_ok rc" "rm_message rc = Reading r" "received_ok rc'" "rm_message rc' = Reading r'"
    "raw_record_id r (received_monotonic_ns rc) = raw_record_id r' (received_monotonic_ns rc')"
  shows "node_id r = node_id r' \<and> sequence r = sequence r' \<and> received_monotonic_ns rc = received_monotonic_ns rc'"
proof -
  have "CHR '':'' \<notin> set (node_id r)" "CHR '':'' \<notin> set (node_id r')" "0 \<le> sequence r" "0 \<le> sequence r'"
    "0 \<le> received_monotonic_ns rc" "0 \<le> received_monotonic_ns rc'"
    using assms(1-4) by (auto simp: received_ok_def valid_reading_def valid_base_def dest: node_id_no_colon)
  then show ?thesis
    using assms(5) by (simp add: raw_record_id_def append_sep_inject colon_notin_str_of_int str_of_int_inj)
qed

definition raw_id_of :: "received_message \<Rightarrow> string" where
  "raw_id_of rc = (case rm_message rc of Reading r \<Rightarrow> raw_record_id r (received_monotonic_ns rc) | _ \<Rightarrow> [])"

lemma raw_id_of_inj:
  assumes "forwardable rc" "forwardable rc'" "raw_id_of rc = raw_id_of rc'"
  shows "identity_of rc = identity_of rc'"
proof -
  obtain r r' where r: "rm_message rc = Reading r" "rm_message rc' = Reading r'"
    using assms(1,2) by (auto simp: forwardable_def)
  show ?thesis
    using raw_record_injective [OF _ r(1) _ r(2)] assms r by (simp add: raw_id_of_def identity_of_def forwardable_def)
qed

text \<open>A collected record that carries a stored reading.\<close>

definition collected_from :: "collected_record \<Rightarrow> received_message \<Rightarrow> bool" where
  "collected_from x rc \<longleftrightarrow> (\<exists>now u. raw_record rc now = Inr u \<and> co_record x = RawRecord u)"

lemma match_collected:
  assumes "list_all forwardable rcs" "distinct (map identity_of rcs)" "\<forall>s. str (JStr s) = s"
    "list_all2 collected_from xs ys" "set ys \<subseteq> set rcs" "distinct (map identity_of ys)" "\<forall>rc \<in> set ys. raw_id_of rc \<notin> set ids"
  shows "match_records str (map (\<lambda>rc. (identity_of rc, stored_fields rc)) rcs) ids (map wrapper_fields xs) = Inr (map identity_of ys)"
  using assms(4-7)
proof (induction xs ys arbitrary: ids rule: list_all2_induct)
  case (Cons x xs rc ys)
  let ?pis = "map (\<lambda>rc. (identity_of rc, stored_fields rc)) rcs"
  have rc: "rc \<in> set rcs" "forwardable rc" using Cons.prems(1) assms(1) by (auto simp: list_all_iff)
  then obtain r where r: "rm_message rc = Reading r" "valid_reading r" by (auto simp: forwardable_def received_ok_def)
  obtain now u where u: "raw_record rc now = Inr u" "co_record x = RawRecord u" using Cons.hyps(1) by (auto simp: collected_from_def)
  have id: "ru_record_id u = raw_id_of rc"
    using u(1) by (auto simp: raw_record_def RawUpstreamRecord_def raw_id_of_def r(1) split: if_splits)
  have w: "sub_object (wrapper_fields x) ''record'' = Inr (raw_fields u)"
    by (simp add: sub_object_def wrapper_fields_def collected_json_def u(2))
  have f: "get_value (raw_fields u) ''type'' = JStr ''raw''" "field (raw_fields u) ''record_id'' = Inr (JStr (raw_id_of rc))"
    by (simp_all add: raw_fields_def get_value_def field_def id)
  have m: "map_of ?pis (identity_of rc) = Some (stored_fields rc)"
    using rc(1) assms(2) by (intro map_of_is_SomeI) (auto simp: comp_def)
  have "\<forall>rc' \<in> set ys. raw_id_of rc' \<noteq> raw_id_of rc"
  proof
    fix rc' assume "rc' \<in> set ys"
    then have "forwardable rc'" "identity_of rc' \<noteq> identity_of rc"
      using Cons.prems(1,2) assms(1) by (auto simp: list_all_iff image_iff)
    then show "raw_id_of rc' \<noteq> raw_id_of rc" using raw_id_of_inj rc(2) by blast
  qed
  then have rest: "match_records str ?pis (raw_id_of rc # ids) (map wrapper_fields xs) = Inr (map identity_of ys)"
    using Cons.prems by (intro Cons.IH) auto
  have e: "py_eq (JObj (stored_fields rc)) (JObj (stored_fields rc))"
    by (rule py_eq_refl [OF stored_comparable [OF r]])
  show ?case
    using Cons.prems(3) rest
    by (simp add: w f assms(3) enriched_is_stored [OF r(1) u(1)] stored_key [OF r(1) assms(3)] m e)
qed simp

section \<open>The run is accepted\<close>

lemma collected_reordered:
  assumes "list_all2 (carries dj) rcs sent"
    "mset (map (\<lambda>x. (co_record x, co_wire_bytes x)) xs) = mset (map (\<lambda>p. (fst p, int (length (snd p)))) sent)"
  shows "\<exists>ys. list_all2 collected_from xs ys \<and> mset ys = mset rcs"
proof -
  let ?f = "\<lambda>p. (fst p, int (length (snd p)))" and ?g = "\<lambda>x. (co_record x, co_wire_bytes x)"
  let ?R = "\<lambda>q rc. \<exists>now u. raw_record rc now = Inr u \<and> fst q = RawRecord u"
  have "list_all2 ?R (map ?f sent) rcs"
    using assms(1) by (induction rule: list_all2_induct) (auto simp: carries_def)
  then obtain ys where "list_all2 ?R (map ?g xs) ys" "mset ys = mset rcs"
    using list_all2_reorder_left_invariance [OF _ assms(2)] by blast
  then show ?thesis by (intro exI [of _ ys]) (simp add: list_all2_map1 collected_from_def [abs_def])
qed

text \<open>C38: A physical RAW run that lost nothing passes the validation of the exploratory analysis: when the
  gateway's file holds its accepted readings, the forwarder sent one record for each, and the collector's file
  holds each sent record once, in any order, with its size, then both files read back and the evidence is accepted
  against the gateway's and the collector's own summaries.\<close>

theorem physical_run_accepted:
  assumes readings: "list_all forwardable rcs" "distinct (map identity_of rcs)"
    and sent: "list_all2 (carries dj) rcs sent"
    and collected: "mset (map (\<lambda>x. (co_record x, co_wire_bytes x)) xs) = mset (map (\<lambda>p. (fst p, int (length (snd p)))) sent)"
    and stored: "fs pi_file = Some (text_of dumps rcs)" "fs mac_file = Some (concat (map (evidence_line dumps) xs))"
    and json: "round_trips dumps loads (map record_json rcs)" "round_trips dumps loads (map collected_json xs)" "\<forall>s. str (JStr s) = s"
    and gateway: "valid_messages (gw_stats (gp_server p)) = int (length rcs)"
      "gp_store p = Some st" "records_written (st_stats st) = int (length rcs)"
      "gp_forwarder p = Some f" "upstream_messages (fw_stats f) = int (length sent)"
      "upstream_bytes (fw_stats f) = (\<Sum>q\<leftarrow>sent. int (length (snd q)))"
    and collector: "cs_messages_received s = int (length xs)" "cs_bytes_received s = (\<Sum>x\<leftarrow>xs. co_wire_bytes x)"
  shows "\<exists>pis macs. read_evidence_ndjson loads fs pi_file = Inr pis \<and> read_evidence_ndjson loads fs mac_file = Inr macs \<and>
    validate_evidence str pis macs (gateway_summary registry p) (collector_stats_json s) = Inr ()"
proof -
  have pis: "read_evidence_ndjson loads fs pi_file = Inr (map stored_fields rcs)"
    using stored(1) json(1) by (intro read_written_lines [where dumps = dumps]) (simp_all add: text_of_def line_of_def [abs_def] record_json_fields [abs_def] comp_def)
  have macs: "read_evidence_ndjson loads fs mac_file = Inr (map wrapper_fields xs)"
    using stored(2) json(2) by (intro read_written_lines [where dumps = dumps]) (simp_all add: evidence_line_def [abs_def] collected_json_fields [abs_def] comp_def)
  obtain ys where ys: "list_all2 collected_from xs ys" "mset ys = mset rcs" using collected_reordered [OF sent collected] by blast
  have n: "length xs = length rcs" "length sent = length rcs"
    using list_all2_lengthD [OF ys(1)] mset_eq_length [OF ys(2)] list_all2_lengthD [OF sent] by simp_all
  have "mset (map identity_of ys) = mset (map identity_of rcs)" using ys(2) by simp
  then have d: "distinct (map identity_of ys)" "set ys = set rcs"
    using readings(2) ys(2) by (metis distinct_count_atmost_1 set_mset_mset)+
  have m: "match_records str (map (\<lambda>rc. (identity_of rc, stored_fields rc)) rcs) [] (map wrapper_fields xs) = Inr (map identity_of ys)"
    using match_collected [OF readings json(3) ys(1)] d by simp
  have i: "index_readings str [] (map stored_fields rcs) = Inr (map (\<lambda>rc. (identity_of rc, stored_fields rc)) rcs)"
    using index_stored [of rcs str "[]"] readings json(3) by simp
  have b: "map_result (\<lambda>w. int_field w ''upstream_wire_bytes'') (map wrapper_fields xs) = Inr (map co_wire_bytes xs)"
    by (induction xs) (simp_all add: wrapper_fields_def collected_json_def int_field_def field_def)
  have "image_mset snd (mset (map (\<lambda>x. (co_record x, co_wire_bytes x)) xs)) = image_mset snd (mset (map (\<lambda>p. (fst p, int (length (snd p)))) sent))"
    using collected by simp
  then have "mset (map co_wire_bytes xs) = mset (map (\<lambda>q. int (length (snd q))) sent)"
    by (simp add: image_mset.compositionality comp_def)
  then have w: "(\<Sum>x\<leftarrow>xs. co_wire_bytes x) = (\<Sum>q\<leftarrow>sent. int (length (snd q)))"
    by (metis sum_mset_sum_list)
  have g: "int_at (gateway_summary registry p) [''gateway'', ''valid_messages''] = Inr (int (length rcs))"
    "int_at (gateway_summary registry p) [''storage'', ''records_written''] = Inr (int (length rcs))"
    "int_at (gateway_summary registry p) [''upstream'', ''upstream_messages''] = Inr (int (length rcs))"
    "int_at (gateway_summary registry p) [''upstream'', ''upstream_bytes''] = Inr (\<Sum>q\<leftarrow>sent. int (length (snd q)))"
    using gateway n(2)
    by (simp_all add: int_at_def gateway_summary_def obj_field_def field_def gateway_stats_json_def storage_stats_json_def
        upstream_stats_json_def opt_json_def)
  have c: "int_field (collector_stats_json s) ''messages_received'' = Inr (int (length rcs))"
    "int_field (collector_stats_json s) ''bytes_received'' = Inr (\<Sum>q\<leftarrow>sent. int (length (snd q)))"
    using collector n(1) w by (simp_all add: collector_stats_json_def int_field_def field_def)
  have "fst ` set (map (\<lambda>rc. (identity_of rc, stored_fields rc)) rcs) = set (map identity_of ys)" using d(2) by force
  then have "validate_evidence str (map stored_fields rcs) (map wrapper_fields xs) (gateway_summary registry p) (collector_stats_json s) = Inr ()"
    using n(1) by (simp add: validate_evidence_def evidence_counts_def g c i m b w)
  then show ?thesis using pis macs by blast
qed

definition example_reading :: received_message where
  "example_reading = sample_received 0 5"

definition example_record :: raw_upstream_record where
  "example_record = \<lparr>ru_record_id = raw_record_id (sample_reading ''n1'' 0) 5, ru_forwarded_at_ms = 2,
     gateway_received_at_ms = received_at_ms example_reading, gateway_received_monotonic_ns = 5,
     sensor_wire_bytes = wire_bytes example_reading, ru_sequence_status = rm_sequence_status example_reading,
     ru_reading = sample_reading ''n1'' 0\<rparr>"

definition example_collected :: collected_record where
  "example_collected = \<lparr>co_record = RawRecord example_record, co_received_at_ms = 3, co_received_monotonic_ns = 4, co_wire_bytes = 2\<rparr>"

definition example_process :: gateway_process where
  "example_process = \<lparr>gp_recorder = None, gp_metrics = None, gp_store = Some (sample_store\<lparr>st_stats := (st_stats sample_store)\<lparr>records_written := 1\<rparr>\<rparr>),
     gp_forwarder = Some ((sample_forwarder RAW)\<lparr>fw_stats := zero_stats\<lparr>upstream_messages := 1, upstream_bytes := 2\<rparr>\<rparr>),
     gp_server = sample_gateway\<lparr>gw_stats := zero_gateway_stats\<lparr>valid_messages := 1\<rparr>\<rparr>\<rparr>"

text \<open>JSON texts for the two values of the example.\<close>

definition two_dumps :: "json \<Rightarrow> string" where
  "two_dumps j = (if j = record_json example_reading then ''a'' else ''b'')"

definition two_loads :: "string \<Rightarrow> json option" where
  "two_loads l = (if l = ''a'' @ [newline] then Some (record_json example_reading)
     else if l = ''b'' @ [newline] then Some (collected_json example_collected) else None)"

lemma physical_raw_record: "raw_record example_reading 2 = Inr example_record"
  using forwardable_record [OF sample_forwardable, of 2]
  by (auto simp: raw_record_def RawUpstreamRecord_def example_reading_def example_record_def sample_received_def split: if_splits)

lemma physical_values_differ: "record_json example_reading \<noteq> collected_json example_collected"
  by (simp add: record_json_def example_reading_def sample_received_def collected_json_def reading_fields_def base_fields_def)

theorem physical_run_accepted_witness:
  "\<exists>pis macs. read_evidence_ndjson two_loads [''pi'' \<mapsto> ''a'' @ [newline], ''mac'' \<mapsto> ''b'' @ [newline]] ''pi'' = Inr pis \<and>
    read_evidence_ndjson two_loads [''pi'' \<mapsto> ''a'' @ [newline], ''mac'' \<mapsto> ''b'' @ [newline]] ''mac'' = Inr macs \<and>
    validate_evidence plain_str pis macs (gateway_summary JNull example_process)
      (collector_stats_json ((co_stats sample_collector)\<lparr>cs_messages_received := 1, cs_bytes_received := 2\<rparr>)) = Inr ()"
proof (rule physical_run_accepted [where rcs = "[example_reading]" and dj = "\<lambda>j. ''x''" and dumps = two_dumps and
      sent = "[(RawRecord example_record, encode_upstream_record (\<lambda>j. ''x'') (RawRecord example_record))]" and xs = "[example_collected]"
      and st = "sample_store\<lparr>st_stats := (st_stats sample_store)\<lparr>records_written := 1\<rparr>\<rparr>"
      and f = "(sample_forwarder RAW)\<lparr>fw_stats := zero_stats\<lparr>upstream_messages := 1, upstream_bytes := 2\<rparr>\<rparr>"])
  show "list_all forwardable [example_reading]" using sample_forwardable by (simp add: example_reading_def)
  show "list_all2 (carries (\<lambda>j. ''x'')) [example_reading] [(RawRecord example_record, encode_upstream_record (\<lambda>j. ''x'') (RawRecord example_record))]"
    using physical_raw_record by (auto simp: carries_def)
qed (use physical_values_differ in \<open>simp_all add: text_of_def line_of_def evidence_line_def two_dumps_def two_loads_def round_trips_def
      plain_str_def example_process_def example_collected_def encode_upstream_record_def newline_def sample_store_def
      sample_forwarder_def zero_stats_def\<close>)

end
