(* ===== verification/Spec2Isabelle.thy ===== *)
theory Spec2Isabelle
  imports Lifecycle Exploratory_Report Physical_Run
begin

text \<open>
  Verification of the hybrid edge wireless sensor network (\<^verbatim>\<open>src/\<close>): a gateway that receives
  NDJSON messages of sensor nodes over TCP, keeps their health, stores the raw evidence and forwards raw
  or aggregated records to a collector; virtual nodes and a simulator that load it; a runner that executes
  experiments as subprocesses; and the analysis of the evidence.

  The program and its theories, in the order of the imports:
  \<^item> \<open>Prelude\<close>: results (an error or a value), the exceptions of the code, dictionaries as
    association lists, bounded queues, folds over events, and the lemmas they share. \<open>Py_Float\<close>: IEEE
    binary64 with rounding to even, infinities and NaN, and Python's comparisons and conversions.
    \<open>Json\<close>: JSON values.
  \<^item> \<open>Protocol\<close> (\<^verbatim>\<open>gateway/protocol.py\<close>), \<open>Registry\<close> (\<^verbatim>\<open>gateway/registry.py\<close>), \<open>Aggregator\<close>
    (\<^verbatim>\<open>gateway/aggregator.py\<close>), \<open>Upstream_Protocol\<close> (\<^verbatim>\<open>gateway/upstream_protocol.py\<close>, record
    construction of \<^verbatim>\<open>gateway/upstream.py\<close>).
  \<^item> \<open>Framing\<close>: reading lines from a stream, as both servers do it. \<open>Sinks\<close>: exclusive creation and
    appending to files. \<open>Storage\<close> (\<^verbatim>\<open>gateway/storage.py\<close>), \<open>Events\<close> (\<^verbatim>\<open>gateway/events.py\<close>), \<open>Metrics\<close>
    (\<^verbatim>\<open>gateway/metrics.py\<close>), \<open>Forwarder\<close> (\<^verbatim>\<open>gateway/upstream.py\<close>), \<open>Gateway_Server\<close> and
    \<open>Gateway_Process\<close> (\<^verbatim>\<open>gateway/server.py\<close>), \<open>Collector\<close> (\<^verbatim>\<open>collector/server.py\<close>), \<open>Lifecycle\<close>
    (\<open>start\<close>, \<open>stop\<close> and \<open>bound_port\<close> of both servers).
  \<^item> \<open>Virtual_Node\<close> and \<open>Simulator\<close> (\<^verbatim>\<open>virtual_nodes/\<close>).
  \<^item> \<open>Experiment_Config\<close> (\<^verbatim>\<open>experiments/config.py\<close>, \<^verbatim>\<open>experiments/manifest.py\<close>), \<open>Runner\<close>
    (\<^verbatim>\<open>experiments/run.py\<close>), \<open>Final_Matrix\<close> (\<^verbatim>\<open>experiments/final_matrix.py\<close>).
  \<^item> \<open>Measures\<close>, \<open>Analyze\<close>, \<open>Comparison\<close> (\<^verbatim>\<open>analysis/analyze.py\<close>).
  \<^item> \<open>Campaign_Evidence\<close> (reading and checking the evidence of the final campaign), \<open>Campaign_Statistics\<close> (rows,
    statistics, the failure condition), \<open>Campaign_Tables\<close> (number formats, tables), \<open>Campaign_Analysis\<close> (report and
    orchestration), all of \<^verbatim>\<open>analysis/final_campaign.py\<close> with the files of \<^verbatim>\<open>analysis/final_campaign_plots.py\<close>.
  \<^item> \<open>Exploratory_Evidence\<close> (the frozen evidence of the physical run and its validation), \<open>Exploratory\<close> (cadence,
    phases, snapshots, onset, trends), \<open>Exploratory_Results\<close> (intervention, pressure, integrity, the analysis), all of
    \<^verbatim>\<open>analysis/exploratory_physical.py\<close> with the files of \<^verbatim>\<open>analysis/exploratory_plots.py\<close>.
  \<^item> \<open>Figures\<close>: the data of all figures (\<^verbatim>\<open>analysis/plots.py\<close>, \<^verbatim>\<open>analysis/final_campaign_plots.py\<close>,
    \<^verbatim>\<open>analysis/exploratory_plots.py\<close>). \<open>Exploratory_Report\<close>: the report of the exploratory analysis, byte for
    byte. \<open>Physical_Run\<close>: the evidence that gateway, forwarder and collector write, read back by that analysis.

  How the code is modelled. A class is a record of its fields, a method a function on it that returns the
  changed record; an exception is \<open>Inl\<close> of a result. A coroutine is cut at its awaits: every piece between
  two of them is one function, and a run is a fold of a step function over any list of events, so that a
  statement about all event lists is a statement about all interleavings of producers, workers, clients
  and shutdown. Files are a map from paths to texts, directories a list of paths. Machine floats are
  \<open>pyfloat\<close>, with every rounding written out; Python integers are \<open>int\<close>. Clocks, sockets, exit codes, the
  random noise and the sine are arguments or events. The text syntax of JSON and of floats (the standard
  library's \<open>json\<close> and \<open>repr\<close>), pydantic's reading of a literal and pandas are parameters, with what is
  used of them as named hypotheses (that printed JSON reads back, that a printed float reads back).

  What is proved. The protocols accept exactly their schema and round-trip. The registry counts exactly and
  settles health by its thresholds under every interleaving. Framing does not depend on chunking. Storage,
  events, forwarder and collector conserve what they accept, in order and with exact counters, and stop.
  Aggregation refines a partition into windows and its means stay in the protocol's ranges. Virtual nodes
  only send valid readings, and their counters balance. The runner cleans up on every path; an accepted
  configuration starts all its children. The analysis loads exactly the successful runs, its measures are
  consistent, its percentile is the nearest rank, it never changes a file, and a run that it admits has
  lost nothing between the gateway and the collector (the last theorems of this theory). The campaign analysis
  accepts exactly the planned matrix, bins its failure timeline exactly although in floats, notices every change
  of the evidence and makes none itself. The exploratory analysis accepts only evidence in which gateway and
  collector hold the same readings, and its onset is the first sustained response. Where the code
  does less than it means to, a theorem says so: a NaN interval, very long sequence numbers, readings of
  an open window at a timed-out shutdown, measurements between two and three minutes, a collector that cannot be
  stopped while a client stays connected, and two reports whose integrity paragraphs are fixed prose.

  Locales. \<open>machine\<close> (\<open>Prelude\<close>) is a transition system with an invariant, interpreted by the step functions
  of the components; \<open>accounting\<close> extends it by a counter, interpreted by the registry; \<open>rounding\<close>
  (\<open>Py_Float\<close>) is a monotone rounding, interpreted by binary64; \<open>sink\<close> (\<open>Sinks\<close>) is an append-only output fed
  by a worker, interpreted by the raw store and the CSV writers; \<open>stoppable\<close> (\<open>Lifecycle\<close>) extends \<open>machine\<close>
  by connections that end with their handlers, interpreted by the gateway and the collector; it fixes what
  \<open>Server.wait_closed\<close> waits for as documented since Python 3.12, the oldest version the README allows. Bounds and fuel: loops
  that wait for the environment (ports, retries) are folds over its answers, and their ends are theorems; the only
  fuel is the search for the decimal exponent in \<open>general\<close>, 400 steps, where the smallest double needs 324.
  Not modelled: argument parsing of the front ends beyond what is named above, signal handling and log
  texts, the rendering of the plots (colours, axes and fonts are matplotlib's), some fixed descriptive sentences
  among the results of the exploratory summary, the firmware (C++ on vendor libraries).
\<close>

section \<open>An admitted run lost nothing\<close>

text \<open>The two summaries that the admission reads are those of the gateway process and of the collector.\<close>

definition summaries_of :: "json \<Rightarrow> gateway_process \<Rightarrow> collector_server \<Rightarrow> loaded_run \<Rightarrow> bool" where
  "summaries_of registry p c L \<longleftrightarrow> lr_gateway_summary L = gateway_summary registry p \<and>
     map_of (lr_run_summary L) ''collector'' = Some (JObj (collector_stats_json (co_stats c)))"

lemma am_passed_iff: "am_passed a \<longleftrightarrow> list_all snd (am_checks a)"
  by (auto simp: am_passed_def am_failed_def filter_empty_conv list_all_iff)

text \<open>What the checks say of the counters of the components.\<close>

lemma admission_counters:
  assumes "summaries_of registry p c L" "gp_store p = Some st" "gp_forwarder p = Some f"
    "scientific_admission dirty L m = Inr a" "am_passed a"
  shows "queue_full_drops (fw_stats f) = 0 \<and> records_abandoned_on_shutdown (fw_stats f) = 0 \<and>
    records_enqueued (st_stats st) = records_written (st_stats st) \<and>
    upstream_messages (fw_stats f) = cs_messages_received (co_stats c) \<and>
    upstream_bytes (fw_stats f) = cs_bytes_received (co_stats c) \<and> cs_invalid_messages (co_stats c) = 0 \<and>
    malformed_json (gw_stats (gp_server p)) = 0 \<and> schema_rejections (gw_stats (gp_server p)) = 0 \<and>
    rejected_readings (gw_stats (gp_server p)) = 0"
proof -
  obtain r where r: "gp_recorder p = Some r"
    using assms by (cases "gp_recorder p")
      (auto simp: scientific_admission_def summaries_of_def gateway_summary_def sub_object_def opt_json_def rbind_eq_Inr_iff
        gateway_stats_json_def upstream_stats_json_def storage_stats_json_def)
  show ?thesis
    using assms(1,4,5) unfolding am_passed_iff
    by (auto simp: scientific_admission_def summaries_of_def gateway_summary_def sub_object_def opt_json_def collector_of_def
        gateway_stats_json_def upstream_stats_json_def storage_stats_json_def writer_stats_json_def collector_stats_json_def
        invalid_counters_def counter_def assms(2,3) r Let_def)
qed

lemma raw_run_returned:
  assumes "UpstreamForwarder RAW window q ri rm t cb = Inr f0" "fw_start f0 = Inr f1" "fw_task (foldl (fw_step dj) f1 es) = Returned"
  shows "fw_phase (foldl (fw_step dj) f1 es) = Waiting"
proof -
  have "raw_inv dj (foldl (fw_step dj) f1 es, gather (fw_step dj) fw_accepts f1 es)"
    using fwd.run_inv [OF started_raw [OF assms(1,2)], of es dj] by (simp add: foldl_fw_trace list_all_iff)
  then show ?thesis using assms(3) by (auto elim!: raw_invE simp: rest_ok_def)
qed


definition small_run_store :: store_state where
  "small_run_store = foldl (store_step (\<lambda>_. ''x'')) sample_store_running [SSubmit (sample_received 0 5), STake, SWritten]"

definition small_run_forwarder :: upstream_forwarder where
  "small_run_forwarder = foldl (fw_step (\<lambda>_. ''x'')) sample_running
     [FTry 1 (sample_received 0 5), FGet 2, FConnected 2, FDrained, FStop, FGet 3]"

definition small_run_collector :: collector_state where
  "small_run_collector = foldl (co_step (\<lambda>_. Some (upstream_dump sample_upstream)) (\<lambda>_. True) (\<lambda>_. ''x''))
     (sample_collector, [''up.ndjson'' \<mapsto> []]) [CoAccept 1, CoFrame 1 (FLine (''x'' @ [newline])) 2 3]"

definition small_run_health_writer :: "health_event csv_writer" where
  "small_run_health_writer = \<lparr>cw_path = ''h.csv'', fieldnames = health_fields, row_factory = health_row, cw_batch_size = 100, enqueued = 0,
     written = 0, cw_queue_full_drops = 0, cw_queue = new_queue 1, cw_handle = False, cw_task = NoTask, cw_inflight = None\<rparr>"

definition small_run_process :: gateway_process where
  "small_run_process = \<lparr>gp_recorder = Some \<lparr>gateway_writer = sample_writer, health_writer = small_run_health_writer\<rparr>,
     gp_metrics = None, gp_store = Some (fst small_run_store), gp_forwarder = Some small_run_forwarder, gp_server = sample_gateway\<rparr>"

lemma small_run_counts:
  "fw_task small_run_forwarder = Returned"
  "list_all store_event_ok [SSubmit (sample_received 0 5), STake, SWritten]"
  using sample_received_event_ok by (code_simp, simp add: store_event_ok_def)

definition small_run_loaded :: loaded_run where
  "small_run_loaded = sample_loaded\<lparr>lr_gateway_summary := gateway_summary JNull small_run_process,
     lr_run_summary := [(''status'', JStr ''success''), (''collector'', JObj (collector_stats_json (co_stats (fst small_run_collector))))]\<rparr>"

lemma small_run_admitted:
  assumes "an_delivery_invalid_reasons m = []"
  shows "\<exists>a. scientific_admission False small_run_loaded m = Inr a \<and> am_passed a"
proof -
  have u: "upstream_stats_json (fw_stats small_run_forwarder) = JObj
     [(''readings_enqueued'', JInt 1), (''upstream_messages'', JInt 1), (''upstream_bytes'', JInt 2), (''connection_attempts'', JInt 1),
      (''connection_failures'', JInt 0), (''send_failures'', JInt 0), (''records_abandoned_on_shutdown'', JInt 0), (''queue_full_drops'', JInt 0)]"
    "storage_stats_json (st_stats (fst small_run_store)) = JObj
     [(''records_enqueued'', JInt 1), (''records_written'', JInt 1), (''bytes_written'', JInt 2)]"
    "collector_stats_json (co_stats (fst small_run_collector)) =
     [(''connections_accepted'', JInt 1), (''active_connections'', JInt 1), (''messages_received'', JInt 1), (''bytes_received'', JInt 2),
      (''invalid_messages'', JInt 0), (''overlong_messages'', JInt 0), (''truncated_messages'', JInt 0)]"
    by code_simp+
  have d: "\<not> truthy_field (lr_manifest sample_loaded) ''git_dirty''" by code_simp
  show ?thesis using assms u d
    by (simp add: scientific_admission_def small_run_loaded_def gateway_summary_def sub_object_def opt_json_def collector_of_def
        gateway_stats_json_def writer_stats_json_def invalid_counters_def counter_def Let_def small_run_process_def sample_gateway_def
        zero_gateway_stats_def invalid_messages_def sample_writer_def small_run_health_writer_def am_passed_iff)
qed


section \<open>Only successful runs are analysed\<close>

text \<open>The files that the children leave can be read: the simulator's summary has the measurement interval,
  the five evidence files exist, and the lines of the two logs and the gateway's summary are JSON objects.\<close>

definition evidence_readable :: "readers \<Rightarrow> files \<Rightarrow> string \<Rightarrow> bool" where
  "evidence_readable rd fs dir \<longleftrightarrow>
     (\<exists>d. read_object rd fs dir ''simulator_summary.json'' = Inr d \<and> map_of d ''measurement_start_ms'' \<noteq> None \<and> map_of d ''measurement_end_ms'' \<noteq> None) \<and>
     list_all (\<lambda>n. fs (slash dir n) \<noteq> None) required_files \<and>
     is_ok (read_ndjson rd (file_text fs dir ''readings.ndjson'')) \<and> is_ok (read_ndjson rd (file_text fs dir ''upstream.ndjson'')) \<and>
     is_ok (read_json_optional rd fs (slash dir ''gateway_summary.json''))"

lemma load_run_with_evidence:
  assumes "evidence_readable rd fs dir" "read_object rd fs dir ''manifest.json'' = Inr M" "read_object rd fs dir ''run_summary.json'' = Inr S"
    "check_manifest M = Inr ()"
  shows "is_ok (load_run rd fs dir) \<longleftrightarrow> check_summary M S = Inr ()"
    "load_run rd fs dir = Inr L \<Longrightarrow> lr_manifest L = M \<and> lr_run_summary L = S"
proof -
  obtain d where d: "read_object rd fs dir ''simulator_summary.json'' = Inr d" "map_of d ''measurement_start_ms'' \<noteq> None"
    "map_of d ''measurement_end_ms'' \<noteq> None" using assms(1) by (auto simp: evidence_readable_def)
  have f: "\<not> list_ex (\<lambda>n. fs (slash dir n) = None) required_files"
    using assms(1) by (simp add: evidence_readable_def list_all_iff list_ex_iff)
  show "is_ok (load_run rd fs dir) \<longleftrightarrow> check_summary M S = Inr ()"
    using assms d f by (auto simp: load_run_def evidence_readable_def is_ok_iff rbind_eq_Inr_iff)
  show "load_run rd fs dir = Inr L \<Longrightarrow> lr_manifest L = M \<and> lr_run_summary L = S"
    using assms d f by (auto simp: load_run_def rbind_eq_Inr_iff)
qed

lemma build_manifest_checks: "check_manifest (build_manifest h c run_name) = Inr ()"
proof -
  have "map_of (build_manifest h c run_name) ''aggregation_mode'' = Some (JStr (aggregation_mode_str (cf_aggregation_mode c)))"
    by (rule build_manifest_config) (simp add: config_dump_def)
  moreover have "list_all (\<lambda>k. map_of (build_manifest h c run_name) k \<noteq> None) required_manifest_fields"
    by (simp add: required_manifest_fields_def build_manifest_def config_dump_def)
  then have "\<not> list_ex (\<lambda>k. map_of (build_manifest h c run_name) k = None) required_manifest_fields" by (simp add: list_all_iff list_ex_iff)
  moreover have "map_of (build_manifest h c run_name) ''manifest_schema_version'' = Some (JInt 1)" by (simp add: build_manifest_def)
  ultimately show ?thesis
    by (cases "cf_aggregation_mode c") (simp_all add: check_manifest_def json_is_def in_strings_def)
qed

lemma config_comparable:
  assumes "NaN \<notin> set (config_floats c)" "(k, v) \<in> set (config_dump c)"
  shows "comparable v"
proof -
  have "list_all (\<lambda>p. comparable (snd p)) (config_dump c)"
    using assms(1)
    by (cases "cf_failure_at_seconds c"; cases "cf_recovery_at_seconds c"; cases "cf_campaign_id c"; cases "cf_condition_id c")
      (auto simp: config_dump_def config_floats_def optional_def)
  then show ?thesis using assms(2) by (auto simp: list_all_iff)
qed

lemma build_summary_checks:
  assumes "NaN \<notin> set (config_floats c)"
    "r = Inr () \<longrightarrow> map (\<lambda>c. (ch_name c, ch_returncode c)) cs = map (\<lambda>n. (n, Some 0)) roles"
  shows "check_summary (build_manifest h c (ra_run_id a)) (build_summary describe loads a c r env cs fs) = Inr () \<longleftrightarrow> r = Inr ()"
proof -
  let ?M = "build_manifest h c (ra_run_id a)"
  have id: "map_of ?M ''run_id'' = Some (JStr (ra_run_id a))" by (simp add: build_manifest_def)
  have cfg: "check_config ?M (Some (JObj (config_dump c))) = Inr ()"
    using build_manifest_config [of _ _ c h "ra_run_id a"] config_comparable [OF assms(1)]
    by (auto simp: check_config_def list_ex_iff json_is_def py_eq_refl)
  show ?thesis
  proof (cases r)
    case (Inr u)
    have "map (\<lambda>ch. (ch_name ch, optional JInt (ch_returncode ch))) cs = map (\<lambda>n. (n, JInt 0)) roles"
      using assms(2) Inr by (auto simp: roles_def optional_def)
    then have "check_children (Some (JObj (map (\<lambda>ch. (ch_name ch, optional JInt (ch_returncode ch))) cs))) = Inr ()"
      by (simp add: check_children_def roles_def required_children_def)
    then show ?thesis using Inr id cfg
      by (simp add: check_summary_def build_summary_def json_is_def same_value_def in_strings_def run_status_def)
  next
    case (Inl e)
    then show ?thesis using id
      by (cases e) (simp_all add: check_summary_def build_summary_def json_is_def same_value_def in_strings_def run_status_def)
  qed
qed

lemma run_once_artifacts:
  assumes "run_once describe loads dumps base env c (fs, dirs) = Some R" "rr_artifacts R = Some a"
  shows "a = artifacts_in base (re_run_id env)" "\<And>x. rr_outcome R = Inr x \<Longrightarrow> x = a"
  using assms
  by (auto simp: run_once_def Let_def refuse_def run_in_def create_artifacts_def split: if_splits option.splits sum.splits prod.splits)

definition written_manifest :: "runner_env \<Rightarrow> run_result \<Rightarrow> run_artifacts \<Rightarrow> evidence" where
  "written_manifest env R a = build_manifest (re_host env) (rr_config R) (ra_run_id a)"

definition written_summary :: "(py_error \<Rightarrow> string) \<Rightarrow> (string \<Rightarrow> json) \<Rightarrow> runner_env \<Rightarrow> run_result \<Rightarrow> run_artifacts \<Rightarrow> files \<Rightarrow> evidence" where
  "written_summary describe loads env R a fs =
     build_summary describe loads a (rr_config R) (map_sum id (\<lambda>_. ()) (rr_outcome R)) (re_outcomes env) (rr_children R) fs"

text \<open>C29: The analysis reads exactly the runs that succeeded. Let the runner have written its manifest and its
  summary (JSON that reads back as it was written), whatever happened to the run, and let the files of the
  children be readable. Then the run directory loads if and only if the run succeeded, that is if all three
  children exited with status zero; what is loaded carries the configuration that was run.\<close>

theorem only_successful_runs_load:
  assumes "run_once describe loads dumps base env c (fs, dirs) = Some R" "\<forall>d x. d \<notin> set dirs \<longrightarrow> fs (slash d x) = None"
    "fst ` set (re_evidence env) \<subseteq> set (child_outputs (artifacts_in base (re_run_id env)))" "rr_artifacts R = Some a"
    "rd_loads rd (dumps (JObj (written_manifest env R a)) @ [newline]) = Some (JObj (written_manifest env R a))"
    "\<forall>fs2. (\<forall>q \<in> set (child_outputs a). fs2 q = map_of (re_evidence env) q) \<longrightarrow>
       rd_loads rd (dumps (JObj (written_summary describe loads env R a fs2)) @ [newline]) = Some (JObj (written_summary describe loads env R a fs2))"
    "evidence_readable rd (rr_files R) (ra_run_dir a)" "NaN \<notin> set (config_floats (rr_config R))"
  shows "(is_ok (load_run rd (rr_files R) (ra_run_dir a)) \<longleftrightarrow> rr_outcome R = Inr a) \<and>
    (\<forall>L. load_run rd (rr_files R) (ra_run_dir a) = Inr L \<longrightarrow> lr_manifest L = written_manifest env R a)"
proof -
  note ok = conjunct1 [OF run_once_run_ok [OF assms(1-3)], unfolded run_ok_def]
  note art = run_once_artifacts [OF assms(1,4)]
  have paths: "ra_manifest a = slash (ra_run_dir a) ''manifest.json''" "ra_run_summary a = slash (ra_run_dir a) ''run_summary.json''"
    by (simp_all add: art(1) artifacts_in_def Let_def)
  obtain fs2 where f: "rr_files R (ra_manifest a) = Some (dumps (JObj (written_manifest env R a)) @ [newline])"
    "rr_files R (ra_run_summary a) = Some (dumps (JObj (written_summary describe loads env R a fs2)) @ [newline])"
    "\<forall>q \<in> set (child_outputs a). fs2 q = map_of (re_evidence env) q"
    using ok assms(4) unfolding written_manifest_def written_summary_def by blast
  have s: "rd_loads rd (dumps (JObj (written_summary describe loads env R a fs2)) @ [newline]) = Some (JObj (written_summary describe loads env R a fs2))"
    using assms(6) f(3) by blast
  have rM: "read_object rd (rr_files R) (ra_run_dir a) ''manifest.json'' = Inr (written_manifest env R a)"
    using f(1) assms(5) by (simp add: read_object_def loads_object_def paths)
  have rS: "read_object rd (rr_files R) (ra_run_dir a) ''run_summary.json'' = Inr (written_summary describe loads env R a fs2)"
    using f(2) s by (simp add: read_object_def loads_object_def paths)
  have "check_summary (written_manifest env R a) (written_summary describe loads env R a fs2) = Inr () \<longleftrightarrow>
      map_sum id (\<lambda>_. ()) (rr_outcome R) = Inr ()"
    unfolding written_manifest_def written_summary_def
  proof (rule build_summary_checks [OF assms(8)], rule impI)
    assume "map_sum id (\<lambda>_. ()) (rr_outcome R) = Inr ()"
    then obtain x where "rr_outcome R = Inr x" by (cases "rr_outcome R") auto
    then show "map (\<lambda>c. (ch_name c, ch_returncode c)) (rr_children R) = map (\<lambda>n. (n, Some 0)) roles" using ok by blast
  qed
  moreover have "map_sum id (\<lambda>_. ()) (rr_outcome R) = Inr () \<longleftrightarrow> rr_outcome R = Inr a"
    using art(2) by (cases "rr_outcome R") auto
  ultimately show ?thesis
    using load_run_with_evidence [OF assms(7) rM rS] build_manifest_checks [folded written_manifest_def] written_manifest_def
    by (metis build_manifest_checks)
qed

text \<open>A run whose children leave a simulator summary and empty logs; its two JSON texts are told apart by
  their first key.\<close>

definition small_env :: runner_env where
  "small_env = sample_env\<lparr>re_evidence := [(''raw/r1/simulator_summary.json'', ''S''), (''raw/r1/readings.ndjson'', []),
     (''raw/r1/upstream.ndjson'', []), (''raw/r1/node_stats.csv'', []), (''raw/r1/system_metrics.csv'', []), (''raw/r1/health_events.csv'', [])]\<rparr>"

fun small_dumps :: "json \<Rightarrow> string" where
  "small_dumps (JObj ((k, v) # fs)) = (if k = ''manifest_schema_version'' then ''M'' else ''R'')"
| "small_dumps _ = ''?''"

definition small_readers :: "run_result \<Rightarrow> run_artifacts \<Rightarrow> readers" where
  "small_readers R a = sample_readers\<lparr>rd_loads := (\<lambda>t.
     if t = ''M'' @ [newline] then Some (JObj (written_manifest small_env R a))
     else if t = ''R'' @ [newline] then Some (JObj (written_summary (\<lambda>_. ''error'') (\<lambda>_. JNull) small_env R a (map_of (re_evidence small_env))))
     else if t = ''S'' then Some (JObj [(''measurement_start_ms'', JInt 0), (''measurement_end_ms'', JInt 9)]) else None)\<rparr>"

lemma written_summary_cong:
  "(\<forall>q \<in> set (child_outputs a). fs1 q = fs2 q) \<Longrightarrow> written_summary describe loads env R a fs1 = written_summary describe loads env R a fs2"
  by (simp add: written_summary_def build_summary_def read_json_if_present_def child_outputs_def)

theorem only_successful_runs_load_witness:
  "\<exists>R a. run_once (\<lambda>_. ''error'') (\<lambda>_. JNull) small_dumps ''raw'' small_env sample_experiment (Map.empty, []) = Some R \<and>
     rr_artifacts R = Some a \<and> evidence_readable (small_readers R a) (rr_files R) (ra_run_dir a) \<and>
     (is_ok (load_run (small_readers R a) (rr_files R) (ra_run_dir a)) \<longleftrightarrow> rr_outcome R = Inr a)"
proof -
  let ?run = "run_once (\<lambda>_. ''error'') (\<lambda>_. JNull) small_dumps ''raw'' small_env sample_experiment (Map.empty, [])"
  let ?a = "artifacts_in ''raw'' ''r1''"
  obtain R where R: "?run = Some R" "R = run_in (\<lambda>_. ''error'') (\<lambda>_. JNull) small_dumps small_env
      (sample_experiment\<lparr>cf_gateway_port := 9001, cf_collector_port := 9002\<rparr>) ?a Map.empty"
    by (simp add: run_once_def sample_experiment_def default_config_def small_env_def sample_env_def choose_ports_def port_or_free_def
        create_artifacts_def Let_def)
  have a: "rr_artifacts R = Some ?a" and c: "rr_config R = sample_experiment\<lparr>cf_gateway_port := 9001, cf_collector_port := 9002\<rparr>"
    unfolding R(2) by (auto simp: run_in_def write_json_exclusive_def create_exclusive_def Let_def split: prod.splits)
  have d: "\<forall>d x. d \<notin> set [] \<longrightarrow> Map.empty (slash d x) = None" by simp
  have e: "fst ` set (re_evidence small_env) \<subseteq> set (child_outputs (artifacts_in ''raw'' (re_run_id small_env)))"
    by (simp add: small_env_def sample_env_def child_outputs_def artifacts_in_def Let_def slash_def)
  have files: "\<forall>q \<in> set (child_outputs ?a). rr_files R q = map_of (re_evidence small_env) q"
    using conjunct1 [OF run_once_run_ok [OF R(1) d e], unfolded run_ok_def] a by auto
  have out: "list_all (\<lambda>n. rr_files R (slash (ra_run_dir ?a) n) = Some []) required_files"
    "rr_files R (slash (ra_run_dir ?a) ''simulator_summary.json'') = Some ''S''" "rr_files R (slash (ra_run_dir ?a) ''gateway_summary.json'') = None"
    using files by (simp_all add: child_outputs_def artifacts_in_def Let_def slash_def required_files_def small_env_def)
  have ev: "evidence_readable (small_readers R ?a) (rr_files R) (ra_run_dir ?a)"
    using out by (simp add: evidence_readable_def read_object_def loads_object_def read_json_optional_def file_text_def read_ndjson_def
        small_readers_def required_files_def)
  have m: "rd_loads (small_readers R ?a) (small_dumps (JObj (written_manifest small_env R ?a)) @ [newline]) = Some (JObj (written_manifest small_env R ?a))"
    by (simp add: small_readers_def written_manifest_def build_manifest_def)
  have t: "small_dumps (JObj (written_summary describe loads env R ?a fs2)) = ''R''" for describe loads env fs2
    by (simp add: written_summary_def build_summary_def)
  have s: "\<forall>fs2. (\<forall>q \<in> set (child_outputs ?a). fs2 q = map_of (re_evidence small_env) q) \<longrightarrow>
      rd_loads (small_readers R ?a) (small_dumps (JObj (written_summary (\<lambda>_. ''error'') (\<lambda>_. JNull) small_env R ?a fs2)) @ [newline]) =
      Some (JObj (written_summary (\<lambda>_. ''error'') (\<lambda>_. JNull) small_env R ?a fs2))"
  proof (intro allI impI)
    fix fs2
    assume "\<forall>q \<in> set (child_outputs ?a). fs2 q = map_of (re_evidence small_env) q"
    then have w: "written_summary (\<lambda>_. ''error'') (\<lambda>_. JNull) small_env R ?a fs2 =
        written_summary (\<lambda>_. ''error'') (\<lambda>_. JNull) small_env R ?a (map_of (re_evidence small_env))"
      by (rule written_summary_cong)
    show "rd_loads (small_readers R ?a) (small_dumps (JObj (written_summary (\<lambda>_. ''error'') (\<lambda>_. JNull) small_env R ?a fs2)) @ [newline]) =
        Some (JObj (written_summary (\<lambda>_. ''error'') (\<lambda>_. JNull) small_env R ?a fs2))"
      unfolding t w by (simp add: small_readers_def)
  qed
  have n: "NaN \<notin> set (config_floats (rr_config R))" by (simp add: c config_floats_def sample_experiment_def default_config_def)
  show ?thesis using R(1) a ev only_successful_runs_load [OF R(1) d e a m s ev n] by blast
qed

end
